(* ===== verification/Prelude.thy ===== *)
theory Prelude
  imports Main "HOL-Library.AList" "HOL-Library.Product_Lexorder" "HOL-Library.Multiset"
begin

text \<open>
  What the component theories share: the string and array operations of the language's standard
  library that the sources call (\<open>trim\<close>, \<open>split\<close>, \<open>join\<close>, \<open>indexOf\<close>, \<open>includes\<close>,
  \<open>startsWith\<close>, \<open>new Set\<close>), decimal numerals, and the generic lemmas about them.

  Strings are lists.  Most components use \<^typ>\<open>string\<close>, i.e. code units below 256; the
  components whose behaviour depends on a code unit above that (the full-width comma of the status
  code rules, the mask of the flow graph) use lists of code units as natural numbers.  The operations below are therefore
  polymorphic in the code unit, and the white-space predicate is a parameter of the trim.
\<close>

named_theorems js_str \<open>rewrites for the string operations\<close>
named_theorems js_list \<open>rewrites for arrays, sets and insertion-ordered maps\<close>

subsection \<open>Strings\<close>

definition trim_by :: "('a \<Rightarrow> bool) \<Rightarrow> 'a list \<Rightarrow> 'a list" where
  "trim_by ws s = rev (dropWhile ws (rev (dropWhile ws s)))"

type_synonym units = "nat list"

definition code_units :: "string \<Rightarrow> units" where
  "code_units s = map of_char s"

text \<open>White space and line terminators of the language, below code unit 256.\<close>

definition is_ws :: "char \<Rightarrow> bool" where
  "is_ws c \<longleftrightarrow> c \<in> set [CHR 0x09, CHR 0x0A, CHR 0x0B, CHR 0x0C, CHR 0x0D, CHR 0x20, CHR 0xA0]"

definition trim :: "string \<Rightarrow> string" where
  "trim = trim_by is_ws"

definition startsWith :: "'a list \<Rightarrow> 'a list \<Rightarrow> bool" where
  "startsWith s p \<longleftrightarrow> take (length p) s = p"

definition endsWith :: "'a list \<Rightarrow> 'a list \<Rightarrow> bool" where
  "endsWith s p \<longleftrightarrow> startsWith (rev s) (rev p)"

text \<open>\<open>find_at\<close> is the position of the first occurrence of a needle in a suffix; \<open>indexOf\<close>
  searches from a position of the whole string and answers a position of the whole string.\<close>

fun find_at :: "'a list \<Rightarrow> 'a list \<Rightarrow> nat option" where
  "find_at p [] = (if p = [] then Some 0 else None)"
| "find_at p (x # xs) = (if startsWith (x # xs) p then Some 0 else map_option Suc (find_at p xs))"

definition indexOf :: "'a list \<Rightarrow> 'a list \<Rightarrow> nat \<Rightarrow> nat option" where
  "indexOf s p from = map_option (\<lambda>i. i + from) (find_at p (drop from s))"

definition js_includes :: "'a list \<Rightarrow> 'a list \<Rightarrow> bool" where
  "js_includes s p \<longleftrightarrow> find_at p s \<noteq> None"

definition slice :: "'a list \<Rightarrow> nat \<Rightarrow> nat \<Rightarrow> 'a list" where
  "slice s i j = take (j - i) (drop i s)"

fun split_on :: "'a \<Rightarrow> 'a list \<Rightarrow> 'a list list" where
  "split_on c [] = [[]]"
| "split_on c (x # xs) =
     (if x = c then [] # split_on c xs
      else (case split_on c xs of [] \<Rightarrow> [[x]] | y # ys \<Rightarrow> (x # y) # ys))"

fun join :: "'a list \<Rightarrow> 'a list list \<Rightarrow> 'a list" where
  "join sep [] = []"
| "join sep [x] = x"
| "join sep (x # y # ys) = x @ sep @ join sep (y # ys)"

text \<open>\<open>Array.from(new Set(xs))\<close>: the first occurrence of every element, in order.\<close>

definition nub :: "'a list \<Rightarrow> 'a list" where
  "nub xs = rev (remdups (rev xs))"

text \<open>\<open>Array.prototype.sort\<close> with a comparator: a stable sort.\<close>

primrec insert_by :: "('a \<Rightarrow> 'a \<Rightarrow> 'n::linordered_idom) \<Rightarrow> 'a \<Rightarrow> 'a list \<Rightarrow> 'a list" where
  "insert_by cmp x [] = [x]"
| "insert_by cmp x (y # ys) = (if cmp x y \<le> 0 then x # y # ys else y # insert_by cmp x ys)"

definition js_sort :: "('a \<Rightarrow> 'a \<Rightarrow> 'n::linordered_idom) \<Rightarrow> 'a list \<Rightarrow> 'a list" where
  "js_sort cmp xs = foldr (insert_by cmp) xs []"

text \<open>A property that may be absent (\<open>undefined\<close>), present and \<open>null\<close>, or present with a value.  Where a
  source type has no \<open>null\<close> the model uses \<^typ>\<open>'a option\<close> with \<open>None\<close> for \<open>undefined\<close>.\<close>

datatype 'a nullish = Undefined | Null | Value 'a

datatype js_error = TypeError | SyntaxError

text \<open>The falsy-string default \<open>s || d\<close>.\<close>

definition str_or :: "string \<Rightarrow> string \<Rightarrow> string" where
  "str_or s d = (if s = [] then d else s)"

definition opt_or :: "'a option \<Rightarrow> 'a \<Rightarrow> 'a" where
  "opt_or x d = (case x of None \<Rightarrow> d | Some v \<Rightarrow> v)"

text \<open>\<open>Math.ceil(a / b)\<close> on integers.\<close>

definition ceil_div :: "int \<Rightarrow> int \<Rightarrow> int" where
  "ceil_div a b = - ((- a) div b)"

subsection \<open>Decimal numerals\<close>

fun decimal_digits :: "nat \<Rightarrow> nat list" where
  "decimal_digits n = (if n div 10 = 0 then [] else decimal_digits (n div 10)) @ [n mod 10]"

declare decimal_digits.simps [simp del]

definition numeral_value :: "nat list \<Rightarrow> nat" where
  "numeral_value ds = foldl (\<lambda>a d. 10 * a + d) 0 ds"

subsection \<open>Lemmas on strings\<close>

lemma trim_by_Nil [simp]: "trim_by ws [] = []"
  by (simp add: trim_by_def)

lemma trim_by_id: "(s \<noteq> [] \<Longrightarrow> \<not> ws (hd s) \<and> \<not> ws (last s)) \<Longrightarrow> trim_by ws s = s"
proof (cases s rule: rev_cases)
  case (snoc ys y)
  assume h: "s \<noteq> [] \<Longrightarrow> \<not> ws (hd s) \<and> \<not> ws (last s)"
  have "dropWhile ws s = s" using h snoc by (metis dropWhile_eq_self_iff)
  then show ?thesis using h snoc by (simp add: trim_by_def)
qed simp

lemma trim_by_no_ws: "(\<And>c. c \<in> set s \<Longrightarrow> \<not> ws c) \<Longrightarrow> trim_by ws s = s"
  by (rule trim_by_id) auto

lemma set_trim_by: "set (trim_by ws s) \<subseteq> set s"
proof -
  have "set (dropWhile ws (rev (dropWhile ws s))) \<subseteq> set s"
    using set_dropWhileD by (metis set_rev subsetI)
  then show ?thesis by (simp add: trim_by_def)
qed

lemma trim_by_ends:
  assumes "trim_by ws s \<noteq> []"
  shows "\<not> ws (hd (trim_by ws s)) \<and> \<not> ws (last (trim_by ws s))"
proof -
  define t where "t = dropWhile ws s"
  have ne: "dropWhile ws (rev t) \<noteq> []" using assms by (simp add: trim_by_def t_def)
  have "last (trim_by ws s) = hd (dropWhile ws (rev t))"
    using ne by (simp add: trim_by_def t_def last_rev)
  then have l: "\<not> ws (last (trim_by ws s))" using ne hd_dropWhile by metis
  obtain u where u: "rev t = u @ dropWhile ws (rev t)"
    using takeWhile_dropWhile_id by metis
  have t: "t = rev (dropWhile ws (rev t)) @ rev u" using arg_cong [OF u, of rev] by simp
  have "hd t = hd (rev (dropWhile ws (rev t)))"
    using ne t by (metis hd_append2 rev_is_Nil_conv)
  moreover have "t \<noteq> []" using t ne by auto
  ultimately have "\<not> ws (hd (rev (dropWhile ws (rev t))))"
    using hd_dropWhile [of ws s] by (simp add: t_def)
  then show ?thesis using l by (simp add: trim_by_def t_def)
qed

lemma trim_by_idem [simp]: "trim_by ws (trim_by ws s) = trim_by ws s"
  by (rule trim_by_id) (use trim_by_ends in blast)

lemma trim_idem [simp]: "trim (trim s) = trim s"
  by (simp add: trim_def)

lemma startsWith_iff [js_str]: "startsWith s p \<longleftrightarrow> (\<exists>t. s = p @ t)"
  by (auto simp: startsWith_def) (metis append_take_drop_id)

lemma startsWith_trans: "\<lbrakk>startsWith a b; startsWith b c\<rbrakk> \<Longrightarrow> startsWith a c"
  by (auto simp: startsWith_iff)

lemma startsWith_append [simp]: "startsWith (p @ t) p"
  by (simp add: startsWith_def)

lemma find_at_Some: "find_at p s = Some i \<Longrightarrow> i \<le> length s \<and> (\<exists>t. drop i s = p @ t)"
proof (induction p s arbitrary: i rule: find_at.induct)
  case (1 p)
  then show ?case by (auto split: if_splits)
next
  case (2 p x xs)
  show ?case
  proof (cases "startsWith (x # xs) p")
    case True
    then show ?thesis using "2.prems" by (auto simp: startsWith_iff)
  next
    case False
    then obtain j where "find_at p xs = Some j" "i = Suc j" using "2.prems" by auto
    then show ?thesis using "2.IH" [OF False] by auto
  qed
qed

lemma find_at_split:
  assumes "find_at p s = Some i"
  shows "s = take i s @ p @ drop (i + length p) s"
proof -
  obtain t where t: "drop i s = p @ t" using find_at_Some [OF assms] by blast
  then have "drop (i + length p) s = t" by (metis add.commute append_eq_conv_conj drop_drop)
  then show ?thesis using t by (metis append_take_drop_id)
qed

lemma find_at_bound:
  assumes "find_at p s = Some i"
  shows "i + length p \<le> length s"
proof -
  obtain t where "drop i s = p @ t" and "i \<le> length s" using find_at_Some [OF assms] by blast
  then have "length s - i = length p + length t" by (metis length_append length_drop)
  then show ?thesis using \<open>i \<le> length s\<close> by simp
qed

lemma indexOf_Some:
  assumes "indexOf s p from = Some i" and "p \<noteq> []"
  shows "from \<le> i" and "i + length p \<le> length s" and "from < length s"
proof -
  obtain j where j: "find_at p (drop from s) = Some j" and i: "i = j + from"
    using assms(1) by (auto simp: indexOf_def)
  then show "from \<le> i" by simp
  show lt: "from < length s"
  proof (rule ccontr)
    assume "\<not> from < length s"
    then show False using j assms(2) by simp
  qed
  show "i + length p \<le> length s" using find_at_bound [OF j] i lt by simp
qed

lemma find_at_before: "find_at p s = Some i \<Longrightarrow> p \<noteq> [] \<Longrightarrow> find_at p (take i s) = None"
proof (induction p s arbitrary: i rule: find_at.induct)
  case (1 p)
  then show ?case by (auto split: if_splits)
next
  case (2 p x xs)
  show ?case
  proof (cases "startsWith (x # xs) p")
    case True
    then show ?thesis using "2.prems" by auto
  next
    case False
    then obtain j where j: "find_at p xs = Some j" "i = Suc j" using "2.prems" by auto
    have "\<not> startsWith (x # take j xs) p"
    proof
      assume "startsWith (x # take j xs) p"
      then obtain t where "x # take j xs = p @ t" by (auto simp: startsWith_iff)
      then have "x # xs = p @ t @ drop j xs" by (metis append_Cons append_assoc append_take_drop_id)
      then show False using False by (auto simp: startsWith_iff)
    qed
    then show ?thesis using j "2.IH" [OF False j(1) "2.prems"(2)] by simp
  qed
qed

text \<open>A needle whose first unit does not occur again in it cannot straddle: where it does not occur
  in a prefix, its first occurrence in the concatenation is right after that prefix.\<close>

lemma find_at_append:
  assumes "find_at p v = None" and "p = a # q" and "a \<notin> set q"
  shows "find_at p (v @ p @ t) = Some (length v)"
  using assms(1)
proof (induction v)
  case Nil
  then show ?case using assms(2) by (simp add: startsWith_def)
next
  case (Cons x v)
  have no: "\<not> startsWith (x # v) p" and rest: "find_at p v = None"
    using Cons.prems by (auto split: if_splits)
  have "\<not> startsWith (x # v @ p @ t) p"
  proof
    assume "startsWith (x # v @ p @ t) p"
    then have tk: "take (length p) (x # v @ p @ t) = p" by (simp add: startsWith_def)
    show False
    proof (cases "length p \<le> length (x # v)")
      case True
      then have "take (length p) (x # v @ p @ t) = take (length p) (x # v)"
        by (metis append_Cons take_append diff_is_0_eq take0 append_Nil2)
      then show False using tk no by (simp add: startsWith_def)
    next
      case False
      then have "length (x # v) < length p" by simp
      then have "p ! length (x # v) = (x # v @ p @ t) ! length (x # v)"
        using tk by (metis nth_take)
      also have "\<dots> = a" using assms(2) by (simp add: nth_append)
      finally have "q ! length v = a" using assms(2) by simp
      moreover have "length v < length q" using False assms(2) by simp
      ultimately show False using assms(3) nth_mem by metis
    qed
  qed
  then show ?case using Cons.IH [OF rest] by simp
qed

lemma js_includes_append_mid [simp]: "js_includes (u @ p @ t) p"
proof (induction u)
  case Nil
  have "startsWith (p @ t) p" by simp
  then show ?case by (cases "p @ t") (auto simp: js_includes_def)
next
  case (Cons x u)
  then show ?case by (auto simp: js_includes_def)
qed

lemma split_on_not_Nil [simp]: "split_on c s \<noteq> []"
  by (induction c s rule: split_on.induct) (auto split: list.splits)

lemma join_split_on [js_str]: "join [c] (split_on c s) = s"
proof (induction c s rule: split_on.induct)
  case (1 c)
  then show ?case by simp
next
  case (2 c x xs)
  obtain y ys where y: "split_on c xs = y # ys" by (cases "split_on c xs") auto
  show ?case using 2 y by (cases ys) auto
qed

lemma split_on_no_sep: "c \<notin> set s \<Longrightarrow> split_on c s = [s]"
  by (induction c s rule: split_on.induct) auto

lemma split_on_append_sep: "c \<notin> set s \<Longrightarrow> split_on c (s @ c # t) = s # split_on c t"
  by (induction s) auto

lemma split_on_join [js_str]:
  "xs \<noteq> [] \<Longrightarrow> (\<And>x. x \<in> set xs \<Longrightarrow> c \<notin> set x) \<Longrightarrow> split_on c (join [c] xs) = xs"
proof (induction "[c]" xs rule: join.induct)
  case (3 x y ys)
  then show ?case by (simp add: split_on_append_sep)
qed (auto simp: split_on_no_sep)

lemma split_on_parts: "x \<in> set (split_on c s) \<Longrightarrow> c \<notin> set x \<and> set x \<subseteq> set s"
proof (induction c s arbitrary: x rule: split_on.induct)
  case (1 c)
  then show ?case by simp
next
  case (2 c a s)
  obtain y ys where y: "split_on c s = y # ys" by (cases "split_on c s") auto
  show ?case
  proof (cases "a = c")
    case True
    then have "x = [] \<or> x \<in> set (split_on c s)" using "2.prems" by simp
    then show ?thesis using "2.IH"(1) [OF True] by auto
  next
    case False
    then have "x = a # y \<or> x \<in> set ys" using "2.prems" y by simp
    moreover have parts: "c \<notin> set z \<and> set z \<subseteq> set s" if "z \<in> set (y # ys)" for z
      using "2.IH"(2) [OF False, of z] that y by simp
    have "c \<notin> set (a # y) \<and> set (a # y) \<subseteq> set (a # s)"
      using parts [of y] False by auto
    moreover have "c \<notin> set x \<and> set x \<subseteq> set (a # s)" if "x \<in> set ys"
      using parts [of x] that by auto
    ultimately show ?thesis by blast
  qed
qed

lemma nub_set [simp, js_list]: "set (nub xs) = set xs"
  by (simp add: nub_def)

lemma nub_distinct [simp, js_list]: "distinct (nub xs)"
  by (simp add: nub_def)

lemma nub_id [js_list]: "distinct xs \<Longrightarrow> nub xs = xs"
  by (simp add: nub_def distinct_remdups_id)

lemma mset_js_sort [simp, js_list]: "mset (js_sort cmp xs) = mset xs"
proof -
  have "mset (insert_by cmp x ys) = add_mset x (mset ys)" for x ys by (induction ys) auto
  then show ?thesis by (induction xs) (simp_all add: js_sort_def)
qed

lemma set_js_sort [simp, js_list]: "set (js_sort cmp xs) = set xs"
  by (metis mset_js_sort set_mset_mset)

lemma length_js_sort [simp, js_list]: "length (js_sort cmp xs) = length xs"
  by (metis mset_js_sort size_mset)

lemma distinct_js_sort [simp, js_list]: "distinct (js_sort cmp xs) = distinct xs"
  by (metis mset_js_sort mset_eq_imp_distinct_iff)

lemma sum_js_sort [js_list]: "sum_list (map f (js_sort cmp xs)) = sum_list (map f xs)" for f :: "'a \<Rightarrow> 'b::comm_monoid_add"
  by (metis mset_js_sort mset_map sum_mset_sum_list)

lemma nub_Nil [simp]: "nub [] = []"
  by (simp add: nub_def)

subsection \<open>Lemmas on numerals\<close>

lemma decimal_digits_small: "n < 10 \<Longrightarrow> decimal_digits n = [n]"
  and decimal_digits_large: "\<not> n < 10 \<Longrightarrow> decimal_digits n = decimal_digits (n div 10) @ [n mod 10]"
  by (simp_all add: decimal_digits.simps [of n] div_eq_0_iff)

lemma decimal_digits_not_Nil [simp]: "decimal_digits n \<noteq> []"
  by (simp add: decimal_digits.simps [of n])

lemma decimal_induct [case_names small large]:
  assumes "\<And>n. n < 10 \<Longrightarrow> P n" and "\<And>n. \<not> n < 10 \<Longrightarrow> P (n div 10) \<Longrightarrow> P n"
  shows "P (n :: nat)"
proof (induction n rule: less_induct)
  case (less n)
  then show ?case by (cases "n < 10") (simp_all add: assms)
qed

lemma decimal_digits_below: "d \<in> set (decimal_digits n) \<Longrightarrow> d < 10"
  by (induction n rule: decimal_induct) (auto simp: decimal_digits_small decimal_digits_large)

lemma numeral_value_snoc: "numeral_value (ds @ [d]) = 10 * numeral_value ds + d"
  by (simp add: numeral_value_def)

lemma numeral_value_decimal [simp]: "numeral_value (decimal_digits n) = n"
  by (induction n rule: decimal_induct)
    (simp_all add: decimal_digits_small decimal_digits_large numeral_value_snoc, simp add: numeral_value_def)

lemma map_update_same [simp]: "i < length xs \<Longrightarrow> f y = f (xs ! i) \<Longrightarrow> map f (xs[i := y]) = map f xs"
  by (auto intro!: nth_equalityI simp: nth_list_update)

subsection \<open>Sorting\<close>

text \<open>
  The contract of a comparator: it orders any two elements and is transitive.  Then sorting with it puts a least element
  first and sorts; if it also tells different elements apart, the result depends on the elements only.
\<close>

locale comparator =
  fixes cmp :: "'a \<Rightarrow> 'a \<Rightarrow> 'n::linordered_idom"
  assumes cmp_total: "cmp x y \<le> 0 \<or> cmp y x \<le> 0"
    and cmp_trans: "cmp x y \<le> 0 \<Longrightarrow> cmp y z \<le> 0 \<Longrightarrow> cmp x z \<le> 0"
begin

lemma sorted_insert: "sorted_wrt (\<lambda>x y. cmp x y \<le> 0) ys \<Longrightarrow> sorted_wrt (\<lambda>x y. cmp x y \<le> 0) (insert_by cmp x ys)"
proof (induction ys)
  case (Cons y ys)
  have s: "set (insert_by cmp x zs) = insert x (set zs)" for zs by (induction zs) auto
  show ?case
  proof (cases "cmp x y \<le> 0")
    case True
    then show ?thesis using Cons.prems cmp_trans [OF True] by auto
  next
    case False
    then have "cmp y x \<le> 0" using cmp_total by blast
    then show ?thesis using False Cons by (simp add: s)
  qed
qed simp

lemma sorted_js_sort: "sorted_wrt (\<lambda>x y. cmp x y \<le> 0) (js_sort cmp xs)"
  by (induction xs) (simp_all add: js_sort_def sorted_insert)

lemma least_first:
  assumes "js_sort cmp xs = x # ys"
  shows "x \<in> set xs" "y \<in> set xs \<Longrightarrow> cmp x y \<le> 0"
proof -
  have e: "set xs = insert x (set ys)" using assms set_js_sort [of cmp xs] by simp
  then show "x \<in> set xs" by simp
  have "cmp x x \<le> 0" using cmp_total [of x x] by blast
  then show "cmp x y \<le> 0" if "y \<in> set xs" using that e sorted_js_sort [of xs] assms by auto
qed

lemma sorted_unique:
  assumes "mset xs = mset ys" "sorted_wrt (\<lambda>x y. cmp x y \<le> 0) xs" "sorted_wrt (\<lambda>x y. cmp x y \<le> 0) ys"
    and "\<And>x y. x \<in> set xs \<Longrightarrow> y \<in> set xs \<Longrightarrow> cmp x y \<le> 0 \<Longrightarrow> cmp y x \<le> 0 \<Longrightarrow> x = y"
  shows "xs = ys"
  using assms
proof (induction xs arbitrary: ys)
  case (Cons x xs)
  then obtain y ys' where ys: "ys = y # ys'" by (cases ys) auto
  have m: "set (x # xs) = set ys" using Cons.prems(1) by (rule mset_eq_setD)
  have r: "cmp z z \<le> 0" for z using cmp_total [of z z] by blast
  have y: "y \<in> set (x # xs)" and x: "x \<in> set (y # ys')" using m ys by auto
  have "cmp x y \<le> 0" using Cons.prems(2) y r by auto
  moreover have "cmp y x \<le> 0" using Cons.prems(3) x r ys by auto
  moreover note y
  ultimately have e: "x = y" using Cons.prems(4) [of x y] by simp
  have "xs = ys'" using Cons.prems e ys by (intro Cons.IH) auto
  then show ?case by (simp add: ys e)
qed simp

lemma js_sort_canonical:
  assumes "mset xs = mset ys" and "\<And>x y. x \<in> set xs \<Longrightarrow> y \<in> set xs \<Longrightarrow> cmp x y \<le> 0 \<Longrightarrow> cmp y x \<le> 0 \<Longrightarrow> x = y"
  shows "js_sort cmp xs = js_sort cmp ys"
  using assms by (intro sorted_unique sorted_js_sort) auto

end

text \<open>The order of strings that \<open>sort\<close> uses without a comparator: by code units.\<close>

fun code_compare :: "string \<Rightarrow> string \<Rightarrow> int" where
  "code_compare [] [] = 0"
| "code_compare [] (y # ys) = - 1"
| "code_compare (x # xs) [] = 1"
| "code_compare (x # xs) (y # ys) =
     (if x = y then code_compare xs ys else if (of_char x :: nat) < of_char y then - 1 else 1)"

lemma code_compare_refl: "code_compare a a = 0"
  by (induction a) auto

lemma code_compare_antisym: "code_compare a b \<le> 0 \<Longrightarrow> code_compare b a \<le> 0 \<Longrightarrow> a = b"
  by (induction a b rule: code_compare.induct) (auto split: if_splits)

interpretation code_order: comparator code_compare
proof
  show "code_compare x y \<le> 0 \<or> code_compare y x \<le> 0" for x y
    by (induction x y rule: code_compare.induct) (auto simp: not_less)
  show "code_compare x z \<le> 0" if "code_compare x y \<le> 0" "code_compare y z \<le> 0" for x y z
    using that
  proof (induction x y arbitrary: z rule: code_compare.induct)
    case (1 z)
    then show ?case by (cases z) auto
  next
    case (2 y ys z)
    then show ?case by (cases z) auto
  next
    case (4 x xs y ys z)
    then show ?case by (cases z) (auto split: if_splits)
  qed simp
qed

text \<open>\<open>toLowerCase\<close> on code units below 256.\<close>

definition lower_char :: "char \<Rightarrow> char" where
  "lower_char c =
     (let n = of_char c :: nat in
      if 65 \<le> n \<and> n \<le> 90 \<or> 192 \<le> n \<and> n \<le> 222 \<and> n \<noteq> 215 then char_of (n + 32) else c)"

definition to_lower :: "string \<Rightarrow> string" where
  "to_lower s = map lower_char s"

end
