(* ===== verification/StatusCodes.thy ===== *)
theory StatusCodes
  imports Prelude
begin

text \<open>
  The HTTP status code rules of \<open>web/src/lib/http-status-code-rules.ts\<close>: a comma separated list of
  codes and code ranges is parsed, merged into disjoint ranges and printed in a normal form.
  Strings are lists of UTF-16 code units (natural numbers), because the parser treats the
  full-width comma U+FF0C as a separator.  Status codes are natural numbers: a token is only digits,
  and every value above 599 is refused, so rounding of huge numerals cannot be observed.
\<close>

record StatusCodeRange =
  range_start :: nat
  range_end :: nat

record ParsedHttpStatusCodeRules =
  ok :: bool
  ranges :: "StatusCodeRange list"
  tokens :: "units list"
  normalized :: units
  invalidTokens :: "units list"

subsection \<open>The parser\<close>

text \<open>White space and line terminators of the language: what \<open>trim\<close> drops and \<open>\\s\<close> matches.\<close>

definition unit_ws :: "nat \<Rightarrow> bool" where
  "unit_ws c \<longleftrightarrow> (9 \<le> c \<and> c \<le> 13) \<or> c = 32 \<or> c = 160 \<or> c = 5760 \<or> (8192 \<le> c \<and> c \<le> 8202)
     \<or> c = 8232 \<or> c = 8233 \<or> c = 8239 \<or> c = 8287 \<or> c = 12288 \<or> c = 65279"

definition COMMA :: nat where "COMMA = 44"
definition DASH :: nat where "DASH = 45"
definition FULLWIDTH_COMMA :: nat where "FULLWIDTH_COMMA = 65292"

definition is_digit :: "nat \<Rightarrow> bool" where
  "is_digit c \<longleftrightarrow> 48 \<le> c \<and> c \<le> 57"

definition isNumber :: "units \<Rightarrow> bool" where
  "isNumber s \<longleftrightarrow> s \<noteq> [] \<and> list_all is_digit s"

definition parseInt10 :: "units \<Rightarrow> nat" where
  "parseInt10 s = numeral_value (map (\<lambda>c. c - 48) s)"

definition isValidCode :: "nat \<Rightarrow> bool" where
  "isValidCode code \<longleftrightarrow> 100 \<le> code \<and> code \<le> 599"

definition parseToken :: "units \<Rightarrow> StatusCodeRange option" where
  "parseToken token =
     (let cleaned = filter (\<lambda>c. \<not> unit_ws c) (trim_by unit_ws token) in
      if cleaned = [] then None
      else if DASH \<in> set cleaned then
        (case split_on DASH cleaned of
           a # b # _ \<Rightarrow>
             if \<not> isNumber a \<or> \<not> isNumber b then None
             else let s = parseInt10 a; e = parseInt10 b in
               if \<not> isValidCode s \<or> \<not> isValidCode e \<or> s > e then None
               else Some \<lparr>range_start = s, range_end = e\<rparr>
         | _ \<Rightarrow> None)
      else if \<not> isNumber cleaned then None
      else let code = parseInt10 cleaned in
        if \<not> isValidCode code then None else Some \<lparr>range_start = code, range_end = code\<rparr>)"

definition range_key :: "StatusCodeRange \<Rightarrow> nat \<times> nat" where
  "range_key r = (range_start r, range_end r)"

definition merge_step :: "StatusCodeRange list \<Rightarrow> StatusCodeRange \<Rightarrow> StatusCodeRange list" where
  "merge_step merged current =
     (if merged = [] \<or> range_start current > range_end (last merged) + 1 then merged @ [current]
      else butlast merged @
        [(last merged)\<lparr>range_end := max (range_end (last merged)) (range_end current)\<rparr>])"

definition mergeRanges :: "StatusCodeRange list \<Rightarrow> StatusCodeRange list" where
  "mergeRanges rs = (if rs = [] then [] else foldl merge_step [] (sort_key range_key rs))"

definition number_units :: "nat \<Rightarrow> units" where
  "number_units n = map (\<lambda>d. d + 48) (decimal_digits n)"

definition range_token :: "StatusCodeRange \<Rightarrow> units" where
  "range_token r =
     (if range_start r = range_end r then number_units (range_start r)
      else number_units (range_start r) @ [DASH] @ number_units (range_end r))"

fun parse_segments ::
  "units list \<Rightarrow> StatusCodeRange list \<Rightarrow> units list \<Rightarrow> StatusCodeRange list \<times> units list" where
  "parse_segments [] rs bad = (rs, bad)"
| "parse_segments (seg # segs) rs bad =
     (case parseToken seg of
        None \<Rightarrow> parse_segments segs rs (bad @ [seg])
      | Some r \<Rightarrow> parse_segments segs (rs @ [r]) bad)"

definition rule_segments :: "units \<Rightarrow> units list" where
  "rule_segments raw =
     filter (\<lambda>s. s \<noteq> []) (map (trim_by unit_ws)
       (split_on COMMA (map (\<lambda>c. if c = FULLWIDTH_COMMA then COMMA else c) raw)))"

text \<open>A nullish input is \<open>None\<close>.\<close>

definition parseHttpStatusCodeRules :: "units option \<Rightarrow> ParsedHttpStatusCodeRules" where
  "parseHttpStatusCodeRules input =
     (let raw = trim_by unit_ws (case input of None \<Rightarrow> [] | Some s \<Rightarrow> s) in
      if raw = [] then
        \<lparr>ok = True, ranges = [], tokens = [], normalized = [], invalidTokens = []\<rparr>
      else
        (case parse_segments (rule_segments raw) [] [] of
          (rs, bad) \<Rightarrow>
            if bad \<noteq> [] then
              \<lparr>ok = False, ranges = [], tokens = [], normalized = raw, invalidTokens = bad\<rparr>
            else
              (let merged = mergeRanges rs; toks = map range_token merged in
               \<lparr>ok = True, ranges = merged, tokens = toks, normalized = join [COMMA] toks,
                 invalidTokens = []\<rparr>)))"

subsection \<open>What the ranges denote\<close>

definition in_range :: "nat \<Rightarrow> StatusCodeRange \<Rightarrow> bool" where
  "in_range c r \<longleftrightarrow> range_start r \<le> c \<and> c \<le> range_end r"

definition covers :: "StatusCodeRange list \<Rightarrow> nat \<Rightarrow> bool" where
  "covers rs c \<longleftrightarrow> list_ex (in_range c) rs"

text \<open>The normal form: non-empty ranges in increasing order with a gap between neighbours.\<close>

definition canonical :: "StatusCodeRange list \<Rightarrow> bool" where
  "canonical rs \<longleftrightarrow> list_all (\<lambda>r. range_start r \<le> range_end r) rs
     \<and> sorted_wrt (\<lambda>a b. range_end a + 1 < range_start b) rs"

definition valid_range :: "StatusCodeRange \<Rightarrow> bool" where
  "valid_range r \<longleftrightarrow> isValidCode (range_start r) \<and> isValidCode (range_end r)
     \<and> range_start r \<le> range_end r"

text \<open>What the input denotes: the codes of its tokens, read one by one.\<close>

definition input_segments :: "units option \<Rightarrow> units list" where
  "input_segments input = rule_segments (trim_by unit_ws (case input of None \<Rightarrow> [] | Some s \<Rightarrow> s))"

definition denotes :: "units option \<Rightarrow> nat \<Rightarrow> bool" where
  "denotes input c \<longleftrightarrow>
     list_ex (\<lambda>seg. case parseToken seg of None \<Rightarrow> False | Some r \<Rightarrow> in_range c r)
       (input_segments input)"

subsection \<open>Merging\<close>

lemma covers_simps [simp, js_list]:
  "covers [] c = False"
  "covers (r # rs) c \<longleftrightarrow> in_range c r \<or> covers rs c"
  "covers (rs @ ss) c \<longleftrightarrow> covers rs c \<or> covers ss c"
  by (auto simp: covers_def)

lemma covers_set: "covers rs c \<longleftrightarrow> (\<exists>r\<in>set rs. in_range c r)"
  by (auto simp: covers_def list_ex_iff)

lemma canonical_snoc:
  "canonical (rs @ [r]) \<longleftrightarrow>
     canonical rs \<and> range_start r \<le> range_end r \<and> (\<forall>x\<in>set rs. range_end x + 1 < range_start r)"
  by (auto simp: canonical_def sorted_wrt_append)

lemma canonical_Cons:
  "canonical (r # rs) \<longleftrightarrow>
     canonical rs \<and> range_start r \<le> range_end r \<and> (\<forall>x\<in>set rs. range_end r + 1 < range_start x)"
  by (auto simp: canonical_def)

lemma merge_step_inv:
  assumes can: "canonical merged" and ne: "range_start cur \<le> range_end cur"
    and le: "\<And>r. r \<in> set merged \<Longrightarrow> range_start r \<le> range_start cur"
  shows "canonical (merge_step merged cur)"
    and "covers (merge_step merged cur) c \<longleftrightarrow> covers merged c \<or> in_range c cur"
    and "r \<in> set (merge_step merged cur) \<Longrightarrow> range_start r \<le> range_start cur"
proof -
  have "canonical (merge_step merged cur)
    \<and> (covers (merge_step merged cur) c \<longleftrightarrow> covers merged c \<or> in_range c cur)
    \<and> (r \<in> set (merge_step merged cur) \<longrightarrow> range_start r \<le> range_start cur)"
  proof (cases merged rule: rev_cases)
    case Nil
    then show ?thesis using ne by (auto simp: merge_step_def canonical_def)
  next
    case (snoc ms l)
    have l: "range_start l \<le> range_start cur" using le snoc by simp
    have ms: "canonical ms" "range_start l \<le> range_end l"
      and gap: "\<And>x. x \<in> set ms \<Longrightarrow> range_end x + 1 < range_start l"
      using can snoc by (auto simp: canonical_snoc)
    show ?thesis
    proof (cases "range_start cur > range_end l + 1")
      case True
      have "range_end x + 1 < range_start cur" if "x \<in> set ms" for x
        using gap [OF that] l by linarith
      then have "canonical (merged @ [cur])"
        unfolding canonical_snoc using True snoc can ne by auto
      moreover have "merge_step merged cur = merged @ [cur]"
        using True snoc by (simp add: merge_step_def)
      ultimately show ?thesis using le by auto
    next
      case False
      then have cov: "in_range c (l\<lparr>range_end := max (range_end l) (range_end cur)\<rparr>)
          \<longleftrightarrow> in_range c l \<or> in_range c cur"
        using l ms(2) ne by (auto simp: in_range_def)
      have step: "merge_step merged cur
          = ms @ [l\<lparr>range_end := max (range_end l) (range_end cur)\<rparr>]"
        using False snoc by (simp add: merge_step_def)
      have "canonical (merge_step merged cur)"
        unfolding step using ms gap by (simp add: canonical_snoc)
      moreover have "r \<in> set (merge_step merged cur) \<longrightarrow> range_start r \<le> range_start cur"
        unfolding step using le snoc l by auto
      moreover have "covers (merge_step merged cur) c \<longleftrightarrow> covers merged c \<or> in_range c cur"
        unfolding step using cov snoc by auto
      ultimately show ?thesis by blast
    qed
  qed
  then show "canonical (merge_step merged cur)"
    and "covers (merge_step merged cur) c \<longleftrightarrow> covers merged c \<or> in_range c cur"
    and "r \<in> set (merge_step merged cur) \<Longrightarrow> range_start r \<le> range_start cur"
    by auto
qed

lemma foldl_merge_step:
  assumes "canonical merged" and "list_all (\<lambda>r. range_start r \<le> range_end r) rs"
    and "sorted (map range_start rs)"
    and "\<And>r x. r \<in> set merged \<Longrightarrow> x \<in> set rs \<Longrightarrow> range_start r \<le> range_start x"
  shows "canonical (foldl merge_step merged rs)
    \<and> (\<forall>c. covers (foldl merge_step merged rs) c \<longleftrightarrow> covers merged c \<or> covers rs c)"
  using assms
proof (induction rs arbitrary: merged)
  case Nil
  then show ?case by simp
next
  case (Cons x rs)
  have le: "\<And>r. r \<in> set merged \<Longrightarrow> range_start r \<le> range_start x" and ne: "range_start x \<le> range_end x"
    using Cons.prems by auto
  note step = merge_step_inv [OF Cons.prems(1) ne le]
  have "range_start r \<le> range_start y" if "r \<in> set (merge_step merged x)" "y \<in> set rs" for r y
    using step(3) [OF _ that(1)] that(2) Cons.prems(3) by fastforce
  then show ?case using Cons.IH [OF step(1)] Cons.prems step(2) by auto
qed

lemma sorted_start: "sorted (map range_start (sort_key range_key rs))"
proof -
  have "sorted (map range_key (sort_key range_key rs))" by simp
  then have "sorted (map fst (map range_key (sort_key range_key rs)))"
    by (simp add: sorted_map sorted_wrt_map) (erule sorted_wrt_mono_rel [rotated], auto simp: less_eq_prod_def)
  then show ?thesis by (simp add: range_key_def comp_def)
qed

lemma mergeRanges_spec:
  assumes "list_all (\<lambda>r. range_start r \<le> range_end r) rs"
  shows "canonical (mergeRanges rs)" and "covers (mergeRanges rs) c \<longleftrightarrow> covers rs c"
proof -
  have "list_all (\<lambda>r. range_start r \<le> range_end r) (sort_key range_key rs)"
    using assms by (simp add: list_all_iff)
  then have "canonical (foldl merge_step [] (sort_key range_key rs))
      \<and> (\<forall>c. covers (foldl merge_step [] (sort_key range_key rs)) c \<longleftrightarrow>
             covers (sort_key range_key rs) c)"
    using foldl_merge_step [of "[]" "sort_key range_key rs"] sorted_start
    by (simp add: canonical_def)
  then show "canonical (mergeRanges rs)" and "covers (mergeRanges rs) c \<longleftrightarrow> covers rs c"
    by (auto simp: mergeRanges_def canonical_def covers_set)
qed


subsection \<open>Normal forms are unique\<close>

lemma canonical_covers_ge:
  "canonical (r # rs) \<Longrightarrow> covers rs c \<Longrightarrow> range_end r + 1 < c"
  by (fastforce simp: canonical_Cons covers_set in_range_def)

lemma canonical_covers_first:
  "canonical (r # rs) \<Longrightarrow> covers (r # rs) c \<Longrightarrow> range_start r \<le> c"
  using canonical_covers_ge [of r rs c] by (auto simp: in_range_def canonical_Cons)

lemma canonical_first_le:
  assumes "canonical (x # xs)" and "canonical (y # ys)"
    and "\<And>c. covers (x # xs) c \<longleftrightarrow> covers (y # ys) c"
  shows "range_start y \<le> range_start x" and "range_start x = range_start y \<Longrightarrow> range_end x \<le> range_end y"
proof -
  have x: "range_start x \<le> range_end x" using assms(1) by (simp add: canonical_Cons)
  then have "covers (y # ys) (range_start x)" using assms(3) by (auto simp: in_range_def)
  then show "range_start y \<le> range_start x" by (rule canonical_covers_first [OF assms(2)])
  assume eq: "range_start x = range_start y"
  show "range_end x \<le> range_end y"
  proof (rule ccontr)
    assume "\<not> range_end x \<le> range_end y"
    then have "covers (x # xs) (range_end y + 1)" and "\<not> in_range (range_end y + 1) y"
      using assms(2) eq by (auto simp: in_range_def canonical_Cons)
    then have "covers ys (range_end y + 1)" using assms(3) by simp
    then show False using canonical_covers_ge [OF assms(2)] by blast
  qed
qed

lemma canonical_unique:
  assumes "canonical xs" and "canonical ys" and "\<And>c. covers xs c \<longleftrightarrow> covers ys c"
  shows "xs = ys"
  using assms
proof (induction xs arbitrary: ys)
  case Nil
  have "\<not> in_range (range_start y) y" if "y \<in> set ys" for y
    using Nil.prems(3) [of "range_start y"] that by (auto simp: covers_set)
  moreover have "in_range (range_start y) y" if "y \<in> set ys" for y
    using Nil.prems(2) that by (auto simp: canonical_def list_all_iff in_range_def)
  ultimately show ?case by (cases ys) auto
next
  case (Cons x xs)
  have cx: "covers (x # xs) (range_start x)" using Cons.prems(1) by (simp add: canonical_Cons in_range_def)
  then obtain y ys' where ys: "ys = y # ys'" using Cons.prems(3) by (cases ys) auto
  note c = Cons.prems(1) Cons.prems(2) [unfolded ys]
  have cov: "covers (x # xs) c \<longleftrightarrow> covers (y # ys') c" for c using Cons.prems(3) ys by simp
  have "range_start x = range_start y"
    using canonical_first_le(1) [OF c cov] canonical_first_le(1) [OF c(2,1)] cov by force
  moreover from this have "range_end x = range_end y"
    using canonical_first_le(2) [OF c cov] canonical_first_le(2) [OF c(2,1)] cov by force
  ultimately have xy: "x = y" by simp
  have "covers xs d \<longleftrightarrow> covers ys' d" for d
    using cov [of d] canonical_covers_ge [OF c(1), of d] canonical_covers_ge [OF c(2), of d] xy
    by (auto simp: in_range_def)
  then have "xs = ys'" using Cons.IH [of ys'] c by (auto simp: canonical_Cons)
  then show ?case using ys xy by simp
qed

subsection \<open>The whole parser\<close>

lemma parse_segments_eq:
  "parse_segments segs rs bad =
     (rs @ List.map_filter parseToken segs, bad @ filter (\<lambda>s. parseToken s = None) segs)"
  by (induction segs rs bad rule: parse_segments.induct)
     (auto simp: map_filter_simps split: option.splits)

lemma parseToken_valid: "parseToken tok = Some r \<Longrightarrow> valid_range r"
  by (auto simp: parseToken_def Let_def valid_range_def split: if_splits list.splits)

lemma covers_map_filter:
  "covers (List.map_filter parseToken segs) c \<longleftrightarrow>
     list_ex (\<lambda>seg. case parseToken seg of None \<Rightarrow> False | Some r \<Rightarrow> in_range c r) segs"
  by (induction segs) (auto simp: map_filter_simps split: option.splits)

lemma map_filter_valid: "list_all valid_range (List.map_filter parseToken segs)"
  by (induction segs) (auto simp: map_filter_simps dest: parseToken_valid split: option.splits)

lemma map_filter_nonempty:
  "list_all (\<lambda>r. range_start r \<le> range_end r) (List.map_filter parseToken segs)"
  using map_filter_valid [of segs] by (auto simp: list_all_iff valid_range_def)

lemma rule_segments_Nil [simp]: "rule_segments [] = []"
  by (simp add: rule_segments_def)

text \<open>Every success of the parser in one equation, and every failure in another.\<close>

lemma mergeRanges_Nil [simp]: "mergeRanges [] = []"
  by (simp add: mergeRanges_def)

lemma parse_ok:
  assumes "filter (\<lambda>s. parseToken s = None) (input_segments input) = []"
  shows "parseHttpStatusCodeRules input =
    (let merged = mergeRanges (List.map_filter parseToken (input_segments input))
     in \<lparr>ok = True, ranges = merged, tokens = map range_token merged,
          normalized = join [COMMA] (map range_token merged), invalidTokens = []\<rparr>)"
  using assms
  by (auto simp: parseHttpStatusCodeRules_def Let_def parse_segments_eq input_segments_def
      map_filter_simps)

lemma parse_fail:
  assumes "filter (\<lambda>s. parseToken s = None) (input_segments input) \<noteq> []"
  shows "parseHttpStatusCodeRules input =
    \<lparr>ok = False, ranges = [], tokens = [],
      normalized = trim_by unit_ws (case input of None \<Rightarrow> [] | Some s \<Rightarrow> s),
      invalidTokens = filter (\<lambda>s. parseToken s = None) (input_segments input)\<rparr>"
proof -
  have "trim_by unit_ws (case input of None \<Rightarrow> [] | Some s \<Rightarrow> s) \<noteq> []"
    using assms by (auto simp: input_segments_def)
  then show ?thesis using assms
    by (simp add: parseHttpStatusCodeRules_def Let_def parse_segments_eq input_segments_def)
qed

lemma ok_iff:
  "ok (parseHttpStatusCodeRules input) \<longleftrightarrow>
     filter (\<lambda>s. parseToken s = None) (input_segments input) = []"
proof (cases "filter (\<lambda>s. parseToken s = None) (input_segments input) = []")
  case True
  then show ?thesis by (simp add: parse_ok Let_def)
next
  case False
  then show ?thesis by (simp add: parse_fail)
qed

lemma ok_ranges:
  assumes "ok (parseHttpStatusCodeRules input)"
  shows "ranges (parseHttpStatusCodeRules input)
      = mergeRanges (List.map_filter parseToken (input_segments input))"
    and "normalized (parseHttpStatusCodeRules input)
      = join [COMMA] (map range_token (ranges (parseHttpStatusCodeRules input)))"
    and "tokens (parseHttpStatusCodeRules input)
      = map range_token (ranges (parseHttpStatusCodeRules input))"
  using parse_ok [of input] assms by (auto simp: ok_iff Let_def)

lemma ok_canonical: "ok (parseHttpStatusCodeRules input) \<Longrightarrow> canonical (ranges (parseHttpStatusCodeRules input))"
  by (simp add: ok_ranges(1) mergeRanges_spec(1) map_filter_nonempty)

lemma ok_covers:
  "ok (parseHttpStatusCodeRules input) \<Longrightarrow>
     covers (ranges (parseHttpStatusCodeRules input)) c \<longleftrightarrow> denotes input c"
  by (simp add: ok_ranges(1) mergeRanges_spec(2) map_filter_nonempty covers_map_filter denotes_def)


subsection \<open>Printing and parsing back\<close>

lemma number_units_digit: "c \<in> set (number_units n) \<Longrightarrow> is_digit c"
  by (auto simp: number_units_def is_digit_def dest: decimal_digits_below)

lemma isNumber_number_units [simp]: "isNumber (number_units n)"
  using number_units_digit by (auto simp: isNumber_def list_all_iff number_units_def)

lemma parseInt10_number_units [simp]: "parseInt10 (number_units n) = n"
  by (simp add: parseInt10_def number_units_def comp_def)

lemma digit_facts: "is_digit c \<Longrightarrow> \<not> unit_ws c \<and> c \<noteq> DASH \<and> c \<noteq> COMMA \<and> c \<noteq> FULLWIDTH_COMMA"
  by (auto simp: is_digit_def unit_ws_def DASH_def COMMA_def FULLWIDTH_COMMA_def)

lemma DASH_facts: "\<not> unit_ws DASH \<and> DASH \<noteq> COMMA \<and> DASH \<noteq> FULLWIDTH_COMMA"
  by (simp add: unit_ws_def DASH_def COMMA_def FULLWIDTH_COMMA_def)

lemma range_token_units:
  "c \<in> set (range_token r) \<Longrightarrow> \<not> unit_ws c \<and> c \<noteq> COMMA \<and> c \<noteq> FULLWIDTH_COMMA"
  using number_units_digit digit_facts DASH_facts by (auto simp: range_token_def split: if_splits)

lemma range_token_not_Nil [simp]: "range_token r \<noteq> []"
  by (simp add: range_token_def number_units_def)

lemma trim_range_token [simp]: "trim_by unit_ws (range_token r) = range_token r"
  by (rule trim_by_no_ws) (simp add: range_token_units)

lemma clean_range_token [simp]: "filter (\<lambda>c. \<not> unit_ws c) (range_token r) = range_token r"
  by (simp add: filter_id_conv range_token_units)

lemma DASH_notin_number [simp]: "DASH \<notin> set (number_units n)"
  using number_units_digit digit_facts by blast

lemma split_range_token:
  "split_on DASH (number_units a @ [DASH] @ number_units b) = [number_units a, number_units b]"
  by (simp add: split_on_append_sep split_on_no_sep)

lemma parseToken_range_token:
  assumes "valid_range r"
  shows "parseToken (range_token r) = Some r"
proof -
  have clean: "filter (\<lambda>c. \<not> unit_ws c) (trim_by unit_ws (range_token r)) = range_token r"
    by simp
  show ?thesis
  proof (cases "range_start r = range_end r")
    case True
    then have "range_token r = number_units (range_start r)" by (simp add: range_token_def)
    then show ?thesis unfolding parseToken_def clean Let_def
      using assms True range_token_not_Nil [of r] by (simp add: valid_range_def)
  next
    case False
    then have "range_token r = number_units (range_start r) @ [DASH] @ number_units (range_end r)"
      by (simp add: range_token_def)
    then show ?thesis unfolding parseToken_def clean Let_def
      using assms split_range_token by (simp add: valid_range_def)
  qed
qed

lemma map_filter_all_Some:
  "(\<And>x. x \<in> set xs \<Longrightarrow> f (g x) = Some x) \<Longrightarrow> List.map_filter f (map g xs) = xs"
  by (induction xs) (auto simp: map_filter_simps)

lemma foldl_merge_step_canonical:
  "canonical (ms @ rs) \<Longrightarrow> foldl merge_step ms rs = ms @ rs"
proof (induction rs arbitrary: ms)
  case (Cons r rs)
  have "canonical (ms @ [r])" using Cons.prems by (auto simp: canonical_def sorted_wrt_append)
  then have "\<forall>x\<in>set ms. range_end x + 1 < range_start r" by (simp add: canonical_snoc)
  then have "merge_step ms r = ms @ [r]" by (cases ms rule: rev_cases) (auto simp: merge_step_def)
  then show ?case using Cons.IH [of "ms @ [r]"] Cons.prems by simp
qed simp

lemma canonical_sorted: "canonical rs \<Longrightarrow> sorted (map range_key rs)"
proof (induction rs)
  case (Cons r rs)
  have "range_key r \<le> range_key x" if "x \<in> set rs" for x
  proof -
    have "range_start r < range_start x" using Cons.prems that by (fastforce simp: canonical_Cons)
    then show ?thesis by (simp add: range_key_def)
  qed
  then show ?case using Cons by (simp add: canonical_Cons)
qed simp

lemma mergeRanges_canonical: "canonical rs \<Longrightarrow> mergeRanges rs = rs"
  using foldl_merge_step_canonical [of "[]" rs]
  by (simp add: mergeRanges_def sort_key_id_if_sorted canonical_sorted)

lemma merge_step_valid:
  "list_all valid_range ms \<Longrightarrow> valid_range r \<Longrightarrow> list_all valid_range (merge_step ms r)"
  by (cases ms rule: rev_cases) (auto simp: merge_step_def valid_range_def max_def)

lemma foldl_merge_step_valid:
  "list_all valid_range ms \<Longrightarrow> list_all valid_range rs \<Longrightarrow> list_all valid_range (foldl merge_step ms rs)"
  by (induction rs arbitrary: ms) (auto simp: merge_step_valid)

lemma mergeRanges_valid: "list_all valid_range rs \<Longrightarrow> list_all valid_range (mergeRanges rs)"
  using foldl_merge_step_valid [of "[]" "sort_key range_key rs"]
  by (simp add: mergeRanges_def list_all_iff)

lemma input_segments_join:
  "input_segments (Some (join [COMMA] (map range_token rs))) = map range_token rs"
proof (cases rs)
  case Nil
  then show ?thesis by (simp add: input_segments_def)
next
  case (Cons r rs')
  let ?s = "join [COMMA] (map range_token rs)"
  have units: "c \<in> set (join [COMMA] (map range_token xs)) \<Longrightarrow> \<not> unit_ws c \<and> c \<noteq> FULLWIDTH_COMMA" for c xs
  proof (induction "[COMMA]" "map range_token xs" arbitrary: xs rule: join.induct)
    case (3 x y ys)
    obtain a b zs where xs: "xs = a # b # zs" "x = range_token a" "y = range_token b" "ys = map range_token zs"
      using "3.hyps"(2) by (auto simp: Cons_eq_map_conv)
    have "\<not> unit_ws COMMA \<and> COMMA \<noteq> FULLWIDTH_COMMA"
      by (simp add: unit_ws_def COMMA_def FULLWIDTH_COMMA_def)
    then show ?case using "3.hyps"(1) [of "b # zs"] "3.prems" xs range_token_units by auto
  next
    case (2 x)
    then obtain a where "xs = [a]" "x = range_token a" by (auto simp: Cons_eq_map_conv)
    then show ?case using "2.prems" range_token_units by auto
  qed (auto simp: Cons_eq_map_conv)
  have "trim_by unit_ws ?s = ?s" by (rule trim_by_no_ws) (simp add: units)
  moreover have "map (\<lambda>c. if c = FULLWIDTH_COMMA then COMMA else c) ?s = ?s"
    by (rule map_idI) (use units in auto)
  moreover have "split_on COMMA ?s = map range_token rs"
    using Cons range_token_units by (intro split_on_join) auto
  ultimately show ?thesis
    by (simp add: input_segments_def rule_segments_def comp_def filter_id_conv)
qed


subsection \<open>Properties\<close>

text \<open>C7: whenever the rules are accepted, the returned ranges are in normal form (non-empty, increasing,
  with a gap between neighbours), contain only codes 100 to 599, and cover exactly the codes that the
  input's tokens denote one by one.\<close>

theorem status_rules_denotation:
  assumes "ok (parseHttpStatusCodeRules input)"
  shows "canonical (ranges (parseHttpStatusCodeRules input))
    \<and> list_all valid_range (ranges (parseHttpStatusCodeRules input))
    \<and> (\<forall>c. covers (ranges (parseHttpStatusCodeRules input)) c \<longleftrightarrow> denotes input c)"
  using assms ok_canonical ok_covers
  by (simp add: ok_ranges(1) mergeRanges_valid map_filter_valid)

text \<open>The rules \<open>502,500-501\<close>, as code units.\<close>

definition sample_rules :: units where
  "sample_rules = [53,48,50,44,53,48,48,45,53,48,49]"

lemmas status_eval = trim_by_def unit_ws_def rule_segments_def FULLWIDTH_COMMA_def COMMA_def DASH_def
  parseToken_def isNumber_def is_digit_def parseInt10_def numeral_value_def isValidCode_def
  mergeRanges_def merge_step_def range_key_def range_token_def number_units_def decimal_digits.simps

lemma parse_sample:
  "parseHttpStatusCodeRules (Some sample_rules) =
     \<lparr>ok = True, ranges = [\<lparr>range_start = 500, range_end = 502\<rparr>],
       tokens = [[53,48,48,45,53,48,50]], normalized = [53,48,48,45,53,48,50], invalidTokens = []\<rparr>"
  by (simp add: parseHttpStatusCodeRules_def sample_rules_def status_eval)

theorem status_rules_denotation_witness:
  "ok (parseHttpStatusCodeRules (Some sample_rules)) \<and>
   (\<forall>c. covers (ranges (parseHttpStatusCodeRules (Some sample_rules))) c \<longleftrightarrow> denotes (Some sample_rules) c)"
  using status_rules_denotation [of "Some sample_rules"] parse_sample by simp

text \<open>the normal form is canonical: two accepted inputs that denote the same status codes get the
  same ranges and the same normalized text, whatever the order, overlap or spacing of their tokens.\<close>

theorem status_rules_normal_form:
  assumes "ok (parseHttpStatusCodeRules a)" and "ok (parseHttpStatusCodeRules b)"
    and "\<And>c. denotes a c \<longleftrightarrow> denotes b c"
  shows "ranges (parseHttpStatusCodeRules a) = ranges (parseHttpStatusCodeRules b)
    \<and> normalized (parseHttpStatusCodeRules a) = normalized (parseHttpStatusCodeRules b)"
proof -
  have "ranges (parseHttpStatusCodeRules a) = ranges (parseHttpStatusCodeRules b)"
    using assms by (intro canonical_unique) (simp_all add: ok_canonical ok_covers)
  then show ?thesis using assms(1,2) by (simp add: ok_ranges(2))
qed

theorem status_rules_normal_form_witness:
  "normalized (parseHttpStatusCodeRules (Some sample_rules))
     = normalized (parseHttpStatusCodeRules (Some (32 # sample_rules @ [FULLWIDTH_COMMA])))"
proof -
  have seg: "input_segments (Some (32 # sample_rules @ [FULLWIDTH_COMMA])) = input_segments (Some sample_rules)"
    by (simp add: input_segments_def sample_rules_def status_eval)
  then have "ok (parseHttpStatusCodeRules (Some (32 # sample_rules @ [FULLWIDTH_COMMA])))"
    using parse_sample ok_iff [of "Some sample_rules"] by (simp add: ok_iff)
  then show ?thesis
    using status_rules_normal_form [of "Some sample_rules" "Some (32 # sample_rules @ [FULLWIDTH_COMMA])"]
      parse_sample seg by (simp add: denotes_def)
qed

text \<open>C38: parsing the normalized text of an accepted input gives back the same result, so normalization is
  idempotent and the printed tokens denote the ranges they print.\<close>

theorem status_rules_roundtrip:
  assumes "ok (parseHttpStatusCodeRules input)"
  shows "parseHttpStatusCodeRules (Some (normalized (parseHttpStatusCodeRules input)))
    = parseHttpStatusCodeRules input"
proof -
  let ?p = "parseHttpStatusCodeRules input"
  let ?rs = "ranges ?p"
  have v: "list_all valid_range ?rs"
    by (simp add: ok_ranges(1) [OF assms] mergeRanges_valid map_filter_valid)
  then have parse: "parseToken (range_token r) = Some r" if "r \<in> set ?rs" for r
    using that by (simp add: list_all_iff parseToken_range_token)
  have seg: "input_segments (Some (normalized ?p)) = map range_token ?rs"
    by (simp add: ok_ranges(2) [OF assms] input_segments_join)
  have "filter (\<lambda>s. parseToken s = None) (map range_token ?rs) = []"
    using parse by (auto simp: filter_empty_conv)
  then have "parseHttpStatusCodeRules (Some (normalized ?p)) =
      \<lparr>ok = True, ranges = ?rs, tokens = map range_token ?rs,
        normalized = join [COMMA] (map range_token ?rs), invalidTokens = []\<rparr>"
    using parse_ok [of "Some (normalized ?p)"] parse ok_canonical [OF assms]
    by (simp add: seg map_filter_all_Some mergeRanges_canonical Let_def)
  then show ?thesis
    using parse_ok [of input] assms by (simp add: ok_iff ok_ranges Let_def)
qed

theorem status_rules_roundtrip_witness:
  "parseHttpStatusCodeRules (Some (normalized (parseHttpStatusCodeRules (Some sample_rules))))
     = parseHttpStatusCodeRules (Some sample_rules)"
  using status_rules_roundtrip [of "Some sample_rules"] parse_sample by simp

text \<open>the error path is exact: the rules are refused when and only when some token is unparsable, the
  reported invalid tokens are those tokens in input order, and a refused input yields no ranges.\<close>

theorem status_rules_errors:
  "ok (parseHttpStatusCodeRules input) = (invalidTokens (parseHttpStatusCodeRules input) = [])
   \<and> invalidTokens (parseHttpStatusCodeRules input)
       = filter (\<lambda>s. parseToken s = None) (input_segments input)
   \<and> (if ok (parseHttpStatusCodeRules input) then True
      else ranges (parseHttpStatusCodeRules input) = [] \<and> tokens (parseHttpStatusCodeRules input) = [])"
proof (cases "filter (\<lambda>s. parseToken s = None) (input_segments input) = []")
  case True
  then show ?thesis by (simp add: parse_ok Let_def)
next
  case False
  then show ?thesis by (simp add: parse_fail)
qed

end
