(* ===== verification/Messages.thy ===== *)
theory Messages
  imports Prelude
begin

text \<open>
  The playground's messages: \<open>web/src/features/playground/types.ts\<close> and the functions of
  \<open>lib/message/\<close> that create, stream into, finalize, edit and repair them.

  Clock readings (\<open>Date.now()\<close>) are an argument \<open>now\<close>, one reading per call; the identifiers of
  the package \<open>nanoid\<close> and the translations of the package \<open>i18next\<close> are arguments too.
  Times are integers (milliseconds).  An absent property is \<^const>\<open>None\<close>.
\<close>

subsection \<open>Data\<close>

datatype MessageRole = USER | ASSISTANT | SYSTEM

datatype MessageStatus = LOADING | STREAMING | COMPLETE | ERROR

record MessageVersion =
  v_id :: string
  v_content :: string

record MessageAttachment =
  att_url :: string
  att_filename :: "string option"
  att_mediaType :: "string option"

record Reasoning =
  r_content :: string
  r_duration :: int
  r_startedAt :: "int option"
  r_completedAt :: "int option"
  r_durationMs :: "int option"

record Message =
  m_key :: string
  m_from :: MessageRole
  m_versions :: "MessageVersion list"
  m_createdAt :: "int option"
  m_startedAt :: "int option"
  m_completedAt :: "int option"
  m_durationMs :: "int option"
  m_sources :: "(string \<times> string) list option"
  m_reasoning :: "Reasoning option"
  m_isReasoningStreaming :: "bool option"
  m_isReasoningComplete :: "bool option"
  m_isContentComplete :: "bool option"
  m_status :: "MessageStatus option"
  m_errorCode :: "string nullish"
  m_attachments :: "MessageAttachment list option"

definition API_REQUEST_ERROR :: string where "API_REQUEST_ERROR = ''Request error occurred''"
definition INTERRUPTED :: string where "INTERRUPTED = ''Generation was interrupted''"

subsection \<open>Versions and construction (message-utils.ts)\<close>

definition createMessageVersion :: "string \<Rightarrow> string \<Rightarrow> MessageVersion" where
  "createMessageVersion nid content = \<lparr>v_id = nid, v_content = content\<rparr>"

definition getCurrentVersion :: "Message \<Rightarrow> MessageVersion" where
  "getCurrentVersion m =
     (case m_versions m of v # _ \<Rightarrow> v | [] \<Rightarrow> \<lparr>v_id = ''default'', v_content = []\<rparr>)"

definition getMessageContent :: "Message \<Rightarrow> string" where
  "getMessageContent m = v_content (getCurrentVersion m)"

definition hasMessageContent :: "Message \<Rightarrow> bool" where
  "hasMessageContent m \<longleftrightarrow> trim (getMessageContent m) \<noteq> []"

definition updateCurrentVersionContent :: "Message \<Rightarrow> string \<Rightarrow> Message" where
  "updateCurrentVersionContent m content =
     m\<lparr>m_versions := [(getCurrentVersion m)\<lparr>v_content := content\<rparr>]\<rparr>"

definition createUserMessage ::
  "string \<Rightarrow> string \<Rightarrow> string \<Rightarrow> int \<Rightarrow> MessageAttachment list \<Rightarrow> Message" where
  "createUserMessage nid vid content createdAt attachments =
     \<lparr>m_key = nid, m_from = USER, m_versions = [createMessageVersion vid content],
      m_createdAt = Some createdAt, m_startedAt = None, m_completedAt = None, m_durationMs = None,
      m_sources = None, m_reasoning = None, m_isReasoningStreaming = None,
      m_isReasoningComplete = None, m_isContentComplete = None, m_status = None,
      m_errorCode = Undefined,
      m_attachments = (if attachments \<noteq> [] then Some attachments else None)\<rparr>"

definition createLoadingAssistantMessage :: "string \<Rightarrow> string \<Rightarrow> int \<Rightarrow> Message" where
  "createLoadingAssistantMessage nid vid startedAt =
     \<lparr>m_key = nid, m_from = ASSISTANT, m_versions = [createMessageVersion vid []],
      m_createdAt = Some startedAt, m_startedAt = Some startedAt, m_completedAt = None,
      m_durationMs = None, m_sources = None, m_reasoning = None,
      m_isReasoningStreaming = Some False, m_isReasoningComplete = Some False,
      m_isContentComplete = Some False, m_status = Some LOADING, m_errorCode = Undefined,
      m_attachments = None\<rparr>"

subsection \<open>Request contents (message-utils.ts)\<close>

datatype ContentPart = TextPart string | ImagePart string

datatype MessageContent = PlainContent string | PartsContent "ContentPart list"

record ChatCompletionMessage =
  api_role :: MessageRole
  api_content :: MessageContent

definition buildMessageContent :: "string \<Rightarrow> string list \<Rightarrow> MessageContent" where
  "buildMessageContent txt imageUrls =
     (let validImages = filter (\<lambda>url. trim url \<noteq> []) imageUrls in
      if validImages = [] then PlainContent txt
      else PartsContent (TextPart txt # map (\<lambda>url. ImagePart (trim url)) validImages))"

definition getTextContent :: "MessageContent \<Rightarrow> string" where
  "getTextContent content =
     (case content of
        PlainContent s \<Rightarrow> s
      | PartsContent parts \<Rightarrow>
          (case find (\<lambda>p. case p of TextPart _ \<Rightarrow> True | ImagePart _ \<Rightarrow> False) parts of
             Some (TextPart s) \<Rightarrow> s
           | _ \<Rightarrow> []))"

definition formatMessageForAPI :: "Message \<Rightarrow> ChatCompletionMessage" where
  "formatMessageForAPI m =
     \<lparr>api_role = m_from m,
      api_content = buildMessageContent (v_content (getCurrentVersion m))
        (map att_url (opt_or (m_attachments m) []))\<rparr>"

definition isValidMessage :: "Message \<Rightarrow> bool" where
  "isValidMessage m \<longleftrightarrow>
     m_versions m \<noteq> [] \<and> \<not> (m_from m = ASSISTANT \<and> \<not> hasMessageContent m)"

subsection \<open>Thinking tags (message-reasoning-utils.ts)\<close>

record ParsedThinkTags =
  t_visibleContent :: string
  t_reasoning :: string
  t_hasUnclosedTag :: bool

definition OPEN_TAG :: string where "OPEN_TAG = ''<think>''"
definition CLOSE_TAG :: string where "CLOSE_TAG = ''</think>''"

text \<open>The loop: the current position and the parts pushed so far.\<close>

function think_loop ::
  "string \<Rightarrow> nat \<Rightarrow> string list \<Rightarrow> string list \<Rightarrow> string list \<times> string list \<times> bool" where
  "think_loop content cur visible reasoning =
     (case indexOf content OPEN_TAG cur of
        None \<Rightarrow>
          (if cur < length content then visible @ [drop cur content] else visible, reasoning, False)
      | Some openPos \<Rightarrow>
          let visible' = (if openPos > cur then visible @ [slice content cur openPos] else visible) in
          (case indexOf content CLOSE_TAG (openPos + 7) of
             None \<Rightarrow> (visible', reasoning @ [drop (openPos + 7) content], True)
           | Some closePos \<Rightarrow>
               think_loop content (closePos + 8) visible'
                 (reasoning @ [slice content (openPos + 7) closePos])))"
  by pat_completeness auto
termination
proof (relation "measure (\<lambda>(content, cur, _, _). length content - cur)")
  fix content cur visible reasoning openPos visible' closePos
  assume "indexOf content OPEN_TAG cur = Some openPos"
    and "indexOf content CLOSE_TAG (openPos + 7) = Some closePos"
  then have "cur \<le> openPos" "openPos + 7 \<le> closePos" "cur < length content"
    using indexOf_Some [of content OPEN_TAG] indexOf_Some [of content CLOSE_TAG]
    by (auto simp: OPEN_TAG_def CLOSE_TAG_def)
  then show "((content, closePos + 8, visible', reasoning @ [slice content (openPos + 7) closePos]),
      content, cur, visible, reasoning) \<in> measure (\<lambda>(content, cur, _, _). length content - cur)"
    by simp
qed simp

declare think_loop.simps [simp del]

definition parseThinkTags :: "string \<Rightarrow> ParsedThinkTags" where
  "parseThinkTags content =
     (if \<not> js_includes content OPEN_TAG then
        \<lparr>t_visibleContent = content, t_reasoning = [], t_hasUnclosedTag = False\<rparr>
      else
        (case think_loop content 0 [] [] of
           (visible, reasoning, unclosed) \<Rightarrow>
             \<lparr>t_visibleContent = trim (concat visible),
              t_reasoning = trim (join [CHR 0x0A, CHR 0x0A] reasoning),
              t_hasUnclosedTag = unclosed\<rparr>))"

subsection \<open>Timing (message-timing-utils.ts)\<close>

definition opt_else :: "'a option \<Rightarrow> 'a option \<Rightarrow> 'a option" where
  "opt_else x y = (case x of None \<Rightarrow> y | Some v \<Rightarrow> Some v)"

definition completeAssistantTiming :: "int \<Rightarrow> Message \<Rightarrow> Message" where
  "completeAssistantTiming completedAt m =
     (if m_from m \<noteq> ASSISTANT then m
      else let startedAt = opt_or (opt_else (m_startedAt m) (m_createdAt m)) completedAt in
        m\<lparr>m_startedAt := Some startedAt, m_completedAt := Some completedAt,
          m_durationMs := Some (max 0 (completedAt - startedAt))\<rparr>)"

definition startReasoningTiming :: "int \<Rightarrow> Message \<Rightarrow> Reasoning" where
  "startReasoningTiming startedAt m =
     (case m_reasoning m of
        None \<Rightarrow> \<lparr>r_content = [], r_duration = 0, r_startedAt = Some startedAt,
                  r_completedAt = None, r_durationMs = None\<rparr>
      | Some r \<Rightarrow> r\<lparr>r_startedAt := Some (opt_or (r_startedAt r) startedAt)\<rparr>)"

definition completeReasoningTiming :: "int \<Rightarrow> Message \<Rightarrow> Message" where
  "completeReasoningTiming completedAt m =
     (case m_reasoning m of
        None \<Rightarrow> m
      | Some r \<Rightarrow>
          if r_durationMs r \<noteq> None then m
          else let startedAt = opt_or (opt_else (r_startedAt r) (m_startedAt m)) completedAt;
                   durationMs = max 0 (completedAt - startedAt) in
            m\<lparr>m_reasoning := Some (r\<lparr>r_startedAt := Some startedAt,
                r_completedAt := Some completedAt, r_durationMs := Some durationMs,
                r_duration := ceil_div durationMs 1000\<rparr>)\<rparr>)"


subsection \<open>Streaming (message-streaming-utils.ts)\<close>

definition processStreamingContent :: "int \<Rightarrow> Message \<Rightarrow> string \<Rightarrow> Message" where
  "processStreamingContent now m contentChunk =
     (let fullContent = v_content (getCurrentVersion m) @ contentChunk in
      if m_reasoning m = None \<and> \<not> js_includes fullContent OPEN_TAG then
        (updateCurrentVersionContent m fullContent)\<lparr>m_isReasoningStreaming := Some False\<rparr>
      else
        (let parsed = parseThinkTags fullContent;
             finalReasoning =
               (if t_reasoning parsed \<noteq> []
                then Some ((startReasoningTiming now m)\<lparr>r_content := t_reasoning parsed\<rparr>)
                else m_reasoning m) in
         (updateCurrentVersionContent m fullContent)
           \<lparr>m_reasoning := finalReasoning, m_isReasoningStreaming := Some (t_hasUnclosedTag parsed)\<rparr>))"

datatype StreamChunkType = ReasoningChunk | ContentChunk

definition getAppendableChunk :: "string \<Rightarrow> string \<Rightarrow> string" where
  "getAppendableChunk currentContent chunk =
     (if currentContent = [] \<or> \<not> startsWith chunk currentContent then chunk
      else drop (length currentContent) chunk)"

definition applyStreamingChunk :: "int \<Rightarrow> Message \<Rightarrow> StreamChunkType \<Rightarrow> string \<Rightarrow> Message" where
  "applyStreamingChunk now m ty chunk =
     (if m_status m = Some ERROR then m
      else (case ty of
        ReasoningChunk \<Rightarrow>
          (let reasoning = startReasoningTiming now m;
               appendable = getAppendableChunk (r_content reasoning) chunk in
           m\<lparr>m_reasoning := Some (reasoning\<lparr>r_content := r_content reasoning @ appendable\<rparr>),
             m_isReasoningStreaming := Some True, m_status := Some STREAMING\<rparr>)
      | ContentChunk \<Rightarrow>
          (let appendable = getAppendableChunk (v_content (getCurrentVersion m)) chunk;
               contentMessage = processStreamingContent now m appendable in
           (if m_isReasoningStreaming contentMessage = Some True then contentMessage
            else completeReasoningTiming now contentMessage)\<lparr>m_status := Some STREAMING\<rparr>)))"

definition finalizeMessage :: "int \<Rightarrow> Message \<Rightarrow> string option \<Rightarrow> Message" where
  "finalizeMessage now m apiReasoningContent =
     (let content = v_content (getCurrentVersion m);
          parsed = (if js_includes content OPEN_TAG then Some (parseThinkTags content) else None);
          visibleContent = (case parsed of None \<Rightarrow> content | Some p \<Rightarrow> t_visibleContent p);
          finalReasoning =
            str_or (opt_or apiReasoningContent [])
              (str_or (case m_reasoning m of None \<Rightarrow> [] | Some r \<Rightarrow> r_content r)
                 (case parsed of None \<Rightarrow> [] | Some p \<Rightarrow> t_reasoning p));
          finalized = (updateCurrentVersionContent m visibleContent)
            \<lparr>m_reasoning :=
                (if finalReasoning \<noteq> []
                 then Some ((startReasoningTiming now m)\<lparr>r_content := finalReasoning\<rparr>)
                 else None),
              m_isReasoningStreaming := Some False\<rparr> in
      completeReasoningTiming now finalized)"

definition completeAssistantMessage :: "int \<Rightarrow> Message \<Rightarrow> Message" where
  "completeAssistantMessage now m =
     completeAssistantTiming now ((finalizeMessage now m None)\<lparr>m_status := Some COMPLETE\<rparr>)"

definition isAssistantMessageFinal :: "Message \<Rightarrow> bool" where
  "isAssistantMessageFinal m \<longleftrightarrow> m_status m = Some COMPLETE \<or> m_status m = Some ERROR"

definition isAssistantMessagePending :: "Message \<Rightarrow> bool" where
  "isAssistantMessagePending m \<longleftrightarrow> m_status m = Some LOADING \<or> m_status m = Some STREAMING"

definition isPendingAssistantMessage :: "Message \<Rightarrow> bool" where
  "isPendingAssistantMessage m \<longleftrightarrow> m_from m = ASSISTANT \<and> isAssistantMessagePending m"

text \<open>The choices of a completion response, each with its optional message content and reasoning.\<close>

record ChatCompletionChoice =
  choice_content :: "string option"
  choice_reasoning_content :: "string option"

type_synonym ChatCompletionResponse = "ChatCompletionChoice list option"

definition first_choice :: "ChatCompletionResponse \<Rightarrow> ChatCompletionChoice option" where
  "first_choice response = (case response of Some (c # _) \<Rightarrow> Some c | _ \<Rightarrow> None)"

definition hasChatCompletionChoice :: "ChatCompletionResponse \<Rightarrow> bool" where
  "hasChatCompletionChoice response \<longleftrightarrow> first_choice response \<noteq> None"

definition applyChatCompletionChoice :: "int \<Rightarrow> Message \<Rightarrow> ChatCompletionChoice \<Rightarrow> Message" where
  "applyChatCompletionChoice now m choice =
     completeAssistantTiming now
       ((finalizeMessage now (updateCurrentVersionContent m (opt_or (choice_content choice) []))
           (choice_reasoning_content choice))\<lparr>m_status := Some COMPLETE\<rparr>)"

definition applyChatCompletionResponse ::
  "int \<Rightarrow> Message \<Rightarrow> ChatCompletionResponse \<Rightarrow> Message option" where
  "applyChatCompletionResponse now m response =
     map_option (applyChatCompletionChoice now m) (first_choice response)"

record GeneratedImage =
  img_b64_json :: "string option"
  img_url :: "string option"

definition show_nat :: "nat \<Rightarrow> string" where
  "show_nat n = map (\<lambda>d. char_of (d + 48)) (decimal_digits n)"

definition image_attachment :: "nat \<Rightarrow> GeneratedImage \<Rightarrow> MessageAttachment list" where
  "image_attachment index gen =
     (let b64 = opt_or (img_b64_json gen) [];
          url = (if b64 \<noteq> [] then ''data:image/png;base64,'' @ b64 else opt_or (img_url gen) []) in
      if url \<noteq> [] then
        [\<lparr>att_url = url, att_filename = Some (''generated-image-'' @ show_nat (index + 1) @ ''.png''),
          att_mediaType = Some ''image/png''\<rparr>]
      else [])"

definition applyImageGenerationResponse :: "int \<Rightarrow> Message \<Rightarrow> GeneratedImage list \<Rightarrow> Message option" where
  "applyImageGenerationResponse now m images =
     (let attachments = concat (map (\<lambda>(i, img). image_attachment i img) (enumerate 0 images)) in
      if attachments = [] then None
      else Some (completeAssistantTiming now
        (m\<lparr>m_attachments := Some attachments, m_status := Some COMPLETE,
           m_isReasoningStreaming := Some False, m_isContentComplete := Some True\<rparr>)))"

text \<open>The backward search for the last pending assistant message.\<close>

fun last_index :: "('a \<Rightarrow> bool) \<Rightarrow> 'a list \<Rightarrow> nat option" where
  "last_index P [] = None"
| "last_index P (x # xs) =
     (case last_index P xs of Some i \<Rightarrow> Some (Suc i) | None \<Rightarrow> if P x then Some 0 else None)"

definition sanitizeMessage :: "(string \<Rightarrow> string) \<Rightarrow> int \<Rightarrow> Message \<Rightarrow> Message" where
  "sanitizeMessage t now m =
     (let finalized = finalizeMessage now m None;
          hasContent = hasMessageContent finalized;
          hasReasoning = (case m_reasoning finalized of None \<Rightarrow> False | Some r \<Rightarrow> trim (r_content r) \<noteq> []) in
      if hasContent \<or> hasReasoning then
        completeAssistantTiming now
          (finalized\<lparr>m_status := Some COMPLETE, m_isReasoningStreaming := Some False\<rparr>)
      else
        completeAssistantTiming now
          ((updateCurrentVersionContent finalized (t API_REQUEST_ERROR @ '': '' @ t INTERRUPTED))
             \<lparr>m_status := Some ERROR, m_isReasoningStreaming := Some False\<rparr>))"

definition sanitizeMessagesOnLoad :: "(string \<Rightarrow> string) \<Rightarrow> int \<Rightarrow> Message list \<Rightarrow> Message list" where
  "sanitizeMessagesOnLoad t now messages =
     (case last_index isPendingAssistantMessage messages of
        None \<Rightarrow> messages
      | Some i \<Rightarrow> messages[i := sanitizeMessage t now (messages ! i)])"

subsection \<open>Updating the last assistant message (message-update-utils.ts)\<close>

definition updateLastAssistantMessage :: "Message list \<Rightarrow> (Message \<Rightarrow> Message) \<Rightarrow> Message list" where
  "updateLastAssistantMessage messages updater =
     (if messages = [] then messages
      else if m_from (last messages) \<noteq> ASSISTANT then messages
      else butlast messages @ [updater (last messages)])"

definition updateAssistantMessageWithError ::
  "int \<Rightarrow> Message list \<Rightarrow> string \<Rightarrow> string option \<Rightarrow> string \<Rightarrow> Message list" where
  "updateAssistantMessageWithError now messages errorMessage errorCode title =
     updateLastAssistantMessage messages (\<lambda>m.
       completeAssistantTiming now
         ((updateCurrentVersionContent m (title @ '': '' @ errorMessage))
            \<lparr>m_status := Some ERROR, m_isReasoningStreaming := Some False,
              m_errorCode := (case errorCode of Some (c # cs) \<Rightarrow> Value (c # cs) | _ \<Rightarrow> Null)\<rparr>))"

subsection \<open>Editing the conversation (conversation-message-utils.ts)\<close>

definition findIndex :: "('a \<Rightarrow> bool) \<Rightarrow> 'a list \<Rightarrow> nat option" where
  "findIndex P xs = (let i = length (takeWhile (\<lambda>x. \<not> P x) xs) in if i < length xs then Some i else None)"

text \<open>The identifiers are, in the order the code draws them: the user message's key and its version's,
  the assistant message's key and its version's.\<close>

definition appendUserMessagePair ::
  "string \<times> string \<times> string \<times> string \<Rightarrow> int \<Rightarrow> Message list \<Rightarrow> string \<Rightarrow> MessageAttachment list
     \<Rightarrow> Message list" where
  "appendUserMessagePair ids submittedAt messages content attachments =
     (case ids of (k1, v1, k2, v2) \<Rightarrow>
        messages @ [createUserMessage k1 v1 content submittedAt attachments,
                    createLoadingAssistantMessage k2 v2 submittedAt])"

definition createRegeneratedMessages ::
  "string \<times> string \<Rightarrow> int \<Rightarrow> Message list \<Rightarrow> string \<Rightarrow> Message list option" where
  "createRegeneratedMessages ids now messages messageKey =
     (case findIndex (\<lambda>m. m_key m = messageKey) messages of
        None \<Rightarrow> None
      | Some i \<Rightarrow>
          if m_from (messages ! i) = USER then
            Some (take (i + 1) messages @ [createLoadingAssistantMessage (fst ids) (snd ids) now])
          else Some (take i messages @ [createLoadingAssistantMessage (fst ids) (snd ids) now]))"

definition removeMessageByKey :: "Message list \<Rightarrow> string \<Rightarrow> Message list" where
  "removeMessageByKey messages messageKey = filter (\<lambda>m. m_key m \<noteq> messageKey) messages"

text \<open>Reading a property of a position past the end raises.\<close>

definition getPreviousUserMessage :: "Message list \<Rightarrow> nat \<Rightarrow> js_error + Message option" where
  "getPreviousUserMessage messages beforeIndex =
     (if beforeIndex > length messages then Inl TypeError
      else Inr (find (\<lambda>m. m_from m = USER) (rev (take beforeIndex messages))))"

text \<open>The callback of the edit's \<open>map\<close>.\<close>

definition edit_message :: "int \<Rightarrow> string \<Rightarrow> string \<Rightarrow> bool \<Rightarrow> Message \<Rightarrow> Message" where
  "edit_message submittedAt messageKey content shouldSubmit m =
     (if m_key m = messageKey
      then (updateCurrentVersionContent m content)
        \<lparr>m_createdAt := (if shouldSubmit then Some submittedAt else m_createdAt m)\<rparr>
      else m)"

definition applyMessageEdit ::
  "string \<times> string \<Rightarrow> int \<Rightarrow> Message list \<Rightarrow> string \<Rightarrow> string \<Rightarrow> bool
     \<Rightarrow> (Message list \<times> bool) option" where
  "applyMessageEdit ids submittedAt messages messageKey content shouldSubmit =
     (case findIndex (\<lambda>m. m_key m = messageKey) messages of
        None \<Rightarrow> None
      | Some i \<Rightarrow>
          let updated = map (edit_message submittedAt messageKey content shouldSubmit) messages in
          if \<not> shouldSubmit \<or> m_from (updated ! i) \<noteq> USER then Some (updated, False)
          else Some (take (i + 1) updated
            @ [createLoadingAssistantMessage (fst ids) (snd ids) submittedAt], True))"

definition getEditingMessageContent :: "Message list \<Rightarrow> string option \<Rightarrow> string" where
  "getEditingMessageContent messages editingKey =
     (case editingKey of
        None \<Rightarrow> []
      | Some k \<Rightarrow> if k = [] then []
          else (case find (\<lambda>m. m_key m = k) messages of None \<Rightarrow> [] | Some m \<Rightarrow> getMessageContent m))"

record ChatMessageRenderState =
  rs_alwaysShowActions :: bool
  rs_content :: string
  rs_isEditing :: bool

definition getChatMessageRenderState ::
  "Message list \<Rightarrow> Message \<Rightarrow> nat \<Rightarrow> string option \<Rightarrow> ChatMessageRenderState" where
  "getChatMessageRenderState messages m messageIndex editingKey =
     \<lparr>rs_alwaysShowActions = (messageIndex + 1 = length messages \<and> m_from m = ASSISTANT),
      rs_content = getMessageContent m,
      rs_isEditing = (editingKey = Some (m_key m))\<rparr>"

subsection \<open>Display (message-content-utils.ts)\<close>

record MessageContentState =
  cs_displayContent :: string
  cs_hasSources :: bool
  cs_isAssistant :: bool
  cs_showLoader :: bool
  cs_showMessageContent :: bool
  cs_sources :: "(string \<times> string) list"
  cs_reasoningContent :: "string option"

definition shouldShowMessageLoader :: "Message \<Rightarrow> bool \<Rightarrow> string \<Rightarrow> bool" where
  "shouldShowMessageLoader m isAssistant versionContent \<longleftrightarrow>
     isAssistant \<and> m_isReasoningStreaming m \<noteq> Some True
     \<and> (m_status m = Some LOADING \<or> (m_status m = Some STREAMING \<and> versionContent = []))"

definition shouldShowMessageContent :: "Message \<Rightarrow> string \<Rightarrow> bool" where
  "shouldShowMessageContent m versionContent \<longleftrightarrow>
     (m_from m = USER \<or> m_isReasoningStreaming m \<noteq> Some True) \<and> length versionContent > 0"

definition getDisplayContent :: "Message \<Rightarrow> string \<Rightarrow> string" where
  "getDisplayContent m versionContent =
     (if m_from m \<noteq> ASSISTANT then versionContent
      else if \<not> js_includes versionContent OPEN_TAG then versionContent
      else t_visibleContent (parseThinkTags versionContent))"

text \<open>\<open>hasReasoning\<close> is that \<open>cs_reasoningContent\<close> is present.\<close>

definition getMessageContentState :: "Message \<Rightarrow> string \<Rightarrow> MessageContentState" where
  "getMessageContentState m versionContent =
     (let isAssistant = (m_from m = ASSISTANT);
          sources = opt_or (m_sources m) [];
          reasoningContent = (if isAssistant then map_option r_content (m_reasoning m) else None) in
      \<lparr>cs_displayContent = getDisplayContent m versionContent,
       cs_hasSources = (sources \<noteq> []),
       cs_isAssistant = isAssistant,
       cs_showLoader = shouldShowMessageLoader m isAssistant versionContent,
       cs_showMessageContent = shouldShowMessageContent m versionContent,
       cs_sources = sources,
       cs_reasoningContent = (case reasoningContent of Some (c # cs) \<Rightarrow> Some (c # cs) | _ \<Rightarrow> None)\<rparr>)"


subsection \<open>What thinking tags denote\<close>

text \<open>The abstract view of a content: closed blocks \<open>(visible, reasoning)\<close> followed by a tail that either
  has no open tag or ends inside one.\<close>

datatype think_tail = ClosedTail string | OpenTail string string

fun tail_text :: "think_tail \<Rightarrow> string" where
  "tail_text (ClosedTail v) = v"
| "tail_text (OpenTail v r) = v @ OPEN_TAG @ r"

fun tail_visible :: "think_tail \<Rightarrow> string" where
  "tail_visible (ClosedTail v) = v"
| "tail_visible (OpenTail v r) = v"

fun tail_reasoning :: "think_tail \<Rightarrow> string list" where
  "tail_reasoning (ClosedTail v) = []"
| "tail_reasoning (OpenTail v r) = [r]"

fun tail_open :: "think_tail \<Rightarrow> bool" where
  "tail_open (ClosedTail v) = False"
| "tail_open (OpenTail v r) = True"

fun render_think :: "(string \<times> string) list \<Rightarrow> think_tail \<Rightarrow> string" where
  "render_think [] fin = tail_text fin"
| "render_think ((v, r) # segs) fin = v @ OPEN_TAG @ r @ CLOSE_TAG @ render_think segs fin"

definition wf_think :: "(string \<times> string) list \<Rightarrow> think_tail \<Rightarrow> bool" where
  "wf_think segs fin \<longleftrightarrow>
     list_all (\<lambda>(v, r). \<not> js_includes v OPEN_TAG \<and> \<not> js_includes r CLOSE_TAG) segs
     \<and> \<not> js_includes (tail_visible fin) OPEN_TAG
     \<and> list_all (\<lambda>r. \<not> js_includes r CLOSE_TAG) (tail_reasoning fin)"

lemma find_OPEN_TAG: "\<not> js_includes v OPEN_TAG \<Longrightarrow> find_at OPEN_TAG (v @ OPEN_TAG @ t) = Some (length v)"
  by (rule find_at_append [where a = "CHR ''<''" and q = "''think>''"])
     (auto simp: js_includes_def OPEN_TAG_def)

lemma find_CLOSE_TAG: "\<not> js_includes v CLOSE_TAG \<Longrightarrow> find_at CLOSE_TAG (v @ CLOSE_TAG @ t) = Some (length v)"
  by (rule find_at_append [where a = "CHR ''<''" and q = "''/think>''"])
     (auto simp: js_includes_def CLOSE_TAG_def)

lemma length_tags [simp]: "length OPEN_TAG = 7" "length CLOSE_TAG = 8"
  by (simp_all add: OPEN_TAG_def CLOSE_TAG_def)

lemma indexOf_suffix: "indexOf (pre @ s) p (length pre) = map_option (\<lambda>i. i + length pre) (find_at p s)"
  by (simp add: indexOf_def)

lemma think_loop_step:
  assumes "\<not> js_includes v OPEN_TAG" and "\<not> js_includes r CLOSE_TAG"
  shows "think_loop (pre @ v @ OPEN_TAG @ r @ CLOSE_TAG @ rest) (length pre) vis rea =
    think_loop ((pre @ v @ OPEN_TAG @ r @ CLOSE_TAG) @ rest) (length (pre @ v @ OPEN_TAG @ r @ CLOSE_TAG))
      (vis @ (if v \<noteq> [] then [v] else [])) (rea @ [r])"
proof -
  let ?s = "pre @ v @ OPEN_TAG @ r @ CLOSE_TAG @ rest"
  have o: "indexOf ?s OPEN_TAG (length pre) = Some (length pre + length v)"
    using find_OPEN_TAG [OF assms(1)] by (simp add: indexOf_suffix add.commute)
  have "indexOf ((pre @ v @ OPEN_TAG) @ r @ CLOSE_TAG @ rest) CLOSE_TAG (length (pre @ v @ OPEN_TAG))
      = Some (length r + length (pre @ v @ OPEN_TAG))"
    using find_CLOSE_TAG [OF assms(2)] by (simp only: indexOf_suffix option.map)
  then have c: "indexOf ?s CLOSE_TAG (length pre + length v + 7) = Some (length pre + length v + 7 + length r)"
    by (simp add: add.commute add.left_commute)
  have sv: "slice ?s (length pre) (length pre + length v) = v"
    and sr: "slice ?s (length pre + length v + 7) (length pre + length v + 7 + length r) = r"
    by (simp_all add: slice_def)
  have "think_loop ?s (length pre) vis rea =
      think_loop ?s (length pre + length v + 7 + length r + 8) (vis @ (if v \<noteq> [] then [v] else [])) (rea @ [r])"
    unfolding think_loop.simps [of ?s "length pre"] o option.case Let_def c sv sr by auto
  moreover have "length (pre @ v @ OPEN_TAG @ r @ CLOSE_TAG) = length pre + length v + 7 + length r + 8"
    by simp
  ultimately show ?thesis by (simp only: append_assoc)
qed

lemma think_loop_tail:
  assumes "\<not> js_includes (tail_visible fin) OPEN_TAG"
    and "list_all (\<lambda>r. \<not> js_includes r CLOSE_TAG) (tail_reasoning fin)"
  shows "think_loop (pre @ tail_text fin) (length pre) vis rea =
    (vis @ (if tail_visible fin \<noteq> [] then [tail_visible fin] else []), rea @ tail_reasoning fin, tail_open fin)"
proof (cases fin)
  case (ClosedTail v)
  then have "indexOf (pre @ v) OPEN_TAG (length pre) = None"
    using assms(1) by (simp add: indexOf_suffix js_includes_def)
  then show ?thesis using ClosedTail by (subst think_loop.simps) simp
next
  case (OpenTail v r)
  have o: "indexOf (pre @ v @ OPEN_TAG @ r) OPEN_TAG (length pre) = Some (length pre + length v)"
    using find_OPEN_TAG [of v r] assms(1) OpenTail by (simp add: indexOf_suffix add.commute)
  have "indexOf ((pre @ v @ OPEN_TAG) @ r) CLOSE_TAG (length (pre @ v @ OPEN_TAG)) = None"
    using assms(2) OpenTail by (simp only: indexOf_suffix) (simp add: js_includes_def)
  then have c: "indexOf (pre @ v @ OPEN_TAG @ r) CLOSE_TAG (length pre + length v + 7) = None"
    by (simp add: add.assoc)
  show ?thesis using OpenTail
    by (subst think_loop.simps) (simp add: o c Let_def slice_def)
qed

lemma think_loop_render:
  assumes "wf_think segs fin"
  shows "\<exists>parts. concat parts = concat (map fst segs) @ tail_visible fin \<and>
    think_loop (pre @ render_think segs fin) (length pre) vis rea =
      (vis @ parts, rea @ map snd segs @ tail_reasoning fin, tail_open fin)"
  using assms
proof (induction segs arbitrary: pre vis rea)
  case Nil
  then show ?case using think_loop_tail [of fin pre vis rea] by (auto simp: wf_think_def)
next
  case (Cons seg segs)
  obtain v r where seg: "seg = (v, r)" by (cases seg)
  have nv: "\<not> js_includes v OPEN_TAG" and nr: "\<not> js_includes r CLOSE_TAG" and wf: "wf_think segs fin"
    using Cons.prems seg by (auto simp: wf_think_def)
  obtain parts where "concat parts = concat (map fst segs) @ tail_visible fin"
    and "think_loop ((pre @ v @ OPEN_TAG @ r @ CLOSE_TAG) @ render_think segs fin)
        (length (pre @ v @ OPEN_TAG @ r @ CLOSE_TAG)) (vis @ (if v \<noteq> [] then [v] else [])) (rea @ [r]) =
      ((vis @ (if v \<noteq> [] then [v] else [])) @ parts, (rea @ [r]) @ map snd segs @ tail_reasoning fin, tail_open fin)"
    using Cons.IH [OF wf] by blast
  then show ?case using think_loop_step [OF nv nr, of pre "render_think segs fin" vis rea] seg
    by (intro exI [of _ "(if v \<noteq> [] then [v] else []) @ parts"]) auto
qed

lemma render_think_includes:
  "segs \<noteq> [] \<or> tail_open fin \<Longrightarrow> js_includes (render_think segs fin) OPEN_TAG"
  by (cases segs; cases fin) auto

lemma render_think_total: "\<exists>segs fin. wf_think segs fin \<and> content = render_think segs fin"
proof (induction content rule: length_induct)
  case (1 content)
  show ?case
  proof (cases "find_at OPEN_TAG content")
    case None
    then show ?thesis
      by (intro exI [of _ "[]"] exI [of _ "ClosedTail content"]) (simp add: wf_think_def js_includes_def)
  next
    case (Some i)
    define v where "v = take i content"
    define rest where "rest = drop (i + 7) content"
    have nv: "\<not> js_includes v OPEN_TAG"
      using find_at_before [OF Some] by (simp add: v_def js_includes_def OPEN_TAG_def)
    have c: "content = v @ OPEN_TAG @ rest" using find_at_split [OF Some] by (simp add: v_def rest_def)
    show ?thesis
    proof (cases "find_at CLOSE_TAG rest")
      case None
      then show ?thesis using c nv
        by (intro exI [of _ "[]"] exI [of _ "OpenTail v rest"]) (simp add: wf_think_def js_includes_def)
    next
      case (Some j)
      define r where "r = take j rest"
      define more where "more = drop (j + 8) rest"
      have nr: "\<not> js_includes r CLOSE_TAG"
        using find_at_before [OF Some] by (simp add: r_def js_includes_def CLOSE_TAG_def)
      have d: "rest = r @ CLOSE_TAG @ more" using find_at_split [OF Some] by (simp add: r_def more_def)
      have "length more < length content" using c d by simp
      then obtain segs fin where "wf_think segs fin" "more = render_think segs fin" using 1 by blast
      then show ?thesis using c d nv nr
        by (intro exI [of _ "(v, r) # segs"] exI [of _ fin]) (simp add: wf_think_def)
    qed
  qed
qed

lemma parseThinkTags_render:
  assumes "wf_think segs fin" and "segs \<noteq> [] \<or> tail_open fin"
  shows "parseThinkTags (render_think segs fin) =
    \<lparr>t_visibleContent = trim (concat (map fst segs) @ tail_visible fin),
     t_reasoning = trim (join [CHR 0x0A, CHR 0x0A] (map snd segs @ tail_reasoning fin)),
     t_hasUnclosedTag = tail_open fin\<rparr>"
proof -
  obtain parts where p: "concat parts = concat (map fst segs) @ tail_visible fin"
    and l: "think_loop (render_think segs fin) 0 [] [] =
      (parts, map snd segs @ tail_reasoning fin, tail_open fin)"
    using think_loop_render [OF assms(1), of "[]" "[]" "[]"] by auto
  show ?thesis using render_think_includes [OF assms(2)] by (simp add: parseThinkTags_def l p)
qed


subsection \<open>Frame facts of the message operations\<close>

lemma getCurrentVersion_update [simp]:
  "getCurrentVersion (updateCurrentVersionContent m c) = (getCurrentVersion m)\<lparr>v_content := c\<rparr>"
  by (simp add: updateCurrentVersionContent_def getCurrentVersion_def)

lemma getCurrentVersion_cong: "m_versions m = m_versions m' \<Longrightarrow> getCurrentVersion m = getCurrentVersion m'"
  by (simp add: getCurrentVersion_def)

lemma updateCurrentVersionContent_frame [simp]:
  "m_key (updateCurrentVersionContent m c) = m_key m"
  "m_from (updateCurrentVersionContent m c) = m_from m"
  "m_status (updateCurrentVersionContent m c) = m_status m"
  "m_reasoning (updateCurrentVersionContent m c) = m_reasoning m"
  "m_versions (updateCurrentVersionContent m c) = [(getCurrentVersion m)\<lparr>v_content := c\<rparr>]"
  by (simp_all add: updateCurrentVersionContent_def)

lemma completeAssistantTiming_frame [simp]:
  "m_key (completeAssistantTiming n m) = m_key m"
  "m_from (completeAssistantTiming n m) = m_from m"
  "m_status (completeAssistantTiming n m) = m_status m"
  "m_reasoning (completeAssistantTiming n m) = m_reasoning m"
  "m_versions (completeAssistantTiming n m) = m_versions m"
  "m_isReasoningStreaming (completeAssistantTiming n m) = m_isReasoningStreaming m"
  by (simp_all add: completeAssistantTiming_def Let_def)

lemma completeReasoningTiming_frame [simp]:
  "m_key (completeReasoningTiming n m) = m_key m"
  "m_from (completeReasoningTiming n m) = m_from m"
  "m_status (completeReasoningTiming n m) = m_status m"
  "m_versions (completeReasoningTiming n m) = m_versions m"
  "m_isReasoningStreaming (completeReasoningTiming n m) = m_isReasoningStreaming m"
  by (simp_all add: completeReasoningTiming_def Let_def split: option.splits)

lemma processStreamingContent_frame [simp]:
  "m_key (processStreamingContent n m c) = m_key m"
  "m_from (processStreamingContent n m c) = m_from m"
  "m_status (processStreamingContent n m c) = m_status m"
  "m_versions (processStreamingContent n m c)
     = [(getCurrentVersion m)\<lparr>v_content := v_content (getCurrentVersion m) @ c\<rparr>]"
  by (simp_all add: processStreamingContent_def Let_def)

lemma applyStreamingChunk_frame [simp]:
  "m_key (applyStreamingChunk n m ty c) = m_key m"
  "m_from (applyStreamingChunk n m ty c) = m_from m"
  by (simp_all add: applyStreamingChunk_def Let_def split: StreamChunkType.splits)

lemma applyStreamingChunk_status:
  "m_status (applyStreamingChunk n m ty c) = (if m_status m = Some ERROR then Some ERROR else Some STREAMING)"
  by (simp add: applyStreamingChunk_def Let_def split: StreamChunkType.splits)

lemma applyStreamingChunk_versions:
  "m_versions (applyStreamingChunk n m ty c) =
     (if m_status m = Some ERROR \<or> ty = ReasoningChunk then m_versions m
      else [(getCurrentVersion m)\<lparr>v_content := getMessageContent m @ getAppendableChunk (getMessageContent m) c\<rparr>])"
  by (simp add: applyStreamingChunk_def Let_def getMessageContent_def split: StreamChunkType.splits)

lemma applyStreamingChunk_content:
  "m_status m \<noteq> Some ERROR \<Longrightarrow>
   getMessageContent (applyStreamingChunk n m ContentChunk c)
     = getMessageContent m @ getAppendableChunk (getMessageContent m) c"
  by (simp add: getMessageContent_def [of "applyStreamingChunk n m ContentChunk c"]
      getCurrentVersion_def [of "applyStreamingChunk n m ContentChunk c"] applyStreamingChunk_versions)

lemma finalizeMessage_frame [simp]:
  "m_key (finalizeMessage n m a) = m_key m"
  "m_from (finalizeMessage n m a) = m_from m"
  "m_status (finalizeMessage n m a) = m_status m"
  "m_isReasoningStreaming (finalizeMessage n m a) = Some False"
  by (simp_all add: finalizeMessage_def Let_def)

lemma finalizeMessage_versions [simp]: "m_versions (finalizeMessage n m a) \<noteq> []"
  by (simp add: finalizeMessage_def Let_def)

lemma sanitizeMessage_frame [simp]:
  "m_key (sanitizeMessage t n m) = m_key m"
  "m_from (sanitizeMessage t n m) = m_from m"
  "m_versions (sanitizeMessage t n m) \<noteq> []"
  by (simp_all add: sanitizeMessage_def Let_def)

lemma sanitizeMessage_status:
  "m_status (sanitizeMessage t n m) = Some COMPLETE \<or> m_status (sanitizeMessage t n m) = Some ERROR"
  by (simp add: sanitizeMessage_def Let_def)

subsection \<open>Well-formed conversations\<close>

text \<open>Keys identify messages, and every message has a version (the storage schema demands both the array
  and at least one element).\<close>

definition wf_conversation :: "Message list \<Rightarrow> bool" where
  "wf_conversation ms \<longleftrightarrow> distinct (map m_key ms) \<and> list_all (\<lambda>m. m_versions m \<noteq> []) ms"

text \<open>What the code hands to \<^const>\<open>updateLastAssistantMessage\<close>: an update that keeps the identity of
  the message and does not drop its version.\<close>

locale message_updater =
  fixes upd :: "Message \<Rightarrow> Message"
  assumes upd_key: "m_key (upd m) = m_key m"
    and upd_from: "m_from (upd m) = m_from m"
    and upd_versions: "m_versions m \<noteq> [] \<Longrightarrow> m_versions (upd m) \<noteq> []"
begin

lemma update_last_keys: "map m_key (updateLastAssistantMessage ms upd) = map m_key ms"
  by (cases ms rule: rev_cases) (auto simp: updateLastAssistantMessage_def upd_key)

lemma update_last_roles: "map m_from (updateLastAssistantMessage ms upd) = map m_from ms"
  by (cases ms rule: rev_cases) (auto simp: updateLastAssistantMessage_def upd_from)

lemma update_last_butlast: "butlast (updateLastAssistantMessage ms upd) = butlast ms"
  by (cases ms rule: rev_cases) (auto simp: updateLastAssistantMessage_def)

lemma update_last_wf: "wf_conversation ms \<Longrightarrow> wf_conversation (updateLastAssistantMessage ms upd)"
  using update_last_keys [of ms]
  by (cases ms rule: rev_cases) (auto simp: wf_conversation_def updateLastAssistantMessage_def upd_versions)

end

definition error_updater :: "int \<Rightarrow> string \<Rightarrow> string option \<Rightarrow> string \<Rightarrow> Message \<Rightarrow> Message" where
  "error_updater now errorMessage errorCode title m =
     completeAssistantTiming now
       ((updateCurrentVersionContent m (title @ '': '' @ errorMessage))
          \<lparr>m_status := Some ERROR, m_isReasoningStreaming := Some False,
            m_errorCode := (case errorCode of Some (c # cs) \<Rightarrow> Value (c # cs) | _ \<Rightarrow> Null)\<rparr>)"

lemma updateAssistantMessageWithError_eq:
  "updateAssistantMessageWithError now ms msg code title
     = updateLastAssistantMessage ms (error_updater now msg code title)"
  by (simp add: updateAssistantMessageWithError_def error_updater_def [abs_def])

interpretation chunk_updater: message_updater "\<lambda>m. applyStreamingChunk now m ty c" for now ty c
  by unfold_locales (simp_all add: applyStreamingChunk_versions)

interpretation complete_updater: message_updater "completeAssistantMessage now" for now
  by unfold_locales (simp_all add: completeAssistantMessage_def)

interpretation error_updater: message_updater "error_updater now msg code title" for now msg code title
  by unfold_locales (simp_all add: error_updater_def)

interpretation choice_updater: message_updater "\<lambda>m. applyChatCompletionChoice now m choice" for now choice
  by unfold_locales (simp_all add: applyChatCompletionChoice_def)


subsection \<open>Conversation edits\<close>

lemma findIndex_Some:
  assumes "findIndex P xs = Some i"
  shows "i < length xs" and "P (xs ! i)" and "\<And>x. x \<in> set (take i xs) \<Longrightarrow> \<not> P x"
proof -
  have i: "i = length (takeWhile (\<lambda>x. \<not> P x) xs)" "i < length xs"
    using assms by (auto simp: findIndex_def Let_def split: if_splits)
  then show "i < length xs" by simp
  show "P (xs ! i)" using nth_length_takeWhile [of "\<lambda>x. \<not> P x" xs] i by simp
  have "take i xs = takeWhile (\<lambda>x. \<not> P x) xs" using i(1) by (metis takeWhile_eq_take)
  then show "\<And>x. x \<in> set (take i xs) \<Longrightarrow> \<not> P x" by (auto dest: set_takeWhileD)
qed

lemma findIndex_None: "findIndex P xs = None \<longleftrightarrow> (\<forall>x\<in>set xs. \<not> P x)"
proof -
  have "length (takeWhile (\<lambda>x. \<not> P x) xs) < length xs \<longleftrightarrow> \<not> (\<forall>x\<in>set xs. \<not> P x)"
    by (induction xs) auto
  then show ?thesis by (auto simp: findIndex_def Let_def)
qed

lemma wf_conversation_take: "wf_conversation ms \<Longrightarrow> wf_conversation (take n ms)"
  by (auto simp: wf_conversation_def list_all_iff take_map [symmetric] distinct_take dest: in_set_takeD)

lemma wf_conversation_snoc:
  "wf_conversation ms \<Longrightarrow> m_key m \<notin> m_key ` set ms \<Longrightarrow> m_versions m \<noteq> [] \<Longrightarrow> wf_conversation (ms @ [m])"
  by (auto simp: wf_conversation_def)

lemma wf_conversation_filter: "wf_conversation ms \<Longrightarrow> wf_conversation (filter P ms)"
  by (auto simp: wf_conversation_def list_all_iff distinct_map_filter)

lemma wf_conversation_map:
  assumes "wf_conversation ms" and "\<And>m. m_key (f m) = m_key m"
    and "\<And>m. m_versions m \<noteq> [] \<Longrightarrow> m_versions (f m) \<noteq> []"
  shows "wf_conversation (map f ms)"
  using assms by (auto simp: wf_conversation_def list_all_iff comp_def)

lemma createLoadingAssistantMessage_simps [simp]:
  "m_key (createLoadingAssistantMessage k v n) = k"
  "m_from (createLoadingAssistantMessage k v n) = ASSISTANT"
  "m_versions (createLoadingAssistantMessage k v n) \<noteq> []"
  "m_status (createLoadingAssistantMessage k v n) = Some LOADING"
  by (simp_all add: createLoadingAssistantMessage_def)

lemma createUserMessage_simps [simp]:
  "m_key (createUserMessage k v c n a) = k"
  "m_from (createUserMessage k v c n a) = USER"
  "m_versions (createUserMessage k v c n a) \<noteq> []"
  by (simp_all add: createUserMessage_def)

lemma keys_take: "k \<notin> m_key ` set ms \<Longrightarrow> k \<notin> m_key ` set (take n ms)"
  by (auto dest: in_set_takeD)

lemma edit_message_frame [simp]:
  "m_key (edit_message n k c b m) = m_key m"
  "m_from (edit_message n k c b m) = m_from m"
  "m_versions m \<noteq> [] \<Longrightarrow> m_versions (edit_message n k c b m) \<noteq> []"
  by (simp_all add: edit_message_def)

lemma applyMessageEdit_eq:
  "applyMessageEdit ids n ms k c b =
     (case findIndex (\<lambda>m. m_key m = k) ms of
        None \<Rightarrow> None
      | Some i \<Rightarrow>
          if \<not> b \<or> m_from (ms ! i) \<noteq> USER then Some (map (edit_message n k c b) ms, False)
          else Some (take (i + 1) (map (edit_message n k c b) ms)
            @ [createLoadingAssistantMessage (fst ids) (snd ids) n], True))"
  by (auto simp: applyMessageEdit_def Let_def dest: findIndex_Some(1) split: option.splits)

lemma last_index_Some:
  "last_index P xs = Some i \<Longrightarrow> i < length xs \<and> P (xs ! i) \<and> (\<forall>j<length xs. i < j \<longrightarrow> \<not> P (xs ! j))"
proof (induction xs arbitrary: i)
  case (Cons x xs)
  show ?case
  proof (cases "last_index P xs")
    case None
    then have "i = 0" "P x" using Cons.prems by (auto split: if_splits)
    moreover have "\<not> P y" if "y \<in> set xs" for y
      using None that by (induction xs) (auto split: option.splits if_splits)
    ultimately show ?thesis by (auto simp: nth_Cons split: nat.splits)
  next
    case (Some j)
    then have "i = Suc j" using Cons.prems by simp
    then show ?thesis using Cons.IH [OF Some] by (auto simp: nth_Cons split: nat.splits)
  qed
qed simp

lemma last_index_None: "last_index P xs = None \<longleftrightarrow> filter P xs = []"
  by (induction xs) (auto split: option.splits)

lemma pending_update:
  assumes "i < length ms" and "P (ms ! i)" and "\<not> P x"
  shows "length (filter P ms) = Suc (length (filter P (ms[i := x])))"
proof -
  have "filter P ms = filter P (take i ms @ ms ! i # drop (Suc i) ms)"
    using id_take_nth_drop [OF assms(1)] by metis
  moreover have "filter P (ms[i := x]) = filter P (take i ms @ x # drop (Suc i) ms)"
    using assms(1) by (simp add: upd_conv_take_nth_drop)
  ultimately show ?thesis using assms(2,3) by simp
qed

lemma sanitizeMessage_not_pending: "\<not> isPendingAssistantMessage (sanitizeMessage t n m)"
  using sanitizeMessage_status [of t n m] by (auto simp: isPendingAssistantMessage_def isAssistantMessagePending_def)


subsection \<open>Streams of chunks\<close>

text \<open>Content chunks arriving one after the other, each with the clock reading of its arrival.\<close>

definition stream_content :: "Message \<Rightarrow> (int \<times> string) list \<Rightarrow> Message" where
  "stream_content m tcs = foldl (\<lambda>m (now, c). applyStreamingChunk now m ContentChunk c) m tcs"

text \<open>A delta stream: no chunk begins with all the text received before it.\<close>

fun delta_stream :: "string \<Rightarrow> string list \<Rightarrow> bool" where
  "delta_stream cur [] = True"
| "delta_stream cur (c # cs) = ((cur = [] \<or> \<not> startsWith c cur) \<and> delta_stream (cur @ c) cs)"

text \<open>A snapshot stream: every chunk repeats all the text received before it.\<close>

fun snapshot_stream :: "string \<Rightarrow> string list \<Rightarrow> bool" where
  "snapshot_stream cur [] = True"
| "snapshot_stream cur (c # cs) = (startsWith c cur \<and> snapshot_stream c cs)"

lemma stream_content_Cons:
  "stream_content m ((now, c) # tcs) = stream_content (applyStreamingChunk now m ContentChunk c) tcs"
  by (simp add: stream_content_def)

lemma append_appendable: "cur = [] \<or> startsWith c cur \<Longrightarrow> cur @ getAppendableChunk cur c = c"
  by (auto simp: getAppendableChunk_def startsWith_iff)

lemma stream_snapshot:
  "m_status m \<noteq> Some ERROR \<Longrightarrow> snapshot_stream (getMessageContent m) (map snd tcs) \<Longrightarrow>
   getMessageContent (stream_content m tcs) = last (getMessageContent m # map snd tcs)"
proof (induction tcs arbitrary: m)
  case Nil
  then show ?case by (simp add: stream_content_def)
next
  case (Cons tc tcs)
  obtain now c where tc: "tc = (now, c)" by (cases tc)
  let ?m = "applyStreamingChunk now m ContentChunk c"
  have "getMessageContent ?m = c"
    using Cons.prems tc by (simp add: applyStreamingChunk_content append_appendable)
  then show ?case using Cons.IH [of ?m] Cons.prems tc
    by (simp add: stream_content_Cons applyStreamingChunk_status)
qed

lemma stream_delta:
  "m_status m \<noteq> Some ERROR \<Longrightarrow> delta_stream (getMessageContent m) (map snd tcs) \<Longrightarrow>
   getMessageContent (stream_content m tcs) = getMessageContent m @ concat (map snd tcs)"
proof (induction tcs arbitrary: m)
  case Nil
  then show ?case by (simp add: stream_content_def)
next
  case (Cons tc tcs)
  obtain now c where tc: "tc = (now, c)" by (cases tc)
  let ?m = "applyStreamingChunk now m ContentChunk c"
  have "getMessageContent ?m = getMessageContent m @ c"
    using Cons.prems tc by (auto simp: applyStreamingChunk_content getAppendableChunk_def)
  then show ?case using Cons.IH [of ?m] Cons.prems tc
    by (simp add: stream_content_Cons applyStreamingChunk_status)
qed

subsection \<open>Properties\<close>

text \<open>A message to run the witnesses on.\<close>

definition sample_loading :: Message where
  "sample_loading = createLoadingAssistantMessage ''a1'' ''v1'' 1000"

lemma sample_loading_facts:
  "m_status sample_loading = Some LOADING" "getMessageContent sample_loading = []"
  "m_from sample_loading = ASSISTANT"
  by (simp_all add: sample_loading_def createLoadingAssistantMessage_def getMessageContent_def
      getCurrentVersion_def createMessageVersion_def)

text \<open>C8: the thinking-tag parser inverts the tag grammar: for any sequence of visible and reasoning parts
  in which no visible part contains an open tag and no reasoning part a close tag, the text that wraps
  the reasoning parts in tags is parsed into the concatenated visible parts and the joined reasoning
  parts, and an unclosed last tag is reported as such.\<close>

theorem think_tags_roundtrip:
  assumes "wf_think segs fin" and "segs \<noteq> [] \<or> tail_open fin"
  shows "parseThinkTags (render_think segs fin) =
    \<lparr>t_visibleContent = trim (concat (map fst segs) @ tail_visible fin),
     t_reasoning = trim (join [CHR 0x0A, CHR 0x0A] (map snd segs @ tail_reasoning fin)),
     t_hasUnclosedTag = tail_open fin\<rparr>"
  by (rule parseThinkTags_render [OF assms])

theorem think_tags_roundtrip_witness:
  "parseThinkTags ''a<think>b</think>c<think>d'' =
     \<lparr>t_visibleContent = ''ac'', t_reasoning = ''b'' @ [CHR 0x0A, CHR 0x0A] @ ''d'', t_hasUnclosedTag = True\<rparr>"
proof -
  have "wf_think [(''a'', ''b'')] (OpenTail ''c'' ''d'')"
    by (simp add: wf_think_def js_includes_def startsWith_def OPEN_TAG_def CLOSE_TAG_def)
  then show ?thesis
    using think_tags_roundtrip [of "[(''a'', ''b'')]" "OpenTail ''c'' ''d''"]
    by (simp add: OPEN_TAG_def CLOSE_TAG_def trim_def trim_by_def is_ws_def)
qed

text \<open>every content is such a sequence of parts, so the parser loses no text: what it does not return as
  visible content or reasoning is only tags and the white space at the ends, and a content without an
  open tag is returned unchanged.\<close>

theorem think_tags_total:
  "\<exists>segs fin. wf_think segs fin \<and> content = render_think segs fin \<and>
     parseThinkTags content =
       (if js_includes content OPEN_TAG
        then \<lparr>t_visibleContent = trim (concat (map fst segs) @ tail_visible fin),
              t_reasoning = trim (join [CHR 0x0A, CHR 0x0A] (map snd segs @ tail_reasoning fin)),
              t_hasUnclosedTag = tail_open fin\<rparr>
        else \<lparr>t_visibleContent = content, t_reasoning = [], t_hasUnclosedTag = False\<rparr>)"
proof -
  obtain segs fin where w: "wf_think segs fin" "content = render_think segs fin"
    using render_think_total by blast
  have "segs \<noteq> [] \<or> tail_open fin" if "js_includes content OPEN_TAG"
    using that w by (cases segs; cases fin) (auto simp: wf_think_def)
  then show ?thesis using w parseThinkTags_render [OF w(1)]
    by (intro exI [of _ segs] exI [of _ fin]) (auto simp: parseThinkTags_def)
qed

text \<open>when the server sends cumulative snapshots (each chunk repeats the text so far), the streamed
  message's content is the last snapshot: nothing is duplicated.\<close>

theorem stream_snapshots_no_duplication:
  assumes "m_status m \<noteq> Some ERROR" and "snapshot_stream (getMessageContent m) (map snd tcs)"
  shows "getMessageContent (stream_content m tcs) = last (getMessageContent m # map snd tcs)"
  by (rule stream_snapshot [OF assms])

theorem stream_snapshots_no_duplication_witness:
  "getMessageContent (stream_content sample_loading [(1001, ''He''), (1002, ''Hello'')]) = ''Hello''"
proof -
  have "snapshot_stream (getMessageContent sample_loading) (map snd [(1001::int, ''He''), (1002, ''Hello'')])"
    by (simp add: sample_loading_facts startsWith_def)
  then show ?thesis
    using stream_snapshots_no_duplication [of sample_loading "[(1001, ''He''), (1002, ''Hello'')]"]
    by (simp add: sample_loading_facts)
qed

text \<open>when the server sends deltas and no delta happens to begin with all the text received before it,
  the streamed message's content is the concatenation of the deltas.\<close>

theorem stream_deltas_concatenate:
  assumes "m_status m \<noteq> Some ERROR" and "delta_stream (getMessageContent m) (map snd tcs)"
  shows "getMessageContent (stream_content m tcs) = getMessageContent m @ concat (map snd tcs)"
  by (rule stream_delta [OF assms])

theorem stream_deltas_concatenate_witness:
  "getMessageContent (stream_content sample_loading [(1001, ''He''), (1002, ''llo'')]) = ''Hello''"
proof -
  have "delta_stream (getMessageContent sample_loading) (map snd [(1001::int, ''He''), (1002, ''llo'')])"
    by (simp add: sample_loading_facts startsWith_def)
  then show ?thesis
    using stream_deltas_concatenate [of sample_loading "[(1001, ''He''), (1002, ''llo'')]"]
    by (simp add: sample_loading_facts)
qed

text \<open>a delta that begins with all the text received before it is taken for a snapshot: its first part is
  not appended, so a delta stream whose second delta repeats the first loses one copy of it.\<close>

theorem repeated_delta_lost:
  assumes "m_status m \<noteq> Some ERROR" and "getMessageContent m \<noteq> []"
  shows "getMessageContent (applyStreamingChunk now m ContentChunk (getMessageContent m @ c))
    = getMessageContent m @ c"
  using assms by (simp add: applyStreamingChunk_content append_appendable)

theorem repeated_delta_lost_witness:
  "getMessageContent (stream_content sample_loading [(1001, ''ha''), (1002, ''ha'')]) = ''ha''"
proof -
  let ?m = "applyStreamingChunk 1001 sample_loading ContentChunk ''ha''"
  have c: "getMessageContent ?m = ''ha''" and st: "m_status ?m \<noteq> Some ERROR"
    by (simp_all add: applyStreamingChunk_content getAppendableChunk_def applyStreamingChunk_status sample_loading_facts)
  show ?thesis using repeated_delta_lost [OF st, of 1002 "[]"] c
    by (simp add: stream_content_def)
qed

text \<open>every edit of the conversation (sending, regenerating, deleting, editing with or without
  resubmission) keeps keys unique and every message versioned, provided the new identifiers are fresh.\<close>

theorem conversation_edits_wf:
  assumes "wf_conversation ms" and "k1 \<notin> m_key ` set ms" and "k2 \<notin> m_key ` set ms" and "k1 \<noteq> k2"
  shows "wf_conversation (appendUserMessagePair (k1, v1, k2, v2) now ms content attachments)
    \<and> pred_option wf_conversation (createRegeneratedMessages (k2, v2) now ms key)
    \<and> wf_conversation (removeMessageByKey ms key)
    \<and> pred_option (\<lambda>(ms', _). wf_conversation ms') (applyMessageEdit (k2, v2) now ms key content submit)"
proof (intro conjI)
  have "wf_conversation (ms @ [createUserMessage k1 v1 content now attachments])"
    using assms by (intro wf_conversation_snoc) simp_all
  then show "wf_conversation (appendUserMessagePair (k1, v1, k2, v2) now ms content attachments)"
    using assms wf_conversation_snoc [of "ms @ [createUserMessage k1 v1 content now attachments]"
        "createLoadingAssistantMessage k2 v2 now"]
    by (auto simp: appendUserMessagePair_def)
  have reload: "wf_conversation (take n xs @ [createLoadingAssistantMessage k2 v2 now])"
    if "wf_conversation xs" "k2 \<notin> m_key ` set xs" for n xs
    using that keys_take [of k2 xs n] by (intro wf_conversation_snoc wf_conversation_take) simp_all
  show "pred_option wf_conversation (createRegeneratedMessages (k2, v2) now ms key)"
    using reload [OF assms(1,3)] by (auto simp: createRegeneratedMessages_def split: option.splits)
  show "wf_conversation (removeMessageByKey ms key)"
    unfolding removeMessageByKey_def by (rule wf_conversation_filter [OF assms(1)])
  have e: "wf_conversation (map (edit_message now key content submit) ms)"
    by (rule wf_conversation_map [OF assms(1)]) simp_all
  then show "pred_option (\<lambda>(ms', _). wf_conversation ms') (applyMessageEdit (k2, v2) now ms key content submit)"
    using reload [OF e] assms(3) by (auto simp: applyMessageEdit_eq image_comp split: option.splits)
qed

theorem conversation_edits_wf_witness:
  "wf_conversation (appendUserMessagePair (''u'', ''v'', ''a2'', ''v2'') 5 [sample_loading] ''hi'' [])"
  using conversation_edits_wf [of "[sample_loading]" "''u''" "''a2''"]
  by (simp add: wf_conversation_def sample_loading_def)

text \<open>resubmitting an edited user message keeps the messages before it, replaces that message's content,
  drops everything after it and ends the conversation with a fresh loading assistant message.\<close>

theorem edit_and_submit_truncates:
  assumes "findIndex (\<lambda>m. m_key m = key) ms = Some i" and "m_from (ms ! i) = USER"
    and "wf_conversation ms"
  shows "applyMessageEdit ids now ms key content True =
    Some (take i ms
      @ [(updateCurrentVersionContent (ms ! i) content)\<lparr>m_createdAt := Some now\<rparr>,
         createLoadingAssistantMessage (fst ids) (snd ids) now], True)"
proof -
  have i: "i < length ms" "m_key (ms ! i) = key" using findIndex_Some [OF assms(1)] by auto
  have "edit_message now key content True m = m" if "m \<in> set (take i ms)" for m
    using findIndex_Some(3) [OF assms(1) that] by (simp add: edit_message_def)
  then have "map (edit_message now key content True) (take i ms) = take i ms" by (simp add: map_idI)
  then have "take (i + 1) (map (edit_message now key content True) ms)
      = take i ms @ [edit_message now key content True (ms ! i)]"
    using i(1) by (simp add: take_map [symmetric] take_Suc_conv_app_nth)
  then show ?thesis using assms i by (simp add: applyMessageEdit_eq edit_message_def)
qed

theorem edit_and_submit_truncates_witness:
  "\<exists>ms. applyMessageEdit (''n'', ''w'') 9 [createUserMessage ''u'' ''v'' ''hi'' 1 [], sample_loading] ''u'' ''ho'' True
     = Some (ms, True) \<and> length ms = 2"
  using edit_and_submit_truncates [of "''u''" "[createUserMessage ''u'' ''v'' ''hi'' 1 [], sample_loading]" 0]
  by (simp add: findIndex_def wf_conversation_def sample_loading_def)

text \<open>The operations at a message whose key is its own, with the messages before and after it.\<close>

definition edited_message :: "int \<Rightarrow> string \<Rightarrow> bool \<Rightarrow> Message \<Rightarrow> Message" where
  "edited_message now content submit m =
     m\<lparr>m_versions := [\<lparr>v_id = v_id (getCurrentVersion m), v_content = content\<rparr>],
       m_createdAt := (if submit then Some now else m_createdAt m)\<rparr>"

lemma findIndex_at: "\<forall>x \<in> set before. \<not> P x \<Longrightarrow> P m \<Longrightarrow> findIndex P (before @ m # after) = Some (length before)"
  by (simp add: findIndex_def Let_def takeWhile_append2)

lemma own_key:
  assumes "wf_conversation (before @ m # after)"
  shows "\<forall>x \<in> set before. m_key x \<noteq> m_key m" "\<forall>x \<in> set after. m_key x \<noteq> m_key m"
  using assms by (auto simp: wf_conversation_def image_iff)

lemma remove_at: "wf_conversation (before @ m # after) \<Longrightarrow> removeMessageByKey (before @ m # after) (m_key m) = before @ after"
  using own_key [of before m after] by (simp add: removeMessageByKey_def)

lemma regenerate_at:
  assumes "wf_conversation (before @ m # after)"
  shows "createRegeneratedMessages ids now (before @ m # after) (m_key m) =
    Some (before @ (if m_from m = USER then [m] else []) @ [createLoadingAssistantMessage (fst ids) (snd ids) now])"
  using findIndex_at [of before "\<lambda>x. m_key x = m_key m" m after] own_key(1) [OF assms] by (simp add: createRegeneratedMessages_def)

lemma edit_at:
  assumes "wf_conversation (before @ m # after)"
  shows "applyMessageEdit ids now (before @ m # after) (m_key m) content submit =
    Some (if submit \<and> m_from m = USER
          then (before @ [edited_message now content submit m, createLoadingAssistantMessage (fst ids) (snd ids) now], True)
          else (before @ edited_message now content submit m # after, False))"
proof -
  define e where "e = edit_message now (m_key m) content submit"
  have "map e before = before" "map e after = after" using own_key [OF assms] by (auto simp: e_def edit_message_def intro: map_idI)
  moreover have "e m = edited_message now content submit m"
    by (simp add: e_def edit_message_def edited_message_def updateCurrentVersionContent_def)
  moreover have "m_from (edited_message now content b m) = m_from m" for b by (simp add: edited_message_def)
  ultimately show ?thesis
    using findIndex_at [of before "\<lambda>x. m_key x = m_key m" m after] own_key(1) [OF assms]
    by (simp add: applyMessageEdit_def e_def [symmetric] Let_def nth_append)
qed

text \<open>
  C39: What deleting, regenerating and editing do to a conversation with unique keys, at the message \<open>m\<close> between \<open>before\<close> and \<open>after\<close>.
  Deleting takes \<open>m\<close> out.  Regenerating drops what follows \<open>m\<close>, keeps \<open>m\<close> only if it is the user's, and appends a loading answer.
  Editing replaces the text of \<open>m\<close> alone; only if the edit of a user's message is submitted is what follows it replaced by a loading
  answer and sent.  A key that no message has changes nothing, and nothing is regenerated or edited.
\<close>

theorem conversation_edits_exact:
  assumes "wf_conversation (before @ m # after)" "k \<notin> m_key ` set (before @ m # after)"
  shows "removeMessageByKey (before @ m # after) (m_key m) = before @ after
    \<and> createRegeneratedMessages ids now (before @ m # after) (m_key m) =
        Some (before @ (if m_from m = USER then [m] else []) @ [createLoadingAssistantMessage (fst ids) (snd ids) now])
    \<and> applyMessageEdit ids now (before @ m # after) (m_key m) content submit =
        Some (if submit \<and> m_from m = USER
              then (before @ [edited_message now content submit m, createLoadingAssistantMessage (fst ids) (snd ids) now], True)
              else (before @ edited_message now content submit m # after, False))
    \<and> removeMessageByKey (before @ m # after) k = before @ m # after
    \<and> createRegeneratedMessages ids now (before @ m # after) k = None
    \<and> applyMessageEdit ids now (before @ m # after) k content submit = None"
proof -
  have n: "findIndex (\<lambda>x. m_key x = k) (before @ m # after) = None"
    using assms(2) by (auto simp: findIndex_None)
  have "removeMessageByKey (before @ m # after) k = before @ m # after"
    unfolding removeMessageByKey_def using assms(2) by (intro filter_True) auto
  then show ?thesis
    using n remove_at [OF assms(1)] regenerate_at [OF assms(1)] edit_at [OF assms(1)]
    by (simp add: createRegeneratedMessages_def applyMessageEdit_def)
qed

theorem conversation_edits_exact_witness:
  "createRegeneratedMessages (''n'', ''w'') 9 [createUserMessage ''u'' ''v'' ''hi'' 1 [], sample_loading] (m_key sample_loading) =
     Some [createUserMessage ''u'' ''v'' ''hi'' 1 [], createLoadingAssistantMessage ''n'' ''w'' 9]"
  using conversation_edits_exact [of "[createUserMessage ''u'' ''v'' ''hi'' 1 []]" sample_loading "[]" "''z''" "(''n'', ''w'')" 9]
  by (simp add: wf_conversation_def sample_loading_def createUserMessage_def createLoadingAssistantMessage_def)

text \<open>repairing a loaded conversation settles exactly one message, the last assistant message that is still
  loading or streaming: it ends complete or in error, every other message is untouched, and one message
  fewer is pending.\<close>

theorem sanitize_settles_last_pending:
  assumes "last_index isPendingAssistantMessage ms = Some i"
  shows "sanitizeMessagesOnLoad t now ms = ms[i := sanitizeMessage t now (ms ! i)]
    \<and> isAssistantMessageFinal (sanitizeMessagesOnLoad t now ms ! i)
    \<and> length (filter isPendingAssistantMessage ms)
        = Suc (length (filter isPendingAssistantMessage (sanitizeMessagesOnLoad t now ms)))"
proof -
  have i: "i < length ms" "isPendingAssistantMessage (ms ! i)" using last_index_Some [OF assms] by auto
  have s: "sanitizeMessagesOnLoad t now ms = ms[i := sanitizeMessage t now (ms ! i)]"
    using assms by (simp add: sanitizeMessagesOnLoad_def)
  show ?thesis
    using i sanitizeMessage_status [of t now "ms ! i"]
      pending_update [OF i sanitizeMessage_not_pending] by (simp add: s isAssistantMessageFinal_def)
qed

theorem sanitize_settles_last_pending_witness:
  "length (filter isPendingAssistantMessage (sanitizeMessagesOnLoad id 7 [sample_loading, sample_loading])) = 1"
proof -
  have p: "isPendingAssistantMessage sample_loading"
    by (simp add: isPendingAssistantMessage_def isAssistantMessagePending_def sample_loading_facts)
  then have "last_index isPendingAssistantMessage [sample_loading, sample_loading] = Some 1" by simp
  from sanitize_settles_last_pending [OF this, of id 7]
  have "length (filter isPendingAssistantMessage [sample_loading, sample_loading])
      = Suc (length (filter isPendingAssistantMessage (sanitizeMessagesOnLoad id 7 [sample_loading, sample_loading])))"
    by blast
  then show ?thesis using p by simp
qed

text \<open>completing an assistant message leaves it final: its status is complete, no reasoning is streaming any
  more, its duration is recorded and not negative, and any reasoning it has is non-empty and timed.\<close>

theorem complete_message_final:
  assumes "m_from m = ASSISTANT"
  shows "isAssistantMessageFinal (completeAssistantMessage now m)
    \<and> m_isReasoningStreaming (completeAssistantMessage now m) = Some False
    \<and> (\<exists>d \<ge> 0. m_durationMs (completeAssistantMessage now m) = Some d)
    \<and> pred_option (\<lambda>r. r_content r \<noteq> [] \<and> r_durationMs r \<noteq> None) (m_reasoning (completeAssistantMessage now m))"
proof -
  have "pred_option (\<lambda>r. r_content r \<noteq> [] \<and> r_durationMs r \<noteq> None) (m_reasoning (finalizeMessage now m None))"
    by (auto simp: finalizeMessage_def completeReasoningTiming_def Let_def split: option.splits)
  then show ?thesis using assms
    by (simp add: completeAssistantMessage_def isAssistantMessageFinal_def completeAssistantTiming_def Let_def)
qed

theorem complete_message_final_witness:
  "isAssistantMessageFinal (completeAssistantMessage 1500 sample_loading)"
  using complete_message_final [of sample_loading 1500] by (simp add: sample_loading_facts)

end
