(* ===== verification/Json.thy ===== *)
theory Json
  imports Complex_Main Prelude
begin

text \<open>
  Values of the language as far as the sources inspect them, and the standard library's
  \<open>JSON.parse\<close> that produces them.  Numbers are exact rationals: rounding to binary64 and overflow
  to infinity are not modelled.  Strings are code units below 256, so an escape \<open>\\u\<close> above
  \<open>00ff\<close> is outside the model and refused.  An absent property (\<open>undefined\<close>) is \<^const>\<open>None\<close>.
\<close>

datatype jsval =
    JNull
  | JBool bool
  | JNum rat
  | JStr string
  | JArr "jsval list"
  | JObj "(string \<times> jsval) list"

subsection \<open>Properties, truthiness, types\<close>

text \<open>Own properties are enumerated with the array indices first, in numeric order, then the other keys in
  the order they were first written; writing a key again keeps its place.\<close>

definition decimal :: "nat \<Rightarrow> string" where
  "decimal n = map (\<lambda>d. char_of (d + 48)) (decimal_digits n)"

definition char_digit :: "char \<Rightarrow> nat option" where
  "char_digit c = (let n = of_char c :: nat in if 48 \<le> n \<and> n \<le> 57 then Some (n - 48) else None)"

definition is_digit_char :: "char \<Rightarrow> bool" where
  "is_digit_char c \<longleftrightarrow> char_digit c \<noteq> None"

definition digits_value :: "string \<Rightarrow> nat" where
  "digits_value s = numeral_value (List.map_filter char_digit s)"

definition is_array_index :: "string \<Rightarrow> bool" where
  "is_array_index k \<longleftrightarrow>
     k \<noteq> [] \<and> list_all is_digit_char k \<and> (k = ''0'' \<or> hd k \<noteq> CHR ''0'') \<and> digits_value k < 4294967295"

definition obj_of_pairs :: "(string \<times> jsval) list \<Rightarrow> (string \<times> jsval) list" where
  "obj_of_pairs ps =
     (let m = foldl (\<lambda>m (k, v). AList.update k v m) [] ps in
      sort_key (\<lambda>(k, v). digits_value k) (filter (\<lambda>(k, v). is_array_index k) m)
      @ filter (\<lambda>(k, v). \<not> is_array_index k) m)"

text \<open>\<open>v?.k\<close> and \<open>v?.[i]\<close> on a value that may be nullish; on other values without such a property the
  result is undefined as well.  (\<open>v[i]\<close> of a string is a string, whose properties the sources never
  read.)\<close>

fun get_prop :: "jsval option \<Rightarrow> string \<Rightarrow> jsval option" where
  "get_prop (Some (JObj ps)) k = map_of ps k"
| "get_prop _ k = None"

fun get_index :: "jsval option \<Rightarrow> nat \<Rightarrow> jsval option" where
  "get_index (Some (JArr xs)) i = (if i < length xs then Some (xs ! i) else None)"
| "get_index (Some (JObj ps)) i = map_of ps (decimal i)"
| "get_index _ i = None"

fun truthy :: "jsval option \<Rightarrow> bool" where
  "truthy None = False"
| "truthy (Some JNull) = False"
| "truthy (Some (JBool b)) = b"
| "truthy (Some (JNum n)) = (n \<noteq> 0)"
| "truthy (Some (JStr s)) = (s \<noteq> [])"
| "truthy (Some (JArr _)) = True"
| "truthy (Some (JObj _)) = True"

fun is_str :: "jsval option \<Rightarrow> bool" where
  "is_str (Some (JStr _)) = True"
| "is_str _ = False"

fun is_num :: "jsval option \<Rightarrow> bool" where
  "is_num (Some (JNum _)) = True"
| "is_num _ = False"

fun is_bool :: "jsval option \<Rightarrow> bool" where
  "is_bool (Some (JBool _)) = True"
| "is_bool _ = False"

fun the_str :: "jsval option \<Rightarrow> string" where
  "the_str (Some (JStr s)) = s"
| "the_str _ = []"

fun the_num :: "jsval option \<Rightarrow> rat" where
  "the_num (Some (JNum n)) = n"
| "the_num _ = 0"

text \<open>\<open>v && typeof v === 'object' && !Array.isArray(v)\<close>\<close>

fun plain_object :: "jsval \<Rightarrow> (string \<times> jsval) list option" where
  "plain_object (JObj ps) = Some ps"
| "plain_object _ = None"

text \<open>\<open>Boolean(v) && typeof v === 'object'\<close>: arrays too.\<close>

fun is_record :: "jsval option \<Rightarrow> bool" where
  "is_record (Some (JObj _)) = True"
| "is_record (Some (JArr _)) = True"
| "is_record _ = False"

definition is_integer :: "rat \<Rightarrow> bool" where
  "is_integer q \<longleftrightarrow> of_int \<lfloor>q\<rfloor> = q"

subsection \<open>The parser\<close>

definition json_ws :: "char \<Rightarrow> bool" where
  "json_ws c \<longleftrightarrow> c \<in> set [CHR 0x09, CHR 0x0A, CHR 0x0D, CHR 0x20]"

definition skip_ws :: "string \<Rightarrow> string" where
  "skip_ws = dropWhile json_ws"

definition hex_digit :: "char \<Rightarrow> nat option" where
  "hex_digit c =
     (let n = of_char c :: nat in
      if 48 \<le> n \<and> n \<le> 57 then Some (n - 48)
      else if 97 \<le> n \<and> n \<le> 102 then Some (n - 87)
      else if 65 \<le> n \<and> n \<le> 70 then Some (n - 55)
      else None)"

definition simple_escape :: "char \<Rightarrow> char option" where
  "simple_escape c = map_of
     [(CHR 0x22, CHR 0x22), (CHR 0x5C, CHR 0x5C), (CHR ''/'', CHR ''/''), (CHR ''b'', CHR 0x08),
      (CHR ''f'', CHR 0x0C), (CHR ''n'', CHR 0x0A), (CHR ''r'', CHR 0x0D), (CHR ''t'', CHR 0x09)] c"

definition hex4 :: "char \<Rightarrow> char \<Rightarrow> char \<Rightarrow> char \<Rightarrow> char option" where
  "hex4 a b c d =
     (case (hex_digit a, hex_digit b, hex_digit c, hex_digit d) of
        (Some w, Some x, Some y, Some z) \<Rightarrow>
          (let n = 4096 * w + 256 * x + 16 * y + z in if n < 256 then Some (char_of n) else None)
      | _ \<Rightarrow> None)"

text \<open>The characters of a string literal after its opening quote.\<close>

fun parse_str_body :: "string \<Rightarrow> (string \<times> string) option" where
  "parse_str_body [] = None"
| "parse_str_body (c # cs) =
     (if c = CHR 0x22 then Some ([], cs)
      else if c = CHR 0x5C then
        (case cs of
           [] \<Rightarrow> None
         | e # r \<Rightarrow>
             (case simple_escape e of
                Some ch \<Rightarrow> map_option (\<lambda>(s, rest). (ch # s, rest)) (parse_str_body r)
              | None \<Rightarrow>
                  if e = CHR ''u'' then
                    (case r of
                       h1 # h2 # h3 # h4 # r' \<Rightarrow>
                         (case hex4 h1 h2 h3 h4 of
                            Some ch \<Rightarrow> map_option (\<lambda>(s, rest). (ch # s, rest)) (parse_str_body r')
                          | None \<Rightarrow> None)
                     | _ \<Rightarrow> None)
                  else None))
      else if (of_char c :: nat) < 32 then None
      else map_option (\<lambda>(s, rest). (c # s, rest)) (parse_str_body cs))"

definition span_digits :: "string \<Rightarrow> string \<times> string" where
  "span_digits s = (takeWhile is_digit_char s, dropWhile is_digit_char s)"

definition parse_frac :: "string \<Rightarrow> (rat \<times> string) option" where
  "parse_frac s =
     (case s of
        c # cs \<Rightarrow>
          if c = CHR ''.'' then
            (let (ds, r) = span_digits cs in
             if ds = [] then None
             else Some (of_nat (digits_value ds) / 10 ^ length ds, r))
          else Some (0, s)
      | [] \<Rightarrow> Some (0, s))"

definition parse_exp :: "string \<Rightarrow> (int \<times> string) option" where
  "parse_exp s =
     (case s of
        c # cs \<Rightarrow>
          if c = CHR ''e'' \<or> c = CHR ''E'' then
            (let (neg, cs') = (case cs of
                   x # xs \<Rightarrow> if x = CHR ''-'' then (True, xs) else if x = CHR ''+'' then (False, xs) else (False, cs)
                 | [] \<Rightarrow> (False, cs));
                 (ds, r) = span_digits cs' in
             if ds = [] then None
             else Some (if neg then - int (digits_value ds) else int (digits_value ds), r))
          else Some (0, s)
      | [] \<Rightarrow> Some (0, s))"

definition scale10 :: "rat \<Rightarrow> int \<Rightarrow> rat" where
  "scale10 q e = (if 0 \<le> e then q * 10 ^ nat e else q / 10 ^ nat (- e))"

definition parse_number :: "string \<Rightarrow> (rat \<times> string) option" where
  "parse_number s =
     (let (neg, s1) = (case s of c # cs \<Rightarrow> if c = CHR ''-'' then (True, cs) else (False, s) | [] \<Rightarrow> (False, s));
          (ds, s2) = (case s1 of
             c # cs \<Rightarrow> if c = CHR ''0'' then (''0'', cs) else span_digits s1
           | [] \<Rightarrow> ([], [])) in
      if ds = [] then None
      else (case parse_frac s2 of
              None \<Rightarrow> None
            | Some (f, s3) \<Rightarrow>
                (case parse_exp s3 of
                   None \<Rightarrow> None
                 | Some (e, s4) \<Rightarrow>
                     (let q = scale10 (of_nat (digits_value ds) + f) e in
                      Some (if neg then - q else q, s4)))))"

definition strip_prefix :: "string \<Rightarrow> string \<Rightarrow> string option" where
  "strip_prefix p s = (if startsWith s p then Some (drop (length p) s) else None)"

lemma skip_ws_shorter: "skip_ws s = c # cs \<Longrightarrow> length cs < length s"
  using length_dropWhile_le [of json_ws s] by (simp add: skip_ws_def)

text \<open>Values, the elements of an array after its first element's start, and the members of an object.  The
  guards on the length of the rest hold in every successful parse; they make the recursion well-founded.\<close>

function parse_value :: "string \<Rightarrow> (jsval \<times> string) option"
  and parse_elems :: "string \<Rightarrow> (jsval list \<times> string) option"
  and parse_members :: "string \<Rightarrow> ((string \<times> jsval) list \<times> string) option" where
  "parse_value s =
     (case skip_ws s of
        [] \<Rightarrow> None
      | c # cs \<Rightarrow>
          if c = CHR ''{'' then
            (case skip_ws cs of
               x # xs \<Rightarrow>
                 if x = CHR ''}'' then Some (JObj [], xs)
                 else map_option (\<lambda>(ms, r). (JObj (obj_of_pairs ms), r)) (parse_members cs)
             | [] \<Rightarrow> None)
          else if c = CHR ''['' then
            (case skip_ws cs of
               x # xs \<Rightarrow>
                 if x = CHR '']'' then Some (JArr [], xs)
                 else map_option (\<lambda>(vs, r). (JArr vs, r)) (parse_elems cs)
             | [] \<Rightarrow> None)
          else if c = CHR 0x22 then map_option (\<lambda>(t, r). (JStr t, r)) (parse_str_body cs)
          else (case strip_prefix ''true'' (c # cs) of
              Some r \<Rightarrow> Some (JBool True, r)
            | None \<Rightarrow> (case strip_prefix ''false'' (c # cs) of
                Some r \<Rightarrow> Some (JBool False, r)
              | None \<Rightarrow> (case strip_prefix ''null'' (c # cs) of
                  Some r \<Rightarrow> Some (JNull, r)
                | None \<Rightarrow> map_option (\<lambda>(n, r). (JNum n, r)) (parse_number (c # cs))))))"
| "parse_elems s =
     (case parse_value s of
        None \<Rightarrow> None
      | Some (v, r) \<Rightarrow>
          if length r < length s then
            (case skip_ws r of
               [] \<Rightarrow> None
             | c # cs \<Rightarrow>
                 if c = CHR '']'' then Some ([v], cs)
                 else if c = CHR '','' \<and> length cs < length s
                 then map_option (\<lambda>(vs, r'). (v # vs, r')) (parse_elems cs)
                 else None)
          else None)"
| "parse_members s =
     (case skip_ws s of
        q # cs \<Rightarrow>
          if q = CHR 0x22 then
            (case parse_str_body cs of
               None \<Rightarrow> None
             | Some (k, r) \<Rightarrow>
                 (case skip_ws r of
                    c # r1 \<Rightarrow>
                      if c = CHR '':'' \<and> length r1 < length s then
                        (case parse_value r1 of
                           None \<Rightarrow> None
                         | Some (v, r2) \<Rightarrow>
                             (case skip_ws r2 of
                                [] \<Rightarrow> None
                              | d # ds \<Rightarrow>
                                  if d = CHR ''}'' then Some ([(k, v)], ds)
                                  else if d = CHR '','' \<and> length ds < length s
                                  then map_option (\<lambda>(ms, r'). ((k, v) # ms, r')) (parse_members ds)
                                  else None))
                      else None
                  | [] \<Rightarrow> None))
          else None
      | [] \<Rightarrow> None)"
  by pat_completeness auto
termination
  by (relation "measures [\<lambda>x. case x of Inl s \<Rightarrow> length s | Inr (Inl s) \<Rightarrow> length s | Inr (Inr s) \<Rightarrow> length s,
      \<lambda>x. case x of Inl s \<Rightarrow> 0 | Inr (Inl s) \<Rightarrow> 1 | Inr (Inr s) \<Rightarrow> 1]")
    (auto dest: skip_ws_shorter)

declare parse_value.simps [simp del] parse_elems.simps [simp del] parse_members.simps [simp del]

text \<open>\<open>JSON.parse\<close>: one value and nothing but white space after it.\<close>

definition JSON_parse :: "string \<Rightarrow> jsval option" where
  "JSON_parse s =
     (case parse_value s of
        Some (v, r) \<Rightarrow> if skip_ws r = [] then Some v else None
      | None \<Rightarrow> None)"

text \<open>Evaluation of the parser on a literal.\<close>

lemmas json_eval = JSON_parse_def parse_value.simps parse_elems.simps parse_members.simps skip_ws_def json_ws_def
  strip_prefix_def startsWith_def simple_escape_def obj_of_pairs_def is_array_index_def is_digit_char_def
  char_digit_def Let_def

lemma JSON_parse_example:
  "JSON_parse ''{\"choices\":[{\"delta\":{\"content\":\"hi\"}}]}'' =
     Some (JObj [(''choices'', JArr [JObj [(''delta'', JObj [(''content'', JStr ''hi'')])]])])"
  by (simp add: json_eval)

end
