(* ===== verification/Machines.thy ===== *)
theory Machines
  imports Prelude
begin

text \<open>
  State machines that answer every event with a new state and a list of outputs, as the closures of the
  hooks and controllers do, and the contract shared by those that guard their outputs with a generation
  counter: outputs carry the generation they belong to, the counter never falls, and only outputs of the
  current generation are produced.  The clients' lemma is that nothing of a superseded generation is ever
  produced again.
\<close>

primrec run_steps :: "('e \<Rightarrow> 's \<Rightarrow> 's \<times> 'o list) \<Rightarrow> 'e list \<Rightarrow> 's \<Rightarrow> 's \<times> 'o list" where
  "run_steps step [] s = (s, [])"
| "run_steps step (e # es) s =
     (let (s1, os1) = step e s; (s2, os2) = run_steps step es s1 in (s2, os1 @ os2))"

lemma run_steps_append:
  "run_steps step (es @ fs) s =
     (let (s1, os1) = run_steps step es s; (s2, os2) = run_steps step fs s1 in (s2, os1 @ os2))"
  by (induction es arbitrary: s) (auto simp: Let_def split: prod.splits)

lemma run_steps_single [simp]: "run_steps step [e] s = step e s"
  by (simp add: Let_def split: prod.splits)

text \<open>Invariants of the state together with everything put out so far.\<close>

lemma run_steps_invariant:
  assumes "I s os"
    and "\<And>e s os s' os'. \<lbrakk>e \<in> set es; I s os; step e s = (s', os')\<rbrakk> \<Longrightarrow> I s' (os @ os')"
  shows "I (fst (run_steps step es s)) (os @ snd (run_steps step es s))"
  using assms
proof (induction es arbitrary: s os)
  case Nil
  then show ?case by simp
next
  case (Cons e es)
  obtain s1 os1 where st: "step e s = (s1, os1)" by force
  have I1: "I s1 (os @ os1)" using Cons.prems(2) [OF _ Cons.prems(1) st] by simp
  have "I (fst (run_steps step es s1)) ((os @ os1) @ snd (run_steps step es s1))"
    by (rule Cons.IH [OF I1]) (rule Cons.prems(2), simp_all)
  then show ?case by (simp add: st Let_def split_beta)
qed

lemma run_steps_state_invariant:
  assumes "I s" and "\<And>e s. \<lbrakk>e \<in> set es; I s\<rbrakk> \<Longrightarrow> I (fst (step e s))"
  shows "I (fst (run_steps step es s))"
  using run_steps_invariant [where I = "\<lambda>s os. I s" and os = "[]" and es = es and step = step and s = s] assms
  by (metis fst_conv)

subsection \<open>Generation guards\<close>

locale generation_guard =
  fixes step :: "'e \<Rightarrow> 's \<Rightarrow> 's \<times> 'o list"
    and gen :: "'s \<Rightarrow> nat"
    and tag :: "'o \<Rightarrow> nat"
  assumes gen_mono: "gen s \<le> gen (fst (step e s))"
    and tag_current: "x \<in> set (snd (step e s)) \<Longrightarrow> gen s \<le> tag x \<and> tag x \<le> gen (fst (step e s))"
begin

lemma run_gen_mono: "gen s \<le> gen (fst (run_steps step es s))"
proof (induction es arbitrary: s)
  case Nil
  then show ?case by simp
next
  case (Cons e es)
  have "gen s \<le> gen (fst (step e s))" by (rule gen_mono)
  also have "\<dots> \<le> gen (fst (run_steps step es (fst (step e s))))" by (rule Cons.IH)
  finally show ?case by (simp add: Let_def split_beta)
qed

lemma run_tags:
  "x \<in> set (snd (run_steps step es s)) \<Longrightarrow> gen s \<le> tag x \<and> tag x \<le> gen (fst (run_steps step es s))"
proof (induction es arbitrary: s)
  case Nil
  then show ?case by simp
next
  case (Cons e es)
  let ?s1 = "fst (step e s)"
  from Cons.prems have "x \<in> set (snd (step e s)) \<or> x \<in> set (snd (run_steps step es ?s1))"
    by (auto simp: Let_def split_beta)
  then show ?case
  proof
    assume "x \<in> set (snd (step e s))"
    from tag_current [OF this] run_gen_mono [of ?s1 es] show ?thesis by (auto simp: Let_def split_beta)
  next
    assume "x \<in> set (snd (run_steps step es ?s1))"
    from Cons.IH [OF this] gen_mono [of s e] show ?thesis by (auto simp: Let_def split_beta)
  qed
qed

lemma superseded_silent:
  assumes "gen s < gen (fst (step e s))" and "x \<in> set (snd (run_steps step es (fst (step e s))))"
  shows "gen s < tag x"
  using run_tags [OF assms(2)] assms(1) by linarith

end

end
