(* ===== verification/Streaming.thy ===== *)
theory Streaming
  imports Messages Json Machines
begin

text \<open>
  Requests of the playground: \<open>lib/streaming/{payload-builder,playground-request-headers,
  request-error-utils,stream-utils}.ts\<close> and the stream controller of \<open>hooks/use-stream-request.ts\<close>.

  The controller is a state machine.  Its state is the pair of variables of the closure
  (\<open>source\<close>, \<open>generation\<close>), the last value given to \<open>setStreaming\<close>, and what lives in the
  closures of the single requests: the generation a request was sent with, its \<open>completed\<close> flag and
  whether its event source has been closed.  Event sources are numbered in the order they are created, so
  the request that made source \<open>i\<close> is \<open>sc_requests c ! i\<close>.  A promise of headers that has not settled is a
  member of \<open>sc_awaiting\<close>.  What the event source does (\<open>sse.js\<close>) is the sequence of events the
  machine is given; nothing is assumed about it.

  Numbers of the configuration are exact rationals.  The fields of a parsed payload are read at their
  declared type \<open>string\<close>: null and absent read as the empty string, which the code does not distinguish
  from them.
\<close>

subsection \<open>Request payloads, \<open>payload-builder.ts\<close>\<close>

record PlaygroundConfig =
  cfg_model :: string
  cfg_selectedTokenId :: "nat option"
  cfg_temperature :: rat
  cfg_top_p :: rat
  cfg_max_tokens :: rat
  cfg_frequency_penalty :: rat
  cfg_presence_penalty :: rat
  cfg_seed :: "rat option"
  cfg_stream :: bool

record ParameterEnabled =
  en_temperature :: bool
  en_top_p :: bool
  en_max_tokens :: bool
  en_frequency_penalty :: bool
  en_presence_penalty :: bool
  en_seed :: bool

record ChatCompletionRequest =
  req_model :: string
  req_messages :: "ChatCompletionMessage list"
  req_stream :: bool
  req_temperature :: "rat option"
  req_top_p :: "rat option"
  req_max_tokens :: "rat option"
  req_frequency_penalty :: "rat option"
  req_presence_penalty :: "rat option"
  req_seed :: "rat option"

definition when_enabled :: "bool \<Rightarrow> 'a \<Rightarrow> 'a option" where
  "when_enabled b v = (if b then Some v else None)"

definition buildChatCompletionPayload ::
  "Message list \<Rightarrow> PlaygroundConfig \<Rightarrow> ParameterEnabled \<Rightarrow> ChatCompletionRequest" where
  "buildChatCompletionPayload messages config en =
     \<lparr>req_model = cfg_model config,
      req_messages = map formatMessageForAPI (filter isValidMessage messages),
      req_stream = cfg_stream config,
      req_temperature = when_enabled (en_temperature en) (cfg_temperature config),
      req_top_p = when_enabled (en_top_p en) (cfg_top_p config),
      req_max_tokens = when_enabled (en_max_tokens en) (cfg_max_tokens config),
      req_frequency_penalty = when_enabled (en_frequency_penalty en) (cfg_frequency_penalty config),
      req_presence_penalty = when_enabled (en_presence_penalty en) (cfg_presence_penalty config),
      req_seed = (if en_seed en \<and> cfg_seed config \<noteq> None then cfg_seed config else None)\<rparr>"

record ImageGenerationRequest =
  img_model :: string
  img_prompt :: string
  img_n :: nat
  img_response_format :: string

definition image_prompt :: "Message list \<Rightarrow> string option" where
  "image_prompt messages =
     (case List.find (\<lambda>m. m_from m = USER) (rev messages) of
        None \<Rightarrow> None
      | Some m \<Rightarrow> (case m_versions m of [] \<Rightarrow> None | v # _ \<Rightarrow> Some (trim (v_content v))))"

definition buildImageGenerationPayload :: "Message list \<Rightarrow> PlaygroundConfig \<Rightarrow> ImageGenerationRequest" where
  "buildImageGenerationPayload messages config =
     \<lparr>img_model = cfg_model config,
      img_prompt = (case image_prompt messages of
          Some p \<Rightarrow> if p \<noteq> [] then p else ''Generate an image.''
        | None \<Rightarrow> ''Generate an image.''),
      img_n = 1,
      img_response_format = ''b64_json''\<rparr>"

subsection \<open>Headers and errors\<close>

type_synonym headers = "(string \<times> string) list"

definition PLAYGROUND_TOKEN_HEADER :: string where
  "PLAYGROUND_TOKEN_HEADER = ''X-ACU-Playground-Token-Id''"

definition withPlaygroundTokenHeader :: "headers \<Rightarrow> nat option \<Rightarrow> headers" where
  "withPlaygroundTokenHeader hs selectedTokenId =
     (if selectedTokenId = None \<or> selectedTokenId = Some 0 then hs
      else AList.update PLAYGROUND_TOKEN_HEADER (decimal (the selectedTokenId)) hs)"

definition NETWORK_ERROR :: string where
  "NETWORK_ERROR = ''Network connection failed or server not responding''"
definition PARSE_ERROR :: string where "PARSE_ERROR = ''Error parsing response data''"
definition STREAM_START_ERROR :: string where "STREAM_START_ERROR = ''Error establishing connection''"
definition CONNECTION_CLOSED :: string where "CONNECTION_CLOSED = ''Connection closed''"

record ErrorDetails =
  errorCode :: "string option"
  errorMessage :: string

definition nonempty :: "string \<Rightarrow> string option" where
  "nonempty s = (if s = [] then None else Some s)"

text \<open>The thrown value is a parameter: an object with the properties the client library gives its errors.\<close>

definition parseRequestErrorDetails :: "jsval option \<Rightarrow> ErrorDetails" where
  "parseRequestErrorDetails err =
     (let data = get_prop (get_prop err ''response'') ''data'' in
      \<lparr>errorCode = nonempty (the_str (get_prop (get_prop data ''error'') ''code'')),
       errorMessage = str_or (the_str (get_prop data ''message''))
         (str_or (the_str (get_prop err ''message'')) API_REQUEST_ERROR)\<rparr>)"

subsection \<open>Server-sent events, \<open>stream-utils.ts\<close>\<close>

definition STREAM_DONE_MESSAGE :: string where "STREAM_DONE_MESSAGE = ''[DONE]''"
definition STREAM_CLOSED_READY_STATE :: nat where "STREAM_CLOSED_READY_STATE = 2"

definition parseStreamErrorDetails :: "string option \<Rightarrow> ErrorDetails" where
  "parseStreamErrorDetails data =
     (let d = (case data of Some x \<Rightarrow> x | None \<Rightarrow> []);
          fallbackMessage = str_or d API_REQUEST_ERROR;
          fallback = \<lparr>errorCode = None, errorMessage = fallbackMessage\<rparr> in
      if d = [] then fallback
      else (case JSON_parse d of
              None \<Rightarrow> fallback
            | Some parsed \<Rightarrow>
                (let e = get_prop (Some parsed) ''error'' in
                 if \<not> truthy e then fallback
                 else \<lparr>errorCode = nonempty (the_str (get_prop e ''code'')),
                       errorMessage = str_or (the_str (get_prop e ''message'')) fallbackMessage\<rparr>)))"

type_synonym StreamMessageUpdate = "StreamChunkType \<times> string"

definition parseStreamMessageUpdates :: "string \<Rightarrow> js_error + StreamMessageUpdate list" where
  "parseStreamMessageUpdates data =
     (case JSON_parse data of
        None \<Rightarrow> Inl SyntaxError
      | Some JNull \<Rightarrow> Inl TypeError
      | Some chunk \<Rightarrow>
          (let delta = get_prop (get_index (get_prop (Some chunk) ''choices'') 0) ''delta'';
               reasoning = the_str (get_prop delta ''reasoning_content'');
               content = the_str (get_prop delta ''content'') in
           Inr (if \<not> truthy delta then []
                else (if reasoning \<noteq> [] then [(ReasoningChunk, reasoning)] else [])
                     @ (if content \<noteq> [] then [(ContentChunk, content)] else []))))"

definition isStreamDoneMessage :: "string \<Rightarrow> bool" where
  "isStreamDoneMessage data \<longleftrightarrow> data = STREAM_DONE_MESSAGE"

definition isStreamClosedReadyState :: "nat option \<Rightarrow> bool" where
  "isStreamClosedReadyState readyState \<longleftrightarrow> readyState = Some STREAM_CLOSED_READY_STATE"

definition getStreamReadyStateError :: "nat option \<Rightarrow> nat option \<Rightarrow> string option" where
  "getStreamReadyStateError eventReadyState status =
     (case (eventReadyState, status) of
        (Some r, Some s) \<Rightarrow>
          if r \<ge> STREAM_CLOSED_READY_STATE \<and> s \<noteq> 200
          then Some (''HTTP '' @ decimal s @ '': '' @ CONNECTION_CLOSED)
          else None
      | _ \<Rightarrow> None)"

subsection \<open>The stream controller, \<open>createStreamRequestController\<close>\<close>

record stream_request =
  rq_generation :: nat
  rq_completed :: bool
  rq_closed :: bool

record stream_controller =
  sc_source :: "nat option"
  sc_generation :: nat
  sc_streaming :: bool
  sc_requests :: "stream_request list"
  sc_awaiting :: "nat list"

text \<open>The callbacks of a request, each with the generation it was registered for.\<close>

datatype stream_callback =
    OnUpdate (cb_generation: nat) StreamChunkType string
  | OnComplete (cb_generation: nat)
  | OnError (cb_generation: nat) string "string option"

definition initial_controller :: stream_controller where
  "initial_controller =
     \<lparr>sc_source = None, sc_generation = 0, sc_streaming = False, sc_requests = [], sc_awaiting = []\<rparr>"

definition update_request ::
  "nat \<Rightarrow> (stream_request \<Rightarrow> stream_request) \<Rightarrow> stream_controller \<Rightarrow> stream_controller" where
  "update_request i f c =
     (if i < length (sc_requests c)
      then c\<lparr>sc_requests := (sc_requests c)[i := f (sc_requests c ! i)]\<rparr> else c)"

definition close_source :: "nat \<Rightarrow> stream_controller \<Rightarrow> stream_controller" where
  "close_source i = update_request i (\<lambda>r. r\<lparr>rq_closed := True\<rparr>)"

definition close_option :: "nat option \<Rightarrow> stream_controller \<Rightarrow> stream_controller" where
  "close_option s c = (case s of Some i \<Rightarrow> close_source i c | None \<Rightarrow> c)"

definition closeActiveSource :: "nat \<Rightarrow> stream_controller \<Rightarrow> stream_controller" where
  "closeActiveSource i c =
     (let c1 = close_source i c in
      if sc_source c1 = Some i then c1\<lparr>sc_source := None, sc_streaming := False\<rparr> else c1)"

definition send_start :: "stream_controller \<Rightarrow> stream_controller" where
  "send_start c =
     (let g = sc_generation c + 1;
          c1 = close_option (sc_source c) (c\<lparr>sc_generation := g, sc_source := None\<rparr>) in
      c1\<lparr>sc_streaming := False, sc_awaiting := sc_awaiting c1 @ [g]\<rparr>)"

definition settle :: "nat \<Rightarrow> stream_controller \<Rightarrow> stream_controller" where
  "settle g c = c\<lparr>sc_awaiting := remove1 g (sc_awaiting c)\<rparr>"

text \<open>The rejected value is an \<open>Error\<close> with a message, or another value.\<close>

definition headers_rejected ::
  "nat \<Rightarrow> string option \<Rightarrow> stream_controller \<Rightarrow> stream_controller \<times> stream_callback list" where
  "headers_rejected g message c =
     (if g \<notin> set (sc_awaiting c) then (c, [])
      else if sc_generation c \<noteq> g then (settle g c, [])
      else (settle g c, [OnError g (case message of Some m \<Rightarrow> m | None \<Rightarrow> STREAM_START_ERROR) None]))"

definition isCurrent :: "nat \<Rightarrow> stream_controller \<Rightarrow> bool" where
  "isCurrent i c \<longleftrightarrow>
     i < length (sc_requests c) \<and> sc_generation c = rq_generation (sc_requests c ! i) \<and> sc_source c = Some i"

definition ignores_events :: "nat \<Rightarrow> stream_controller \<Rightarrow> bool" where
  "ignores_events i c \<longleftrightarrow> \<not> isCurrent i c \<or> rq_completed (sc_requests c ! i)"

definition mark_completed :: "nat \<Rightarrow> stream_controller \<Rightarrow> stream_controller" where
  "mark_completed i = update_request i (\<lambda>r. r\<lparr>rq_completed := True\<rparr>)"

definition handleError ::
  "nat \<Rightarrow> string \<Rightarrow> string option \<Rightarrow> stream_controller \<Rightarrow> stream_controller \<times> stream_callback list" where
  "handleError i message code c =
     (if ignores_events i c then (c, [])
      else (closeActiveSource i (mark_completed i c),
            [OnError (rq_generation (sc_requests c ! i)) message code]))"

text \<open>After the headers: the source is created and started; \<open>start_throws\<close> says whether \<open>stream()\<close> throws.\<close>

definition headers_resolved ::
  "nat \<Rightarrow> bool \<Rightarrow> stream_controller \<Rightarrow> stream_controller \<times> stream_callback list" where
  "headers_resolved g start_throws c =
     (if g \<notin> set (sc_awaiting c) then (c, [])
      else if sc_generation c \<noteq> g then (settle g c, [])
      else
        (let i = length (sc_requests c);
             c1 = (settle g c)\<lparr>sc_source := Some i, sc_streaming := True,
                    sc_requests := sc_requests c @
                      [\<lparr>rq_generation = g, rq_completed = False, rq_closed = False\<rparr>]\<rparr> in
         if start_throws then handleError i STREAM_START_ERROR None c1 else (c1, [])))"

definition on_message :: "nat \<Rightarrow> string option \<Rightarrow> stream_controller \<Rightarrow> stream_controller \<times> stream_callback list" where
  "on_message i event_data c =
     (if ignores_events i c then (c, [])
      else
        (let g = rq_generation (sc_requests c ! i);
             data = (case event_data of Some d \<Rightarrow> d | None \<Rightarrow> []) in
         if isStreamDoneMessage data
         then (closeActiveSource i (mark_completed i c), [OnComplete g])
         else (case parseStreamMessageUpdates data of
                 Inr updates \<Rightarrow> (c, map (\<lambda>(ty, chunk). OnUpdate g ty chunk) updates)
               | Inl e \<Rightarrow> handleError i PARSE_ERROR None c)))"

definition on_error_event ::
  "nat \<Rightarrow> nat option \<Rightarrow> string option \<Rightarrow> stream_controller \<Rightarrow> stream_controller \<times> stream_callback list" where
  "on_error_event i ready data c =
     (if ignores_events i c \<or> isStreamClosedReadyState ready then (c, [])
      else (let d = parseStreamErrorDetails data in handleError i (errorMessage d) (errorCode d) c))"

definition on_readystatechange ::
  "nat \<Rightarrow> nat option \<Rightarrow> nat option \<Rightarrow> stream_controller \<Rightarrow> stream_controller \<times> stream_callback list" where
  "on_readystatechange i event_ready status c =
     (if ignores_events i c then (c, [])
      else (case getStreamReadyStateError event_ready status of
              Some m \<Rightarrow> handleError i m None c
            | None \<Rightarrow> (c, [])))"

definition cancel :: "bool \<Rightarrow> stream_controller \<Rightarrow> stream_controller" where
  "cancel notify c =
     (let c1 = close_option (sc_source c) (c\<lparr>sc_generation := sc_generation c + 1, sc_source := None\<rparr>) in
      if notify then c1\<lparr>sc_streaming := False\<rparr> else c1)"

datatype stream_event =
    Send
  | HeadersRejected nat "string option"
  | HeadersResolved nat bool
  | SourceMessage nat "string option"
  | SourceError nat "nat option" "string option"
  | SourceReadyState nat "nat option" "nat option"
  | Stop
  | Dispose

fun stream_step :: "stream_event \<Rightarrow> stream_controller \<Rightarrow> stream_controller \<times> stream_callback list" where
  "stream_step Send c = (send_start c, [])"
| "stream_step (HeadersRejected g m) c = headers_rejected g m c"
| "stream_step (HeadersResolved g throws) c = headers_resolved g throws c"
| "stream_step (SourceMessage i d) c = on_message i d c"
| "stream_step (SourceError i r d) c = on_error_event i r d c"
| "stream_step (SourceReadyState i r st) c = on_readystatechange i r st c"
| "stream_step Stop c = (cancel True c, [])"
| "stream_step Dispose c = (cancel False c, [])"

definition run_stream :: "stream_event list \<Rightarrow> stream_controller \<Rightarrow> stream_controller \<times> stream_callback list" where
  "run_stream = run_steps stream_step"

subsection \<open>What the controller promises\<close>

fun is_terminal :: "stream_callback \<Rightarrow> bool" where
  "is_terminal (OnUpdate g ty chunk) = False"
| "is_terminal (OnComplete g) = True"
| "is_terminal (OnError g m code) = True"

text \<open>Once a request has completed or failed, none of its callbacks is called again.\<close>

definition orderly :: "stream_callback list \<Rightarrow> bool" where
  "orderly cbs = sorted_wrt (\<lambda>x y. is_terminal x \<longrightarrow> cb_generation y \<noteq> cb_generation x) cbs"

text \<open>The active source, if any, belongs to the current generation and is open and unfinished; every other
  source has been closed.\<close>

definition single_open_source :: "stream_controller \<Rightarrow> bool" where
  "single_open_source c \<longleftrightarrow>
     (\<forall>i < length (sc_requests c). sc_source c \<noteq> Some i \<longrightarrow> rq_closed (sc_requests c ! i)) \<and>
     (case sc_source c of
        None \<Rightarrow> True
      | Some i \<Rightarrow> isCurrent i c \<and> \<not> rq_completed (sc_requests c ! i) \<and> \<not> rq_closed (sc_requests c ! i))"

text \<open>Generations are used once, and a generation with a terminal callback is spent.\<close>

definition fresh_generations :: "stream_controller \<Rightarrow> bool" where
  "fresh_generations c \<longleftrightarrow>
     distinct (sc_awaiting c @ map rq_generation (sc_requests c)) \<and>
     list_all (\<lambda>g. g \<le> sc_generation c) (sc_awaiting c @ map rq_generation (sc_requests c))"

definition spent :: "stream_controller \<Rightarrow> stream_callback list \<Rightarrow> bool" where
  "spent c cbs \<longleftrightarrow>
     (\<forall>cb \<in> set cbs. is_terminal cb \<longrightarrow>
        cb_generation cb \<le> sc_generation c \<and>
        cb_generation cb \<notin> set (sc_awaiting c) \<and>
        (\<forall>r \<in> set (sc_requests c). rq_generation r = cb_generation cb \<longrightarrow> rq_completed r))"

definition stream_inv :: "stream_controller \<Rightarrow> stream_callback list \<Rightarrow> bool" where
  "stream_inv c cbs \<longleftrightarrow> orderly cbs \<and> single_open_source c \<and> fresh_generations c \<and> spent c cbs"

lemma orderly_append:
  "orderly (xs @ ys) \<longleftrightarrow> orderly xs \<and> orderly ys \<and>
     (\<forall>x \<in> set xs. \<forall>y \<in> set ys. is_terminal x \<longrightarrow> cb_generation y \<noteq> cb_generation x)"
  by (auto simp: orderly_def sorted_wrt_append)

lemma orderly_Nil [simp]: "orderly []"
  and orderly_single [simp]: "orderly [x]"
  by (simp_all add: orderly_def)

text \<open>What the small operations do to each field.\<close>

lemma update_request_fields [simp]:
  "sc_source (update_request i f c) = sc_source c"
  "sc_generation (update_request i f c) = sc_generation c"
  "sc_streaming (update_request i f c) = sc_streaming c"
  "sc_awaiting (update_request i f c) = sc_awaiting c"
  "sc_requests (update_request i f c) =
     (if i < length (sc_requests c) then (sc_requests c)[i := f (sc_requests c ! i)] else sc_requests c)"
  by (auto simp: update_request_def)

lemma close_option_fields [simp]:
  "sc_source (close_option s c) = sc_source c"
  "sc_generation (close_option s c) = sc_generation c"
  "sc_streaming (close_option s c) = sc_streaming c"
  "sc_awaiting (close_option s c) = sc_awaiting c"
  "length (sc_requests (close_option s c)) = length (sc_requests c)"
  "map rq_generation (sc_requests (close_option s c)) = map rq_generation (sc_requests c)"
  by (auto simp: close_option_def close_source_def split: option.split)

lemma closeActiveSource_fields [simp]:
  "sc_source (closeActiveSource i c) = (if sc_source c = Some i then None else sc_source c)"
  "sc_generation (closeActiveSource i c) = sc_generation c"
  "sc_streaming (closeActiveSource i c) = (if sc_source c = Some i then False else sc_streaming c)"
  "sc_awaiting (closeActiveSource i c) = sc_awaiting c"
  "sc_requests (closeActiveSource i c) = sc_requests (close_source i c)"
  by (auto simp: closeActiveSource_def close_source_def Let_def)

lemma settle_fields [simp]:
  "sc_source (settle g c) = sc_source c"
  "sc_generation (settle g c) = sc_generation c"
  "sc_streaming (settle g c) = sc_streaming c"
  "sc_requests (settle g c) = sc_requests c"
  "sc_awaiting (settle g c) = remove1 g (sc_awaiting c)"
  by (auto simp: settle_def)

lemma nth_close_option:
  "i < length (sc_requests c) \<Longrightarrow>
     sc_requests (close_option s c) ! i =
       (if s = Some i then (sc_requests c ! i)\<lparr>rq_closed := True\<rparr> else sc_requests c ! i)"
  by (auto simp: close_option_def close_source_def nth_list_update split: option.split)

lemma set_close_option:
  "r \<in> set (sc_requests (close_option s c)) \<Longrightarrow>
     \<exists>r' \<in> set (sc_requests c). rq_generation r = rq_generation r' \<and> rq_completed r = rq_completed r'"
  by (auto simp: in_set_conv_nth nth_close_option) (metis nth_mem stream_request.select_convs stream_request.surjective stream_request.update_convs(3))

text \<open>The active source is dropped and closed: a new request, \<open>stop\<close> and \<open>dispose\<close>.\<close>

definition drop_source :: "stream_controller \<Rightarrow> stream_controller" where
  "drop_source c = close_option (sc_source c) (c\<lparr>sc_generation := sc_generation c + 1, sc_source := None\<rparr>)"

lemma drop_source_single: "single_open_source c \<Longrightarrow> single_open_source (drop_source c)"
  by (auto simp: single_open_source_def drop_source_def nth_close_option)

lemma drop_source_fresh: "fresh_generations c \<Longrightarrow> fresh_generations (drop_source c)"
  by (auto simp: fresh_generations_def drop_source_def list_all_iff intro!: le_SucI)

lemma drop_source_spent: "spent c cbs \<Longrightarrow> spent (drop_source c) cbs"
  unfolding spent_def drop_source_def
  by (fastforce dest: set_close_option)

lemma drop_source_inv: "stream_inv c cbs \<Longrightarrow> stream_inv (drop_source c) cbs"
  by (simp add: stream_inv_def drop_source_single drop_source_fresh drop_source_spent)

text \<open>The request of the current source ends.\<close>

definition finish_source :: "nat \<Rightarrow> stream_controller \<Rightarrow> stream_controller" where
  "finish_source i c = closeActiveSource i (mark_completed i c)"

lemma ignores_events_iff:
  "single_open_source c \<Longrightarrow> ignores_events i c \<longleftrightarrow> sc_source c \<noteq> Some i"
  by (auto simp: ignores_events_def single_open_source_def isCurrent_def)

lemma finish_source_requests:
  "i < length (sc_requests c) \<Longrightarrow>
     sc_requests (finish_source i c) =
       (sc_requests c)[i := (sc_requests c ! i)\<lparr>rq_completed := True, rq_closed := True\<rparr>]"
  by (simp add: finish_source_def mark_completed_def close_source_def)

lemma finish_source_fields [simp]:
  "sc_generation (finish_source i c) = sc_generation c"
  "sc_awaiting (finish_source i c) = sc_awaiting c"
  "sc_source (finish_source i c) = (if sc_source c = Some i then None else sc_source c)"
  "sc_streaming (finish_source i c) = (if sc_source c = Some i then False else sc_streaming c)"
  by (auto simp: finish_source_def mark_completed_def)

lemma finish_source_single:
  "\<lbrakk>single_open_source c; sc_source c = Some i\<rbrakk> \<Longrightarrow> single_open_source (finish_source i c)"
  by (auto simp: single_open_source_def isCurrent_def finish_source_requests nth_list_update)

lemma finish_source_fresh:
  "\<lbrakk>fresh_generations c; i < length (sc_requests c)\<rbrakk> \<Longrightarrow> fresh_generations (finish_source i c)"
  by (simp add: fresh_generations_def finish_source_requests)

lemma fresh_nth_eq:
  "\<lbrakk>fresh_generations c; i < length (sc_requests c); j < length (sc_requests c);
    rq_generation (sc_requests c ! i) = rq_generation (sc_requests c ! j)\<rbrakk> \<Longrightarrow> i = j"
  using nth_eq_iff_index_eq [of "map rq_generation (sc_requests c)" i j] by (simp add: fresh_generations_def)

lemma fresh_not_awaiting:
  "\<lbrakk>fresh_generations c; i < length (sc_requests c)\<rbrakk> \<Longrightarrow> rq_generation (sc_requests c ! i) \<notin> set (sc_awaiting c)"
  by (auto simp: fresh_generations_def)

lemma current_not_spent:
  assumes "stream_inv c cbs" and "sc_source c = Some i"
    and "cb \<in> set cbs" and "is_terminal cb"
  shows "cb_generation cb \<noteq> rq_generation (sc_requests c ! i)"
proof
  assume same: "cb_generation cb = rq_generation (sc_requests c ! i)"
  have i: "i < length (sc_requests c)" and unfinished: "\<not> rq_completed (sc_requests c ! i)"
    using assms(1,2) by (auto simp: stream_inv_def single_open_source_def isCurrent_def)
  have "\<forall>r \<in> set (sc_requests c). rq_generation r = cb_generation cb \<longrightarrow> rq_completed r"
    using assms(1,3,4) by (auto simp: stream_inv_def spent_def)
  with same i unfinished show False by auto
qed

lemma finish_source_spent:
  assumes "stream_inv c cbs" and "sc_source c = Some i"
    and "cb_generation t = rq_generation (sc_requests c ! i)"
  shows "spent (finish_source i c) (cbs @ [t])"
proof -
  have i: "i < length (sc_requests c)"
    using assms(1,2) by (auto simp: stream_inv_def single_open_source_def isCurrent_def)
  have fresh: "fresh_generations c" and sp: "spent c cbs" using assms(1) by (auto simp: stream_inv_def)
  have gen: "rq_generation (sc_requests c ! i) \<le> sc_generation c"
    using fresh i by (auto simp: fresh_generations_def list_all_iff)
  have new: "rq_completed r"
    if "r \<in> set (sc_requests (finish_source i c))" "rq_generation r = cb_generation t" for r
  proof -
    from that(1) obtain j where j: "j < length (sc_requests c)" "r = sc_requests (finish_source i c) ! j"
      using i by (auto simp: in_set_conv_nth finish_source_requests)
    then show ?thesis using that(2) i assms(3) fresh_nth_eq [OF fresh i, of j]
      by (cases "j = i") (auto simp: finish_source_requests)
  qed
  have old: "rq_completed r"
    if r: "r \<in> set (sc_requests (finish_source i c))" and cb: "cb \<in> set cbs" "is_terminal cb"
      "rq_generation r = cb_generation cb" for r cb
  proof -
    have "r \<in> set (sc_requests c) \<or> rq_completed r"
      using r i by (auto simp: finish_source_requests dest!: subsetD [OF set_update_subset_insert])
    then show ?thesis using sp cb by (auto simp: spent_def)
  qed
  show ?thesis
    unfolding spent_def using sp new old gen fresh_not_awaiting [OF fresh i] assms(3)
    by (auto simp: spent_def)
qed

lemma finish_source_inv:
  assumes "stream_inv c cbs" and "sc_source c = Some i"
    and "cb_generation t = rq_generation (sc_requests c ! i)"
  shows "stream_inv (finish_source i c) (cbs @ [t])"
proof -
  have "i < length (sc_requests c)"
    using assms(1,2) by (auto simp: stream_inv_def single_open_source_def isCurrent_def)
  moreover have "orderly (cbs @ [t])"
    using assms(1,3) by (auto simp: orderly_append stream_inv_def dest: current_not_spent [OF assms(1,2)])
  ultimately show ?thesis
    using assms finish_source_spent [OF assms]
    by (simp add: stream_inv_def finish_source_single finish_source_fresh)
qed

lemma handleError_inv:
  "\<lbrakk>stream_inv c cbs; handleError i m code c = (c', out)\<rbrakk> \<Longrightarrow> stream_inv c' (cbs @ out)"
  by (auto simp: handleError_def ignores_events_iff stream_inv_def [of c] finish_source_def [symmetric]
      split: if_splits intro!: finish_source_inv)
    (auto simp: stream_inv_def)

lemma settle_inv:
  assumes "stream_inv c cbs"
  shows "stream_inv (settle g c) cbs"
  using assms
  by (auto simp: stream_inv_def single_open_source_def isCurrent_def fresh_generations_def spent_def
      list_all_iff dest: notin_set_remove1 split: option.splits)

lemma updates_inv:
  assumes inv: "stream_inv c cbs" and src: "sc_source c = Some i"
    and out: "\<forall>x \<in> set out. \<not> is_terminal x \<and> cb_generation x = rq_generation (sc_requests c ! i)"
  shows "stream_inv c (cbs @ out)"
proof -
  have "orderly out" unfolding orderly_def
    by (rule sorted_wrt_mono_rel [where P = "\<lambda>_ _. True"]) (use out in auto)
  moreover have "cb_generation y \<noteq> cb_generation x" if "x \<in> set cbs" "is_terminal x" "y \<in> set out" for x y
    using current_not_spent [OF inv src that(1,2)] out that(3) by simp
  ultimately have "orderly (cbs @ out)" using inv by (auto simp: orderly_append stream_inv_def)
  then show ?thesis using inv out by (auto simp: stream_inv_def spent_def)
qed

lemma on_message_inv:
  assumes inv: "stream_inv c cbs" and st: "on_message i d c = (c', out)"
  shows "stream_inv c' (cbs @ out)"
proof (cases "sc_source c = Some i")
  case False
  then have "ignores_events i c" using inv by (simp add: ignores_events_iff stream_inv_def)
  then show ?thesis using st inv by (simp add: on_message_def)
next
  case True
  then have act: "\<not> ignores_events i c" using inv by (simp add: ignores_events_iff stream_inv_def)
  define data where "data = (case d of Some d \<Rightarrow> d | None \<Rightarrow> [])"
  show ?thesis
  proof (cases "isStreamDoneMessage data")
    case fin: True
    then show ?thesis using st act finish_source_inv [OF inv True]
      by (auto simp: on_message_def data_def [symmetric] Let_def finish_source_def)
  next
    case False
    show ?thesis
    proof (cases "parseStreamMessageUpdates data")
      case (Inl e)
      then show ?thesis using st act False handleError_inv [OF inv]
        by (auto simp: on_message_def data_def [symmetric] Let_def)
    next
      case (Inr us)
      then have "c' = c" and
        "out = map (\<lambda>(ty, chunk). OnUpdate (rq_generation (sc_requests c ! i)) ty chunk) us"
        using st act False by (auto simp: on_message_def data_def [symmetric] Let_def)
      moreover from this have
        "\<forall>x \<in> set out. \<not> is_terminal x \<and> cb_generation x = rq_generation (sc_requests c ! i)"
        by auto
      ultimately show ?thesis using updates_inv [OF inv True] by blast
    qed
  qed
qed

text \<open>A new source for the generation that was awaited.\<close>

lemma open_source_inv:
  assumes inv: "stream_inv c cbs" and "g \<in> set (sc_awaiting c)" and "sc_generation c = g"
    and none: "sc_source c = None"
  shows "stream_inv ((settle g c)\<lparr>sc_source := Some (length (sc_requests c)), sc_streaming := True,
           sc_requests := sc_requests c @ [\<lparr>rq_generation = g, rq_completed = False, rq_closed = False\<rparr>]\<rparr>) cbs"
  using assms
  by (auto simp: stream_inv_def single_open_source_def isCurrent_def fresh_generations_def spent_def
      list_all_iff nth_append less_Suc_eq dest: notin_set_remove1 set_remove1_subset [THEN subsetD])

lemma awaited_no_source:
  "\<lbrakk>stream_inv c cbs; sc_generation c \<in> set (sc_awaiting c)\<rbrakk> \<Longrightarrow> sc_source c = None"
  by (cases "sc_source c")
    (auto simp: stream_inv_def single_open_source_def isCurrent_def dest: fresh_not_awaiting)

lemma headers_resolved_inv:
  assumes inv: "stream_inv c cbs" and st: "headers_resolved g throws c = (c', out)"
  shows "stream_inv c' (cbs @ out)"
proof (cases "g \<in> set (sc_awaiting c) \<and> sc_generation c = g")
  case False
  then show ?thesis using st inv settle_inv [OF inv] by (auto simp: headers_resolved_def split: if_splits)
next
  case True
  then have "sc_source c = None" using awaited_no_source [OF inv] by simp
  with True inv have "stream_inv ((settle g c)\<lparr>sc_source := Some (length (sc_requests c)), sc_streaming := True,
      sc_requests := sc_requests c @ [\<lparr>rq_generation = g, rq_completed = False, rq_closed = False\<rparr>]\<rparr>) cbs"
    by (intro open_source_inv) auto
  from this handleError_inv [OF this] st True show ?thesis
    by (auto simp: headers_resolved_def Let_def split: if_splits)
qed

lemma headers_rejected_inv:
  assumes inv: "stream_inv c cbs" and st: "headers_rejected g m c = (c', out)"
  shows "stream_inv c' (cbs @ out)"
proof (cases "g \<in> set (sc_awaiting c) \<and> sc_generation c = g")
  case False
  then show ?thesis using st inv settle_inv [OF inv] by (auto simp: headers_rejected_def split: if_splits)
next
  case True
  have d: "distinct (sc_awaiting c)" and "set (sc_awaiting c) \<inter> rq_generation ` set (sc_requests c) = {}"
    using inv by (auto simp: stream_inv_def fresh_generations_def)
  then have unused: "\<forall>r \<in> set (sc_requests c). rq_generation r \<noteq> g" using True by blast
  have quiet: "\<forall>x \<in> set cbs. is_terminal x \<longrightarrow> g \<noteq> cb_generation x"
    using inv True by (auto simp: stream_inv_def spent_def)
  from True st have "c' = settle g c"
    "out = [OnError g (case m of Some m \<Rightarrow> m | None \<Rightarrow> STREAM_START_ERROR) None]"
    by (auto simp: headers_rejected_def)
  then show ?thesis using settle_inv [OF inv, of g] quiet d unused True
    by (auto simp: stream_inv_def orderly_append spent_def)
qed

lemma drop_source_fields [simp]:
  "sc_source (drop_source c) = None"
  "sc_generation (drop_source c) = sc_generation c + 1"
  "sc_awaiting (drop_source c) = sc_awaiting c"
  "sc_streaming (drop_source c) = sc_streaming c"
  "map rq_generation (sc_requests (drop_source c)) = map rq_generation (sc_requests c)"
  by (simp_all add: drop_source_def)

lemma send_start_alt:
  "send_start c =
     (drop_source c)\<lparr>sc_streaming := False, sc_awaiting := sc_awaiting c @ [sc_generation c + 1]\<rparr>"
  by (simp add: send_start_def drop_source_def Let_def)

lemma send_start_fresh:
  assumes "fresh_generations c"
  shows "fresh_generations (send_start c)"
proof -
  let ?used = "sc_awaiting c @ map rq_generation (sc_requests c)"
  have le: "\<forall>g \<in> set ?used. g \<le> sc_generation c" and d: "distinct ?used"
    using assms by (simp_all add: fresh_generations_def list_all_iff)
  have "sc_generation c + 1 \<notin> set ?used"
  proof
    assume "sc_generation c + 1 \<in> set ?used"
    from bspec [OF le this] show False by simp
  qed
  then show ?thesis using le d
    by (auto simp: fresh_generations_def send_start_alt list_all_iff simp flip: set_map intro!: le_SucI)
qed

lemma send_start_spent: "spent c cbs \<Longrightarrow> spent (send_start c) cbs"
  using drop_source_spent [of c cbs] by (fastforce simp: spent_def send_start_alt)

lemma send_start_single: "single_open_source c \<Longrightarrow> single_open_source (send_start c)"
  using drop_source_single [of c] by (simp add: single_open_source_def send_start_alt)

lemma send_start_inv: "stream_inv c cbs \<Longrightarrow> stream_inv (send_start c) cbs"
  by (simp add: stream_inv_def send_start_fresh send_start_spent send_start_single)

lemma stream_inv_streaming [simp]: "stream_inv (c\<lparr>sc_streaming := b\<rparr>) cbs = stream_inv c cbs"
  by (simp add: stream_inv_def single_open_source_def isCurrent_def spent_def fresh_generations_def
      split: option.split)

lemma cancel_alt: "cancel notify c = (if notify then (drop_source c)\<lparr>sc_streaming := False\<rparr> else drop_source c)"
  by (simp add: cancel_def drop_source_def Let_def)

lemma cancel_inv: "stream_inv c cbs \<Longrightarrow> stream_inv (cancel notify c) cbs"
  by (simp add: cancel_alt drop_source_inv)

lemma stream_step_inv:
  "\<lbrakk>stream_inv c cbs; stream_step e c = (c', out)\<rbrakk> \<Longrightarrow> stream_inv c' (cbs @ out)"
  by (cases e)
    (auto simp: on_error_event_def on_readystatechange_def Let_def send_start_inv cancel_inv
      intro: headers_resolved_inv headers_rejected_inv on_message_inv handleError_inv
      split: if_splits option.splits)

lemma initial_stream_inv: "stream_inv initial_controller []"
  by (simp add: stream_inv_def initial_controller_def single_open_source_def fresh_generations_def spent_def)

lemma run_stream_inv:
  "stream_inv (fst (run_stream es initial_controller)) (snd (run_stream es initial_controller))"
  using run_steps_invariant [of stream_inv initial_controller "[]" es stream_step]
  by (simp add: run_stream_def initial_stream_inv stream_step_inv)

subsection \<open>The controller as a generation guard\<close>

lemma closeActiveSource_generation [simp]: "sc_generation (close_source i c) = sc_generation c"
  by (simp add: close_source_def)

lemma handleError_outputs:
  "sc_generation (fst (handleError i m code c)) = sc_generation c"
  "x \<in> set (snd (handleError i m code c)) \<Longrightarrow> cb_generation x = sc_generation c"
  by (auto simp: handleError_def ignores_events_def isCurrent_def mark_completed_def split: if_splits)

lemma headers_resolved_outputs:
  "sc_generation (fst (headers_resolved g b c)) = sc_generation c"
  "x \<in> set (snd (headers_resolved g b c)) \<Longrightarrow> cb_generation x = sc_generation c"
  by (auto simp: headers_resolved_def Let_def handleError_outputs split: if_splits
      dest!: handleError_outputs(2))

lemma on_message_outputs:
  "sc_generation (fst (on_message i d c)) = sc_generation c"
  "x \<in> set (snd (on_message i d c)) \<Longrightarrow> cb_generation x = sc_generation c"
  by (auto simp: on_message_def Let_def handleError_outputs ignores_events_def isCurrent_def mark_completed_def
      split: if_splits sum.splits dest: handleError_outputs(2))

lemma stream_step_outputs:
  "sc_generation c \<le> sc_generation (fst (stream_step e c))"
  "x \<in> set (snd (stream_step e c)) \<Longrightarrow>
     cb_generation x = sc_generation c \<and> sc_generation (fst (stream_step e c)) = sc_generation c"
  by (cases e;
      auto simp: send_start_alt cancel_alt headers_rejected_def headers_resolved_outputs on_message_outputs
        on_error_event_def on_readystatechange_def Let_def handleError_outputs
        split: if_splits option.splits
        dest: headers_resolved_outputs(2) on_message_outputs(2) handleError_outputs(2))+

interpretation stream: generation_guard stream_step sc_generation cb_generation
  by unfold_locales (auto simp: stream_step_outputs dest: stream_step_outputs(2))

lemma stream_step_flag:
  assumes "sc_streaming c = (sc_source c \<noteq> None)" and "e \<noteq> Dispose"
  shows "sc_streaming (fst (stream_step e c)) = (sc_source (fst (stream_step e c)) \<noteq> None)"
  using assms
  by (cases e)
    (auto simp: send_start_alt cancel_alt headers_rejected_def headers_resolved_def on_message_def
      on_error_event_def on_readystatechange_def handleError_def Let_def mark_completed_def
      split: if_splits option.splits sum.splits)

lemma run_updates:
  assumes "isCurrent i c" and "\<not> rq_completed (sc_requests c ! i)"
    and "list_all2 (\<lambda>d us. \<not> isStreamDoneMessage d \<and> parseStreamMessageUpdates d = Inr us) ds uss"
  shows "run_stream (map (\<lambda>d. SourceMessage i (Some d)) ds) c =
     (c, map (\<lambda>(ty, chunk). OnUpdate (sc_generation c) ty chunk) (concat uss))"
  using assms(3)
proof (induction rule: list_all2_induct)
  case Nil
  then show ?case by (simp add: run_stream_def)
next
  case (Cons d ds us uss)
  have "stream_step (SourceMessage i (Some d)) c = (c, map (\<lambda>(ty, chunk). OnUpdate (sc_generation c) ty chunk) us)"
    using assms(1,2) Cons.hyps by (auto simp: on_message_def ignores_events_def isCurrent_def)
  then show ?case using Cons.IH by (simp add: run_stream_def)
qed

text \<open>
  C3: Whatever events reach the controller, in whatever order, a request that has been completed or has
  failed gets no further callback: no second terminal callback and no late chunk.
\<close>

theorem stream_callbacks_orderly: "orderly (snd (run_stream es initial_controller))"
  using run_stream_inv [of es] by (simp add: stream_inv_def)

text \<open>
  C23: No connection leaks.  In every reachable state at most one event source is open, it belongs to the
  current generation and has not ended, and until the controller is disposed of the streaming flag says
  exactly whether there is one.
\<close>

theorem stream_single_source:
  "single_open_source (fst (run_stream es initial_controller)) \<and>
   (Dispose \<notin> set es \<longrightarrow>
      sc_streaming (fst (run_stream es initial_controller)) =
        (sc_source (fst (run_stream es initial_controller)) \<noteq> None))"
proof (intro conjI impI)
  show "single_open_source (fst (run_stream es initial_controller))"
    using run_stream_inv [of es] by (simp add: stream_inv_def)
next
  assume "Dispose \<notin> set es"
  then show "sc_streaming (fst (run_stream es initial_controller)) =
      (sc_source (fst (run_stream es initial_controller)) \<noteq> None)"
    unfolding run_stream_def
    by (intro run_steps_state_invariant [where I = "\<lambda>c. sc_streaming c = (sc_source c \<noteq> None)"]
        stream_step_flag) (auto simp: initial_controller_def)
qed

theorem stream_single_source_witness:
  "sc_streaming (fst (run_stream [Send, HeadersResolved 1 False] initial_controller)) =
     (sc_source (fst (run_stream [Send, HeadersResolved 1 False] initial_controller)) \<noteq> None)"
  using stream_single_source [of "[Send, HeadersResolved 1 False]"] by simp

text \<open>
  After a new request, \<open>stop\<close> or \<open>dispose\<close>, no callback of an earlier generation is called, whatever the
  old event sources and header promises still deliver.
\<close>

theorem stream_superseded:
  assumes "e \<in> {Send, Stop, Dispose}"
    and "cb \<in> set (snd (run_stream es (fst (stream_step e c))))"
  shows "sc_generation c < cb_generation cb"
proof -
  have "sc_generation c < sc_generation (fst (stream_step e c))"
    using assms(1) by (auto simp: send_start_alt cancel_alt)
  from stream.superseded_silent [OF this assms(2) [unfolded run_stream_def]] show ?thesis .
qed

theorem stream_superseded_witness:
  "sc_generation initial_controller < cb_generation (OnError 1 STREAM_START_ERROR None)"
  by (rule stream_superseded [of Send _ "[HeadersRejected 1 None]"])
    (simp_all add: run_stream_def initial_controller_def send_start_def close_option_def headers_rejected_def)

text \<open>
  C35: An undisturbed request delivers the chunks of its messages in order, then completes once, and leaves
  no source open.
\<close>

theorem stream_delivers:
  assumes "list_all2 (\<lambda>d us. \<not> isStreamDoneMessage d \<and> parseStreamMessageUpdates d = Inr us) ds uss"
    and "es = [Send, HeadersResolved (sc_generation c + 1) False]
           @ map (\<lambda>d. SourceMessage (length (sc_requests c)) (Some d)) ds
           @ [SourceMessage (length (sc_requests c)) (Some STREAM_DONE_MESSAGE)]"
  shows "snd (run_stream es c) =
           map (\<lambda>(ty, chunk). OnUpdate (sc_generation c + 1) ty chunk) (concat uss)
           @ [OnComplete (sc_generation c + 1)] \<and>
         sc_source (fst (run_stream es c)) = None"
proof -
  let ?g = "sc_generation c + 1" and ?i = "length (sc_requests c)"
  define c2 where "c2 = fst (run_stream [Send, HeadersResolved ?g False] c)"
  have len: "length (sc_requests (drop_source c)) = ?i" by (simp add: drop_source_def)
  have start: "run_stream [Send, HeadersResolved ?g False] c = (c2, [])"
    and cur: "isCurrent ?i c2" "\<not> rq_completed (sc_requests c2 ! ?i)" "sc_generation c2 = ?g"
    by (simp_all add: c2_def run_stream_def headers_resolved_def send_start_alt len isCurrent_def Let_def
        nth_append)
  have mid: "run_stream (map (\<lambda>d. SourceMessage ?i (Some d)) ds) c2 =
      (c2, map (\<lambda>(ty, chunk). OnUpdate ?g ty chunk) (concat uss))"
    using run_updates [OF cur(1,2) assms(1)] cur(3) by simp
  have fin: "run_stream [SourceMessage ?i (Some STREAM_DONE_MESSAGE)] c2 = (finish_source ?i c2, [OnComplete ?g])"
    using cur by (simp add: run_stream_def on_message_def ignores_events_def isStreamDoneMessage_def
        finish_source_def isCurrent_def)
  have all: "run_stream es c = (finish_source ?i c2,
      map (\<lambda>(ty, chunk). OnUpdate ?g ty chunk) (concat uss) @ [OnComplete ?g])"
    using start mid fin unfolding assms(2) run_stream_def by (simp add: run_steps_append)
  then show ?thesis using cur(1) by (simp add: isCurrent_def)
qed

theorem stream_delivers_witness:
  "snd (run_stream [Send, HeadersResolved 1 False,
       SourceMessage 0 (Some ''{\"choices\":[{\"delta\":{\"content\":\"hi\"}}]}''),
       SourceMessage 0 (Some ''[DONE]'')] initial_controller) =
     [OnUpdate 1 ContentChunk ''hi'', OnComplete 1]"
  using stream_delivers [of "[''{\"choices\":[{\"delta\":{\"content\":\"hi\"}}]}'']" "[[(ContentChunk, ''hi'')]]"
      _ initial_controller]
  by (simp add: parseStreamMessageUpdates_def JSON_parse_example isStreamDoneMessage_def STREAM_DONE_MESSAGE_def
      initial_controller_def)

end
