(* ===== verification/ChatHandler.thy ===== *)
theory ChatHandler
  imports Streaming
begin

text \<open>
  The chat handler, \<open>hooks/use-chat-handler.ts\<close>: the refs of the hook as a record, one definition per
  callback, and the machine they form together with the stream controller.

  The handler changes the conversation only through updater functions handed to \<open>onMessageUpdate\<close>, which
  React runs when it renders.  Such a closure is a value of \<open>message_update\<close>: the generation it captured
  and what it does; \<open>apply_message_update\<close> runs it with the generation the ref holds at that time and the
  clock reading of that time.  Handling an event therefore returns the new state and the updaters queued.

  The stream controller counts its own generations; \<open>h_callbacks\<close> records which handler generation the
  callbacks of a stream generation captured.  Abort controllers are named by the generation that made them.
  Requests handed to the API layer that have not settled are in \<open>h_inflight\<close>.  A timeout that has been set
  and neither cleared nor fired is \<open>h_armed\<close>; the ref that remembers it is \<open>h_timer\<close>.  The translation
  function of i18next is the parameter \<open>t\<close>.
\<close>

subsection \<open>State\<close>

record PendingStreamChunks =
  pc_generation :: nat
  pc_content :: string
  pc_reasoning :: string

datatype chat_request =
    StreamRequest ChatCompletionRequest
  | CompletionRequest ChatCompletionRequest
  | ImageRequest ImageGenerationRequest

record chat_handler =
  h_generation :: nat
  h_pending :: PendingStreamChunks
  h_timer :: "nat option"
  h_armed :: "nat option"
  h_requesting :: bool
  h_abort :: "nat option"
  h_aborted :: "nat list"
  h_stream :: stream_controller
  h_callbacks :: "(nat \<times> nat) list"
  h_inflight :: "nat list"
  h_sent :: "chat_request list"
  h_toasts :: "string list"

definition initial_handler :: chat_handler where
  "initial_handler =
     \<lparr>h_generation = 0, h_pending = \<lparr>pc_generation = 0, pc_content = [], pc_reasoning = []\<rparr>,
      h_timer = None, h_armed = None, h_requesting = False, h_abort = None, h_aborted = [],
      h_stream = initial_controller, h_callbacks = [], h_inflight = [], h_sent = [], h_toasts = []\<rparr>"

datatype message_update =
    ApplyChunks (up_generation: nat) string string
  | CompleteReply (up_generation: nat)
  | FailReply (up_generation: nat) string "string option" string
  | ApplyResponse (up_generation: nat) ChatCompletionResponse
  | ApplyImages (up_generation: nat) "GeneratedImage list"
  | StopReply (up_generation: nat)

definition apply_chunks :: "int \<Rightarrow> string \<Rightarrow> string \<Rightarrow> Message \<Rightarrow> Message" where
  "apply_chunks now reasoning content m =
     (let m1 = (if reasoning \<noteq> [] then applyStreamingChunk now m ReasoningChunk reasoning else m) in
      if content \<noteq> [] then applyStreamingChunk now m1 ContentChunk content else m1)"

fun message_updater :: "int \<Rightarrow> message_update \<Rightarrow> Message list \<Rightarrow> Message list" where
  "message_updater now (ApplyChunks g reasoning content) prev =
     updateLastAssistantMessage prev (apply_chunks now reasoning content)"
| "message_updater now (CompleteReply g) prev =
     updateLastAssistantMessage prev
       (\<lambda>m. if isAssistantMessageFinal m then m else completeAssistantMessage now m)"
| "message_updater now (FailReply g displayError code title) prev =
     updateAssistantMessageWithError now prev displayError code title"
| "message_updater now (ApplyResponse g response) prev =
     updateLastAssistantMessage prev
       (\<lambda>m. case applyChatCompletionResponse now m response of Some m' \<Rightarrow> m' | None \<Rightarrow> m)"
| "message_updater now (ApplyImages g images) prev =
     updateLastAssistantMessage prev
       (\<lambda>m. case applyImageGenerationResponse now m images of Some m' \<Rightarrow> m' | None \<Rightarrow> m)"
| "message_updater now (StopReply g) prev =
     updateLastAssistantMessage prev
       (\<lambda>m. if isAssistantMessagePending m then completeAssistantMessage now m else m)"

definition apply_message_update :: "int \<Rightarrow> nat \<Rightarrow> message_update \<Rightarrow> Message list \<Rightarrow> Message list" where
  "apply_message_update now generation u prev =
     (if up_generation u \<noteq> generation then prev else message_updater now u prev)"

subsection \<open>Buffering of chunks\<close>

definition KNOWN_ERROR_MESSAGES :: "string list" where
  "KNOWN_ERROR_MESSAGES =
     [API_REQUEST_ERROR, NETWORK_ERROR, PARSE_ERROR, STREAM_START_ERROR, CONNECTION_CLOSED, INTERRUPTED]"

definition isImageGenerationModel :: "string \<Rightarrow> bool" where
  "isImageGenerationModel model \<longleftrightarrow> startsWith (to_lower (trim model)) ''gpt-image-''"

definition mergePendingStreamChunk :: "string \<Rightarrow> string \<Rightarrow> string" where
  "mergePendingStreamChunk currentChunk nextChunk =
     (if currentChunk = [] \<or> \<not> startsWith nextChunk currentChunk then currentChunk @ nextChunk else nextChunk)"

definition discardPendingStreamUpdates :: "nat \<Rightarrow> chat_handler \<Rightarrow> chat_handler" where
  "discardPendingStreamUpdates g h =
     (let h1 = (if h_timer h \<noteq> None then h\<lparr>h_armed := None, h_timer := None\<rparr> else h) in
      h1\<lparr>h_pending := \<lparr>pc_generation = g, pc_content = [], pc_reasoning = []\<rparr>\<rparr>)"

definition flushStreamUpdates :: "nat \<Rightarrow> chat_handler \<Rightarrow> chat_handler \<times> message_update list" where
  "flushStreamUpdates g h =
     (if g \<noteq> h_generation h then (h, [])
      else
        (let h1 = (if h_timer h \<noteq> None then h\<lparr>h_armed := None, h_timer := None\<rparr> else h);
             p = h_pending h1 in
         if pc_generation p \<noteq> g then (h1, [])
         else if pc_reasoning p = [] \<and> pc_content p = [] then (h1, [])
         else (h1\<lparr>h_pending := \<lparr>pc_generation = g, pc_content = [], pc_reasoning = []\<rparr>\<rparr>,
               [ApplyChunks g (pc_reasoning p) (pc_content p)])))"

definition scheduleStreamFlush :: "nat \<Rightarrow> chat_handler \<Rightarrow> chat_handler" where
  "scheduleStreamFlush g h =
     (if g \<noteq> h_generation h \<or> h_timer h \<noteq> None then h else h\<lparr>h_timer := Some g, h_armed := Some g\<rparr>)"

definition flush_timer :: "chat_handler \<Rightarrow> chat_handler \<times> message_update list" where
  "flush_timer h =
     (case h_armed h of
        None \<Rightarrow> (h, [])
      | Some g \<Rightarrow> flushStreamUpdates g (h\<lparr>h_armed := None\<rparr>))"

definition getDisplayError :: "(string \<Rightarrow> string) \<Rightarrow> string \<Rightarrow> string" where
  "getDisplayError t error =
     (if error \<in> set KNOWN_ERROR_MESSAGES then t error
      else if endsWith error ('': '' @ CONNECTION_CLOSED)
      then take (length error - length CONNECTION_CLOSED) error @ t CONNECTION_CLOSED
      else error)"

subsection \<open>Callbacks of a request\<close>

definition merge_chunk :: "StreamChunkType \<Rightarrow> string \<Rightarrow> PendingStreamChunks \<Rightarrow> PendingStreamChunks" where
  "merge_chunk ty chunk p =
     (case ty of
        ContentChunk \<Rightarrow> p\<lparr>pc_content := mergePendingStreamChunk (pc_content p) chunk\<rparr>
      | ReasoningChunk \<Rightarrow> p\<lparr>pc_reasoning := mergePendingStreamChunk (pc_reasoning p) chunk\<rparr>)"

definition handleStreamUpdate :: "nat \<Rightarrow> StreamChunkType \<Rightarrow> string \<Rightarrow> chat_handler \<Rightarrow> chat_handler" where
  "handleStreamUpdate g ty chunk h =
     (if g \<noteq> h_generation h then h
      else if pc_generation (h_pending h) \<noteq> g then h
      else scheduleStreamFlush g (h\<lparr>h_pending := merge_chunk ty chunk (h_pending h)\<rparr>))"

definition handleStreamComplete :: "nat \<Rightarrow> chat_handler \<Rightarrow> chat_handler \<times> message_update list" where
  "handleStreamComplete g h =
     (if g \<noteq> h_generation h then (h, [])
      else (let (h1, us) = flushStreamUpdates g h in (h1\<lparr>h_requesting := False\<rparr>, us @ [CompleteReply g])))"

definition handleStreamError ::
  "(string \<Rightarrow> string) \<Rightarrow> nat \<Rightarrow> string \<Rightarrow> string option \<Rightarrow> chat_handler \<Rightarrow> chat_handler \<times> message_update list" where
  "handleStreamError t g error code h =
     (if g \<noteq> h_generation h then (h, [])
      else (let (h1, us) = flushStreamUpdates g h; displayError = getDisplayError t error in
            (h1\<lparr>h_requesting := False, h_toasts := h_toasts h1 @ [displayError]\<rparr>,
             us @ [FailReply g displayError code (t API_REQUEST_ERROR)])))"

subsection \<open>Sending, stopping, unmounting\<close>

definition abort_current :: "chat_handler \<Rightarrow> chat_handler" where
  "abort_current h =
     (case h_abort h of
        None \<Rightarrow> h
      | Some a \<Rightarrow> h\<lparr>h_aborted := a # h_aborted h, h_abort := None\<rparr>)"

definition sendStreamingChat ::
  "PlaygroundConfig \<Rightarrow> ParameterEnabled \<Rightarrow> Message list \<Rightarrow> chat_handler \<Rightarrow> chat_handler" where
  "sendStreamingChat config en messages h =
     (let g = h_generation h + 1;
          h1 = discardPendingStreamUpdates g (abort_current (h\<lparr>h_generation := g\<rparr>));
          s = send_start (h_stream h1) in
      h1\<lparr>h_requesting := True,
         h_sent := h_sent h1 @ [StreamRequest (buildChatCompletionPayload messages config en)],
         h_stream := s, h_callbacks := (sc_generation s, g) # h_callbacks h1\<rparr>)"

text \<open>The common beginning of \<open>sendNonStreamingChat\<close> and \<open>sendImage\<close>, up to the awaited call.\<close>

definition begin_request :: "chat_request \<Rightarrow> chat_handler \<Rightarrow> chat_handler" where
  "begin_request r h =
     (let g = h_generation h + 1;
          h1 = (h\<lparr>h_generation := g\<rparr>)\<lparr>h_stream := cancel True (h_stream h)\<rparr>;
          h2 = (abort_current (discardPendingStreamUpdates g h1))\<lparr>h_abort := Some g\<rparr> in
      h2\<lparr>h_requesting := True, h_sent := h_sent h2 @ [r], h_inflight := g # h_inflight h2\<rparr>)"

definition sendNonStreamingChat ::
  "PlaygroundConfig \<Rightarrow> ParameterEnabled \<Rightarrow> Message list \<Rightarrow> chat_handler \<Rightarrow> chat_handler" where
  "sendNonStreamingChat config en messages h =
     begin_request (CompletionRequest (buildChatCompletionPayload messages config en)) h"

definition sendImage :: "PlaygroundConfig \<Rightarrow> Message list \<Rightarrow> chat_handler \<Rightarrow> chat_handler" where
  "sendImage config messages h = begin_request (ImageRequest (buildImageGenerationPayload messages config)) h"

definition sendChat ::
  "PlaygroundConfig \<Rightarrow> ParameterEnabled \<Rightarrow> Message list \<Rightarrow> chat_handler \<Rightarrow> chat_handler" where
  "sendChat config en messages h =
     (if isImageGenerationModel (cfg_model config) then sendImage config messages h
      else if cfg_stream config then sendStreamingChat config en messages h
      else sendNonStreamingChat config en messages h)"

text \<open>What the awaited call gives: a response, or a thrown value.  \<open>finally\<close> runs on every path.\<close>

datatype outcome =
    ChatResponse ChatCompletionResponse
  | ImageResponse "GeneratedImage list"
  | Thrown "jsval option"

definition has_image :: "GeneratedImage list \<Rightarrow> bool" where
  "has_image images \<longleftrightarrow> list_ex (\<lambda>i. opt_or (img_b64_json i) [] \<noteq> [] \<or> opt_or (img_url i) [] \<noteq> []) images"

definition request_finally :: "nat \<Rightarrow> chat_handler \<Rightarrow> chat_handler" where
  "request_finally g h = (if h_generation h = g then h\<lparr>h_abort := None, h_requesting := False\<rparr> else h)"

definition request_body ::
  "(string \<Rightarrow> string) \<Rightarrow> nat \<Rightarrow> outcome \<Rightarrow> chat_handler \<Rightarrow> chat_handler \<times> message_update list" where
  "request_body t g res h =
     (if g \<in> set (h_aborted h) \<or> h_generation h \<noteq> g then (h, [])
      else (case res of
          ChatResponse response \<Rightarrow>
            if \<not> hasChatCompletionChoice response then handleStreamError t g API_REQUEST_ERROR None h
            else (h, [ApplyResponse g response])
        | ImageResponse images \<Rightarrow>
            if \<not> has_image images then handleStreamError t g API_REQUEST_ERROR None h
            else (h, [ApplyImages g images])
        | Thrown err \<Rightarrow>
            (let d = parseRequestErrorDetails err in handleStreamError t g (errorMessage d) (errorCode d) h)))"

definition request_settled ::
  "(string \<Rightarrow> string) \<Rightarrow> nat \<Rightarrow> outcome \<Rightarrow> chat_handler \<Rightarrow> chat_handler \<times> message_update list" where
  "request_settled t g res h =
     (if g \<notin> set (h_inflight h) then (h, [])
      else (let (h1, us) = request_body t g res (h\<lparr>h_inflight := removeAll g (h_inflight h)\<rparr>) in
            (request_finally g h1, us)))"

definition stopGeneration :: "chat_handler \<Rightarrow> chat_handler \<times> message_update list" where
  "stopGeneration h =
     (let (h1, us) = flushStreamUpdates (h_generation h) h;
          idle = h_generation h + 1;
          h2 = discardPendingStreamUpdates idle (h1\<lparr>h_generation := idle\<rparr>);
          h3 = abort_current (h2\<lparr>h_stream := cancel True (h_stream h2)\<rparr>) in
      (h3\<lparr>h_requesting := False\<rparr>, us @ [StopReply idle]))"

text \<open>The cleanups of the effects: the stream controller is disposed of, the generation moves on, the
  timeout is cleared (its ref is left), the request aborted.\<close>

definition unmount :: "chat_handler \<Rightarrow> chat_handler" where
  "unmount h =
     (let h1 = h\<lparr>h_stream := cancel False (h_stream h)\<rparr>;
          h2 = h1\<lparr>h_generation := h_generation h1 + 1\<rparr>;
          h3 = (if h_timer h2 \<noteq> None then h2\<lparr>h_armed := None\<rparr> else h2) in
      abort_current h3)"

definition isGenerating :: "chat_handler \<Rightarrow> bool" where
  "isGenerating h \<longleftrightarrow> sc_streaming (h_stream h) \<or> h_requesting h"

subsection \<open>The machine\<close>

text \<open>Events of the event source and of the header promise reach the handler through the callbacks.\<close>

datatype chat_event =
    SendChat PlaygroundConfig ParameterEnabled "Message list"
  | StreamRejected nat "string option"
  | StreamResolved nat bool
  | StreamMessage nat "string option"
  | StreamFailed nat "nat option" "string option"
  | StreamReadyState nat "nat option" "nat option"
  | FlushTimer
  | RequestSettled nat outcome
  | StopGeneration
  | Unmount

definition dispatch_callback ::
  "(string \<Rightarrow> string) \<Rightarrow> stream_callback \<Rightarrow> chat_handler \<Rightarrow> chat_handler \<times> message_update list" where
  "dispatch_callback t cb h =
     (case map_of (h_callbacks h) (cb_generation cb) of
        None \<Rightarrow> (h, [])
      | Some g \<Rightarrow>
          (case cb of
             OnUpdate _ ty chunk \<Rightarrow> (handleStreamUpdate g ty chunk h, [])
           | OnComplete _ \<Rightarrow> handleStreamComplete g h
           | OnError _ message code \<Rightarrow> handleStreamError t g message code h))"

definition stream_event_step ::
  "(string \<Rightarrow> string) \<Rightarrow> stream_event \<Rightarrow> chat_handler \<Rightarrow> chat_handler \<times> message_update list" where
  "stream_event_step t e h =
     (let (s, cbs) = stream_step e (h_stream h) in
      run_steps (dispatch_callback t) cbs (h\<lparr>h_stream := s\<rparr>))"

fun chat_step :: "(string \<Rightarrow> string) \<Rightarrow> chat_event \<Rightarrow> chat_handler \<Rightarrow> chat_handler \<times> message_update list" where
  "chat_step t (SendChat config en messages) h = (sendChat config en messages h, [])"
| "chat_step t (StreamRejected g m) h = stream_event_step t (HeadersRejected g m) h"
| "chat_step t (StreamResolved g throws) h = stream_event_step t (HeadersResolved g throws) h"
| "chat_step t (StreamMessage i d) h = stream_event_step t (SourceMessage i d) h"
| "chat_step t (StreamFailed i r d) h = stream_event_step t (SourceError i r d) h"
| "chat_step t (StreamReadyState i r st) h = stream_event_step t (SourceReadyState i r st) h"
| "chat_step t FlushTimer h = flush_timer h"
| "chat_step t (RequestSettled g res) h = request_settled t g res h"
| "chat_step t StopGeneration h = stopGeneration h"
| "chat_step t Unmount h = (unmount h, [])"

definition run_chat ::
  "(string \<Rightarrow> string) \<Rightarrow> chat_event list \<Rightarrow> chat_handler \<Rightarrow> chat_handler \<times> message_update list" where
  "run_chat t = run_steps (chat_step t)"

subsection \<open>The handler as a generation guard\<close>

named_theorems chat_defs "definitions of the callbacks of the chat handler"

declare flushStreamUpdates_def [chat_defs] handleStreamUpdate_def [chat_defs] handleStreamComplete_def [chat_defs]
  handleStreamError_def [chat_defs] scheduleStreamFlush_def [chat_defs] discardPendingStreamUpdates_def [chat_defs]
  Let_def [chat_defs]

lemma dispatch_callback_outputs:
  "h_generation (fst (dispatch_callback t cb h)) = h_generation h"
  "u \<in> set (snd (dispatch_callback t cb h)) \<Longrightarrow> up_generation u = h_generation h"
  by (auto simp: dispatch_callback_def chat_defs split: option.splits stream_callback.splits if_splits prod.splits)

interpretation callbacks: generation_guard "dispatch_callback t" h_generation up_generation for t
  by unfold_locales (auto simp: dispatch_callback_outputs dest: dispatch_callback_outputs(2))

lemma run_callbacks_generation [simp]:
  "h_generation (fst (run_steps (dispatch_callback t) cbs h)) = h_generation h"
  by (induction cbs arbitrary: h) (simp_all add: Let_def split_beta dispatch_callback_outputs)

lemma stream_event_outputs:
  "h_generation (fst (stream_event_step t e h)) = h_generation h"
  "u \<in> set (snd (stream_event_step t e h)) \<Longrightarrow> up_generation u = h_generation h"
  by (auto simp: stream_event_step_def Let_def split_beta dest!: callbacks.run_tags)

lemma request_settled_outputs:
  "h_generation (fst (request_settled t g res h)) = h_generation h"
  "u \<in> set (snd (request_settled t g res h)) \<Longrightarrow> up_generation u = h_generation h"
  by (auto simp: request_settled_def request_body_def request_finally_def chat_defs
      split: if_splits prod.splits outcome.splits)

lemma flush_outputs:
  "h_generation (fst (flushStreamUpdates g h)) = h_generation h"
  "u \<in> set (snd (flushStreamUpdates g h)) \<Longrightarrow> up_generation u = h_generation h"
  by (auto simp: chat_defs split: if_splits)

lemma flush_timer_outputs:
  "h_generation (fst (flush_timer h)) = h_generation h"
  "u \<in> set (snd (flush_timer h)) \<Longrightarrow> up_generation u = h_generation h"
  by (auto simp: flush_timer_def flush_outputs dest!: flush_outputs(2) split: option.splits)

lemma abort_current_fields [simp]:
  "h_generation (abort_current h) = h_generation h"
  "h_pending (abort_current h) = h_pending h"
  "h_timer (abort_current h) = h_timer h"
  "h_armed (abort_current h) = h_armed h"
  "h_requesting (abort_current h) = h_requesting h"
  "h_stream (abort_current h) = h_stream h"
  "h_callbacks (abort_current h) = h_callbacks h"
  "h_inflight (abort_current h) = h_inflight h"
  by (simp_all add: abort_current_def split: option.split)

lemma discard_fields [simp]:
  "h_generation (discardPendingStreamUpdates g h) = h_generation h"
  "h_requesting (discardPendingStreamUpdates g h) = h_requesting h"
  "h_stream (discardPendingStreamUpdates g h) = h_stream h"
  "h_callbacks (discardPendingStreamUpdates g h) = h_callbacks h"
  "h_inflight (discardPendingStreamUpdates g h) = h_inflight h"
  "h_pending (discardPendingStreamUpdates g h) = \<lparr>pc_generation = g, pc_content = [], pc_reasoning = []\<rparr>"
  "h_timer (discardPendingStreamUpdates g h) = None"
  "h_armed (discardPendingStreamUpdates g h) = (if h_timer h \<noteq> None then None else h_armed h)"
  by (simp_all add: discardPendingStreamUpdates_def Let_def)

lemma sendChat_generation [simp]: "h_generation (sendChat config en messages h) = h_generation h + 1"
  by (simp add: sendChat_def sendImage_def sendStreamingChat_def sendNonStreamingChat_def begin_request_def Let_def)

lemma unmount_generation [simp]: "h_generation (unmount h) = h_generation h + 1"
  by (simp add: unmount_def Let_def)

lemma stop_generation: "h_generation (fst (stopGeneration h)) = h_generation h + 1"
  by (simp add: stopGeneration_def Let_def split_beta flush_outputs)

lemma stop_outputs:
  "u \<in> set (snd (stopGeneration h)) \<Longrightarrow> h_generation h \<le> up_generation u \<and> up_generation u \<le> h_generation h + 1"
  by (auto simp: stopGeneration_def Let_def split_beta dest: flush_outputs(2))

interpretation chat: generation_guard "chat_step t" h_generation up_generation for t
proof unfold_locales
  show "h_generation h \<le> h_generation (fst (chat_step t e h))" for h e
    by (cases e) (simp_all add: stream_event_outputs flush_timer_outputs request_settled_outputs stop_generation)
next
  show "h_generation h \<le> up_generation u \<and> up_generation u \<le> h_generation (fst (chat_step t e h))"
    if "u \<in> set (snd (chat_step t e h))" for u e h
    using that
    by (cases e)
      (auto simp: stream_event_outputs flush_timer_outputs request_settled_outputs stop_generation
        dest: stream_event_outputs(2) flush_timer_outputs(2) request_settled_outputs(2) stop_outputs)
qed

subsection \<open>The buffer\<close>

text \<open>Buffered text belongs to the current generation, and a timeout to flush it is armed.\<close>

definition buffer_ok :: "chat_handler \<Rightarrow> bool" where
  "buffer_ok h \<longleftrightarrow>
     pc_generation (h_pending h) = h_generation h \<and> h_armed h = h_timer h \<and>
     h_timer h \<in> {None, Some (h_generation h)} \<and>
     (pc_content (h_pending h) \<noteq> [] \<or> pc_reasoning (h_pending h) \<noteq> [] \<longrightarrow> h_timer h \<noteq> None)"

lemma buffer_ok_fields [simp]:
  "buffer_ok (h\<lparr>h_stream := s\<rparr>) = buffer_ok h"
  "buffer_ok (h\<lparr>h_requesting := b\<rparr>) = buffer_ok h"
  "buffer_ok (h\<lparr>h_toasts := ts\<rparr>) = buffer_ok h"
  "buffer_ok (h\<lparr>h_inflight := xs\<rparr>) = buffer_ok h"
  "buffer_ok (h\<lparr>h_abort := a\<rparr>) = buffer_ok h"
  by (simp_all add: buffer_ok_def)

lemma flush_buffer_ok: "buffer_ok h \<Longrightarrow> buffer_ok (fst (flushStreamUpdates g h))"
  by (auto simp: buffer_ok_def chat_defs split: option.splits)

lemma update_buffer_ok: "buffer_ok h \<Longrightarrow> buffer_ok (handleStreamUpdate g ty chunk h)"
  by (auto simp: buffer_ok_def handleStreamUpdate_def scheduleStreamFlush_def merge_chunk_def
      split: StreamChunkType.splits)

lemma terminal_buffer_ok:
  "buffer_ok h \<Longrightarrow> buffer_ok (fst (handleStreamComplete g h))"
  "buffer_ok h \<Longrightarrow> buffer_ok (fst (handleStreamError t g m code h))"
  by (simp_all add: handleStreamComplete_def handleStreamError_def Let_def split_beta flush_buffer_ok)

lemma dispatch_callback_buffer_ok: "buffer_ok h \<Longrightarrow> buffer_ok (fst (dispatch_callback t cb h))"
  by (simp add: dispatch_callback_def update_buffer_ok terminal_buffer_ok split: option.split stream_callback.split)

lemma stream_event_buffer_ok: "buffer_ok h \<Longrightarrow> buffer_ok (fst (stream_event_step t e h))"
  by (auto simp: stream_event_step_def Let_def split_beta
      intro!: run_steps_state_invariant [where I = buffer_ok] dispatch_callback_buffer_ok)

lemma request_settled_buffer_ok: "buffer_ok h \<Longrightarrow> buffer_ok (fst (request_settled t g res h))"
  by (auto simp: request_settled_def request_body_def request_finally_def Let_def split_beta terminal_buffer_ok
      split: outcome.splits)

lemma send_buffer_ok: "buffer_ok h \<Longrightarrow> buffer_ok (sendChat config en messages h)"
  by (auto simp: buffer_ok_def sendChat_def sendImage_def sendStreamingChat_def sendNonStreamingChat_def
      begin_request_def Let_def)

lemma stop_buffer_ok: "buffer_ok h \<Longrightarrow> buffer_ok (fst (stopGeneration h))"
  using flush_buffer_ok [of h "h_generation h"]
  by (auto simp: stopGeneration_def buffer_ok_def Let_def split_beta)

lemma flush_timer_buffer_ok: "buffer_ok h \<Longrightarrow> buffer_ok (fst (flush_timer h))"
  by (auto simp: flush_timer_def buffer_ok_def chat_defs split: if_splits)

lemma chat_step_buffer_ok: "\<lbrakk>buffer_ok h; e \<noteq> Unmount\<rbrakk> \<Longrightarrow> buffer_ok (fst (chat_step t e h))"
  by (cases e)
    (simp_all add: stream_event_buffer_ok request_settled_buffer_ok send_buffer_ok stop_buffer_ok flush_timer_buffer_ok)

lemma run_chat_buffer_ok: "Unmount \<notin> set es \<Longrightarrow> buffer_ok (fst (run_chat t es initial_handler))"
  unfolding run_chat_def
  by (intro run_steps_state_invariant [where I = buffer_ok] chat_step_buffer_ok)
    (auto simp: buffer_ok_def initial_handler_def)

subsection \<open>Waiting for a reply\<close>

text \<open>The stream controller is working on its current generation: headers are awaited or a source is open.\<close>

definition live :: "stream_controller \<Rightarrow> bool" where
  "live s \<longleftrightarrow> sc_generation s \<in> set (sc_awaiting s) \<or> sc_source s \<noteq> None"

definition external_event :: "stream_event \<Rightarrow> bool" where
  "external_event e \<longleftrightarrow> e \<notin> {Send, Stop, Dispose}"

lemma handleError_live:
  assumes "stream_inv c cbs"
  shows "sc_source c = Some i \<Longrightarrow> list_ex is_terminal (snd (handleError i m code c))"
    and "sc_source c \<noteq> Some i \<Longrightarrow> handleError i m code c = (c, [])"
    and "live (fst (handleError i m code c)) \<Longrightarrow> live c"
  using assms
  by (auto simp: handleError_def stream_inv_def ignores_events_iff live_def mark_completed_def split: if_splits)

lemma handleError_terminal:
  "\<lbrakk>stream_inv c cbs; sc_source c = Some i; handleError i m code c = (c', out)\<rbrakk> \<Longrightarrow> list_ex is_terminal out"
  using handleError_live(1) [of c cbs i m code] by simp

text \<open>It stops working on it only by calling a terminal callback of that generation.\<close>

lemma headers_resolved_live:
  assumes inv: "stream_inv c cbs" and "headers_resolved g b c = (c', out)" and "live c" and "\<not> live c'"
  shows "list_ex is_terminal out"
proof (cases "g \<in> set (sc_awaiting c) \<and> sc_generation c = g \<and> b")
  case True
  then have none: "sc_source c = None" using awaited_no_source [OF inv] by simp
  let ?c = "(settle g c)\<lparr>sc_source := Some (length (sc_requests c)), sc_streaming := True,
      sc_requests := sc_requests c @ [\<lparr>rq_generation = g, rq_completed = False, rq_closed = False\<rparr>]\<rparr>"
  have "stream_inv ?c cbs" using True none inv by (intro open_source_inv) auto
  then show ?thesis using True assms(2)
    by (auto simp: headers_resolved_def Let_def elim: handleError_terminal)
next
  case False
  then show ?thesis using assms
    by (auto simp: headers_resolved_def live_def Let_def split: if_splits)
qed

lemma stream_step_live:
  assumes inv: "stream_inv c cbs" and st: "stream_step e c = (c', out)" and "external_event e"
  shows "live c \<Longrightarrow> \<not> live c' \<Longrightarrow> list_ex is_terminal out"
    and "live c' \<Longrightarrow> live c"
    and "sc_generation c' = sc_generation c"
proof -
  have *: "(live c \<longrightarrow> \<not> live c' \<longrightarrow> list_ex is_terminal out) \<and> (live c' \<longrightarrow> live c)"
  proof (cases e)
    case (HeadersRejected g m)
    then show ?thesis using st by (auto simp: headers_rejected_def live_def split: if_splits dest: notin_set_remove1)
  next
    case (HeadersResolved g b)
    then show ?thesis using st headers_resolved_live [OF inv]
      by (auto simp: headers_resolved_def live_def Let_def split: if_splits dest: notin_set_remove1)
  next
    case (SourceMessage i d)
    then show ?thesis using st inv handleError_live [OF inv, of i]
      by (cases "sc_source c = Some i")
        (auto simp: on_message_def live_def stream_inv_def ignores_events_iff mark_completed_def Let_def
          split: if_splits sum.splits dest: handleError_terminal [OF inv])
  next
    case (SourceError i r d)
    then show ?thesis using st inv handleError_live [OF inv, of i]
      by (cases "sc_source c = Some i")
        (auto simp: on_error_event_def live_def Let_def split: if_splits dest: handleError_terminal [OF inv])
  next
    case (SourceReadyState i r d)
    then show ?thesis using st inv handleError_live [OF inv, of i]
      by (cases "sc_source c = Some i")
        (auto simp: on_readystatechange_def live_def split: if_splits option.splits dest: handleError_terminal [OF inv])
  qed (use assms(3) in \<open>auto simp: external_event_def\<close>)
  then show "live c \<Longrightarrow> \<not> live c' \<Longrightarrow> list_ex is_terminal out" and "live c' \<Longrightarrow> live c" by blast+
  show "sc_generation c' = sc_generation c"
    using st assms(3) headers_resolved_outputs(1) [of _ _ c] on_message_outputs(1) [of _ _ c]
      handleError_outputs(1) [of _ _ _ c]
    by (cases e)
      (auto simp: external_event_def headers_rejected_def on_error_event_def on_readystatechange_def Let_def
        split: if_splits option.splits dest!: arg_cong [of _ _ fst])
qed

text \<open>While the stream controller works, its callbacks are those of the current generation of the handler;
  while a reply is awaited, one is under way.\<close>

definition callbacks_ok :: "chat_handler \<Rightarrow> bool" where
  "callbacks_ok h \<longleftrightarrow>
     (live (h_stream h) \<longrightarrow> map_of (h_callbacks h) (sc_generation (h_stream h)) = Some (h_generation h))"

definition reply_under_way :: "chat_handler \<Rightarrow> bool" where
  "reply_under_way h \<longleftrightarrow> live (h_stream h) \<or> h_generation h \<in> set (h_inflight h)"

definition waiting_inv :: "chat_handler \<Rightarrow> bool" where
  "waiting_inv h \<longleftrightarrow>
     (\<exists>cbs. stream_inv (h_stream h) cbs) \<and> callbacks_ok h \<and> (h_requesting h \<longrightarrow> reply_under_way h)"

lemma flush_keeps [simp]:
  "h_stream (fst (flushStreamUpdates g h)) = h_stream h"
  "h_callbacks (fst (flushStreamUpdates g h)) = h_callbacks h"
  "h_inflight (fst (flushStreamUpdates g h)) = h_inflight h"
  "h_requesting (fst (flushStreamUpdates g h)) = h_requesting h"
  "h_generation (fst (flushStreamUpdates g h)) = h_generation h"
  by (simp_all add: flushStreamUpdates_def Let_def)

lemma dispatch_callback_keeps [simp]:
  "h_stream (fst (dispatch_callback t cb h)) = h_stream h"
  "h_callbacks (fst (dispatch_callback t cb h)) = h_callbacks h"
  "h_inflight (fst (dispatch_callback t cb h)) = h_inflight h"
  "h_generation (fst (dispatch_callback t cb h)) = h_generation h"
  by (simp_all add: dispatch_callback_def handleStreamUpdate_def scheduleStreamFlush_def handleStreamComplete_def
      handleStreamError_def Let_def split_beta split: option.split stream_callback.split)

lemma dispatch_callback_requesting:
  "h_requesting (fst (dispatch_callback t cb h)) \<Longrightarrow> h_requesting h"
  "\<lbrakk>is_terminal cb; map_of (h_callbacks h) (cb_generation cb) = Some (h_generation h)\<rbrakk> \<Longrightarrow>
     \<not> h_requesting (fst (dispatch_callback t cb h))"
  by (auto simp: dispatch_callback_def handleStreamUpdate_def scheduleStreamFlush_def handleStreamComplete_def
      handleStreamError_def Let_def split_beta split: option.splits stream_callback.splits if_splits)

lemma run_callbacks_keeps [simp]:
  "h_stream (fst (run_steps (dispatch_callback t) cbs h)) = h_stream h"
  "h_callbacks (fst (run_steps (dispatch_callback t) cbs h)) = h_callbacks h"
  "h_inflight (fst (run_steps (dispatch_callback t) cbs h)) = h_inflight h"
  by (induction cbs arbitrary: h; simp add: Let_def split_beta)+

lemma run_callbacks_requesting:
  "h_requesting (fst (run_steps (dispatch_callback t) cbs h)) \<Longrightarrow>
     h_requesting h \<and>
     (\<forall>cb \<in> set cbs. is_terminal cb \<longrightarrow> map_of (h_callbacks h) (cb_generation cb) \<noteq> Some (h_generation h))"
proof (induction cbs arbitrary: h)
  case Nil
  then show ?case by simp
next
  case (Cons cb cbs)
  from Cons.prems have "h_requesting (fst (run_steps (dispatch_callback t) cbs (fst (dispatch_callback t cb h))))"
    by (simp add: Let_def split_beta)
  from Cons.IH [OF this] show ?case using dispatch_callback_requesting [where t = t and cb = cb and h = h] by auto
qed

lemma stream_event_waiting:
  assumes inv: "waiting_inv h" and ext: "external_event e"
  shows "waiting_inv (fst (stream_event_step t e h))"
proof -
  obtain s cbs where st: "stream_step e (h_stream h) = (s, cbs)" by force
  obtain log where log: "stream_inv (h_stream h) log" using inv by (auto simp: waiting_inv_def)
  note live = stream_step_live [OF log st ext]
  let ?h = "fst (run_steps (dispatch_callback t) cbs (h\<lparr>h_stream := s\<rparr>))"
  have tags: "cb_generation cb = sc_generation (h_stream h)" if "cb \<in> set cbs" for cb
    using stream_step_outputs(2) [of cb e "h_stream h"] that st by simp
  have "callbacks_ok ?h" using inv live(2,3) by (auto simp: waiting_inv_def callbacks_ok_def)
  moreover have "reply_under_way ?h" if req: "h_requesting ?h"
  proof (rule ccontr)
    assume idle: "\<not> reply_under_way ?h"
    from run_callbacks_requesting [OF req] have old: "h_requesting h" and
      quiet: "\<And>cb. cb \<in> set cbs \<Longrightarrow> is_terminal cb \<Longrightarrow>
        map_of (h_callbacks h) (cb_generation cb) \<noteq> Some (h_generation h)" by auto
    from old idle inv have was: "live (h_stream h)" and "\<not> live s"
      by (auto simp: waiting_inv_def reply_under_way_def)
    with live(1) obtain cb where "cb \<in> set cbs" "is_terminal cb" by (auto simp: list_ex_iff)
    with quiet tags was inv show False by (auto simp: waiting_inv_def callbacks_ok_def)
  qed
  ultimately show ?thesis using stream_step_inv [OF log st]
    by (auto simp: waiting_inv_def stream_event_step_def st)
qed

lemma waiting_inv_weaken:
  "\<lbrakk>waiting_inv h; h_stream h' = h_stream h; h_callbacks h' = h_callbacks h; h_generation h' = h_generation h;
    h_requesting h' \<longrightarrow> h_requesting h \<and> h_inflight h' = h_inflight h\<rbrakk> \<Longrightarrow> waiting_inv h'"
  by (auto simp: waiting_inv_def callbacks_ok_def reply_under_way_def)

lemma flush_timer_waiting: "waiting_inv h \<Longrightarrow> waiting_inv (fst (flush_timer h))"
  by (erule waiting_inv_weaken) (simp_all add: flush_timer_def split: option.split)

lemma request_settled_keeps:
  "h_stream (fst (request_settled t g res h)) = h_stream h"
  "h_callbacks (fst (request_settled t g res h)) = h_callbacks h"
  "h_inflight (fst (request_settled t g res h)) = removeAll g (h_inflight h)"
  "h_requesting (fst (request_settled t g res h)) \<Longrightarrow> h_requesting h \<and> (g = h_generation h \<longrightarrow> g \<notin> set (h_inflight h))"
  by (auto simp: request_settled_def request_body_def request_finally_def handleStreamError_def Let_def split_beta
      removeAll_id split: outcome.splits if_splits)

lemma request_settled_waiting: "waiting_inv h \<Longrightarrow> waiting_inv (fst (request_settled t g res h))"
  using request_settled_keeps(4) [of t g res h]
  by (auto simp: waiting_inv_def callbacks_ok_def reply_under_way_def request_settled_keeps(1,2,3)
      request_settled_outputs(1))

lemma drop_source_dead: "stream_inv s cbs \<Longrightarrow> \<not> live (cancel notify s)"
proof -
  assume "stream_inv s cbs"
  then have "\<forall>g \<in> set (sc_awaiting s). g \<le> sc_generation s"
    by (auto simp: stream_inv_def fresh_generations_def list_all_iff)
  then show ?thesis by (auto simp: live_def cancel_alt)
qed

lemma send_waiting:
  assumes "waiting_inv h"
  shows "waiting_inv (sendChat config en messages h)"
proof -
  obtain log where log: "stream_inv (h_stream h) log" using assms by (auto simp: waiting_inv_def)
  have http: "waiting_inv (begin_request r h)" for r
    using cancel_inv [OF log, of True] drop_source_dead [OF log, of True]
    by (auto simp: waiting_inv_def callbacks_ok_def reply_under_way_def begin_request_def Let_def)
  have "waiting_inv (sendStreamingChat config en messages h)"
    using send_start_inv [OF log]
    by (auto simp: waiting_inv_def callbacks_ok_def reply_under_way_def sendStreamingChat_def Let_def
        live_def send_start_alt)
  with http show ?thesis by (simp add: sendChat_def sendImage_def sendNonStreamingChat_def)
qed

lemma stop_waiting:
  assumes "waiting_inv h"
  shows "waiting_inv (fst (stopGeneration h))"
proof -
  obtain log where log: "stream_inv (h_stream h) log" using assms by (auto simp: waiting_inv_def)
  then show ?thesis using cancel_inv [OF log, of True] drop_source_dead [OF log, of True]
    by (auto simp: waiting_inv_def callbacks_ok_def stopGeneration_def Let_def split_beta)
qed

lemma chat_step_waiting: "\<lbrakk>waiting_inv h; e \<noteq> Unmount\<rbrakk> \<Longrightarrow> waiting_inv (fst (chat_step t e h))"
  by (cases e)
    (simp_all add: stream_event_waiting external_event_def request_settled_waiting send_waiting stop_waiting
      flush_timer_waiting)

lemma initial_waiting: "waiting_inv initial_handler"
  using initial_stream_inv by (auto simp: waiting_inv_def callbacks_ok_def initial_handler_def live_def)
    (auto simp: initial_controller_def)

lemma run_chat_waiting: "Unmount \<notin> set es \<Longrightarrow> waiting_inv (fst (run_chat t es initial_handler))"
  unfolding run_chat_def
  by (intro run_steps_state_invariant [where I = waiting_inv] chat_step_waiting initial_waiting) auto

definition flag_ok :: "stream_controller \<Rightarrow> bool" where
  "flag_ok s \<longleftrightarrow> sc_streaming s = (sc_source s \<noteq> None)"

lemma flag_ok_idle [simp]: "flag_ok (cancel True s)" "flag_ok (send_start s)"
  by (simp_all add: flag_ok_def cancel_alt send_start_alt)

lemma stream_event_flag:
  "\<lbrakk>flag_ok (h_stream h); e \<noteq> Dispose\<rbrakk> \<Longrightarrow> flag_ok (h_stream (fst (stream_event_step t e h)))"
  using stream_step_flag [of "h_stream h" e] by (simp add: stream_event_step_def flag_ok_def Let_def split_beta)

lemma chat_step_flag: "\<lbrakk>flag_ok (h_stream h); e \<noteq> Unmount\<rbrakk> \<Longrightarrow> flag_ok (h_stream (fst (chat_step t e h)))"
  by (cases e)
    (auto simp: stream_event_flag Let_def split_beta request_settled_keeps flush_timer_def sendChat_def
      sendImage_def sendStreamingChat_def sendNonStreamingChat_def begin_request_def stopGeneration_def
      split: option.splits)

lemma run_chat_flag: "Unmount \<notin> set es \<Longrightarrow> flag_ok (h_stream (fst (run_chat t es initial_handler)))"
  unfolding run_chat_def
  by (intro run_steps_state_invariant [where I = "\<lambda>h. flag_ok (h_stream h)"] chat_step_flag)
    (auto simp: flag_ok_def initial_handler_def initial_controller_def)

subsection \<open>Delivery of content\<close>

text \<open>Chunks arrive and timeouts fire in any order; queued updaters run before the next event.\<close>

datatype delivery = Chunk string | Flush

definition apply_updates :: "int \<Rightarrow> nat \<Rightarrow> message_update list \<Rightarrow> Message list \<Rightarrow> Message list" where
  "apply_updates now g us msgs = foldl (\<lambda>ms u. apply_message_update now g u ms) msgs us"

fun deliver :: "int \<Rightarrow> delivery \<Rightarrow> chat_handler \<times> Message list \<Rightarrow> chat_handler \<times> Message list" where
  "deliver now (Chunk c) (h, msgs) = (handleStreamUpdate (h_generation h) ContentChunk c h, msgs)"
| "deliver now Flush (h, msgs) =
     (let (h1, us) = flush_timer h in (h1, apply_updates now (h_generation h1) us msgs))"

definition deliver_all :: "int \<Rightarrow> delivery list \<Rightarrow> chat_handler \<times> Message list \<Rightarrow> chat_handler \<times> Message list" where
  "deliver_all now ds s = foldl (\<lambda>s d. deliver now d s) s ds"

definition chunks_of :: "delivery list \<Rightarrow> string list" where
  "chunks_of ds = List.map_filter (\<lambda>d. case d of Chunk c \<Rightarrow> Some c | Flush \<Rightarrow> None) ds"

text \<open>The text of the reply together with what is still buffered.\<close>

definition last_content :: "Message list \<Rightarrow> string" where
  "last_content msgs = getMessageContent (last msgs)"

definition open_reply :: "Message list \<Rightarrow> bool" where
  "open_reply msgs \<longleftrightarrow> msgs \<noteq> [] \<and> m_from (last msgs) = ASSISTANT \<and> m_status (last msgs) \<noteq> Some ERROR"

definition received :: "chat_handler \<Rightarrow> Message list \<Rightarrow> string" where
  "received h msgs =
     (if pc_content (h_pending h) = [] then last_content msgs else pc_content (h_pending h))"

lemma deliver_all_Cons: "deliver_all now (d # ds) s = deliver_all now ds (deliver now d s)"
  by (simp add: deliver_all_def)

lemma deliver_all_append: "deliver_all now (ds @ es) s = deliver_all now es (deliver_all now ds s)"
  by (simp add: deliver_all_def)

lemma chunks_of_simps [simp]:
  "chunks_of [] = []"
  "chunks_of (Chunk c # ds) = c # chunks_of ds"
  "chunks_of (Flush # ds) = chunks_of ds"
  by (simp_all add: chunks_of_def map_filter_simps)

lemma apply_chunks_content:
  assumes "open_reply msgs" and "c \<noteq> []"
  shows "last_content (message_updater now (ApplyChunks g [] c) msgs) =
           last_content msgs @ getAppendableChunk (last_content msgs) c"
    and "open_reply (message_updater now (ApplyChunks g [] c) msgs)"
  using assms
  by (auto simp: open_reply_def last_content_def apply_chunks_def updateLastAssistantMessage_def
      applyStreamingChunk_content applyStreamingChunk_status)

text \<open>What a fired timeout does when only content is buffered.\<close>

lemma flush_delivers:
  assumes "buffer_ok h" and "pc_reasoning (h_pending h) = []" and "open_reply msgs"
    and "deliver now Flush (h, msgs) = (h', msgs')"
  shows "buffer_ok h'" and "h_generation h' = h_generation h" and "pc_reasoning (h_pending h') = []"
    and "pc_content (h_pending h') = []" and "open_reply msgs'"
    and "last_content msgs' =
      (if pc_content (h_pending h) = [] then last_content msgs
       else last_content msgs @ getAppendableChunk (last_content msgs) (pc_content (h_pending h)))"
  using assms apply_chunks_content [OF assms(3)]
  by (auto simp: flush_timer_def buffer_ok_def chat_defs apply_updates_def apply_message_update_def
      split: if_splits option.splits)

lemma chunk_delivers:
  assumes "buffer_ok h" and "pc_reasoning (h_pending h) = []"
    and "deliver now (Chunk c) (h, msgs) = (h', msgs')"
  shows "buffer_ok h'" and "h_generation h' = h_generation h" and "pc_reasoning (h_pending h') = []"
    and "pc_content (h_pending h') = mergePendingStreamChunk (pc_content (h_pending h)) c" and "msgs' = msgs"
  using assms update_buffer_ok [OF assms(1), of "h_generation h" ContentChunk c]
  by (auto simp: handleStreamUpdate_def scheduleStreamFlush_def merge_chunk_def buffer_ok_def)

definition snapshot_state :: "chat_handler \<Rightarrow> Message list \<Rightarrow> bool" where
  "snapshot_state h msgs \<longleftrightarrow>
     buffer_ok h \<and> pc_reasoning (h_pending h) = [] \<and> open_reply msgs \<and>
     (pc_content (h_pending h) = [] \<or> startsWith (pc_content (h_pending h)) (last_content msgs))"

lemma snapshot_step:
  assumes "snapshot_state h msgs" and "deliver now d (h, msgs) = (h', msgs')"
    and "snapshot_stream (received h msgs) (chunks_of [d])"
  shows "snapshot_state h' msgs' \<and> received h' msgs' = last (received h msgs # chunks_of [d])"
proof (cases d)
  case Flush
  have ok: "buffer_ok h" "pc_reasoning (h_pending h) = []" "open_reply msgs"
    using assms(1) by (auto simp: snapshot_state_def)
  note fd = flush_delivers [OF ok assms(2) [unfolded Flush]]
  have "last_content msgs' = received h msgs"
    using fd(6) assms(1) append_appendable [of "last_content msgs" "pc_content (h_pending h)"]
    by (simp add: snapshot_state_def received_def split: if_splits)
  then show ?thesis using fd Flush by (simp add: snapshot_state_def received_def)
next
  case (Chunk c)
  have ok: "buffer_ok h" "pc_reasoning (h_pending h) = []" using assms(1) by (auto simp: snapshot_state_def)
  note cd = chunk_delivers [OF ok assms(2) [unfolded Chunk]]
  have new: "startsWith c (received h msgs)" using assms(3) Chunk by simp
  have p': "pc_content (h_pending h') = c"
    using cd(4) new by (simp add: mergePendingStreamChunk_def received_def split: if_splits)
  have "startsWith c (last_content msgs)"
    using new assms(1) startsWith_trans [of c "pc_content (h_pending h)" "last_content msgs"]
    by (auto simp: received_def snapshot_state_def split: if_splits)
  moreover have "c = [] \<Longrightarrow> last_content msgs = []"
    using calculation by (simp add: startsWith_iff)
  ultimately show ?thesis using cd p' assms(1) Chunk by (simp add: snapshot_state_def received_def)
qed

lemma snapshot_run:
  assumes "snapshot_state h msgs" and "snapshot_stream (received h msgs) (chunks_of ds)"
    and "deliver_all now ds (h, msgs) = (h', msgs')"
  shows "snapshot_state h' msgs' \<and> received h' msgs' = last (received h msgs # chunks_of ds)"
  using assms
proof (induction ds arbitrary: h msgs)
  case Nil
  then show ?case by (simp add: deliver_all_def)
next
  case (Cons d ds)
  obtain h1 msgs1 where st: "deliver now d (h, msgs) = (h1, msgs1)" by force
  have head: "snapshot_stream (received h msgs) (chunks_of [d])" using Cons.prems(2) by (cases d) auto
  have s1: "snapshot_state h1 msgs1" "received h1 msgs1 = last (received h msgs # chunks_of [d])"
    using snapshot_step [OF Cons.prems(1) st head] by auto
  then have "snapshot_stream (received h1 msgs1) (chunks_of ds)" using Cons.prems(2) by (cases d) auto
  from Cons.IH [OF s1(1) this] Cons.prems(3) st s1(2) show ?case
    by (cases d) (auto simp: deliver_all_Cons)
qed

lemma snapshot_flushed:
  assumes "snapshot_state h msgs" and "deliver now Flush (h, msgs) = (h', msgs')"
  shows "last_content msgs' = received h msgs"
proof -
  have "received h' msgs' = received h msgs" and "pc_content (h_pending h') = []"
    using snapshot_step [OF assms] flush_delivers(4) [OF _ _ _ assms(2)] assms(1)
    by (auto simp: snapshot_state_def)
  then show ?thesis by (simp add: received_def)
qed

lemma chunk_then_flush:
  assumes "buffer_ok h" and "pc_content (h_pending h) = []" and "pc_reasoning (h_pending h) = []"
    and "open_reply msgs" and "c \<noteq> []" and "deliver_all now [Chunk c, Flush] (h, msgs) = (h', msgs')"
  shows "buffer_ok h'" and "pc_content (h_pending h') = []" and "pc_reasoning (h_pending h') = []"
    and "open_reply msgs'" and "last_content msgs' = last_content msgs @ getAppendableChunk (last_content msgs) c"
proof -
  obtain h1 m1 where one: "deliver now (Chunk c) (h, msgs) = (h1, m1)" by force
  note cd = chunk_delivers [OF assms(1,3) one]
  have fl: "deliver now Flush (h1, m1) = (h', msgs')"
    using assms(6) one by (simp add: deliver_all_def del: deliver.simps)
  have op: "open_reply m1" using assms(4) cd(5) by simp
  note fd = flush_delivers [OF cd(1,3) op fl]
  show "buffer_ok h'" "pc_content (h_pending h') = []" "pc_reasoning (h_pending h') = []" "open_reply msgs'"
    using fd by simp_all
  show "last_content msgs' = last_content msgs @ getAppendableChunk (last_content msgs) c"
    using fd(6) cd(4,5) assms(2,5) by (simp add: mergePendingStreamChunk_def)
qed

text \<open>A conversation to run the witnesses on: one request whose first chunk has arrived.\<close>

definition sample_config :: PlaygroundConfig where
  "sample_config =
     \<lparr>cfg_model = ''acu-auto'', cfg_selectedTokenId = None, cfg_temperature = 1, cfg_top_p = 1, cfg_max_tokens = 0,
      cfg_frequency_penalty = 0, cfg_presence_penalty = 0, cfg_seed = None, cfg_stream = True\<rparr>"

definition sample_enabled :: ParameterEnabled where
  "sample_enabled =
     \<lparr>en_temperature = True, en_top_p = False, en_max_tokens = False, en_frequency_penalty = False,
      en_presence_penalty = False, en_seed = False\<rparr>"

definition sample_events :: "chat_event list" where
  "sample_events =
     [SendChat sample_config sample_enabled [], StreamResolved 1 False,
      StreamMessage 0 (Some ''{\"choices\":[{\"delta\":{\"content\":\"hi\"}}]}'')]"

lemma sample_not_image: "\<not> isImageGenerationModel ''acu-auto''"
  by (simp add: isImageGenerationModel_def trim_def trim_by_def is_ws_def to_lower_def lower_char_def startsWith_def)

lemma initial_buffer_ok: "buffer_ok initial_handler"
  "pc_content (h_pending initial_handler) = []" "pc_reasoning (h_pending initial_handler) = []"
  by (simp_all add: buffer_ok_def initial_handler_def)

lemma sample_open_reply: "open_reply [sample_loading]" "last_content [sample_loading] = []"
  by (simp_all add: open_reply_def last_content_def sample_loading_facts)

lemma sample_update_parsed:
  "parseStreamMessageUpdates ''{\"choices\":[{\"delta\":{\"content\":\"hi\"}}]}'' = Inr [(ContentChunk, ''hi'')]"
  by (simp add: parseStreamMessageUpdates_def JSON_parse_example)

lemma sample_pending:
  "pc_content (h_pending (fst (run_chat id sample_events initial_handler))) = ''hi''"
  by (simp add: run_chat_def sample_events_def sendChat_def sample_config_def sample_not_image sendStreamingChat_def
      discardPendingStreamUpdates_def abort_current_def initial_handler_def initial_controller_def
      send_start_def close_option_def stream_event_step_def headers_resolved_def settle_def on_message_def
      ignores_events_def isCurrent_def isStreamDoneMessage_def STREAM_DONE_MESSAGE_def sample_update_parsed
      dispatch_callback_def handleStreamUpdate_def scheduleStreamFlush_def merge_chunk_def
      mergePendingStreamChunk_def Let_def)

subsection \<open>Properties\<close>

text \<open>
  C2: A superseded request cannot touch the conversation.  An updater queued before a new request, a stop or
  the unmounting leaves the messages as they are, at whatever later time it is run.
\<close>

theorem chat_superseded:
  assumes "e \<in> {SendChat config en messages, StopGeneration, Unmount}"
    and "u \<in> set (snd (run_chat t es h0))" and "h = fst (run_chat t es h0)"
    and "h' = fst (run_chat t es' (fst (chat_step t e h)))"
  shows "apply_message_update now (h_generation h') u msgs = msgs"
proof -
  have "up_generation u \<le> h_generation h"
    using chat.run_tags [of u t es h0] assms(2,3) by (simp add: run_chat_def)
  also have "\<dots> < h_generation (fst (chat_step t e h))"
    using assms(1) by (auto simp: stop_generation)
  also have "\<dots> \<le> h_generation h'"
    using chat.run_gen_mono [of "fst (chat_step t e h)" t es'] assms(4) by (simp add: run_chat_def)
  finally show ?thesis by (simp add: apply_message_update_def)
qed

theorem chat_superseded_witness:
  "apply_message_update 0 2 (StopReply 1) [sample_loading] = [sample_loading]"
proof -
  have u: "StopReply 1 \<in> set (snd (run_chat id [StopGeneration] initial_handler))"
    by (simp add: run_chat_def stopGeneration_def Let_def split_beta initial_handler_def)
  have g: "h_generation (fst (run_chat id [] (fst (chat_step id StopGeneration
      (fst (run_chat id [StopGeneration] initial_handler)))))) = 2"
    by (simp add: run_chat_def stop_generation) (simp add: initial_handler_def)
  show ?thesis
    using chat_superseded [OF _ u refl refl, of StopGeneration sample_config sample_enabled "[]" 0 "[]" "[sample_loading]"] g
    by simp
qed

text \<open>
  Received text is never stranded: in every state a mounted handler reaches, buffered text belongs to
  the current generation and a timeout that will flush it is armed.
\<close>

theorem chat_buffer_flushed:
  assumes "Unmount \<notin> set es" and "h = fst (run_chat t es initial_handler)"
    and "pc_content (h_pending h) \<noteq> [] \<or> pc_reasoning (h_pending h) \<noteq> []"
  shows "h_armed h = Some (h_generation h) \<and>
         snd (chat_step t FlushTimer h) =
           [ApplyChunks (h_generation h) (pc_reasoning (h_pending h)) (pc_content (h_pending h))]"
proof -
  have ok: "buffer_ok h" using run_chat_buffer_ok [OF assms(1)] assms(2) by simp
  with assms(3) have armed: "h_armed h = Some (h_generation h)" by (auto simp: buffer_ok_def)
  with ok assms(3) show ?thesis by (auto simp: flush_timer_def flushStreamUpdates_def buffer_ok_def Let_def)
qed

theorem chat_buffer_flushed_witness:
  "h_armed (fst (run_chat id sample_events initial_handler)) =
     Some (h_generation (fst (run_chat id sample_events initial_handler)))"
proof -
  have "Unmount \<notin> set sample_events" by (simp add: sample_events_def)
  from chat_buffer_flushed [OF this refl, of id] sample_pending show ?thesis by simp
qed

text \<open>The events by which an event source ends its request: \<open>[DONE]\<close>, a message that cannot be read, an error of an open
  connection, and the closing of the connection with a status other than 200.\<close>

fun ends_source :: "nat \<Rightarrow> chat_event \<Rightarrow> bool" where
  "ends_source i (StreamMessage j d) =
     (j = i \<and> (isStreamDoneMessage (opt_or d []) \<or> (case parseStreamMessageUpdates (opt_or d []) of Inl _ \<Rightarrow> True | Inr _ \<Rightarrow> False)))"
| "ends_source i (StreamFailed j ready d) = (j = i \<and> \<not> isStreamClosedReadyState ready)"
| "ends_source i (StreamReadyState j ready status) = (j = i \<and> getStreamReadyStateError ready status \<noteq> None)"
| "ends_source i _ = False"

text \<open>None of the events of a run that come after the source was created ends it.\<close>

fun not_ended :: "(string \<Rightarrow> string) \<Rightarrow> nat \<Rightarrow> chat_event list \<Rightarrow> chat_handler \<Rightarrow> bool" where
  "not_ended t i [] h = True"
| "not_ended t i (e # es) h =
     ((i < length (sc_requests (h_stream h)) \<longrightarrow> \<not> ends_source i e) \<and> not_ended t i es (fst (chat_step t e h)))"

lemma handleError_drops:
  "\<lbrakk>stream_inv c cbs; sc_source (fst (handleError i m code c)) = Some k\<rbrakk> \<Longrightarrow> sc_source c = Some k \<and> k \<noteq> i"
  by (auto simp: handleError_def stream_inv_def ignores_events_iff mark_completed_def split: if_splits)

lemma handleError_requests [simp]: "length (sc_requests (fst (handleError i m code c))) = length (sc_requests c)"
  by (simp add: handleError_def mark_completed_def close_source_def)

lemma stream_event_source:
  assumes "stream_inv (h_stream h) cbs"
  shows "sc_source (h_stream (fst (stream_event_step t e h))) = sc_source (fst (stream_step e (h_stream h)))"
    "sc_requests (h_stream (fst (stream_event_step t e h))) = sc_requests (fst (stream_step e (h_stream h)))"
  by (simp_all add: stream_event_step_def Let_def split_beta)

lemma headers_resolved_source:
  assumes "sc_source (fst (headers_resolved g b c)) = Some i" "i < length (sc_requests c)"
  shows "sc_source c = Some i"
  using assms by (auto simp: headers_resolved_def handleError_def mark_completed_def Let_def split: if_splits)

lemma headers_resolved_grows: "length (sc_requests c) \<le> length (sc_requests (fst (headers_resolved g b c)))"
  by (simp add: headers_resolved_def Let_def)

lemma on_message_requests [simp]: "length (sc_requests (fst (on_message i d c))) = length (sc_requests c)"
  by (simp add: on_message_def mark_completed_def close_source_def Let_def split: sum.splits)

text \<open>Events of another source change nothing; those of the current one leave it in place or drop it.\<close>

lemma handleError_current:
  "stream_inv c cbs \<Longrightarrow> sc_source c = Some i \<Longrightarrow> sc_source (fst (handleError i m code c)) = None"
  by (simp add: handleError_def stream_inv_def ignores_events_iff mark_completed_def)

lemma on_message_source:
  assumes "stream_inv c cbs" "sc_source (fst (on_message j d c)) = Some i"
  shows "sc_source c = Some i \<and> \<not> ends_source i (StreamMessage j d)"
proof (cases "sc_source c = Some j")
  case True
  define x where "x = opt_or d []"
  have o: "on_message j d c = (if isStreamDoneMessage x then (closeActiveSource j (mark_completed j c), [OnComplete (rq_generation (sc_requests c ! j))])
      else (case parseStreamMessageUpdates x of
          Inr updates \<Rightarrow> (c, map (\<lambda>(ty, chunk). OnUpdate (rq_generation (sc_requests c ! j)) ty chunk) updates)
        | Inl e \<Rightarrow> handleError j PARSE_ERROR None c))"
    using True assms(1) by (simp add: on_message_def stream_inv_def ignores_events_iff x_def opt_or_def)
  have "\<not> isStreamDoneMessage x" using assms(2) True by (auto simp: o mark_completed_def)
  moreover obtain us where "parseStreamMessageUpdates x = Inr us"
    using assms(2) handleError_current [OF assms(1) True] calculation by (cases "parseStreamMessageUpdates x") (auto simp: o)
  ultimately show ?thesis using assms(2) by (simp add: o x_def)
next
  case False
  then show ?thesis using assms by (auto simp: on_message_def stream_inv_def ignores_events_iff)
qed

lemma on_error_source:
  assumes "stream_inv c cbs" "sc_source (fst (on_error_event j ready d c)) = Some i"
  shows "sc_source c = Some i \<and> \<not> ends_source i (StreamFailed j ready d)"
  using assms handleError_drops [OF assms(1)]
  by (cases "isStreamClosedReadyState ready"; cases "ignores_events j c")
    (auto simp: on_error_event_def Let_def ignores_events_iff stream_inv_def)

lemma on_readystate_source:
  assumes "stream_inv c cbs" "sc_source (fst (on_readystatechange j ready status c)) = Some i"
  shows "sc_source c = Some i \<and> \<not> ends_source i (StreamReadyState j ready status)"
  using assms handleError_drops [OF assms(1)]
  by (cases "getStreamReadyStateError ready status"; cases "ignores_events j c")
    (auto simp: on_readystatechange_def ignores_events_iff stream_inv_def)

lemma idle_source [simp]: "sc_source (send_start c) = None" "sc_source (cancel b c) = None"
  by (simp_all add: send_start_alt cancel_alt)

lemma sent_source: "sc_source (h_stream (sendChat config en messages h)) = None"
  by (simp add: sendChat_def sendImage_def sendStreamingChat_def sendNonStreamingChat_def begin_request_def Let_def)

lemma stopped_source: "sc_source (h_stream (fst (stopGeneration h))) = None"
  by (simp add: stopGeneration_def Let_def split_beta)

text \<open>A source that is still the current one was so before, and the event did not end it.\<close>

lemma chat_step_source:
  assumes inv: "waiting_inv h" and src: "sc_source (h_stream (fst (chat_step t e h))) = Some i"
    and i: "i < length (sc_requests (h_stream h))" and "e \<noteq> Unmount"
  shows "sc_source (h_stream h) = Some i \<and> \<not> ends_source i e"
proof -
  obtain log where log: "stream_inv (h_stream h) log" using inv by (auto simp: waiting_inv_def)
  note ev = stream_event_source(1) [OF log]
  show ?thesis
  proof (cases e)
    case (StreamRejected g m)
    then show ?thesis using src by (simp add: ev headers_rejected_def split: if_splits)
  next
    case (StreamResolved g b)
    have "sc_source (h_stream h) = Some i"
      by (rule headers_resolved_source [OF _ i]) (use src StreamResolved in \<open>simp add: ev\<close>)
    then show ?thesis using StreamResolved by simp
  next
    case (StreamMessage j d)
    then show ?thesis using src on_message_source [OF log] by (simp add: ev del: ends_source.simps)
  next
    case (StreamFailed j ready d)
    then show ?thesis using src on_error_source [OF log] by (simp add: ev del: ends_source.simps)
  next
    case (StreamReadyState j ready status)
    then show ?thesis using src on_readystate_source [OF log] by (simp add: ev del: ends_source.simps)
  next
    case (SendChat config en messages)
    then show ?thesis using src by (simp add: sent_source)
  next
    case FlushTimer
    then show ?thesis using src by (simp add: flush_timer_def split: option.splits)
  next
    case (RequestSettled g res)
    then show ?thesis using src by (simp add: request_settled_keeps)
  next
    case StopGeneration
    then show ?thesis using src by (simp add: stopped_source)
  qed (use assms(4) in simp)
qed

lemma chat_step_requests:
  assumes "waiting_inv h"
  shows "length (sc_requests (h_stream h)) \<le> length (sc_requests (h_stream (fst (chat_step t e h))))"
proof -
  obtain log where log: "stream_inv (h_stream h) log" using assms by (auto simp: waiting_inv_def)
  have same: "length (sc_requests (send_start c)) = length (sc_requests c)" "length (sc_requests (cancel b c)) = length (sc_requests c)"
    for c b by (simp_all add: send_start_def cancel_def Let_def)
  note ev = stream_event_source(2) [OF log]
  show ?thesis using headers_resolved_grows same
    by (cases e)
      (auto simp: ev headers_rejected_def on_error_event_def on_readystatechange_def request_settled_keeps flush_timer_def sendChat_def
        sendImage_def sendStreamingChat_def sendNonStreamingChat_def begin_request_def stopGeneration_def unmount_def abort_current_def
        Let_def split_beta split: if_splits option.splits)
qed

lemma run_not_ended:
  assumes "waiting_inv h" "Unmount \<notin> set es" "sc_source (h_stream (fst (run_chat t es h))) = Some i"
  shows "not_ended t i es h \<and> (i < length (sc_requests (h_stream h)) \<longrightarrow> sc_source (h_stream h) = Some i)"
  using assms
proof (induction es arbitrary: h)
  case (Cons e es)
  define h1 where "h1 = fst (chat_step t e h)"
  have w: "waiting_inv h1" using chat_step_waiting [OF Cons.prems(1)] Cons.prems(2) by (auto simp: h1_def)
  have "sc_source (h_stream (fst (run_chat t es h1))) = Some i"
    using Cons.prems(3) by (simp add: run_chat_def h1_def Let_def split_beta)
  then have ih: "not_ended t i es h1" "i < length (sc_requests (h_stream h1)) \<longrightarrow> sc_source (h_stream h1) = Some i"
    using Cons.IH [OF w] Cons.prems(2) by auto
  have "sc_source (h_stream h) = Some i \<and> \<not> ends_source i e" if "i < length (sc_requests (h_stream h))"
  proof (rule chat_step_source [OF Cons.prems(1) _ that])
    show "sc_source (h_stream (fst (chat_step t e h))) = Some i"
      using ih(2) that chat_step_requests [OF Cons.prems(1), of t e] by (simp add: h1_def)
  qed (use Cons.prems(2) in auto)
  then show ?case using ih(1) by (simp add: h1_def)
qed (simp add: run_chat_def)

text \<open>
  C20: What the interface waits for.  While a mounted handler shows a request as running, the header promise of the current
  generation or an awaited call of it is outstanding, or there is a current event source that no event since its
  creation has ended: neither \<open>[DONE]\<close>, nor a message that cannot be read, nor an error of the open connection, nor a close with a
  status other than 200.  A close with status 200 is not among the events that end a request, which is the one way to wait
  in vain.
\<close>

theorem chat_waits_for_something:
  assumes "Unmount \<notin> set es" and "h = fst (run_chat t es initial_handler)" and "isGenerating h"
  shows "sc_generation (h_stream h) \<in> set (sc_awaiting (h_stream h)) \<or> h_generation h \<in> set (h_inflight h)
    \<or> (\<exists>i. sc_source (h_stream h) = Some i \<and> isCurrent i (h_stream h) \<and> not_ended t i es initial_handler)"
proof -
  have w: "waiting_inv h" using run_chat_waiting [OF assms(1)] assms(2) by simp
  then have "single_open_source (h_stream h)" by (auto simp: waiting_inv_def stream_inv_def)
  then have c: "isCurrent i (h_stream h)" if "sc_source (h_stream h) = Some i" for i using that by (simp add: single_open_source_def)
  have n: "not_ended t i es initial_handler" if "sc_source (h_stream h) = Some i" for i
    using run_not_ended [OF initial_waiting assms(1)] that assms(2) by simp
  have "live (h_stream h) \<or> h_generation h \<in> set (h_inflight h)"
  proof (cases "h_requesting h")
    case True
    with w show ?thesis by (simp add: waiting_inv_def reply_under_way_def)
  next
    case False
    then have "sc_streaming (h_stream h)" using assms(3) by (simp add: isGenerating_def)
    then show ?thesis using run_chat_flag [OF assms(1), of t] assms(2) by (simp add: flag_ok_def live_def)
  qed
  then show ?thesis using c n by (auto simp: live_def)
qed

theorem chat_waits_for_something_witness:
  "sc_generation (h_stream (fst (run_chat id [SendChat sample_config sample_enabled []] initial_handler)))
     \<in> set (sc_awaiting (h_stream (fst (run_chat id [SendChat sample_config sample_enabled []] initial_handler))))"
proof -
  define h where "h = fst (run_chat id [SendChat sample_config sample_enabled []] initial_handler)"
  have "isGenerating h" "sc_source (h_stream h) = None" "h_inflight h = []"
    by (simp_all add: h_def isGenerating_def run_chat_def sendChat_def sample_config_def sample_not_image
      sendStreamingChat_def send_start_alt initial_handler_def initial_controller_def Let_def)
  then show ?thesis using chat_waits_for_something [OF _ h_def] by (simp add: h_def [symmetric])
qed

text \<open>A connection that the peer closes with status 200 and without \<open>[DONE]\<close> changes nothing: the reply stays under way for ever.\<close>

lemma closed_without_done_ignored:
  "chat_step t (StreamReadyState i (Some 2) (Some 200)) h = (h, [])"
  "chat_step t (StreamFailed i (Some 2) d) h = (h, [])"
  by (simp_all add: stream_event_step_def on_readystatechange_def on_error_event_def getStreamReadyStateError_def
      isStreamClosedReadyState_def STREAM_CLOSED_READY_STATE_def)

text \<open>
  C26: Snapshots survive any schedule.  For a stream whose chunks each repeat the text so far, the reply ends
  up as the last snapshot, wherever the flush timeouts fall between the chunks.
\<close>

theorem chat_snapshots_any_schedule:
  assumes "buffer_ok h" and "pc_content (h_pending h) = []" and "pc_reasoning (h_pending h) = []"
    and "open_reply msgs" and "snapshot_stream (last_content msgs) (chunks_of ds)"
  shows "last_content (snd (deliver_all now (ds @ [Flush]) (h, msgs))) = last (last_content msgs # chunks_of ds)"
proof -
  obtain h1 msgs1 where run: "deliver_all now ds (h, msgs) = (h1, msgs1)" by force
  obtain h2 msgs2 where fl: "deliver now Flush (h1, msgs1) = (h2, msgs2)" by force
  have start: "snapshot_state h msgs" "received h msgs = last_content msgs"
    using assms by (simp_all add: snapshot_state_def received_def)
  from snapshot_run [OF start(1) _ run] start(2) assms(5)
  have "snapshot_state h1 msgs1" "received h1 msgs1 = last (last_content msgs # chunks_of ds)" by auto
  with snapshot_flushed [OF this(1) fl] show ?thesis
    using run fl by (simp add: deliver_all_append deliver_all_def [of _ "[Flush]"])
qed

theorem chat_snapshots_any_schedule_witness:
  "last_content (snd (deliver_all 0 [Chunk ''a'', Flush, Chunk ''ab'', Flush] (initial_handler, [sample_loading]))) = ''ab''"
  using chat_snapshots_any_schedule [OF initial_buffer_ok sample_open_reply(1), of "[Chunk ''a'', Flush, Chunk ''ab'']" 0]
  by (simp add: sample_open_reply startsWith_def)

text \<open>
  Deltas do not survive every schedule.  A delta that begins with the delta before it is appended when
  the timeout fires between them, and replaces it when both are buffered together.
\<close>

theorem chat_deltas_depend_on_schedule:
  assumes "buffer_ok h" and "pc_content (h_pending h) = []" and "pc_reasoning (h_pending h) = []"
    and "open_reply msgs" and "c \<noteq> []" and "x \<noteq> []" and "x = last_content msgs"
    and "\<not> startsWith c x" and "\<not> startsWith (c @ d) (x @ c)" and "\<not> startsWith (c @ d) x"
  shows "last_content (snd (deliver_all now [Chunk c, Flush, Chunk (c @ d), Flush] (h, msgs))) = x @ c @ c @ d \<and>
         last_content (snd (deliver_all now [Chunk c, Chunk (c @ d), Flush] (h, msgs))) = x @ c @ d"
proof
  have new: "getAppendableChunk x c = c" "getAppendableChunk (x @ c) (c @ d) = c @ d" "getAppendableChunk x (c @ d) = c @ d"
    using assms(6,8-10) by (simp_all add: getAppendableChunk_def)
  obtain h1 m1 where one: "deliver_all now [Chunk c, Flush] (h, msgs) = (h1, m1)" by force
  note f1 = chunk_then_flush [OF assms(1-4) assms(5) one]
  obtain h2 m2 where two: "deliver_all now [Chunk (c @ d), Flush] (h1, m1) = (h2, m2)" by force
  have "c @ d \<noteq> []" using assms(5) by simp
  note f2 = chunk_then_flush [OF f1(1-4) this two]
  have "deliver_all now ([Chunk c, Flush] @ [Chunk (c @ d), Flush]) (h, msgs) = (h2, m2)"
    unfolding deliver_all_append one two ..
  then show "last_content (snd (deliver_all now [Chunk c, Flush, Chunk (c @ d), Flush] (h, msgs))) = x @ c @ c @ d"
    using f1(5) f2(5) new assms(7) by simp
next
  have new: "getAppendableChunk x (c @ d) = c @ d" using assms(6,10) by (simp add: getAppendableChunk_def)
  obtain h1 m1 where one: "deliver now (Chunk c) (h, msgs) = (h1, m1)" by force
  note c1 = chunk_delivers [OF assms(1,3) one]
  obtain h2 m2 where two: "deliver now (Chunk (c @ d)) (h1, m1) = (h2, m2)" by force
  note c2 = chunk_delivers [OF c1(1,3) two]
  obtain h3 m3 where fl: "deliver now Flush (h2, m2) = (h3, m3)" by force
  have op: "open_reply m2" using assms(4) c1(5) c2(5) by simp
  have "pc_content (h_pending h2) = c @ d"
    using c1(4) c2(4) assms(2,5) by (simp add: mergePendingStreamChunk_def)
  then have "last_content m3 = x @ c @ d"
    using flush_delivers(6) [OF c2(1,3) op fl] c1(5) c2(5) new assms(5,7) by simp
  then show "last_content (snd (deliver_all now [Chunk c, Chunk (c @ d), Flush] (h, msgs))) = x @ c @ d"
    by (simp add: deliver_all_def one two fl del: deliver.simps)
qed

theorem chat_deltas_depend_on_schedule_witness:
  "last_content (snd (deliver_all 0 [Chunk ''c'', Flush, Chunk ''cd'', Flush]
      (initial_handler, [updateCurrentVersionContent sample_loading ''ab'']))) = ''abccd'' \<and>
   last_content (snd (deliver_all 0 [Chunk ''c'', Chunk ''cd'', Flush]
      (initial_handler, [updateCurrentVersionContent sample_loading ''ab'']))) = ''abcd''"
proof -
  let ?m = "[updateCurrentVersionContent sample_loading ''ab'']"
  have "open_reply ?m" "last_content ?m = ''ab''"
    by (simp_all add: open_reply_def last_content_def sample_loading_facts updateCurrentVersionContent_def
        getMessageContent_def getCurrentVersion_def)
  then show ?thesis
    using chat_deltas_depend_on_schedule [OF initial_buffer_ok, of ?m "''c''" "''ab''" "''d''" 0]
    by (simp add: startsWith_def)
qed

text \<open>
  A stop that overtakes its own flush loses the buffered text: when the updaters queued by \<open>stopGeneration\<close>
  run after it has returned, the one that carries the text finds its generation superseded.
\<close>

theorem stop_drops_flushed_text:
  assumes "buffer_ok h" and "pc_content (h_pending h) \<noteq> [] \<or> pc_reasoning (h_pending h) \<noteq> []"
  shows "ApplyChunks (h_generation h) (pc_reasoning (h_pending h)) (pc_content (h_pending h))
           \<in> set (snd (stopGeneration h)) \<and>
         apply_updates now (h_generation (fst (stopGeneration h))) (snd (stopGeneration h)) msgs =
           updateLastAssistantMessage msgs
             (\<lambda>m. if isAssistantMessagePending m then completeAssistantMessage now m else m)"
  using assms stop_generation [of h]
  by (auto simp: stopGeneration_def flushStreamUpdates_def buffer_ok_def apply_updates_def apply_message_update_def
      Let_def split_beta)

theorem stop_drops_flushed_text_witness:
  "ApplyChunks 0 [] ''a'' \<in> set (snd (stopGeneration (handleStreamUpdate 0 ContentChunk ''a'' initial_handler)))"
proof -
  let ?h = "handleStreamUpdate 0 ContentChunk ''a'' initial_handler"
  have h: "h_generation ?h = 0" "pc_content (h_pending ?h) = ''a''" "pc_reasoning (h_pending ?h) = []"
    by (simp_all add: handleStreamUpdate_def scheduleStreamFlush_def initial_handler_def merge_chunk_def
        mergePendingStreamChunk_def)
  show ?thesis using stop_drops_flushed_text [OF update_buffer_ok [OF initial_buffer_ok(1)], of 0 ContentChunk "''a''"] h
    by simp
qed

end
