(* ===== verification/AuthSession.thy ===== *)
theory AuthSession
  imports Json Machines
begin

text \<open>
  The authentication session: \<open>stores/auth-store.ts\<close>, \<open>lib/auth-session.ts\<close>, \<open>lib/auth-session-sync.ts\<close> and
  the listener of \<open>routes/__root.tsx\<close>.

  Users and login sessions are the objects the server sent, kept as values and read through their
  properties, as the store keeps them.  The asynchronous refresh is a state machine: \<open>as_refresh\<close> is the
  job behind \<open>refreshPromise\<close>, with the epoch it captured, the two arguments of \<open>run\<close> and what it waits for
  (the browser lock, the response, the race delay).  One event lets it continue; every synchronous
  function of the module is an event as well, so that a run of the machine is an interleaving of them.
  The log of an event is what leaves the module: published synchronisation events and settled refreshes.
  That \<open>finally\<close> clears \<open>refreshPromise\<close> one microtask after the outcome is not distinguished.  Clock
  readings are arguments, in milliseconds.
\<close>

subsection \<open>The store, \<open>auth-store.ts\<close>\<close>

record AuthBundle =
  b_access_token :: string
  b_token_type :: string
  b_access_expires_at :: rat
  b_user :: jsval
  b_session :: jsval

datatype AuthBootstrapState = Idle | Checking | Complete

record AuthState =
  a_user :: "jsval option"
  a_accessToken :: "string option"
  a_accessExpiresAt :: "rat option"
  a_session :: "jsval option"
  a_pending2FAFlowToken :: "string option"
  a_bootstrapState :: AuthBootstrapState

definition initial_auth :: AuthState where
  "initial_auth =
     \<lparr>a_user = None, a_accessToken = None, a_accessExpiresAt = None, a_session = None,
      a_pending2FAFlowToken = None, a_bootstrapState = Idle\<rparr>"

definition setBundle :: "AuthBundle \<Rightarrow> AuthState \<Rightarrow> AuthState" where
  "setBundle b st =
     st\<lparr>a_user := Some (b_user b), a_accessToken := Some (b_access_token b),
        a_accessExpiresAt := Some (b_access_expires_at b), a_session := Some (b_session b),
        a_pending2FAFlowToken := None, a_bootstrapState := Complete\<rparr>"

definition setUser :: "jsval option \<Rightarrow> AuthState \<Rightarrow> AuthState" where
  "setUser user st = st\<lparr>a_user := user\<rparr>"

definition setPending2FAFlowToken :: "string option \<Rightarrow> AuthState \<Rightarrow> AuthState" where
  "setPending2FAFlowToken flowToken st = st\<lparr>a_pending2FAFlowToken := flowToken\<rparr>"

definition setBootstrapState :: "AuthBootstrapState \<Rightarrow> AuthState \<Rightarrow> AuthState" where
  "setBootstrapState bs st = st\<lparr>a_bootstrapState := bs\<rparr>"

definition reset :: "AuthBootstrapState \<Rightarrow> AuthState \<Rightarrow> AuthState" where
  "reset bs st =
     st\<lparr>a_user := None, a_accessToken := None, a_accessExpiresAt := None, a_session := None,
        a_pending2FAFlowToken := None, a_bootstrapState := bs\<rparr>"

definition sid_of :: "jsval option \<Rightarrow> string option" where
  "sid_of session = (if is_str (get_prop session ''sid'') then Some (the_str (get_prop session ''sid'')) else None)"

subsection \<open>Validation of responses, \<open>auth-session.ts\<close>\<close>

definition isAuthUser :: "jsval option \<Rightarrow> bool" where
  "isAuthUser v \<longleftrightarrow>
     is_record v \<and>
     is_num (get_prop v ''id'') \<and> is_integer (the_num (get_prop v ''id'')) \<and> the_num (get_prop v ''id'') > 0 \<and>
     is_str (get_prop v ''username'') \<and> is_num (get_prop v ''role'')"

definition isLoginSession :: "jsval option \<Rightarrow> bool" where
  "isLoginSession v \<longleftrightarrow>
     is_record v \<and>
     is_str (get_prop v ''sid'') \<and> the_str (get_prop v ''sid'') \<noteq> [] \<and>
     is_bool (get_prop v ''current'') \<and> is_str (get_prop v ''login_method'') \<and> is_str (get_prop v ''ip'') \<and>
     is_str (get_prop v ''user_agent'') \<and> is_num (get_prop v ''created_at'') \<and>
     is_num (get_prop v ''last_active_at'') \<and> is_num (get_prop v ''expires_at'')"

definition hasValidTokenFields :: "jsval option \<Rightarrow> bool" where
  "hasValidTokenFields v \<longleftrightarrow>
     is_str (get_prop v ''access_token'') \<and> the_str (get_prop v ''access_token'') \<noteq> [] \<and>
     is_str (get_prop v ''token_type'') \<and> the_str (get_prop v ''token_type'') \<noteq> [] \<and>
     is_num (get_prop v ''access_expires_at'') \<and> the_num (get_prop v ''access_expires_at'') > 0"

definition isAuthBundle :: "jsval option \<Rightarrow> bool" where
  "isAuthBundle v \<longleftrightarrow>
     is_record v \<and> hasValidTokenFields v \<and> isAuthUser (get_prop v ''user'') \<and> isLoginSession (get_prop v ''session'')"

definition isAuthTokenRotation :: "jsval option \<Rightarrow> bool" where
  "isAuthTokenRotation v \<longleftrightarrow>
     is_record v \<and> hasValidTokenFields v \<and> get_prop v ''token_type'' = Some (JStr ''Bearer'') \<and>
     isLoginSession (get_prop v ''session'') \<and> truthy (get_prop (get_prop v ''session'') ''current'')"

text \<open>The bundle an accepted value is read as.\<close>

definition bundle_of :: "jsval option \<Rightarrow> jsval \<Rightarrow> AuthBundle" where
  "bundle_of v user =
     \<lparr>b_access_token = the_str (get_prop v ''access_token''), b_token_type = the_str (get_prop v ''token_type''),
      b_access_expires_at = the_num (get_prop v ''access_expires_at''), b_user = user,
      b_session = the (get_prop v ''session'')\<rparr>"

definition parseBundle :: "jsval option \<Rightarrow> AuthBundle option" where
  "parseBundle v = (if isAuthBundle v then Some (bundle_of v (the (get_prop v ''user''))) else None)"

subsection \<open>Tabs, \<open>auth-session-sync.ts\<close>\<close>

datatype sync_kind = SyncAuthenticated | SyncSignedOut

record AuthSessionSyncEvent =
  ev_kind :: sync_kind
  ev_sid :: string
  ev_source :: string
  ev_nonce :: string
  ev_timestamp :: int

text \<open>The event as the object that is posted.\<close>

definition event_value :: "AuthSessionSyncEvent \<Rightarrow> jsval" where
  "event_value ev =
     JObj [(''kind'', JStr (case ev_kind ev of SyncAuthenticated \<Rightarrow> ''authenticated'' | SyncSignedOut \<Rightarrow> ''signed_out'')),
           (''sid'', JStr (ev_sid ev)), (''source'', JStr (ev_source ev)), (''nonce'', JStr (ev_nonce ev)),
           (''timestamp'', JNum (of_int (ev_timestamp ev)))]"

definition isAuthSessionSyncEvent :: "jsval option \<Rightarrow> bool" where
  "isAuthSessionSyncEvent v \<longleftrightarrow>
     is_record v \<and>
     (get_prop v ''kind'' = Some (JStr ''authenticated'') \<or> get_prop v ''kind'' = Some (JStr ''signed_out'')) \<and>
     is_str (get_prop v ''sid'') \<and> the_str (get_prop v ''sid'') \<noteq> [] \<and>
     is_str (get_prop v ''source'') \<and> is_str (get_prop v ''nonce'') \<and> is_num (get_prop v ''timestamp'')"

text \<open>\<open>publishAuthSessionEvent\<close>: the nonce and the clock reading are arguments.\<close>

definition publishAuthSessionEvent ::
  "string \<Rightarrow> string \<Rightarrow> int \<Rightarrow> sync_kind \<Rightarrow> string \<Rightarrow> AuthSessionSyncEvent list" where
  "publishAuthSessionEvent source nonce now kind sid =
     (if sid = [] then []
      else [\<lparr>ev_kind = kind, ev_sid = sid, ev_source = source, ev_nonce = nonce, ev_timestamp = now\<rparr>])"

text \<open>\<open>deliver\<close> of \<open>subscribeAuthSessionEvents\<close>: what the listener is called with, if it is.\<close>

definition deliver_event :: "string \<Rightarrow> int \<Rightarrow> jsval option \<Rightarrow> (sync_kind \<times> string) option" where
  "deliver_event source now v =
     (if isAuthSessionSyncEvent v \<and> the_str (get_prop v ''source'') \<noteq> source \<and>
         \<bar>of_int now - the_num (get_prop v ''timestamp'')\<bar> < 60000
      then Some (if get_prop v ''kind'' = Some (JStr ''authenticated'') then SyncAuthenticated else SyncSignedOut,
                 the_str (get_prop v ''sid''))
      else None)"

subsection \<open>The module state\<close>

datatype refresh_error = SupersededError | RequestError "jsval option"

datatype RefreshOutcome =
    Authenticated AuthBundle
  | Anonymous
  | TransientError refresh_error
  | OutOfSync "string option"

record AuthRefreshHTTPResponse =
  hr_status :: nat
  hr_data :: "jsval option"
  hr_error :: "jsval option"

datatype refresh_phase = AwaitLock | AwaitResponse | AwaitDelay nat

record refresh_job =
  rj_epoch :: nat
  rj_raceAttempt :: nat
  rj_allowMismatchRetry :: bool
  rj_phase :: refresh_phase
  rj_sent :: "string option list"

record auth_module =
  as_store :: AuthState
  as_epoch :: nat
  as_refresh :: "refresh_job option"

definition initial_module :: auth_module where
  "initial_module = \<lparr>as_store = initial_auth, as_epoch = 0, as_refresh = None\<rparr>"

datatype auth_output =
    Publish sync_kind string
  | Settled RefreshOutcome
  | RefreshRejected
  | BootstrapResult RefreshOutcome
  | RotationFailed string

definition store_update :: "(AuthState \<Rightarrow> AuthState) \<Rightarrow> auth_module \<Rightarrow> auth_module" where
  "store_update f s = s\<lparr>as_store := f (as_store s)\<rparr>"

definition applyAuthBundle :: "AuthBundle \<Rightarrow> bool \<Rightarrow> auth_module \<Rightarrow> auth_module \<times> auth_output list" where
  "applyAuthBundle b synchronizeTabs s =
     (let previousSID = sid_of (a_session (as_store s));
          sid = sid_of (Some (b_session b)) in
      (store_update (setBundle b) (s\<lparr>as_epoch := as_epoch s + 1\<rparr>),
       if synchronizeTabs \<and> previousSID \<noteq> sid
       then (case sid of Some x \<Rightarrow> if x \<noteq> [] then [Publish SyncAuthenticated x] else [] | None \<Rightarrow> [])
       else []))"

definition applyAuthRotation :: "jsval option \<Rightarrow> auth_module \<Rightarrow> auth_module \<times> auth_output list" where
  "applyAuthRotation v s =
     (let auth = as_store s in
      if \<not> isAuthTokenRotation v then (s, [RotationFailed ''Invalid authentication rotation response''])
      else (case (a_user auth, a_session auth) of
          (Some user, Some session) \<Rightarrow>
            if sid_of (get_prop v ''session'') \<noteq> sid_of (Some session)
            then (s, [RotationFailed ''Authentication rotation session mismatch''])
            else applyAuthBundle (bundle_of v user) False s
        | _ \<Rightarrow> (s, [RotationFailed ''Authentication rotation has no active session''])))"

definition clearAuthentication ::
  "bool \<Rightarrow> AuthBootstrapState \<Rightarrow> auth_module \<Rightarrow> auth_module \<times> auth_output list" where
  "clearAuthentication synchronizeTabs bs s =
     (store_update (reset bs) (s\<lparr>as_epoch := as_epoch s + 1\<rparr>),
      case sid_of (a_session (as_store s)) of
        Some sid \<Rightarrow> if synchronizeTabs \<and> sid \<noteq> [] then [Publish SyncSignedOut sid] else []
      | None \<Rightarrow> [])"

subsection \<open>Refreshing\<close>

definition refreshRaceDelays :: "nat list" where
  "refreshRaceDelays = [80, 200, 500]"

definition settle_refresh :: "RefreshOutcome \<Rightarrow> auth_module \<Rightarrow> auth_module \<times> auth_output list" where
  "settle_refresh outcome s = (s\<lparr>as_refresh := None\<rparr>, [Settled outcome])"

text \<open>The beginning of \<open>run(raceAttempt, allowMismatchRetry)\<close>, up to the awaited request.\<close>

definition run_start :: "refresh_job \<Rightarrow> auth_module \<Rightarrow> auth_module \<times> auth_output list" where
  "run_start job s =
     (if as_epoch s \<noteq> rj_epoch job then settle_refresh (TransientError SupersededError) s
      else (s\<lparr>as_refresh := Some (job\<lparr>rj_phase := AwaitResponse,
                rj_sent := rj_sent job @ [sid_of (a_session (as_store s))]\<rparr>)\<rparr>, []))"

definition settle_after ::
  "RefreshOutcome \<Rightarrow> auth_module \<times> auth_output list \<Rightarrow> auth_module \<times> auth_output list" where
  "settle_after outcome p = (fst (settle_refresh outcome (fst p)), snd p @ snd (settle_refresh outcome (fst p)))"

text \<open>The rest of \<open>run\<close>, after the response.\<close>

definition run_response ::
  "refresh_job \<Rightarrow> AuthRefreshHTTPResponse \<Rightarrow> auth_module \<Rightarrow> auth_module \<times> auth_output list" where
  "run_response job response s =
     (if as_epoch s \<noteq> rj_epoch job then settle_refresh (TransientError SupersededError) s
      else
        (let data = hr_data response;
             status = hr_status response;
             code = (if is_str (get_prop data ''code'') then Some (the_str (get_prop data ''code'')) else None);
             bundle = parseBundle (get_prop data ''data'') in
         if get_prop data ''success'' = Some (JBool True) \<and> bundle \<noteq> None
         then settle_after (Authenticated (the bundle)) (applyAuthBundle (the bundle) False s)
         else if status = 409 \<and> code = Some ''AUTH_REFRESH_RACE'' then
           (if rj_raceAttempt job < length refreshRaceDelays
            then (s\<lparr>as_refresh := Some (job\<lparr>rj_phase := AwaitDelay (refreshRaceDelays ! rj_raceAttempt job)\<rparr>)\<rparr>, [])
            else settle_after (OutOfSync code) (clearAuthentication False Complete s))
         else if status = 409 \<and> code = Some ''AUTH_SESSION_MISMATCH'' then
           (if rj_allowMismatchRetry job
            then run_start (job\<lparr>rj_raceAttempt := 0, rj_allowMismatchRetry := False\<rparr>)
                   (store_update (reset Idle) s)
            else settle_after (OutOfSync code) (clearAuthentication False Complete s))
         else if status = 401 then settle_after Anonymous (clearAuthentication True Complete s)
         else if status = 0 \<or> status \<ge> 500 \<or> status = 429
         then settle_refresh (TransientError (RequestError (case hr_error response of Some e \<Rightarrow> Some e | None \<Rightarrow> data)))
                (store_update (setBootstrapState Idle) s)
         else settle_after (OutOfSync (Some (case code of Some c \<Rightarrow> c | None \<Rightarrow> ''AUTH_INVALID_REFRESH_RESPONSE'')))
                (clearAuthentication False Complete s)))"

definition refreshAuthentication :: "auth_module \<Rightarrow> auth_module" where
  "refreshAuthentication s =
     (if as_refresh s \<noteq> None then s
      else s\<lparr>as_refresh := Some \<lparr>rj_epoch = as_epoch s, rj_raceAttempt = 0, rj_allowMismatchRetry = True,
              rj_phase = AwaitLock, rj_sent = []\<rparr>\<rparr>)"

text \<open>\<open>performRefreshWithBrowserLock\<close>: without the lock API the job continues at once, which is a grant
  that follows immediately.  A rejected lock request rejects the promise: \<open>return\<close> hands the promise on
  without awaiting it, so the surrounding \<open>catch\<close> does not see the rejection.\<close>

definition lock_granted :: "auth_module \<Rightarrow> auth_module \<times> auth_output list" where
  "lock_granted s =
     (case as_refresh s of
        Some job \<Rightarrow> if rj_phase job = AwaitLock then run_start job s else (s, [])
      | None \<Rightarrow> (s, []))"

definition lock_rejected :: "auth_module \<Rightarrow> auth_module \<times> auth_output list" where
  "lock_rejected s =
     (case as_refresh s of
        Some job \<Rightarrow> if rj_phase job = AwaitLock then (s\<lparr>as_refresh := None\<rparr>, [RefreshRejected]) else (s, [])
      | None \<Rightarrow> (s, []))"

definition response_received :: "AuthRefreshHTTPResponse \<Rightarrow> auth_module \<Rightarrow> auth_module \<times> auth_output list" where
  "response_received response s =
     (case as_refresh s of
        Some job \<Rightarrow> if rj_phase job = AwaitResponse then run_response job response s else (s, [])
      | None \<Rightarrow> (s, []))"

definition delay_elapsed :: "auth_module \<Rightarrow> auth_module \<times> auth_output list" where
  "delay_elapsed s =
     (case as_refresh s of
        Some job \<Rightarrow>
          (case rj_phase job of
             AwaitDelay d \<Rightarrow> run_start (job\<lparr>rj_raceAttempt := rj_raceAttempt job + 1\<rparr>) s
           | _ \<Rightarrow> (s, []))
      | None \<Rightarrow> (s, []))"

subsection \<open>Bootstrap and headers\<close>

definition now_seconds :: "int \<Rightarrow> rat" where
  "now_seconds now = of_int (now div 1000)"

definition currentValidAuthBundle :: "int \<Rightarrow> AuthState \<Rightarrow> AuthBundle option" where
  "currentValidAuthBundle now auth =
     (case (a_user auth, a_accessToken auth, a_accessExpiresAt auth, a_session auth) of
        (Some user, Some tok, Some expiry, Some session) \<Rightarrow>
          if tok = [] \<or> expiry = 0 \<or> expiry \<le> now_seconds now then None
          else Some \<lparr>b_access_token = tok, b_token_type = ''Bearer'', b_access_expires_at = expiry,
                     b_user = user, b_session = session\<rparr>
      | _ \<Rightarrow> None)"

definition bootstrapAuthentication :: "int \<Rightarrow> auth_module \<Rightarrow> auth_module \<times> auth_output list" where
  "bootstrapAuthentication now s =
     (let auth = as_store s in
      case currentValidAuthBundle now auth of
        Some bundle \<Rightarrow> (store_update (setBootstrapState Complete) s, [BootstrapResult (Authenticated bundle)])
      | None \<Rightarrow>
          (let hasStaleSession = (a_user auth \<noteq> None \<and> a_session auth \<noteq> None) in
           if a_bootstrapState auth = Complete \<and> \<not> hasStaleSession then (s, [BootstrapResult Anonymous])
           else (refreshAuthentication (store_update (setBootstrapState Checking) s), [])))"

definition getCommonHeaders :: "AuthState \<Rightarrow> (string \<times> string) list" where
  "getCommonHeaders auth =
     (let headers = [(''Content-Type'', ''application/json'')] in
      case a_accessToken auth of
        Some tok \<Rightarrow> if tok \<noteq> [] then headers @ [(''Authorization'', ''Bearer '' @ tok)] else headers
      | None \<Rightarrow> headers)"

definition token_valid_until :: "AuthState \<Rightarrow> rat \<Rightarrow> bool" where
  "token_valid_until auth limit \<longleftrightarrow>
     (case (a_accessToken auth, a_accessExpiresAt auth) of
        (Some tok, Some expiry) \<Rightarrow> tok \<noteq> [] \<and> expiry \<noteq> 0 \<and> expiry > limit
      | _ \<Rightarrow> False)"

text \<open>\<open>getFreshAuthHeaders\<close> before and after the awaited refresh.  The errors are named by their message.\<close>

definition fresh_headers_start :: "int \<Rightarrow> auth_module \<Rightarrow> (string \<times> string) list option \<times> auth_module" where
  "fresh_headers_start now s =
     (if token_valid_until (as_store s) (now_seconds now + 60)
      then (Some (getCommonHeaders (as_store s)), s) else (None, refreshAuthentication s))"

definition fresh_headers_finish ::
  "int \<Rightarrow> RefreshOutcome \<Rightarrow> auth_module \<Rightarrow> string + (string \<times> string) list" where
  "fresh_headers_finish now outcome s =
     (case outcome of
        Authenticated b \<Rightarrow> Inr (getCommonHeaders (as_store s))
      | _ \<Rightarrow>
          if token_valid_until (as_store s) (now_seconds now) then Inr (getCommonHeaders (as_store s))
          else (case outcome of
                  TransientError e \<Rightarrow> Inl ''Request failed''
                | _ \<Rightarrow> Inl ''Session expired!''))"

subsection \<open>The machine\<close>

datatype auth_event =
    ApplyBundle AuthBundle bool
  | ApplyRotation "jsval option"
  | ClearAuthentication bool AuthBootstrapState
  | SetPending2FA "string option"
  | SetUser "jsval option"
  | RefreshCall
  | Bootstrap int
  | LockGranted
  | LockRejected
  | RefreshResponse AuthRefreshHTTPResponse
  | DelayElapsed

fun auth_step :: "auth_event \<Rightarrow> auth_module \<Rightarrow> auth_module \<times> auth_output list" where
  "auth_step (ApplyBundle b sync) s = applyAuthBundle b sync s"
| "auth_step (ApplyRotation v) s = applyAuthRotation v s"
| "auth_step (ClearAuthentication sync bs) s = clearAuthentication sync bs s"
| "auth_step (SetPending2FA tok) s = (store_update (setPending2FAFlowToken tok) s, [])"
| "auth_step (SetUser user) s = (store_update (setUser user) s, [])"
| "auth_step RefreshCall s = (refreshAuthentication s, [])"
| "auth_step (Bootstrap now) s = bootstrapAuthentication now s"
| "auth_step LockGranted s = lock_granted s"
| "auth_step LockRejected s = lock_rejected s"
| "auth_step (RefreshResponse r) s = response_received r s"
| "auth_step DelayElapsed s = delay_elapsed s"

definition run_auth :: "auth_event list \<Rightarrow> auth_module \<Rightarrow> auth_module \<times> auth_output list" where
  "run_auth = run_steps auth_step"

text \<open>The listener of \<open>routes/__root.tsx\<close>: an event of another tab; the result says whether the page reloads
  or goes to the sign-in page.\<close>

datatype page_action = StayOnPage | ReloadPage | GoToSignIn

definition on_sync_event :: "sync_kind \<times> string \<Rightarrow> auth_module \<Rightarrow> auth_module \<times> page_action" where
  "on_sync_event ev s =
     (let currentSID = (case sid_of (a_session (as_store s)) of Some x \<Rightarrow> x | None \<Rightarrow> []) in
      case ev of
        (SyncAuthenticated, sid) \<Rightarrow>
          if sid = currentSID then (s, StayOnPage)
          else (if currentSID \<noteq> [] then fst (clearAuthentication False Complete s) else s, ReloadPage)
      | (SyncSignedOut, sid) \<Rightarrow>
          if currentSID \<noteq> [] \<and> sid = currentSID
          then (fst (clearAuthentication False Complete s), GoToSignIn)
          else (s, StayOnPage))"

subsection \<open>What each step does\<close>

named_theorems auth_defs "definitions of the steps of the refresh machine"

declare settle_refresh_def [auth_defs] settle_after_def [auth_defs] run_start_def [auth_defs]
  clearAuthentication_def [auth_defs] applyAuthBundle_def [auth_defs] store_update_def [auth_defs]
  refreshAuthentication_def [auth_defs] Let_def [auth_defs]

lemmas auth_events = lock_granted_def lock_rejected_def response_received_def delay_elapsed_def

text \<open>The events that let a running refresh continue.\<close>

fun refresh_event :: "auth_event \<Rightarrow> bool" where
  "refresh_event LockGranted = True"
| "refresh_event LockRejected = True"
| "refresh_event (RefreshResponse r) = True"
| "refresh_event DelayElapsed = True"
| "refresh_event e = False"

text \<open>A job whose epoch has passed.\<close>

definition stale_job :: "auth_module \<Rightarrow> bool" where
  "stale_job s \<longleftrightarrow> (case as_refresh s of None \<Rightarrow> True | Some job \<Rightarrow> rj_epoch job \<noteq> as_epoch s)"

lemma stale_step:
  assumes "stale_job s" and "refresh_event e"
  shows "as_store (fst (auth_step e s)) = as_store s \<and> stale_job (fst (auth_step e s)) \<and>
         set (snd (auth_step e s)) \<subseteq> {Settled (TransientError SupersededError), RefreshRejected}"
proof (cases "as_refresh s")
  case None
  then show ?thesis using assms by (cases e) (auto simp: stale_job_def auth_events)
next
  case (Some job)
  then show ?thesis using assms
    by (cases e) (auto simp: stale_job_def auth_events run_response_def settle_refresh_def run_start_def
        split: refresh_phase.splits)
qed

lemma stale_run:
  assumes "stale_job s" and "list_all refresh_event es"
  shows "as_store (fst (run_auth es s)) = as_store s \<and>
         set (snd (run_auth es s)) \<subseteq> {Settled (TransientError SupersededError), RefreshRejected}"
  using assms
proof (induction es arbitrary: s)
  case Nil
  then show ?case by (simp add: run_auth_def)
next
  case (Cons e es)
  have e: "refresh_event e" using Cons.prems(2) by simp
  note st = stale_step [OF Cons.prems(1) e]
  from Cons.IH [of "fst (auth_step e s)"] Cons.prems(2) st show ?case
    by (auto simp: run_auth_def Let_def split_beta)
qed

text \<open>The ways \<open>run\<close> can go on after a response.\<close>

lemma run_response_cases:
  obtains
    (stale) "as_epoch s \<noteq> rj_epoch job"
      "run_response job r s = settle_refresh (TransientError SupersededError) s"
  | (accept) b where "parseBundle (get_prop (hr_data r) ''data'') = Some b"
      "run_response job r s = settle_after (Authenticated b) (applyAuthBundle b False s)"
  | (wait) d where "rj_raceAttempt job < 3"
      "run_response job r s = (s\<lparr>as_refresh := Some (job\<lparr>rj_phase := AwaitDelay d\<rparr>)\<rparr>, [])"
  | (retry) "as_epoch s = rj_epoch job" "rj_allowMismatchRetry job"
      "run_response job r s = run_start (job\<lparr>rj_raceAttempt := 0, rj_allowMismatchRetry := False\<rparr>)
         (store_update (reset Idle) s)"
  | (lost) code where
      "run_response job r s = settle_after (OutOfSync code) (clearAuthentication False Complete s)"
  | (anonymous) "run_response job r s = settle_after Anonymous (clearAuthentication True Complete s)"
  | (transient) err where
      "run_response job r s =
         settle_refresh (TransientError (RequestError err)) (store_update (setBootstrapState Idle) s)"
proof (cases "as_epoch s \<noteq> rj_epoch job")
  case True
  then show ?thesis using stale by (simp add: run_response_def)
next
  case cur: False
  let ?d = "hr_data r"
  let ?code = "if is_str (get_prop ?d ''code'') then Some (the_str (get_prop ?d ''code'')) else None"
  let ?ok = "get_prop ?d ''success'' = Some (JBool True) \<and> parseBundle (get_prop ?d ''data'') \<noteq> None"
  let ?race = "hr_status r = 409 \<and> ?code = Some ''AUTH_REFRESH_RACE''"
  let ?mismatch = "hr_status r = 409 \<and> ?code = Some ''AUTH_SESSION_MISMATCH''"
  consider "?ok" | "\<not> ?ok" "?race" | "\<not> ?ok" "\<not> ?race" "?mismatch" | "\<not> ?ok" "\<not> ?race" "\<not> ?mismatch" by argo
  then show ?thesis
  proof cases
    case 1
    then show ?thesis using accept cur by (auto simp: run_response_def Let_def)
  next
    case 2
    have "run_response job r s =
        (if rj_raceAttempt job < length refreshRaceDelays
         then (s\<lparr>as_refresh := Some (job\<lparr>rj_phase := AwaitDelay (refreshRaceDelays ! rj_raceAttempt job)\<rparr>)\<rparr>, [])
         else settle_after (OutOfSync ?code) (clearAuthentication False Complete s))"
      using 2 cur unfolding run_response_def Let_def by (simp only: if_False if_True not_not simp_thms)
    then show ?thesis using wait lost by (cases "rj_raceAttempt job < 3") (simp_all add: refreshRaceDelays_def)
  next
    case 3
    have "run_response job r s =
        (if rj_allowMismatchRetry job
         then run_start (job\<lparr>rj_raceAttempt := 0, rj_allowMismatchRetry := False\<rparr>) (store_update (reset Idle) s)
         else settle_after (OutOfSync ?code) (clearAuthentication False Complete s))"
      using 3 cur unfolding run_response_def Let_def by (simp only: if_False if_True not_not simp_thms)
    then show ?thesis using retry lost cur by (cases "rj_allowMismatchRetry job") simp_all
  next
    case 4
    have "run_response job r s =
        (if hr_status r = 401 then settle_after Anonymous (clearAuthentication True Complete s)
         else if hr_status r = 0 \<or> hr_status r \<ge> 500 \<or> hr_status r = 429
         then settle_refresh (TransientError (RequestError (case hr_error r of Some e \<Rightarrow> Some e | None \<Rightarrow> ?d)))
                (store_update (setBootstrapState Idle) s)
         else settle_after (OutOfSync (Some (case ?code of Some c \<Rightarrow> c | None \<Rightarrow> ''AUTH_INVALID_REFRESH_RESPONSE'')))
                (clearAuthentication False Complete s))"
      using 4 cur unfolding run_response_def Let_def by (simp only: if_False if_True not_not simp_thms)
    then show ?thesis using anonymous transient lost by (simp split: if_splits)
  qed
qed

subsection \<open>Invariants\<close>

definition epoch_ok :: "auth_module \<Rightarrow> bool" where
  "epoch_ok s \<longleftrightarrow> (case as_refresh s of None \<Rightarrow> True | Some job \<Rightarrow> rj_epoch job \<le> as_epoch s)"

text \<open>What a job may still send: at most four requests for each of the two values of
  \<open>allowMismatchRetry\<close>.\<close>

definition budget :: "refresh_job \<Rightarrow> nat" where
  "budget job =
     (if rj_allowMismatchRetry job then 4 else 0) + (3 - rj_raceAttempt job)
     + (if rj_phase job = AwaitLock then 1 else 0)"

definition job_ok :: "refresh_job \<Rightarrow> bool" where
  "job_ok job \<longleftrightarrow>
     length (rj_sent job) + budget job \<le> 8 \<and> rj_raceAttempt job \<le> 3 \<and>
     (case rj_phase job of
        AwaitLock \<Rightarrow> rj_raceAttempt job = 0 \<and> rj_allowMismatchRetry job
      | AwaitResponse \<Rightarrow> True
      | AwaitDelay d \<Rightarrow> rj_raceAttempt job < 3)"

definition refresh_ok :: "auth_module \<Rightarrow> bool" where
  "refresh_ok s \<longleftrightarrow> epoch_ok s \<and> (case as_refresh s of None \<Rightarrow> True | Some job \<Rightarrow> job_ok job)"

lemma run_start_refresh_ok:
  assumes "rj_epoch job \<le> as_epoch s" and "length (rj_sent job) + budget (job\<lparr>rj_phase := AwaitResponse\<rparr>) + 1 \<le> 8"
    and "rj_raceAttempt job \<le> 3"
  shows "refresh_ok (fst (run_start job s))"
  using assms by (auto simp: run_start_def settle_refresh_def refresh_ok_def epoch_ok_def job_ok_def budget_def)

lemma settle_after_refresh_ok [simp]: "refresh_ok (fst (settle_after r p))" "refresh_ok (fst (settle_refresh r s))"
  by (simp_all add: settle_after_def settle_refresh_def refresh_ok_def epoch_ok_def)

lemma run_response_refresh_ok:
  assumes "refresh_ok s" and "as_refresh s = Some job" and "rj_phase job = AwaitResponse"
  shows "refresh_ok (fst (run_response job r s))"
proof -
  have job: "rj_epoch job \<le> as_epoch s" "job_ok job"
    using assms(1,2) by (auto simp: refresh_ok_def epoch_ok_def)
  have retry: "refresh_ok (fst (run_start (job\<lparr>rj_raceAttempt := 0, rj_allowMismatchRetry := False\<rparr>)
      (store_update (reset Idle) s)))" if "rj_allowMismatchRetry job"
    by (rule run_start_refresh_ok)
      (use job that assms(3) in \<open>auto simp: store_update_def job_ok_def budget_def\<close>)
  have wait: "refresh_ok (s\<lparr>as_refresh := Some (job\<lparr>rj_phase := AwaitDelay d\<rparr>)\<rparr>)" if "rj_raceAttempt job < 3" for d
    using job that assms(3) by (auto simp: refresh_ok_def epoch_ok_def job_ok_def budget_def)
  show ?thesis
    by (rule run_response_cases [of s job r]) (simp_all add: retry wait)
qed

lemma refresh_ok_other:
  assumes "refresh_ok s" and "as_refresh s' = as_refresh s" and "as_epoch s \<le> as_epoch s'"
  shows "refresh_ok s'"
  using assms by (auto simp: refresh_ok_def epoch_ok_def split: option.splits)

lemma auth_step_refresh_ok:
  assumes "refresh_ok s"
  shows "refresh_ok (fst (auth_step e s))"
proof (cases e)
  case (ApplyBundle b sync)
  then show ?thesis using assms by (auto simp: auth_defs intro: refresh_ok_other)
next
  case (ApplyRotation v)
  then show ?thesis using assms
    by (auto simp: applyAuthRotation_def auth_defs intro: refresh_ok_other split: option.split)
next
  case (ClearAuthentication sync bs)
  then show ?thesis using assms by (auto simp: auth_defs intro: refresh_ok_other)
next
  case (SetPending2FA tok)
  then show ?thesis using assms by (auto simp: auth_defs intro: refresh_ok_other)
next
  case (SetUser u)
  then show ?thesis using assms by (auto simp: auth_defs intro: refresh_ok_other)
next
  case RefreshCall
  then show ?thesis using assms
    by (auto simp: refreshAuthentication_def refresh_ok_def epoch_ok_def job_ok_def budget_def)
next
  case (Bootstrap now)
  then show ?thesis using assms
    by (auto simp: bootstrapAuthentication_def Let_def refreshAuthentication_def store_update_def refresh_ok_def
        epoch_ok_def job_ok_def budget_def split: option.splits)
next
  case LockGranted
  then show ?thesis using assms
    by (cases "as_refresh s")
      (auto simp: lock_granted_def refresh_ok_def [of s] epoch_ok_def job_ok_def budget_def
        intro!: run_start_refresh_ok)
next
  case LockRejected
  then show ?thesis using assms
    by (auto simp: lock_rejected_def refresh_ok_def epoch_ok_def split: option.splits)
next
  case (RefreshResponse r)
  then show ?thesis using assms by (auto simp: response_received_def run_response_refresh_ok split: option.split)
next
  case DelayElapsed
  then show ?thesis using assms
    by (cases "as_refresh s")
      (auto simp: delay_elapsed_def refresh_ok_def [of s] epoch_ok_def job_ok_def budget_def
        intro!: run_start_refresh_ok split: refresh_phase.splits)
qed

lemma initial_refresh_ok: "refresh_ok initial_module"
  by (simp add: initial_module_def refresh_ok_def epoch_ok_def)

lemma run_auth_refresh_ok: "refresh_ok (fst (run_auth es initial_module))"
  unfolding run_auth_def
  by (rule run_steps_state_invariant [where I = refresh_ok]) (rule initial_refresh_ok, rule auth_step_refresh_ok)

text \<open>The store is signed out, or holds everything a valid bundle has.\<close>

definition signed_out :: "AuthState \<Rightarrow> bool" where
  "signed_out st \<longleftrightarrow>
     a_user st = None \<and> a_accessToken st = None \<and> a_accessExpiresAt st = None \<and> a_session st = None"

definition signed_in :: "AuthState \<Rightarrow> bool" where
  "signed_in st \<longleftrightarrow>
     isAuthUser (a_user st) \<and> isLoginSession (a_session st) \<and>
     (case a_accessToken st of Some tok \<Rightarrow> tok \<noteq> [] | None \<Rightarrow> False) \<and>
     (case a_accessExpiresAt st of Some expiry \<Rightarrow> expiry > 0 | None \<Rightarrow> False)"

definition valid_bundle :: "AuthBundle \<Rightarrow> bool" where
  "valid_bundle b \<longleftrightarrow>
     isAuthUser (Some (b_user b)) \<and> isLoginSession (Some (b_session b)) \<and>
     b_access_token b \<noteq> [] \<and> b_access_expires_at b > 0"

text \<open>What \<open>setUser\<close> does not touch, and the four fields together.\<close>

definition no_credentials :: "AuthState \<Rightarrow> bool" where
  "no_credentials st \<longleftrightarrow> a_accessToken st = None \<and> a_accessExpiresAt st = None \<and> a_session st = None"

definition same_login :: "AuthState \<Rightarrow> AuthState \<Rightarrow> bool" where
  "same_login st st' \<longleftrightarrow>
     a_user st' = a_user st \<and> a_accessToken st' = a_accessToken st \<and>
     a_accessExpiresAt st' = a_accessExpiresAt st \<and> a_session st' = a_session st"

text \<open>A user that \<open>setUser\<close> wrote while the store held no token: the profile pages call it after an awaited
  request, and a sign-out may have come in between.\<close>

definition late_user :: "auth_event list \<Rightarrow> jsval option \<Rightarrow> bool" where
  "late_user es u \<longleftrightarrow>
     (\<exists>es1 es2. es = es1 @ SetUser u # es2 \<and> no_credentials (as_store (fst (run_auth es1 initial_module))))"

definition store_ok :: "auth_event list \<Rightarrow> AuthState \<Rightarrow> bool" where
  "store_ok es st \<longleftrightarrow>
     signed_out st \<or> signed_in st \<or> no_credentials st \<and> isAuthUser (a_user st) \<and> late_user es (a_user st)"

lemma not_record_None [simp]: "\<not> isAuthUser None" "\<not> isLoginSession None" "\<not> isAuthBundle None"
  by (simp_all add: isAuthUser_def isLoginSession_def isAuthBundle_def)

lemma parseBundle_valid: "parseBundle v = Some b \<Longrightarrow> valid_bundle b"
  by (cases "get_prop v ''user''"; cases "get_prop v ''session''")
    (auto simp: parseBundle_def bundle_of_def valid_bundle_def isAuthBundle_def hasValidTokenFields_def split: if_splits)

lemma rotation_valid:
  "\<lbrakk>isAuthTokenRotation v; isAuthUser (Some user)\<rbrakk> \<Longrightarrow> valid_bundle (bundle_of v user)"
  by (cases "get_prop v ''session''")
    (auto simp: bundle_of_def valid_bundle_def isAuthTokenRotation_def hasValidTokenFields_def)

lemma setBundle_signed_in: "valid_bundle b \<Longrightarrow> signed_in (setBundle b st)"
  by (simp add: signed_in_def setBundle_def valid_bundle_def)

lemma reset_signed_out [simp]: "signed_out (reset bs st)"
  by (simp add: signed_out_def reset_def)

lemma bootstrap_field_ok [simp]:
  "signed_out (setBootstrapState bs st) = signed_out st" "signed_in (setBootstrapState bs st) = signed_in st"
  "signed_out (setPending2FAFlowToken tok st) = signed_out st" "signed_in (setPending2FAFlowToken tok st) = signed_in st"
  by (simp_all add: signed_out_def signed_in_def setBootstrapState_def setPending2FAFlowToken_def)

lemma as_store_simps [simp]:
  "as_store (fst (settle_refresh r s)) = as_store s"
  "as_store (fst (settle_after r p)) = as_store (fst p)"
  "as_store (store_update f s) = f (as_store s)"
  "as_store (refreshAuthentication s) = as_store s"
  "as_store (fst (run_start job s)) = as_store s"
  "as_store (fst (clearAuthentication sync bs s)) = reset bs (as_store s)"
  "as_store (fst (applyAuthBundle b sync s)) = setBundle b (as_store s)"
  by (simp_all add: auth_defs)

lemma same_login_simps [simp]:
  "same_login st st" "same_login st (setBootstrapState bs st)" "same_login st (setPending2FAFlowToken tok st)"
  by (simp_all add: same_login_def setBootstrapState_def setPending2FAFlowToken_def)

definition login_moves :: "AuthState \<Rightarrow> AuthState \<Rightarrow> bool" where
  "login_moves st st' \<longleftrightarrow> same_login st st' \<or> signed_out st' \<or> signed_in st'"

lemma login_moves_simps [simp]:
  "login_moves st st" "login_moves st (setBootstrapState bs st)" "login_moves st (setPending2FAFlowToken tok st)"
  "login_moves st (reset bs st')" "valid_bundle b \<Longrightarrow> login_moves st (setBundle b st')"
  by (simp_all add: login_moves_def setBundle_signed_in)

lemma run_response_login: "login_moves (as_store s) (as_store (fst (run_response job r s)))"
  by (rule run_response_cases [of s job r]) (auto dest: parseBundle_valid)

text \<open>Every step but \<open>setUser\<close> keeps the four fields, empties them or fills them from a validated value.\<close>

lemma auth_step_login:
  assumes "a_session (as_store s) \<noteq> None \<Longrightarrow> isAuthUser (a_user (as_store s))"
    and "\<And>b sync. e = ApplyBundle b sync \<Longrightarrow> valid_bundle b" and "\<And>u. e \<noteq> SetUser u"
  shows "login_moves (as_store s) (as_store (fst (auth_step e s)))"
proof (cases e)
  case (ApplyRotation v)
  then show ?thesis using assms(1)
    by (auto simp: applyAuthRotation_def Let_def intro!: login_moves_simps(5) rotation_valid split: option.split)
next
  case (Bootstrap now)
  then show ?thesis by (auto simp: bootstrapAuthentication_def Let_def split: option.split)
next
  case (RefreshResponse r)
  then show ?thesis by (auto simp: response_received_def run_response_login split: option.split)
qed (use assms in \<open>auto simp: lock_granted_def lock_rejected_def delay_elapsed_def
      split: option.split refresh_phase.split\<close>)

lemma late_user_snoc: "late_user es u \<Longrightarrow> late_user (es @ [e]) u"
  by (force simp: late_user_def)

lemma store_ok_login:
  assumes "store_ok es st" and "login_moves st st'"
  shows "store_ok (es @ [e]) st'"
  using assms late_user_snoc [of es "a_user st" e]
  by (auto simp: store_ok_def login_moves_def same_login_def signed_out_def signed_in_def no_credentials_def)

lemma store_ok_set_user:
  assumes "store_ok es st" and "st = as_store (fst (run_auth es initial_module))" and "isAuthUser u"
  shows "store_ok (es @ [SetUser u]) (setUser u st)"
proof (cases "signed_in st")
  case True
  then show ?thesis using assms(3) by (simp add: store_ok_def signed_in_def setUser_def)
next
  case False
  then have none: "no_credentials st" using assms(1) by (auto simp: store_ok_def signed_out_def no_credentials_def)
  then have "late_user (es @ [SetUser u]) u" using assms(2) by (auto simp: late_user_def)
  then show ?thesis using none assms(3) by (simp add: store_ok_def no_credentials_def setUser_def)
qed

lemma run_auth_snoc: "fst (run_auth (es @ [e]) s) = fst (auth_step e (fst (run_auth es s)))"
  by (simp add: run_auth_def run_steps_append split_beta Let_def)

lemma run_auth_store_ok:
  assumes "\<And>b sync. ApplyBundle b sync \<in> set es \<Longrightarrow> valid_bundle b" and "\<And>u. SetUser u \<in> set es \<Longrightarrow> isAuthUser u"
  shows "store_ok es (as_store (fst (run_auth es initial_module)))"
  using assms
proof (induction es rule: rev_induct)
  case Nil
  show ?case by (simp add: run_auth_def store_ok_def initial_module_def initial_auth_def signed_out_def)
next
  case (snoc e es)
  let ?s = "fst (run_auth es initial_module)"
  have ok: "store_ok es (as_store ?s)" by (rule snoc.IH) (use snoc.prems in auto)
  show ?case
  proof (cases "\<exists>u. e = SetUser u")
    case True
    then obtain u where e: "e = SetUser u" by blast
    have "isAuthUser u" by (rule snoc.prems(2)) (simp add: e)
    from store_ok_set_user [OF ok refl this] show ?thesis by (simp add: e run_auth_snoc)
  next
    case False
    have "a_session (as_store ?s) \<noteq> None \<Longrightarrow> isAuthUser (a_user (as_store ?s))"
      using ok by (auto simp: store_ok_def signed_out_def signed_in_def no_credentials_def)
    then have "login_moves (as_store ?s) (as_store (fst (auth_step e ?s)))"
      by (rule auth_step_login) (use snoc.prems(1) False in auto)
    from store_ok_login [OF ok this] show ?thesis by (simp add: run_auth_snoc)
  qed
qed

subsection \<open>Progress of a refresh\<close>

lemma pair_progress:
  assumes "as_refresh s = Some job" and "rj_phase job = AwaitResponse" and "job_ok job"
    and "s' = fst (run_auth [RefreshResponse r, DelayElapsed] s)"
  shows "as_refresh s' = None \<or>
     (\<exists>job'. as_refresh s' = Some job' \<and> rj_phase job' = AwaitResponse \<and> budget job' < budget job)"
proof -
  define s1 where "s1 = fst (run_response job r s)"
  have s': "s' = fst (delay_elapsed s1)"
    using assms(1,2,4) by (simp add: run_auth_def response_received_def s1_def Let_def split_beta)
  have race: "rj_raceAttempt job \<le> 3" using assms(3) by (simp add: job_ok_def)
  show ?thesis
  proof (cases rule: run_response_cases [of s job r])
    case (wait d)
    then have "s1 = s\<lparr>as_refresh := Some (job\<lparr>rj_phase := AwaitDelay d\<rparr>)\<rparr>" by (simp add: s1_def)
    then show ?thesis using wait(1) assms(2)
      by (simp add: s' delay_elapsed_def run_start_def settle_refresh_def budget_def) linarith
  next
    case retry
    then have "as_refresh s1 = None \<or>
        (\<exists>job'. as_refresh s1 = Some job' \<and> rj_phase job' = AwaitResponse \<and> budget job' < budget job)"
      using assms(2) race by (simp add: s1_def run_start_def settle_refresh_def budget_def) linarith
    then show ?thesis by (auto simp: s' delay_elapsed_def)
  qed (simp_all add: s' s1_def settle_refresh_def settle_after_def delay_elapsed_def)
qed

lemma no_refresh_stays: "\<lbrakk>as_refresh s = None; refresh_event e\<rbrakk> \<Longrightarrow> auth_step e s = (s, [])"
  by (cases e) (simp_all add: auth_events)

lemma no_refresh_run: "\<lbrakk>as_refresh s = None; list_all refresh_event es\<rbrakk> \<Longrightarrow> run_auth es s = (s, [])"
  by (induction es) (simp_all add: run_auth_def no_refresh_stays)

lemma run_auth_append: "fst (run_auth (es @ fs) s) = fst (run_auth fs (fst (run_auth es s)))"
  by (simp add: run_auth_def run_steps_append split_beta Let_def)

lemma run_auth_refresh_ok_from: "refresh_ok s \<Longrightarrow> refresh_ok (fst (run_auth es s))"
  unfolding run_auth_def
  by (rule run_steps_state_invariant [where I = refresh_ok]) (assumption, rule auth_step_refresh_ok)

lemma responses_settle:
  assumes "refresh_ok s" and "as_refresh s = Some job" and "rj_phase job = AwaitResponse" and "budget job < length rs"
  shows "as_refresh (fst (run_auth (concat (map (\<lambda>r. [RefreshResponse r, DelayElapsed]) rs)) s)) = None"
  using assms
proof (induction rs arbitrary: s job)
  case Nil
  then show ?case by simp
next
  case (Cons r rs)
  let ?rest = "concat (map (\<lambda>r. [RefreshResponse r, DelayElapsed]) rs)"
  define s' where "s' = fst (run_auth [RefreshResponse r, DelayElapsed] s)"
  have ok: "refresh_ok s'" unfolding s'_def by (rule run_auth_refresh_ok_from [OF Cons.prems(1)])
  have "job_ok job" using Cons.prems(1,2) by (simp add: refresh_ok_def)
  from pair_progress [OF Cons.prems(2,3) this s'_def]
  have "as_refresh (fst (run_auth ?rest s')) = None"
  proof
    assume none: "as_refresh s' = None"
    have "list_all refresh_event ?rest" by (induction rs) auto
    with none show ?thesis by (simp add: no_refresh_run)
  next
    assume "\<exists>job'. as_refresh s' = Some job' \<and> rj_phase job' = AwaitResponse \<and> budget job' < budget job"
    then obtain job' where "as_refresh s' = Some job'" "rj_phase job' = AwaitResponse" "budget job' < length rs"
      using Cons.prems(4) by auto
    from Cons.IH [OF ok this] show ?thesis .
  qed
  then show ?case using run_auth_append [of "[RefreshResponse r, DelayElapsed]" ?rest s] by (simp add: s'_def)
qed

subsection \<open>Properties\<close>

text \<open>A user and a session for the witnesses.\<close>

definition sample_user :: jsval where
  "sample_user = JObj [(''id'', JNum 7), (''username'', JStr ''ann''), (''role'', JNum 1)]"

definition sample_session :: "string \<Rightarrow> jsval" where
  "sample_session sid =
     JObj [(''sid'', JStr sid), (''current'', JBool True), (''login_method'', JStr ''password''), (''ip'', JStr ''::1''),
           (''user_agent'', JStr ''ua''), (''created_at'', JNum 1), (''last_active_at'', JNum 2), (''expires_at'', JNum 3)]"

definition sample_bundle :: AuthBundle where
  "sample_bundle =
     \<lparr>b_access_token = ''tok'', b_token_type = ''Bearer'', b_access_expires_at = 1000, b_user = sample_user,
      b_session = sample_session ''s1''\<rparr>"

definition sample_rotation :: jsval where
  "sample_rotation =
     JObj [(''access_token'', JStr ''tok2''), (''token_type'', JStr ''Bearer''), (''access_expires_at'', JNum 2000),
           (''session'', sample_session ''s1'')]"

definition server_error :: AuthRefreshHTTPResponse where
  "server_error = \<lparr>hr_status = 503, hr_data = None, hr_error = None\<rparr>"

lemmas sample_values = sample_user_def sample_session_def sample_bundle_def sample_rotation_def

lemma sample_valid: "valid_bundle sample_bundle"
  by (simp add: valid_bundle_def sample_values isAuthUser_def isLoginSession_def is_integer_def)

text \<open>
  C1: A refresh that has been overtaken is harmless.  After a sign-in, a token rotation or a sign-out during a
  refresh, whatever the lock, the server and the timers then deliver to it, the store keeps the new state and
  no event is published to other tabs.
\<close>

theorem auth_overtaken_refresh_harmless:
  assumes "s = fst (run_auth es0 initial_module)" and "as_epoch s < as_epoch (fst (auth_step e s))"
    and "\<not> refresh_event e" and "list_all refresh_event es"
  shows "as_store (fst (run_auth es (fst (auth_step e s)))) = as_store (fst (auth_step e s)) \<and>
         (\<forall>kind sid. Publish kind sid \<notin> set (snd (run_auth es (fst (auth_step e s)))))"
proof -
  have "epoch_ok s" using run_auth_refresh_ok [of es0] assms(1) by (simp add: refresh_ok_def)
  then have "stale_job (fst (auth_step e s))"
    using assms(2,3)
    by (cases e)
      (auto simp: stale_job_def epoch_ok_def auth_defs applyAuthRotation_def bootstrapAuthentication_def
        split: option.splits if_splits)
  from stale_run [OF this assms(4)] show ?thesis by auto
qed

theorem auth_overtaken_refresh_harmless_witness:
  "as_store (fst (run_auth [LockGranted, RefreshResponse server_error]
      (fst (auth_step (ApplyBundle sample_bundle True) (fst (run_auth [RefreshCall] initial_module)))))) =
   as_store (fst (auth_step (ApplyBundle sample_bundle True) (fst (run_auth [RefreshCall] initial_module))))"
  using auth_overtaken_refresh_harmless [of "fst (run_auth [RefreshCall] initial_module)" "[RefreshCall]"
      "ApplyBundle sample_bundle True" "[LockGranted, RefreshResponse server_error]"]
  by (simp add: auth_defs)

text \<open>
  C22: In every interleaving of sign-ins with validated bundles, rotations, sign-outs, bootstraps, refreshes and
  updates of the user by well-formed users, token, expiry and session are held together, all validated and with
  a well-formed user, or all three are absent.  In the second case there is no user either, except one that
  \<open>setUser\<close> wrote while there was no token.
\<close>

theorem auth_store_all_or_nothing:
  assumes "\<And>b sync. ApplyBundle b sync \<in> set es \<Longrightarrow> valid_bundle b" and "\<And>u. SetUser u \<in> set es \<Longrightarrow> isAuthUser u"
    and "st = as_store (fst (run_auth es initial_module))"
  shows "signed_in st \<or> no_credentials st \<and> (a_user st = None \<or> late_user es (a_user st))"
proof -
  have "store_ok es st" unfolding assms(3) by (rule run_auth_store_ok) (fact assms(1), fact assms(2))
  then show ?thesis by (auto simp: store_ok_def signed_out_def no_credentials_def)
qed

theorem auth_store_all_or_nothing_witness:
  "signed_in (as_store (fst (run_auth [ApplyBundle sample_bundle True, SetUser (Some sample_user)] initial_module)))"
proof -
  have user: "isAuthUser (Some sample_user)" by (simp add: sample_values isAuthUser_def is_integer_def)
  define st where "st = as_store (fst (run_auth [ApplyBundle sample_bundle True, SetUser (Some sample_user)] initial_module))"
  have "signed_in st \<or> no_credentials st \<and>
      (a_user st = None \<or> late_user [ApplyBundle sample_bundle True, SetUser (Some sample_user)] (a_user st))"
    by (rule auth_store_all_or_nothing [OF _ _ st_def]) (use user in \<open>auto simp: sample_valid\<close>)
  then show ?thesis by (simp add: st_def run_auth_def no_credentials_def setBundle_def setUser_def split_beta)
qed

text \<open>The exception occurs: a profile page saves, the user signs out while the request is awaited, and the answer
  puts the user back without a token.  Once it has, the store no longer reads as signed out.\<close>

lemma late_user_remains:
  "as_store (fst (run_auth [ApplyBundle sample_bundle True, ClearAuthentication True Complete, SetUser (Some sample_user)]
       initial_module)) =
   (reset Complete initial_auth)\<lparr>a_user := Some sample_user\<rparr>"
  by (simp add: run_auth_def initial_module_def initial_auth_def setBundle_def reset_def setUser_def auth_defs)

text \<open>
  C21: A refresh ends.  From any state without a running refresh, a new one has settled after at most eight
  responses of the server, whatever they are.
\<close>

theorem auth_refresh_terminates:
  assumes "as_refresh s = None" and "length rs = 8"
  shows "as_refresh (fst (run_auth ([RefreshCall, LockGranted]
           @ concat (map (\<lambda>r. [RefreshResponse r, DelayElapsed]) rs)) s)) = None"
proof -
  let ?s2 = "fst (run_auth [RefreshCall, LockGranted] s)"
  have "refresh_ok s" using assms(1) by (simp add: refresh_ok_def epoch_ok_def)
  then have ok: "refresh_ok ?s2" by (rule run_auth_refresh_ok_from)
  have "\<exists>job. as_refresh ?s2 = Some job \<and> rj_phase job = AwaitResponse \<and> budget job = 7"
    using assms(1) by (simp add: run_auth_def lock_granted_def auth_defs budget_def)
  then obtain job where "as_refresh ?s2 = Some job" "rj_phase job = AwaitResponse" "budget job < length rs"
    using assms(2) by auto
  from responses_settle [OF ok this] show ?thesis by (simp only: run_auth_append)
qed

theorem auth_refresh_terminates_witness:
  "as_refresh (fst (run_auth ([RefreshCall, LockGranted]
     @ concat (map (\<lambda>r. [RefreshResponse r, DelayElapsed]) (replicate 8 server_error))) initial_module)) = None"
  by (rule auth_refresh_terminates) (simp_all add: initial_module_def)

text \<open>
  No refresh ever sends more than eight requests, in any interleaving.
\<close>

theorem auth_refresh_bounded:
  assumes "as_refresh (fst (run_auth es initial_module)) = Some job"
  shows "length (rj_sent job) \<le> 8"
  using run_auth_refresh_ok [of es] assms by (simp add: refresh_ok_def job_ok_def)

theorem auth_refresh_bounded_witness:
  "length (rj_sent \<lparr>rj_epoch = 0, rj_raceAttempt = 0, rj_allowMismatchRetry = True,
      rj_phase = AwaitResponse, rj_sent = [None]\<rparr>) \<le> 8"
  by (rule auth_refresh_bounded [of "[RefreshCall, LockGranted]"])
    (simp add: run_auth_def lock_granted_def auth_defs initial_module_def initial_auth_def sid_of_def)

text \<open>
  The outcome tells what happened to the store: authenticated means it holds exactly the returned bundle,
  anonymous and out of sync mean it is signed out, and a transient error leaves user, session and token alone.
\<close>

theorem auth_outcome_matches_store:
  assumes "Settled outcome \<in> set (snd (auth_step (RefreshResponse r) s))"
    and "st = as_store s" and "st' = as_store (fst (auth_step (RefreshResponse r) s))"
  shows "case outcome of
           Authenticated b \<Rightarrow> valid_bundle b \<and> st' = setBundle b st
         | Anonymous \<Rightarrow> signed_out st'
         | OutOfSync code \<Rightarrow> signed_out st'
         | TransientError e \<Rightarrow>
             a_user st' = a_user st \<and> a_accessToken st' = a_accessToken st \<and>
             a_accessExpiresAt st' = a_accessExpiresAt st \<and> a_session st' = a_session st"
proof -
  from assms(1) obtain job where job: "as_refresh s = Some job" "rj_phase job = AwaitResponse"
    by (auto simp: response_received_def split: option.splits if_splits)
  then have step: "auth_step (RefreshResponse r) s = run_response job r s" by (simp add: response_received_def)
  show ?thesis
  proof (cases rule: run_response_cases [of s job r])
    case (accept b)
    then show ?thesis using assms step
      by (auto simp: settle_after_def settle_refresh_def applyAuthBundle_def Let_def dest: parseBundle_valid)
  next
    case (lost code)
    then show ?thesis using assms step
      by (auto simp: settle_after_def settle_refresh_def clearAuthentication_def split: option.splits)
  next
    case anonymous
    then show ?thesis using assms step
      by (auto simp: settle_after_def settle_refresh_def clearAuthentication_def split: option.splits if_splits)
  next
    case (transient err)
    then show ?thesis using assms step
      by (auto simp: settle_refresh_def setBootstrapState_def)
  next
    case retry
    then show ?thesis using assms step
      by (auto simp: run_start_def settle_refresh_def store_update_def split: if_splits)
  qed (use assms step in \<open>auto simp: settle_refresh_def\<close>)
qed

theorem auth_outcome_matches_store_witness:
  "signed_out (as_store (fst (auth_step (RefreshResponse \<lparr>hr_status = 401, hr_data = None, hr_error = None\<rparr>)
     (fst (run_auth [RefreshCall, LockGranted] initial_module)))))"
  using auth_outcome_matches_store [of Anonymous "\<lparr>hr_status = 401, hr_data = None, hr_error = None\<rparr>"
      "fst (run_auth [RefreshCall, LockGranted] initial_module)", OF _ refl refl]
  by (simp add: run_auth_def response_received_def run_response_def lock_granted_def auth_defs initial_module_def
      initial_auth_def parseBundle_def)

text \<open>
  A token rotation is applied exactly when it is well-formed and for the session of the store; it then
  replaces the token and keeps user and session id without telling other tabs.  Otherwise nothing changes and
  the error is raised.
\<close>

theorem auth_rotation_spec:
  "case auth_step (ApplyRotation v) s of (s', out) \<Rightarrow>
     if isAuthTokenRotation v \<and> a_user (as_store s) \<noteq> None \<and> a_session (as_store s) \<noteq> None \<and>
        sid_of (get_prop v ''session'') = sid_of (a_session (as_store s))
     then out = [] \<and> as_epoch s' = as_epoch s + 1 \<and> a_user (as_store s') = a_user (as_store s) \<and>
          sid_of (a_session (as_store s')) = sid_of (a_session (as_store s)) \<and>
          a_accessToken (as_store s') = Some (the_str (get_prop v ''access_token''))
     else s' = s \<and> (\<exists>m. out = [RotationFailed m])"
  by (cases "a_user (as_store s)"; cases "a_session (as_store s)"; cases "get_prop v ''session''")
    (auto simp: applyAuthRotation_def applyAuthBundle_def store_update_def setBundle_def bundle_of_def Let_def
      isAuthTokenRotation_def)

text \<open>
  When the browser refuses the lock, the state set by the bootstrap stays \<open>checking\<close> although no refresh
  is running: the rejection passes the \<open>catch\<close> block that would have reset it.
\<close>

theorem auth_lock_refusal_leaves_checking:
  "a_bootstrapState (as_store (fst (run_auth [Bootstrap now, LockRejected] initial_module))) = Checking \<and>
   as_refresh (fst (run_auth [Bootstrap now, LockRejected] initial_module)) = None \<and>
   snd (run_auth [Bootstrap now, LockRejected] initial_module) = [RefreshRejected]"
  by (simp add: run_auth_def bootstrapAuthentication_def currentValidAuthBundle_def initial_module_def initial_auth_def
      lock_rejected_def refreshAuthentication_def store_update_def setBootstrapState_def)

text \<open>
  Signing out in one tab signs out the other tabs of the same session: the published event passes the checks
  of a tab with another source and a clock within a minute, which then clears its store and goes to the sign-in
  page; the publishing tab ignores it.
\<close>

theorem auth_sign_out_propagates:
  assumes "sid_of (a_session (as_store tabA)) = Some sid" and "sid_of (a_session (as_store tabB)) = Some sid"
    and "sid \<noteq> []" and "srcA \<noteq> srcB" and "\<bar>nowB - nowA\<bar> < 60000"
  shows "snd (clearAuthentication True bs tabA) = [Publish SyncSignedOut sid] \<and>
         (\<exists>ev. publishAuthSessionEvent srcA nonce nowA SyncSignedOut sid = [ev] \<and>
            deliver_event srcB nowB (Some (event_value ev)) = Some (SyncSignedOut, sid) \<and>
            deliver_event srcA nowA (Some (event_value ev)) = None) \<and>
         signed_out (as_store (fst (on_sync_event (SyncSignedOut, sid) tabB))) \<and>
         snd (on_sync_event (SyncSignedOut, sid) tabB) = GoToSignIn"
proof -
  have "\<bar>of_int nowB - of_int nowA :: rat\<bar> = of_int \<bar>nowB - nowA\<bar>" by simp
  also have "\<dots> < of_int 60000" using assms(5) by (simp only: of_int_less_iff)
  finally have "\<bar>of_int nowB - of_int nowA :: rat\<bar> < 60000" by simp
  then show ?thesis using assms
    by (simp add: clearAuthentication_def publishAuthSessionEvent_def deliver_event_def event_value_def
        isAuthSessionSyncEvent_def on_sync_event_def)
qed

theorem auth_sign_out_propagates_witness:
  "snd (clearAuthentication True Complete (fst (auth_step (ApplyBundle sample_bundle True) initial_module))) =
     [Publish SyncSignedOut ''s1'']"
proof -
  have "sid_of (a_session (as_store (fst (auth_step (ApplyBundle sample_bundle True) initial_module)))) = Some ''s1''"
    by (simp add: setBundle_def sample_values sid_of_def)
  from auth_sign_out_propagates [OF this this, of "''a''" "''b''" 0 0] show ?thesis by simp
qed

text \<open>
  Headers handed out for a request carry the token of the store: at once if it lives for another minute, or
  after the refresh if it succeeded or the token has not expired.
\<close>

theorem auth_headers_carry_token:
  assumes "fresh_headers_start now s = (Some hs, s') \<or> fresh_headers_finish now outcome s = Inr hs"
    and "\<And>b. outcome = Authenticated b \<Longrightarrow> signed_in (as_store s)"
  shows "\<exists>tok. tok \<noteq> [] \<and> a_accessToken (as_store s) = Some tok \<and>
           map_of hs ''Authorization'' = Some (''Bearer '' @ tok)"
proof -
  have "hs = getCommonHeaders (as_store s) \<and> (token_valid_until (as_store s) (now_seconds now + 60) \<or>
      token_valid_until (as_store s) (now_seconds now) \<or> signed_in (as_store s))"
    using assms
    by (auto simp: fresh_headers_start_def fresh_headers_finish_def split: if_splits RefreshOutcome.splits)
  then show ?thesis
    by (auto simp: token_valid_until_def getCommonHeaders_def signed_in_def split: option.splits)
qed

theorem auth_headers_carry_token_witness:
  "map_of (getCommonHeaders (setBundle sample_bundle initial_auth)) ''Authorization'' = Some ''Bearer tok''"
proof -
  let ?s = "initial_module\<lparr>as_store := setBundle sample_bundle initial_auth\<rparr>"
  have "fresh_headers_start 0 ?s = (Some (getCommonHeaders (setBundle sample_bundle initial_auth)), ?s)"
    by (simp add: fresh_headers_start_def token_valid_until_def setBundle_def sample_bundle_def now_seconds_def)
  with auth_headers_carry_token [of 0 ?s _ ?s Anonymous] show ?thesis
    by (auto simp: setBundle_def sample_bundle_def)
qed

end
