(* ===== verification/AdvancedCustom.thy ===== *)
theory AdvancedCustom
  imports Json
begin

text \<open>
  Routes of an advanced custom channel, \<open>features/channels/lib/advanced-custom.ts\<close>: the option tables, the
  defaults of the editor, normalisation, and the validation of a configuration.

  The fields of a configuration are optional, as in \<open>features/channels/types.ts\<close>.  A parsed JSON value is
  read at the declared types; a value of another type for a field makes the configuration unreadable (for
  \<open>upstream_path\<close> and \<open>models\<close> this is the type error the code catches; the other fields of a wrong type are
  outside the model).  The URL parser of the browser is the parameter \<open>parse_url\<close>, which gives protocol and
  host of an absolute URL.
\<close>

subsection \<open>Types\<close>

record AdvancedCustomRouteAuth =
  auth_type :: "string option"
  auth_name :: "string option"
  auth_value :: "string option"

record AdvancedCustomRoute =
  rt_incoming_path :: "string option"
  rt_upstream_path :: "string option"
  rt_converter :: "string option"
  rt_models :: "string list option"
  rt_auth :: "AdvancedCustomRouteAuth option"

record AdvancedCustomConfig =
  advanced_routes :: "AdvancedCustomRoute list option"

record AdvancedCustomValidationError =
  err_message :: string
  err_routeIndex :: "nat option"

record AdvancedCustomConverterDefaults =
  def_upstream_path :: string
  def_auth :: AdvancedCustomRouteAuth

subsection \<open>Option tables\<close>

definition ADVANCED_CUSTOM_MODEL_LIST_PATH :: string where
  "ADVANCED_CUSTOM_MODEL_LIST_PATH = ''/v1/models''"

definition ADVANCED_CUSTOM_MODEL_LIST_LABEL :: string where
  "ADVANCED_CUSTOM_MODEL_LIST_LABEL = ''OpenAI Models''"

definition ADVANCED_CUSTOM_CONVERTER_OPTIONS :: "(string \<times> string \<times> string) list" where
  "ADVANCED_CUSTOM_CONVERTER_OPTIONS =
    [(''none'', ''Native forwarding'', ''Native forwarding''),
     (''anthropic_messages_to_openai_chat_completions'', ''Anthropic Messages to OpenAI Chat'', ''To OpenAI Chat''),
     (''openai_chat_completions_to_anthropic_messages'', ''OpenAI Chat to Anthropic Messages'', ''To Anthropic Messages''),
     (''openai_chat_completions_to_openai_responses'', ''OpenAI Chat to OpenAI Responses'', ''To OpenAI Responses''),
     (''openai_responses_to_openai_chat_completions'', ''OpenAI Responses to OpenAI Chat'', ''To OpenAI Chat''),
     (''openai_responses_to_gemini_generate_content'', ''OpenAI Responses to Gemini Generate Content'',
      ''To Gemini Generate Content''),
     (''gemini_generate_content_to_openai_chat_completions'', ''Gemini Generate Content to OpenAI Chat'', ''To OpenAI Chat''),
     (''openai_chat_completions_to_gemini_generate_content'', ''OpenAI Chat to Gemini Generate Content'',
      ''To Gemini Generate Content'')]"

definition ADVANCED_CUSTOM_INCOMING_PATH_OPTIONS :: "(string \<times> string) list" where
  "ADVANCED_CUSTOM_INCOMING_PATH_OPTIONS =
    [(''/v1/chat/completions'', ''OpenAI Chat''),
     (''/v1/responses'', ''OpenAI Responses''),
     (''/v1/responses/compact'', ''OpenAI Responses Compact''),
     (''/v1/alpha/search'', ''OpenAI Alpha Search''),
     (ADVANCED_CUSTOM_MODEL_LIST_PATH, ADVANCED_CUSTOM_MODEL_LIST_LABEL),
     (''/v1/embeddings'', ''OpenAI Embeddings''),
     (''/v1/images/generations'', ''OpenAI Image Generations''),
     (''/v1/images/edits'', ''OpenAI Image Edits''),
     (''/v1/completions'', ''OpenAI Completions''),
     (''/v1/audio/speech'', ''OpenAI Audio Speech''),
     (''/v1/audio/transcriptions'', ''OpenAI Audio Transcriptions''),
     (''/v1/audio/translations'', ''OpenAI Audio Translations''),
     (''/v1/rerank'', ''OpenAI Rerank''),
     (''/v1/realtime'', ''OpenAI Realtime''),
     (''/v1/messages'', ''Claude Messages''),
     (''/v1beta/models/{model}:generateContent'', ''Gemini Generate Content''),
     (''/v1beta/models/{model}:embedContent'', ''Gemini Embed Content''),
     (''/v1beta/models/{model}:batchEmbedContents'', ''Gemini Batch Embed Contents'')]"

definition ADVANCED_CUSTOM_ROUTE_SUMMARY_LABELS :: "(string \<times> string) list" where
  "ADVANCED_CUSTOM_ROUTE_SUMMARY_LABELS =
    [(''/v1/chat/completions'', ''OpenAI Chat''),
     (ADVANCED_CUSTOM_MODEL_LIST_PATH, ADVANCED_CUSTOM_MODEL_LIST_LABEL)]"

definition ADVANCED_CUSTOM_MODEL_REGEX_PREFIX :: string where
  "ADVANCED_CUSTOM_MODEL_REGEX_PREFIX = ''re:''"

definition openAIChatPath :: string where "openAIChatPath = ''/v1/chat/completions''"
definition openAIResponsesPath :: string where "openAIResponsesPath = ''/v1/responses''"
definition claudeMessagesPath :: string where "claudeMessagesPath = ''/v1/messages''"
definition geminiGenerateContentPath :: string where
  "geminiGenerateContentPath = ''/v1beta/models/{model}:generateContent''"

definition bearerHeaderAuth :: AdvancedCustomRouteAuth where
  "bearerHeaderAuth =
     \<lparr>auth_type = Some ''header'', auth_name = Some ''Authorization'', auth_value = Some ''Bearer {api_key}''\<rparr>"

definition apiKeyHeaderAuth :: AdvancedCustomRouteAuth where
  "apiKeyHeaderAuth = \<lparr>auth_type = Some ''header'', auth_name = Some ''x-api-key'', auth_value = Some ''{api_key}''\<rparr>"

definition geminiQueryAuth :: AdvancedCustomRouteAuth where
  "geminiQueryAuth = \<lparr>auth_type = Some ''query'', auth_name = Some ''key'', auth_value = Some ''{api_key}''\<rparr>"

definition native_route :: "string \<Rightarrow> AdvancedCustomRouteAuth \<Rightarrow> AdvancedCustomRoute" where
  "native_route path a =
     \<lparr>rt_incoming_path = Some path, rt_upstream_path = Some path, rt_converter = Some ''none'', rt_models = None, rt_auth = Some a\<rparr>"

definition ADVANCED_CUSTOM_TEMPLATE_OPTIONS :: "(string \<times> string \<times> AdvancedCustomConfig) list" where
  "ADVANCED_CUSTOM_TEMPLATE_OPTIONS =
    [(''official_openai_chat'', ''Official OpenAI Chat'',
      \<lparr>advanced_routes = Some [native_route ''/v1/chat/completions'' bearerHeaderAuth]\<rparr>),
     (''official_openai_responses'', ''Official OpenAI Responses'',
      \<lparr>advanced_routes = Some [native_route ''/v1/responses'' bearerHeaderAuth]\<rparr>),
     (''official_openai_embeddings'', ''Official OpenAI Embeddings'',
      \<lparr>advanced_routes = Some [native_route ''/v1/embeddings'' bearerHeaderAuth]\<rparr>),
     (''official_openai_images'', ''Official OpenAI Images'',
      \<lparr>advanced_routes = Some [native_route ''/v1/images/generations'' bearerHeaderAuth,
                               native_route ''/v1/images/edits'' bearerHeaderAuth]\<rparr>),
     (''official_claude_messages'', ''Official Claude Messages'',
      \<lparr>advanced_routes = Some [native_route ''/v1/messages'' apiKeyHeaderAuth]\<rparr>),
     (''official_gemini_native'', ''Official Gemini Native'',
      \<lparr>advanced_routes = Some
        [native_route ''/v1beta/models/{model}:generateContent'' geminiQueryAuth,
         native_route ''/v1beta/models/{model}:embedContent'' geminiQueryAuth,
         native_route ''/v1beta/models/{model}:batchEmbedContents'' geminiQueryAuth]\<rparr>),
     (''official_gemini_from_openai_chat'', ''Official Gemini from OpenAI Chat'',
      \<lparr>advanced_routes = Some
        [\<lparr>rt_incoming_path = Some ''/v1/chat/completions'',
          rt_upstream_path = Some ''/v1beta/models/{model}:generateContent'',
          rt_converter = Some ''openai_chat_completions_to_gemini_generate_content'',
          rt_models = None, rt_auth = Some geminiQueryAuth\<rparr>]\<rparr>)]"

text \<open>\<open>cloneAdvancedCustomConfig\<close> copies; a value has no identity here.\<close>

definition getAdvancedCustomTemplateConfig :: "string \<Rightarrow> AdvancedCustomConfig" where
  "getAdvancedCustomTemplateConfig templateKey =
     (case List.find (\<lambda>(v, l, c). v = templateKey) ADVANCED_CUSTOM_TEMPLATE_OPTIONS of
        Some (v, l, c) \<Rightarrow> c
      | None \<Rightarrow> snd (snd (hd ADVANCED_CUSTOM_TEMPLATE_OPTIONS)))"

definition createAdvancedCustomRoute :: AdvancedCustomRoute where
  "createAdvancedCustomRoute =
     \<lparr>rt_incoming_path = Some openAIChatPath, rt_upstream_path = Some openAIChatPath, rt_converter = Some ''none'',
      rt_models = None, rt_auth = None\<rparr>"

definition createAdvancedCustomConfig :: AdvancedCustomConfig where
  "createAdvancedCustomConfig = \<lparr>advanced_routes = Some [createAdvancedCustomRoute]\<rparr>"

subsection \<open>Converters and paths\<close>

definition isConverterPathAllowed :: "string \<Rightarrow> string \<Rightarrow> bool" where
  "isConverterPathAllowed incomingPath conv =
     (if conv = ''none'' then True
      else if incomingPath = ''/v1/alpha/search'' then False
      else if conv = ''anthropic_messages_to_openai_chat_completions'' then incomingPath = ''/v1/messages''
      else if conv = ''openai_chat_completions_to_anthropic_messages''
        \<or> conv = ''openai_chat_completions_to_openai_responses''
        \<or> conv = ''openai_chat_completions_to_gemini_generate_content''
      then incomingPath = ''/v1/chat/completions''
      else if conv = ''openai_responses_to_openai_chat_completions'' then incomingPath = ''/v1/responses''
      else if conv = ''openai_responses_to_gemini_generate_content'' then incomingPath = ''/v1/responses''
      else js_includes incomingPath '':generateContent'' \<or> js_includes incomingPath '':streamGenerateContent'')"

definition isAdvancedCustomConverter :: "string \<Rightarrow> bool" where
  "isAdvancedCustomConverter v \<longleftrightarrow> list_ex (\<lambda>(c, l, t). c = v) ADVANCED_CUSTOM_CONVERTER_OPTIONS"

definition getAdvancedCustomIncomingPathOptions :: "string \<Rightarrow> (string \<times> string) list" where
  "getAdvancedCustomIncomingPathOptions conv =
     filter (\<lambda>(v, l). isConverterPathAllowed v conv) ADVANCED_CUSTOM_INCOMING_PATH_OPTIONS"

definition getDefaultAdvancedCustomIncomingPath :: "string \<Rightarrow> string" where
  "getDefaultAdvancedCustomIncomingPath conv =
     (case getAdvancedCustomIncomingPathOptions conv of
        (v, l) # _ \<Rightarrow> str_or v ''/v1/chat/completions''
      | [] \<Rightarrow> ''/v1/chat/completions'')"

definition isAdvancedCustomIncomingPathAllowed :: "string \<Rightarrow> string \<Rightarrow> bool" where
  "isAdvancedCustomIncomingPathAllowed incomingPath conv = isConverterPathAllowed incomingPath conv"

definition getAdvancedCustomConverterOptions :: "string \<Rightarrow> (string \<times> string \<times> string) list" where
  "getAdvancedCustomConverterOptions incomingPath =
     (let normalized = trim incomingPath in
      filter (\<lambda>(c, l, t). c = ''none'' \<or> isConverterPathAllowed normalized c) ADVANCED_CUSTOM_CONVERTER_OPTIONS)"

definition getAdvancedCustomIncomingPathLabel :: "string \<Rightarrow> string" where
  "getAdvancedCustomIncomingPathLabel value =
     (case List.find (\<lambda>(v, l). v = value) ADVANCED_CUSTOM_INCOMING_PATH_OPTIONS of
        Some (v, l) \<Rightarrow> str_or l value
      | None \<Rightarrow> value)"

definition getAdvancedCustomNativeAuth :: "string \<Rightarrow> AdvancedCustomRouteAuth" where
  "getAdvancedCustomNativeAuth path =
     (if path = claudeMessagesPath then apiKeyHeaderAuth
      else if js_includes path '':generateContent'' \<or> js_includes path '':streamGenerateContent''
        \<or> js_includes path '':embedContent'' \<or> js_includes path '':batchEmbedContents''
      then geminiQueryAuth
      else bearerHeaderAuth)"

definition getAdvancedCustomConverterDefaults :: "string \<Rightarrow> string \<Rightarrow> AdvancedCustomConverterDefaults" where
  "getAdvancedCustomConverterDefaults conv path =
     (let normalized = str_or (trim path) (getDefaultAdvancedCustomIncomingPath conv) in
      if conv = ''none''
      then \<lparr>def_upstream_path = normalized, def_auth = getAdvancedCustomNativeAuth normalized\<rparr>
      else if conv = ''anthropic_messages_to_openai_chat_completions''
        \<or> conv = ''gemini_generate_content_to_openai_chat_completions''
        \<or> conv = ''openai_responses_to_openai_chat_completions''
      then \<lparr>def_upstream_path = openAIChatPath, def_auth = bearerHeaderAuth\<rparr>
      else if conv = ''openai_chat_completions_to_openai_responses''
      then \<lparr>def_upstream_path = openAIResponsesPath, def_auth = bearerHeaderAuth\<rparr>
      else if conv = ''openai_chat_completions_to_anthropic_messages''
      then \<lparr>def_upstream_path = claudeMessagesPath, def_auth = apiKeyHeaderAuth\<rparr>
      else if conv = ''openai_chat_completions_to_gemini_generate_content''
        \<or> conv = ''openai_responses_to_gemini_generate_content''
      then \<lparr>def_upstream_path = geminiGenerateContentPath, def_auth = geminiQueryAuth\<rparr>
      else \<lparr>def_upstream_path = str_or normalized openAIChatPath, def_auth = getAdvancedCustomNativeAuth normalized\<rparr>)"

definition getAdvancedCustomUpstreamPathPlaceholder :: "string \<Rightarrow> string option \<Rightarrow> string" where
  "getAdvancedCustomUpstreamPathPlaceholder conv path =
     def_upstream_path (getAdvancedCustomConverterDefaults conv
       (case path of Some p \<Rightarrow> p | None \<Rightarrow> getDefaultAdvancedCustomIncomingPath conv))"

subsection \<open>Normalisation\<close>

definition opt_str :: "string option \<Rightarrow> string" where
  "opt_str s = (case s of Some x \<Rightarrow> x | None \<Rightarrow> [])"

definition normalizeAdvancedCustomRouteModels :: "string list option \<Rightarrow> string list" where
  "normalizeAdvancedCustomRouteModels ms =
     (case ms of None \<Rightarrow> [] | Some xs \<Rightarrow> filter (\<lambda>m. m \<noteq> []) (map trim xs))"

definition getAdvancedCustomRouteUpstreamPath :: "AdvancedCustomRoute \<Rightarrow> string" where
  "getAdvancedCustomRouteUpstreamPath route = trim (opt_str (rt_upstream_path route))"

definition normalizeAdvancedCustomRoute :: "AdvancedCustomRoute \<Rightarrow> AdvancedCustomRoute" where
  "normalizeAdvancedCustomRoute route =
     \<lparr>rt_incoming_path = Some (opt_str (rt_incoming_path route)),
      rt_upstream_path = Some (getAdvancedCustomRouteUpstreamPath route),
      rt_converter = Some (str_or (opt_str (rt_converter route)) ''none''),
      rt_models = (let ms = normalizeAdvancedCustomRouteModels (rt_models route) in if ms = [] then None else Some ms),
      rt_auth = map_option
        (\<lambda>a. \<lparr>auth_type = auth_type a, auth_name = Some (opt_str (auth_name a)), auth_value = Some (opt_str (auth_value a))\<rparr>)
        (rt_auth route)\<rparr>"

definition normalizeAdvancedCustomConfig :: "AdvancedCustomConfig \<Rightarrow> AdvancedCustomConfig" where
  "normalizeAdvancedCustomConfig config =
     \<lparr>advanced_routes = Some (case advanced_routes config of
        Some rs \<Rightarrow> map normalizeAdvancedCustomRoute rs | None \<Rightarrow> [])\<rparr>"

definition parseAdvancedCustomRouteModels :: "string \<Rightarrow> string list" where
  "parseAdvancedCustomRouteModels value = nub (filter (\<lambda>m. m \<noteq> []) (map trim (split_on (CHR '','') value)))"

datatype AdvancedCustomModelRuleKind = ExactRule | RegexRule

definition getAdvancedCustomModelRuleKind :: "string \<Rightarrow> AdvancedCustomModelRuleKind" where
  "getAdvancedCustomModelRuleKind modelRule =
     (if startsWith modelRule ADVANCED_CUSTOM_MODEL_REGEX_PREFIX then RegexRule else ExactRule)"

definition getAdvancedCustomRegexModelPattern :: "string \<Rightarrow> string" where
  "getAdvancedCustomRegexModelPattern modelRule = drop (length ADVANCED_CUSTOM_MODEL_REGEX_PREFIX) modelRule"

text \<open>Reading a parsed value at the declared types.\<close>

definition read_str :: "jsval option \<Rightarrow> string option option" where
  "read_str v =
     (case v of
        None \<Rightarrow> Some None
      | Some JNull \<Rightarrow> Some None
      | Some (JStr s) \<Rightarrow> Some (Some s)
      | _ \<Rightarrow> None)"

fun read_strs :: "jsval list \<Rightarrow> string list option" where
  "read_strs [] = Some []"
| "read_strs (JStr s # vs) = map_option ((#) s) (read_strs vs)"
| "read_strs (v # vs) = None"

definition read_models :: "jsval option \<Rightarrow> string list option option" where
  "read_models v =
     (case v of
        Some (JArr vs) \<Rightarrow> map_option Some (read_strs vs)
      | _ \<Rightarrow> Some None)"

definition read_auth :: "jsval option \<Rightarrow> AdvancedCustomRouteAuth option option" where
  "read_auth v =
     (if \<not> truthy v then Some None
      else (case (read_str (get_prop v ''type''), read_str (get_prop v ''name''), read_str (get_prop v ''value'')) of
              (Some ty, Some n, Some x) \<Rightarrow> Some (Some \<lparr>auth_type = ty, auth_name = n, auth_value = x\<rparr>)
            | _ \<Rightarrow> None))"

definition read_route :: "jsval \<Rightarrow> AdvancedCustomRoute option" where
  "read_route v =
     (if v = JNull then None
      else (case (read_str (get_prop (Some v) ''incoming_path''), read_str (get_prop (Some v) ''upstream_path''),
                  read_str (get_prop (Some v) ''converter''), read_models (get_prop (Some v) ''models''),
                  read_auth (get_prop (Some v) ''auth'')) of
              (Some i, Some u, Some c, Some ms, Some a) \<Rightarrow>
                Some \<lparr>rt_incoming_path = i, rt_upstream_path = u, rt_converter = c, rt_models = ms, rt_auth = a\<rparr>
            | _ \<Rightarrow> None))"

fun read_routes :: "jsval list \<Rightarrow> AdvancedCustomRoute list option" where
  "read_routes [] = Some []"
| "read_routes (v # vs) =
     (case (read_route v, read_routes vs) of (Some r, Some rs) \<Rightarrow> Some (r # rs) | _ \<Rightarrow> None)"

definition read_config :: "jsval \<Rightarrow> AdvancedCustomConfig option" where
  "read_config v =
     (case get_prop (Some v) ''advanced_routes'' of
        Some (JArr vs) \<Rightarrow> map_option (\<lambda>rs. \<lparr>advanced_routes = Some rs\<rparr>) (read_routes vs)
      | _ \<Rightarrow> Some \<lparr>advanced_routes = None\<rparr>)"

definition parseAdvancedCustomConfig :: "string option \<Rightarrow> AdvancedCustomConfig option" where
  "parseAdvancedCustomConfig value =
     (if trim (opt_str value) = [] then None
      else (case JSON_parse (opt_str value) of
              None \<Rightarrow> None
            | Some parsed \<Rightarrow>
                (case plain_object parsed of
                   None \<Rightarrow> None
                 | Some ps \<Rightarrow> map_option normalizeAdvancedCustomConfig (read_config parsed))))"

subsection \<open>Validation\<close>

type_synonym url_parser = "string \<Rightarrow> (string \<times> string) option"

definition isFullHttpURLOrAbsolutePath :: "url_parser \<Rightarrow> string \<Rightarrow> bool" where
  "isFullHttpURLOrAbsolutePath parse_url value =
     (if startsWith value ''/'' then \<not> startsWith value ''//''
      else (case parse_url value of
              Some (protocol, host) \<Rightarrow> host \<noteq> [] \<and> (protocol = ''http:'' \<or> protocol = ''https:'')
            | None \<Rightarrow> False))"

definition validateRouteAuth :: "AdvancedCustomRouteAuth option \<Rightarrow> string option" where
  "validateRouteAuth a =
     (case a of
        None \<Rightarrow> None
      | Some au \<Rightarrow>
          if auth_type au = Some ''none'' then None
          else if auth_type au \<noteq> Some ''header'' \<and> auth_type au \<noteq> Some ''query'' then Some ''Auth type is invalid''
          else if trim (opt_str (auth_name au)) = [] then Some ''Auth name is required''
          else if trim (opt_str (auth_value au)) = [] then Some ''Auth value is required''
          else None)"

record path_state =
  ps_catchAllIndex :: "nat option"
  ps_models :: "string \<rightharpoonup> nat"

fun check_models :: "nat \<Rightarrow> string list \<Rightarrow> string list \<Rightarrow> (string \<rightharpoonup> nat) \<Rightarrow> string + (string \<rightharpoonup> nat)" where
  "check_models routeIndex [] seenInRoute st = Inr st"
| "check_models routeIndex (m # ms) seenInRoute st =
     (if getAdvancedCustomModelRuleKind m = RegexRule \<and> getAdvancedCustomRegexModelPattern m = []
      then Inl ''Model regex cannot be empty''
      else if m \<in> set seenInRoute then Inl ''Duplicate model in route models''
      else if st m \<noteq> None then Inl ''Route models must be unique for the same incoming path''
      else check_models routeIndex ms (m # seenInRoute) (st(m \<mapsto> routeIndex)))"

type_synonym models_by_path = "string \<rightharpoonup> path_state"

definition validateAdvancedCustomRouteModels ::
  "nat \<Rightarrow> string \<Rightarrow> string list \<Rightarrow> models_by_path \<Rightarrow> string + models_by_path" where
  "validateAdvancedCustomRouteModels routeIndex incomingPath ms byPath =
     (let st = (case byPath incomingPath of
          Some x \<Rightarrow> x | None \<Rightarrow> \<lparr>ps_catchAllIndex = None, ps_models = Map.empty\<rparr>) in
      if ms = [] then
        (if ps_catchAllIndex st \<noteq> None
         then Inl ''Only one catch-all route is allowed for the same incoming path''
         else Inr (byPath(incomingPath \<mapsto> st\<lparr>ps_catchAllIndex := Some routeIndex\<rparr>)))
      else if ps_catchAllIndex st \<noteq> None then Inl ''Catch-all route must be last for the same incoming path''
      else (case check_models routeIndex ms [] (ps_models st) of
              Inl e \<Rightarrow> Inl e
            | Inr m \<Rightarrow> Inr (byPath(incomingPath \<mapsto> st\<lparr>ps_models := m\<rparr>))))"

definition route_path :: "AdvancedCustomRoute \<Rightarrow> string" where
  "route_path r = trim (opt_str (rt_incoming_path r))"

definition route_converter :: "AdvancedCustomRoute \<Rightarrow> string" where
  "route_converter r = str_or (opt_str (rt_converter r)) ''none''"

definition model_list_error :: "AdvancedCustomRoute \<Rightarrow> nat option \<Rightarrow> string option" where
  "model_list_error r modelListRouteIndex =
     (if route_path r \<noteq> ADVANCED_CUSTOM_MODEL_LIST_PATH then None
      else if modelListRouteIndex \<noteq> None then Some ''Only one OpenAI Models route is allowed''
      else if normalizeAdvancedCustomRouteModels (rt_models r) \<noteq> []
      then Some ''OpenAI Models route does not support client model rules''
      else if route_converter r \<noteq> ''none'' then Some ''OpenAI Models route must use native forwarding''
      else if js_includes (getAdvancedCustomRouteUpstreamPath r) ''{model}''
      then Some ''OpenAI Models upstream path must not contain {model}''
      else None)"

text \<open>One iteration of the loop: an error, or the state for the next one.\<close>

definition validate_route ::
  "url_parser \<Rightarrow> nat \<Rightarrow> AdvancedCustomRoute \<Rightarrow> models_by_path \<times> nat option \<Rightarrow> string + (models_by_path \<times> nat option)" where
  "validate_route parse_url index r state =
     (let (byPath, modelList) = state;
          incomingPath = route_path r;
          upstreamPath = getAdvancedCustomRouteUpstreamPath r;
          conv = route_converter r;
          routeModels = normalizeAdvancedCustomRouteModels (rt_models r) in
      if incomingPath = [] then Inl ''Incoming path is required''
      else if \<not> startsWith incomingPath ''/'' then Inl ''Incoming path must start with /''
      else if js_includes incomingPath ''?'' then Inl ''Incoming path must not include query''
      else (case model_list_error r modelList of
        Some e \<Rightarrow> Inl e
      | None \<Rightarrow>
          (case validateAdvancedCustomRouteModels index incomingPath routeModels byPath of
            Inl e \<Rightarrow> Inl e
          | Inr byPath' \<Rightarrow>
              if upstreamPath = [] then Inl ''Upstream path is required''
              else if \<not> isFullHttpURLOrAbsolutePath parse_url upstreamPath
              then Inl ''Upstream path must be a full URL or a path starting with /''
              else if \<not> isAdvancedCustomConverter conv then Inl ''Converter is not registered''
              else if \<not> isConverterPathAllowed incomingPath conv then Inl ''Converter does not match incoming path''
              else (case validateRouteAuth (rt_auth r) of
                Some e \<Rightarrow> Inl e
              | None \<Rightarrow> Inr (byPath', if incomingPath = ADVANCED_CUSTOM_MODEL_LIST_PATH then Some index else modelList)))))"

fun validate_routes ::
  "url_parser \<Rightarrow> nat \<Rightarrow> AdvancedCustomRoute list \<Rightarrow> models_by_path \<times> nat option \<Rightarrow> AdvancedCustomValidationError option" where
  "validate_routes parse_url index [] state = None"
| "validate_routes parse_url index (r # rs) state =
     (case validate_route parse_url index r state of
        Inl e \<Rightarrow> Some \<lparr>err_message = e, err_routeIndex = Some index\<rparr>
      | Inr state' \<Rightarrow> validate_routes parse_url (index + 1) rs state')"

definition config_routes :: "AdvancedCustomConfig \<Rightarrow> AdvancedCustomRoute list" where
  "config_routes config = (case advanced_routes (normalizeAdvancedCustomConfig config) of Some rs \<Rightarrow> rs | None \<Rightarrow> [])"

definition validateAdvancedCustomConfig ::
  "url_parser \<Rightarrow> AdvancedCustomConfig option \<Rightarrow> AdvancedCustomValidationError option" where
  "validateAdvancedCustomConfig parse_url config =
     (case config of
        None \<Rightarrow> Some \<lparr>err_message = ''Advanced custom configuration is required'', err_routeIndex = None\<rparr>
      | Some c \<Rightarrow>
          if config_routes c = []
          then Some \<lparr>err_message = ''Advanced custom configuration requires at least one route'', err_routeIndex = None\<rparr>
          else validate_routes parse_url 0 (config_routes c) (Map.empty, None))"

subsection \<open>Queries on a configuration\<close>

definition hasValidAdvancedCustomModelListRoute :: "url_parser \<Rightarrow> AdvancedCustomConfig option \<Rightarrow> bool" where
  "hasValidAdvancedCustomModelListRoute parse_url config =
     (case config of
        None \<Rightarrow> False
      | Some c \<Rightarrow>
          validateAdvancedCustomConfig parse_url config = None \<and>
          list_ex (\<lambda>r. route_path r = ADVANCED_CUSTOM_MODEL_LIST_PATH) (config_routes c))"

definition advancedCustomConfigUsesRelativeUpstreamPath :: "AdvancedCustomConfig option \<Rightarrow> bool" where
  "advancedCustomConfigUsesRelativeUpstreamPath config =
     (case config of
        None \<Rightarrow> False
      | Some c \<Rightarrow> list_ex (\<lambda>r. startsWith (getAdvancedCustomRouteUpstreamPath r) ''/'') (config_routes c))"

definition getAdvancedCustomRouteSummaryLabel :: "AdvancedCustomRoute \<Rightarrow> string option" where
  "getAdvancedCustomRouteSummaryLabel route =
     (let path = route_path route in
      if path = [] then None
      else (case map_of ADVANCED_CUSTOM_ROUTE_SUMMARY_LABELS path of
              Some l \<Rightarrow> Some (str_or l (getAdvancedCustomIncomingPathLabel path))
            | None \<Rightarrow> Some (getAdvancedCustomIncomingPathLabel path)))"

fun collect_labels :: "AdvancedCustomRoute list \<Rightarrow> string list \<Rightarrow> string list" where
  "collect_labels [] labels = labels"
| "collect_labels (r # rs) labels =
     (case getAdvancedCustomRouteSummaryLabel r of
        None \<Rightarrow> collect_labels rs labels
      | Some l \<Rightarrow> if l = [] \<or> l \<in> set labels then collect_labels rs labels else collect_labels rs (labels @ [l]))"

record AdvancedCustomStats =
  routeCount :: nat
  valid :: bool
  routeTypeLabels :: "string list"

definition getAdvancedCustomStats :: "url_parser \<Rightarrow> string option \<Rightarrow> AdvancedCustomStats" where
  "getAdvancedCustomStats parse_url value =
     (case parseAdvancedCustomConfig value of
        None \<Rightarrow> \<lparr>routeCount = 0, valid = False, routeTypeLabels = []\<rparr>
      | Some config \<Rightarrow>
          (let normalized = normalizeAdvancedCustomConfig config;
               routes = (case advanced_routes normalized of Some rs \<Rightarrow> rs | None \<Rightarrow> []) in
           \<lparr>routeCount = length routes,
            valid = (validateAdvancedCustomConfig parse_url (Some normalized) = None),
            routeTypeLabels = collect_labels routes []\<rparr>))"

datatype AdvancedCustomAuthMode = DefaultMode | NoneMode | HeaderMode | QueryMode

definition getAdvancedCustomAuthMode :: "AdvancedCustomRoute \<Rightarrow> string" where
  "getAdvancedCustomAuthMode route =
     (case rt_auth route of Some a \<Rightarrow> str_or (opt_str (auth_type a)) ''default'' | None \<Rightarrow> ''default'')"

definition buildAdvancedCustomAuth ::
  "AdvancedCustomAuthMode \<Rightarrow> AdvancedCustomRouteAuth option \<Rightarrow> AdvancedCustomRouteAuth option" where
  "buildAdvancedCustomAuth mode previousAuth =
     (let name = (case previousAuth of Some a \<Rightarrow> opt_str (auth_name a) | None \<Rightarrow> []);
          val = (case previousAuth of Some a \<Rightarrow> opt_str (auth_value a) | None \<Rightarrow> []) in
      case mode of
        DefaultMode \<Rightarrow> None
      | NoneMode \<Rightarrow> Some \<lparr>auth_type = Some ''none'', auth_name = None, auth_value = None\<rparr>
      | HeaderMode \<Rightarrow> Some \<lparr>auth_type = Some ''header'', auth_name = Some (str_or name ''Authorization''),
                           auth_value = Some (str_or val ''Bearer {api_key}'')\<rparr>
      | QueryMode \<Rightarrow> Some \<lparr>auth_type = Some ''query'', auth_name = Some (str_or name ''api_key''),
                          auth_value = Some (str_or val ''{api_key}'')\<rparr>)"

subsection \<open>What a valid configuration is\<close>

definition route_models :: "AdvancedCustomRoute \<Rightarrow> string list" where
  "route_models r = normalizeAdvancedCustomRouteModels (rt_models r)"

definition empty_regex :: "string \<Rightarrow> bool" where
  "empty_regex m \<longleftrightarrow> getAdvancedCustomModelRuleKind m = RegexRule \<and> getAdvancedCustomRegexModelPattern m = []"

text \<open>A route on its own.\<close>

definition route_ok :: "url_parser \<Rightarrow> AdvancedCustomRoute \<Rightarrow> bool" where
  "route_ok parse_url r \<longleftrightarrow>
     startsWith (route_path r) ''/'' \<and> \<not> js_includes (route_path r) ''?'' \<and>
     model_list_error r None = None \<and>
     distinct (route_models r) \<and> list_all (\<lambda>m. \<not> empty_regex m) (route_models r) \<and>
     getAdvancedCustomRouteUpstreamPath r \<noteq> [] \<and>
     isFullHttpURLOrAbsolutePath parse_url (getAdvancedCustomRouteUpstreamPath r) \<and>
     isAdvancedCustomConverter (route_converter r) \<and>
     isConverterPathAllowed (route_path r) (route_converter r) \<and>
     validateRouteAuth (rt_auth r) = None"

text \<open>An earlier and a later route: on the same path the earlier one has model rules, none of them repeated by
  the later one.\<close>

definition compatible :: "AdvancedCustomRoute \<Rightarrow> AdvancedCustomRoute \<Rightarrow> bool" where
  "compatible r r' \<longleftrightarrow>
     (route_path r = route_path r' \<longrightarrow>
        route_models r \<noteq> [] \<and> set (route_models r) \<inter> set (route_models r') = {})"

definition routes_ok :: "url_parser \<Rightarrow> AdvancedCustomRoute list \<Rightarrow> bool" where
  "routes_ok parse_url rs \<longleftrightarrow> rs \<noteq> [] \<and> list_all (route_ok parse_url) rs \<and> sorted_wrt compatible rs"

subsection \<open>The loop computes it\<close>

lemma check_models_ok:
  "(\<exists>st'. check_models i ms seen st = Inr st') \<longleftrightarrow>
     distinct ms \<and> list_all (\<lambda>m. \<not> empty_regex m) ms \<and> set ms \<inter> set seen = {} \<and> set ms \<inter> dom st = {}"
proof (induction ms arbitrary: seen st)
  case Nil
  then show ?case by simp
next
  case (Cons m ms)
  show ?case
    by (auto simp: Cons.IH empty_regex_def dom_def)
qed

lemma check_models_dom: "check_models i ms seen st = Inr st' \<Longrightarrow> dom st' = dom st \<union> set ms"
  by (induction ms arbitrary: seen st) (auto split: if_splits)

text \<open>What the state of the loop records of the routes passed.\<close>

definition state_at :: "models_by_path \<Rightarrow> string \<Rightarrow> path_state" where
  "state_at byPath p =
     (case byPath p of Some st \<Rightarrow> st | None \<Rightarrow> \<lparr>ps_catchAllIndex = None, ps_models = Map.empty\<rparr>)"

definition loop_inv :: "AdvancedCustomRoute list \<Rightarrow> models_by_path \<Rightarrow> nat option \<Rightarrow> bool" where
  "loop_inv passed byPath modelList \<longleftrightarrow>
     (\<forall>p. (ps_catchAllIndex (state_at byPath p) \<noteq> None \<longleftrightarrow>
             (\<exists>r \<in> set passed. route_path r = p \<and> route_models r = [])) \<and>
          dom (ps_models (state_at byPath p)) = \<Union> (set ` route_models ` {r \<in> set passed. route_path r = p})) \<and>
     (modelList \<noteq> None \<longleftrightarrow> (\<exists>r \<in> set passed. route_path r = ADVANCED_CUSTOM_MODEL_LIST_PATH))"

lemma validate_models_alt:
  "validateAdvancedCustomRouteModels i p ms byPath =
     (let st = state_at byPath p in
      if ms = [] then
        (if ps_catchAllIndex st \<noteq> None
         then Inl ''Only one catch-all route is allowed for the same incoming path''
         else Inr (byPath(p \<mapsto> st\<lparr>ps_catchAllIndex := Some i\<rparr>)))
      else if ps_catchAllIndex st \<noteq> None then Inl ''Catch-all route must be last for the same incoming path''
      else (case check_models i ms [] (ps_models st) of
              Inl e \<Rightarrow> Inl e
            | Inr m \<Rightarrow> Inr (byPath(p \<mapsto> st\<lparr>ps_models := m\<rparr>))))"
  by (simp add: validateAdvancedCustomRouteModels_def state_at_def)

lemma state_at_update: "state_at (byPath(p \<mapsto> st)) q = (if q = p then st else state_at byPath q)"
  by (simp add: state_at_def)

lemma compatible_all_iff:
  assumes "loop_inv passed byPath ml"
  shows "(\<forall>d \<in> set passed. compatible d r) \<longleftrightarrow>
    ps_catchAllIndex (state_at byPath (route_path r)) = None \<and>
    set (route_models r) \<inter> dom (ps_models (state_at byPath (route_path r))) = {}"
proof -
  have c: "ps_catchAllIndex (state_at byPath (route_path r)) = None \<longleftrightarrow>
      (\<forall>d \<in> set passed. route_path d = route_path r \<longrightarrow> route_models d \<noteq> [])"
    using assms [unfolded loop_inv_def, THEN conjunct1, THEN spec, of "route_path r", THEN conjunct1] by blast
  have m: "dom (ps_models (state_at byPath (route_path r))) =
      \<Union> (set ` route_models ` {d \<in> set passed. route_path d = route_path r})"
    using assms by (simp add: loop_inv_def)
  show ?thesis unfolding c m compatible_def by blast
qed

lemma models_step_iff:
  assumes "loop_inv passed byPath ml"
  shows "(\<exists>b'. validateAdvancedCustomRouteModels i (route_path r) (route_models r) byPath = Inr b') \<longleftrightarrow>
    distinct (route_models r) \<and> list_all (\<lambda>m. \<not> empty_regex m) (route_models r) \<and>
    (\<forall>d \<in> set passed. compatible d r)"
proof -
  let ?st = "state_at byPath (route_path r)"
  have "(\<exists>b'. validateAdvancedCustomRouteModels i (route_path r) (route_models r) byPath = Inr b') \<longleftrightarrow>
      ps_catchAllIndex ?st = None \<and> (\<exists>m. check_models i (route_models r) [] (ps_models ?st) = Inr m)"
    by (auto simp: validate_models_alt Let_def split: sum.splits if_splits)
  then show ?thesis
    unfolding check_models_ok compatible_all_iff [OF assms] by auto
qed

lemma models_step_inv:
  assumes inv: "loop_inv passed byPath ml"
    and st: "validateAdvancedCustomRouteModels i (route_path r) (route_models r) byPath = Inr b'"
  shows "loop_inv (passed @ [r]) b' (if route_path r = ADVANCED_CUSTOM_MODEL_LIST_PATH then Some i else ml)"
proof -
  let ?st = "state_at byPath (route_path r)"
  from st have free: "ps_catchAllIndex ?st = None"
    by (auto simp: validate_models_alt Let_def split: if_splits sum.splits)
  show ?thesis
  proof (cases "route_models r = []")
    case True
    then have "b' = byPath(route_path r \<mapsto> ?st\<lparr>ps_catchAllIndex := Some i\<rparr>)"
      using st free by (simp add: validate_models_alt Let_def)
    then show ?thesis using inv True by (auto simp: loop_inv_def state_at_update)
  next
    case False
    then obtain m where m: "check_models i (route_models r) [] (ps_models ?st) = Inr m"
      and b': "b' = byPath(route_path r \<mapsto> ?st\<lparr>ps_models := m\<rparr>)"
      using st free by (auto simp: validate_models_alt Let_def split: sum.splits)
    have "dom m = dom (ps_models ?st) \<union> set (route_models r)" by (rule check_models_dom [OF m])
    then show ?thesis using inv False by (auto simp: loop_inv_def state_at_update b')
  qed
qed

lemma model_list_step:
  assumes "loop_inv passed byPath ml" and "list_all (route_ok parse_url) passed" and "\<forall>d \<in> set passed. compatible d r"
  shows "model_list_error r ml = model_list_error r None"
proof (cases "route_path r = ADVANCED_CUSTOM_MODEL_LIST_PATH \<and> ml \<noteq> None")
  case True
  then obtain d where d: "d \<in> set passed" "route_path d = ADVANCED_CUSTOM_MODEL_LIST_PATH"
    using assms(1) by (auto simp: loop_inv_def)
  then have "route_models d = []"
    using assms(2) by (auto simp: list_all_iff route_ok_def model_list_error_def route_models_def split: if_splits)
  with d assms(3) True show ?thesis by (auto simp: compatible_def)
next
  case False
  then show ?thesis by (auto simp: model_list_error_def)
qed

lemma validate_route_iff:
  assumes inv: "loop_inv passed byPath ml" and ok: "list_all (route_ok parse_url) passed"
  shows "(\<exists>st'. validate_route parse_url i r (byPath, ml) = Inr st') \<longleftrightarrow>
    route_ok parse_url r \<and> (\<forall>d \<in> set passed. compatible d r)"
proof -
  have "(\<exists>st'. validate_route parse_url i r (byPath, ml) = Inr st') \<longleftrightarrow>
      startsWith (route_path r) ''/'' \<and> \<not> js_includes (route_path r) ''?'' \<and> model_list_error r ml = None \<and>
      (\<exists>b'. validateAdvancedCustomRouteModels i (route_path r) (route_models r) byPath = Inr b') \<and>
      getAdvancedCustomRouteUpstreamPath r \<noteq> [] \<and>
      isFullHttpURLOrAbsolutePath parse_url (getAdvancedCustomRouteUpstreamPath r) \<and>
      isAdvancedCustomConverter (route_converter r) \<and>
      isConverterPathAllowed (route_path r) (route_converter r) \<and> validateRouteAuth (rt_auth r) = None"
    by (auto simp: validate_route_def Let_def route_models_def startsWith_iff split: option.splits sum.splits)
  then show ?thesis
    unfolding models_step_iff [OF inv] route_ok_def
    using model_list_step [OF inv ok, of r] by auto
qed

lemma validate_route_inv:
  assumes "loop_inv passed byPath ml" and "validate_route parse_url i r (byPath, ml) = Inr (b', ml')"
  shows "loop_inv (passed @ [r]) b' ml'"
proof -
  have "validateAdvancedCustomRouteModels i (route_path r) (route_models r) byPath = Inr b'"
    and "ml' = (if route_path r = ADVANCED_CUSTOM_MODEL_LIST_PATH then Some i else ml)"
    using assms(2) by (auto simp: validate_route_def Let_def route_models_def split: option.splits sum.splits if_splits)
  with models_step_inv [OF assms(1)] show ?thesis by simp
qed

lemma validate_routes_iff:
  assumes "loop_inv passed byPath ml" and "list_all (route_ok parse_url) passed" and "sorted_wrt compatible passed"
  shows "validate_routes parse_url i rs (byPath, ml) = None \<longleftrightarrow>
    list_all (route_ok parse_url) (passed @ rs) \<and> sorted_wrt compatible (passed @ rs)"
  using assms
proof (induction rs arbitrary: passed byPath ml i)
  case Nil
  then show ?case by simp
next
  case (Cons r rs)
  show ?case
  proof (cases "validate_route parse_url i r (byPath, ml)")
    case (Inl e)
    then have "\<not> (route_ok parse_url r \<and> (\<forall>d \<in> set passed. compatible d r))"
      using validate_route_iff [OF Cons.prems(1,2), of i r] by simp
    then show ?thesis using Inl by (auto simp: sorted_wrt_append)
  next
    case (Inr st)
    obtain b' ml' where st: "st = (b', ml')" by (cases st)
    have "route_ok parse_url r" "\<forall>d \<in> set passed. compatible d r"
      using validate_route_iff [OF Cons.prems(1,2), of i r] Inr by auto
    then have "list_all (route_ok parse_url) (passed @ [r])" "sorted_wrt compatible (passed @ [r])"
      using Cons.prems(2,3) by (auto simp: sorted_wrt_append)
    from Cons.IH [OF validate_route_inv [OF Cons.prems(1) Inr [unfolded st]] this] show ?thesis
      using Inr st by simp
  qed
qed

lemma initial_loop_inv: "loop_inv [] Map.empty None"
  by (simp add: loop_inv_def state_at_def)

subsection \<open>Normal forms\<close>

lemma normalize_models_idem:
  "normalizeAdvancedCustomRouteModels (Some (normalizeAdvancedCustomRouteModels ms)) = normalizeAdvancedCustomRouteModels ms"
proof (cases ms)
  case None
  then show ?thesis by (simp add: normalizeAdvancedCustomRouteModels_def)
next
  case (Some xs)
  have "map trim (filter (\<lambda>m. m \<noteq> []) (map trim xs)) = filter (\<lambda>m. m \<noteq> []) (map trim xs)"
    by (induction xs) (auto simp: trim_def trim_by_idem)
  then show ?thesis using Some by (simp add: normalizeAdvancedCustomRouteModels_def)
qed

lemma normalize_route_idem:
  "normalizeAdvancedCustomRoute (normalizeAdvancedCustomRoute r) = normalizeAdvancedCustomRoute r"
proof -
  have "normalizeAdvancedCustomRouteModels (rt_models (normalizeAdvancedCustomRoute r)) =
      normalizeAdvancedCustomRouteModels (rt_models r)"
    using normalize_models_idem [of "rt_models r"]
    by (auto simp: normalizeAdvancedCustomRoute_def Let_def normalizeAdvancedCustomRouteModels_def [of None])
  then show ?thesis
    by (simp add: normalizeAdvancedCustomRoute_def [of "normalizeAdvancedCustomRoute r"])
      (simp add: normalizeAdvancedCustomRoute_def Let_def opt_str_def getAdvancedCustomRouteUpstreamPath_def
        trim_def trim_by_idem str_or_def option.map_comp comp_def)
qed

lemma config_routes_normalize: "config_routes (normalizeAdvancedCustomConfig c) = config_routes c"
  by (simp add: config_routes_def normalizeAdvancedCustomConfig_def normalize_route_idem comp_def split: option.split)

lemma validate_iff_routes_ok:
  "validateAdvancedCustomConfig parse_url (Some c) = None \<longleftrightarrow> routes_ok parse_url (config_routes c)"
  using validate_routes_iff [OF initial_loop_inv, of parse_url 0 "config_routes c"]
  by (simp add: validateAdvancedCustomConfig_def routes_ok_def)

text \<open>Where the loop stops: everything before the reported route is in order, with it no longer.\<close>

lemma validate_routes_index:
  assumes "loop_inv passed byPath ml" and "list_all (route_ok parse_url) passed" and "sorted_wrt compatible passed"
    and "validate_routes parse_url i rs (byPath, ml) = Some e"
  shows "\<exists>k < length rs. err_routeIndex e = Some (i + k) \<and>
    list_all (route_ok parse_url) (passed @ take k rs) \<and> sorted_wrt compatible (passed @ take k rs) \<and>
    \<not> (route_ok parse_url (rs ! k) \<and> (\<forall>d \<in> set (passed @ take k rs). compatible d (rs ! k)))"
  using assms
proof (induction rs arbitrary: passed byPath ml i)
  case Nil
  then show ?case by simp
next
  case (Cons r rs)
  show ?case
  proof (cases "validate_route parse_url i r (byPath, ml)")
    case (Inl m)
    then have "\<not> (route_ok parse_url r \<and> (\<forall>d \<in> set passed. compatible d r))"
      using validate_route_iff [OF Cons.prems(1,2), of i r] by simp
    moreover have "err_routeIndex e = Some i" using Inl Cons.prems(4) by auto
    ultimately show ?thesis using Cons.prems(2,3) by (intro exI [of _ 0]) simp
  next
    case (Inr st)
    obtain b' ml' where st: "st = (b', ml')" by (cases st)
    have "route_ok parse_url r" "\<forall>d \<in> set passed. compatible d r"
      using validate_route_iff [OF Cons.prems(1,2), of i r] Inr by auto
    then have "list_all (route_ok parse_url) (passed @ [r])" "sorted_wrt compatible (passed @ [r])"
      using Cons.prems(2,3) by (auto simp: sorted_wrt_append)
    from Cons.IH [OF validate_route_inv [OF Cons.prems(1) Inr [unfolded st]] this, of "i + 1"] Cons.prems(4) Inr st
    obtain k where "k < length rs" "err_routeIndex e = Some (i + 1 + k)"
      "list_all (route_ok parse_url) ((passed @ [r]) @ take k rs)" "sorted_wrt compatible ((passed @ [r]) @ take k rs)"
      "\<not> (route_ok parse_url (rs ! k) \<and> (\<forall>d \<in> set ((passed @ [r]) @ take k rs). compatible d (rs ! k)))"
      by auto
    then show ?thesis by (intro exI [of _ "Suc k"]) simp
  qed
qed

subsection \<open>Properties\<close>

text \<open>Two routes of one path, for the witnesses.\<close>

definition sample_routes :: AdvancedCustomConfig where
  "sample_routes = \<lparr>advanced_routes = Some
     [createAdvancedCustomRoute\<lparr>rt_models := Some [''gpt-4o'']\<rparr>, createAdvancedCustomRoute]\<rparr>"

definition sample_clash :: AdvancedCustomConfig where
  "sample_clash = \<lparr>advanced_routes = Some [createAdvancedCustomRoute, createAdvancedCustomRoute]\<rparr>"

text \<open>
  C4: The validator accepts a configuration exactly when it has routes, every route is in order on its own
  (absolute path without query, usable upstream, registered converter that fits the path, complete auth, distinct
  and non-empty model rules, the restrictions of the model list), and on each path only the last route is a
  catch-all and no model rule occurs twice.
\<close>

theorem advanced_validation_exact:
  "validateAdvancedCustomConfig parse_url (Some c) = None \<longleftrightarrow> routes_ok parse_url (config_routes c)"
  by (rule validate_iff_routes_ok)

text \<open>
  In an accepted configuration a model rule selects at most one route of a path, and a catch-all route comes
  after every other route of its path.
\<close>

theorem advanced_routing_unambiguous:
  assumes "validateAdvancedCustomConfig parse_url (Some c) = None"
    and "i < length (config_routes c)" and "j < length (config_routes c)"
    and "route_path (config_routes c ! i) = route_path (config_routes c ! j)"
  shows "(m \<in> set (route_models (config_routes c ! i)) \<longrightarrow> m \<in> set (route_models (config_routes c ! j)) \<longrightarrow> i = j) \<and>
         (route_models (config_routes c ! i) = [] \<longrightarrow> j \<le> i)"
proof -
  have c: "compatible (config_routes c ! a) (config_routes c ! b)" if "a < b" "b < length (config_routes c)" for a b
    using assms(1) that by (simp add: validate_iff_routes_ok routes_ok_def sorted_wrt_iff_nth_less)
  show ?thesis
    using c [of i j] c [of j i] assms(2-4) by (cases i j rule: linorder_cases) (auto simp: compatible_def)
qed

theorem advanced_routing_unambiguous_witness:
  "route_models (config_routes sample_routes ! 1) = [] \<and> (0::nat) \<le> 1"
proof -
  have v: "validateAdvancedCustomConfig (\<lambda>_. None) (Some sample_routes) = None" by code_simp
  have l: "length (config_routes sample_routes) = 2"
    and p: "route_path (config_routes sample_routes ! 1) = route_path (config_routes sample_routes ! 0)"
    and m: "route_models (config_routes sample_routes ! 1) = []" by code_simp+
  show ?thesis using advanced_routing_unambiguous [OF v, of 1 0] l p m by simp
qed

text \<open>
  A reported route index is the first offending route: all routes before it are in order, and the reported
  one is wrong on its own or clashes with one before it.
\<close>

theorem advanced_error_location:
  assumes "validateAdvancedCustomConfig parse_url (Some c) = Some e" and "config_routes c \<noteq> []"
    and "rs = config_routes c"
  shows "\<exists>k < length rs. err_routeIndex e = Some k \<and>
    list_all (route_ok parse_url) (take k rs) \<and> sorted_wrt compatible (take k rs) \<and>
    \<not> (route_ok parse_url (rs ! k) \<and> (\<forall>d \<in> set (take k rs). compatible d (rs ! k)))"
  using validate_routes_index [OF initial_loop_inv, of parse_url 0 rs e] assms
  by (simp add: validateAdvancedCustomConfig_def)

theorem advanced_error_location_witness:
  "\<exists>k < length (config_routes sample_clash).
     err_routeIndex \<lparr>err_message = ''Only one catch-all route is allowed for the same incoming path'',
       err_routeIndex = Some 1\<rparr> = Some k"
proof -
  have v: "validateAdvancedCustomConfig (\<lambda>_. None) (Some sample_clash) =
      Some \<lparr>err_message = ''Only one catch-all route is allowed for the same incoming path'', err_routeIndex = Some 1\<rparr>"
    by code_simp
  have n: "config_routes sample_clash \<noteq> []" by code_simp
  from advanced_error_location [OF v n refl] show ?thesis by blast
qed

text \<open>
  Normalising a configuration again changes nothing, and does not change the verdict.
\<close>

theorem advanced_normalize_stable:
  "normalizeAdvancedCustomConfig (normalizeAdvancedCustomConfig c) = normalizeAdvancedCustomConfig c \<and>
   validateAdvancedCustomConfig parse_url (Some (normalizeAdvancedCustomConfig c)) =
     validateAdvancedCustomConfig parse_url (Some c)"
  by (simp add: validateAdvancedCustomConfig_def config_routes_normalize)
    (simp add: normalizeAdvancedCustomConfig_def normalize_route_idem comp_def split: option.split)

end
