(* ===== verification/AdvancedOffers.thy ===== *)
theory AdvancedOffers
  imports AdvancedCustom
begin

text \<open>
  The option tables of the route editor evaluated: everything it offers passes its own validation.
\<close>

text \<open>
  What the editor offers is valid: every template, the new configuration, and for every converter the route
  made of its default path, upstream path and auth.
\<close>

theorem advanced_offers_valid:
  "list_all (\<lambda>(v, l, c). validateAdvancedCustomConfig parse_url (Some c) = None) ADVANCED_CUSTOM_TEMPLATE_OPTIONS \<and>
   validateAdvancedCustomConfig parse_url (Some createAdvancedCustomConfig) = None \<and>
   list_all (\<lambda>(conv, l, tl).
     (let path = getDefaultAdvancedCustomIncomingPath conv; d = getAdvancedCustomConverterDefaults conv path in
      validateAdvancedCustomConfig parse_url (Some \<lparr>advanced_routes = Some
        [\<lparr>rt_incoming_path = Some path, rt_upstream_path = Some (def_upstream_path d), rt_converter = Some conv,
          rt_models = None, rt_auth = Some (def_auth d)\<rparr>]\<rparr>) = None)) ADVANCED_CUSTOM_CONVERTER_OPTIONS"
  by (intro conjI; code_simp)

end
