(* ===== verification/JsonPrint.thy ===== *)
theory JsonPrint
  imports Json
begin

text \<open>
  The standard library's \<open>JSON.stringify\<close> without indentation, and \<open>Number.prototype.toString\<close> that it
  uses, with the round trip through \<open>JSON.parse\<close>.  A number is printed exactly when its decimal expansion
  ends, which is the case for every number the parser reads; the digits of other rationals are cut.
\<close>

named_theorems json_shape \<open>first characters of printed values\<close>

subsection \<open>Numbers\<close>

text \<open>How often a number has to be multiplied by ten to become an integer, at most 400 times: binary64 has no
  decimal exponent below -324.\<close>

fun places :: "nat \<Rightarrow> rat \<Rightarrow> nat" where
  "places 0 q = 0"
| "places (Suc fuel) q = (if is_integer q then 0 else Suc (places fuel (q * 10)))"

definition decimal_places :: "rat \<Rightarrow> nat" where
  "decimal_places q = places 400 q"

definition pad_zeros :: "nat \<Rightarrow> string \<Rightarrow> string" where
  "pad_zeros n s = replicate (n - length s) (CHR ''0'') @ s"

definition strip_zeros :: "string \<Rightarrow> string" where
  "strip_zeros s = rev (dropWhile (\<lambda>c. c = CHR ''0'') (rev s))"

definition positive_str :: "rat \<Rightarrow> string" where
  "positive_str q =
     (let p = decimal_places q; m = nat \<lfloor>q * 10 ^ p\<rfloor> in
      if p = 0 \<and> q < 10 ^ 21 then decimal m
      else if 1 / 10 ^ 6 \<le> q \<and> q < 10 ^ 21
      then decimal (m div 10 ^ p) @ ''.'' @ pad_zeros p (decimal (m mod 10 ^ p))
      else
        (let ds = strip_zeros (decimal m); e = int (length (decimal m)) - 1 - int p in
         take 1 ds @ (if length ds > 1 then ''.'' @ drop 1 ds else [])
         @ (if e < 0 then ''e-'' else ''e+'') @ decimal (nat \<bar>e\<bar>)))"

definition number_str :: "rat \<Rightarrow> string" where
  "number_str q = (if q = 0 then ''0'' else if q < 0 then ''-'' @ positive_str (- q) else positive_str q)"

text \<open>The numbers printed without an exponent.\<close>

definition plain_number :: "rat \<Rightarrow> bool" where
  "plain_number q \<longleftrightarrow>
     q = 0 \<or> is_integer (\<bar>q\<bar> * 10 ^ decimal_places \<bar>q\<bar>) \<and> 1 / 10 ^ 6 \<le> \<bar>q\<bar> \<and> \<bar>q\<bar> < 10 ^ 21"

subsection \<open>Strings and values\<close>

definition short_escape :: "char \<Rightarrow> char option" where
  "short_escape c = map_of
     [(CHR 0x22, CHR 0x22), (CHR 0x5C, CHR 0x5C), (CHR 0x08, CHR ''b''), (CHR 0x0C, CHR ''f''),
      (CHR 0x0A, CHR ''n''), (CHR 0x0D, CHR ''r''), (CHR 0x09, CHR ''t'')] c"

definition hex_char :: "nat \<Rightarrow> char" where
  "hex_char n = char_of (if n < 10 then n + 48 else n + 87)"

definition escape_char :: "char \<Rightarrow> string" where
  "escape_char c =
     (case short_escape c of
        Some e \<Rightarrow> [CHR 0x5C, e]
      | None \<Rightarrow>
          (let n = of_char c :: nat in
           if n < 32 then [CHR 0x5C, CHR ''u'', CHR ''0'', CHR ''0'', hex_char (n div 16), hex_char (n mod 16)]
           else [c]))"

definition quote :: "string \<Rightarrow> string" where
  "quote s = CHR 0x22 # concat (map escape_char s) @ [CHR 0x22]"

fun JSON_stringify :: "jsval \<Rightarrow> string"
  and member_str :: "string \<times> jsval \<Rightarrow> string" where
  "JSON_stringify JNull = ''null''"
| "JSON_stringify (JBool b) = (if b then ''true'' else ''false'')"
| "JSON_stringify (JNum q) = number_str q"
| "JSON_stringify (JStr s) = quote s"
| "JSON_stringify (JArr xs) = ''['' @ join '','' (map JSON_stringify xs) @ '']''"
| "JSON_stringify (JObj ps) = ''{'' @ join '','' (map member_str ps) @ ''}''"
| "member_str (k, v) = quote k @ '':'' @ JSON_stringify v"

text \<open>The values a text can express: plain numbers, and objects whose properties are in enumeration order.\<close>

fun printable :: "jsval \<Rightarrow> bool"
  and printable_member :: "string \<times> jsval \<Rightarrow> bool" where
  "printable (JNum q) = plain_number q"
| "printable (JArr xs) = list_all printable xs"
| "printable (JObj ps) = (obj_of_pairs ps = ps \<and> list_all printable_member ps)"
| "printable JNull = True"
| "printable (JBool b) = True"
| "printable (JStr s) = True"
| "printable_member (k, v) = printable v"


subsection \<open>Printed strings\<close>

lemma hex_digit_char: "d < 16 \<Longrightarrow> hex_digit (hex_char d) = Some d"
  by (simp add: hex_digit_def hex_char_def Let_def)

lemma hex_digit_zero: "hex_digit (CHR ''0'') = Some 0"
  by (simp add: hex_digit_def)

lemma hex4_control:
  assumes "n < 32"
  shows "hex4 (CHR ''0'') (CHR ''0'') (hex_char (n div 16)) (hex_char (n mod 16)) = Some (char_of n)"
proof -
  have "n div 16 < 16" and "n mod 16 < 16" using assms by simp_all
  then show ?thesis using assms
    by (simp add: hex4_def hex_digit_char hex_digit_zero Let_def)
qed

lemma parse_short_escape:
  "simple_escape e = Some ch \<Longrightarrow>
   parse_str_body (CHR 0x5C # e # r) = map_option (\<lambda>(s, rest). (ch # s, rest)) (parse_str_body r)"
  by simp

lemma parse_hex_escape:
  "hex4 h1 h2 h3 h4 = Some ch \<Longrightarrow>
   parse_str_body (CHR 0x5C # CHR ''u'' # h1 # h2 # h3 # h4 # r) =
     map_option (\<lambda>(s, rest). (ch # s, rest)) (parse_str_body r)"
  by (subst parse_str_body.simps) (simp add: simple_escape_def del: parse_str_body.simps)

lemma short_escape_inverse: "short_escape c = Some e \<Longrightarrow> simple_escape e = Some c"
  by (auto simp: short_escape_def simple_escape_def split: if_splits)

lemma parse_plain_char:
  "\<lbrakk>short_escape c = None; \<not> (of_char c :: nat) < 32\<rbrakk> \<Longrightarrow>
   parse_str_body (c # r) = map_option (\<lambda>(s, rest). (c # s, rest)) (parse_str_body r)"
  by (subst parse_str_body.simps) (auto simp: short_escape_def simp del: parse_str_body.simps)

lemma parse_escaped_char:
  "parse_str_body (escape_char c @ t) = map_option (\<lambda>(s, r). (c # s, r)) (parse_str_body t)"
proof (cases "short_escape c")
  case (Some e)
  then show ?thesis
    using parse_short_escape [OF short_escape_inverse [OF Some]]
    by (simp add: escape_char_def del: parse_str_body.simps)
next
  case None
  show ?thesis
  proof (cases "(of_char c :: nat) < 32")
    case True
    then show ?thesis using None parse_hex_escape [OF hex4_control [OF True]]
      by (simp add: escape_char_def Let_def del: parse_str_body.simps)
  next
    case False
    then show ?thesis using None parse_plain_char
      by (simp add: escape_char_def Let_def del: parse_str_body.simps)
  qed
qed

lemma parse_quoted: "parse_str_body (concat (map escape_char s) @ CHR 0x22 # r) = Some (s, r)"
proof (induction s)
  case Nil
  then show ?case by simp
next
  case (Cons c s)
  then show ?case by (simp add: parse_escaped_char del: parse_str_body.simps)
qed

subsection \<open>Printed numbers\<close>

lemma char_digit_char_of: "d < 10 \<Longrightarrow> char_digit (char_of (d + 48)) = Some d"
  by (simp add: char_digit_def Let_def)

lemma digits_are_digits: "\<forall>d \<in> set ds. d < (10 :: nat) \<Longrightarrow> list_all is_digit_char (map (\<lambda>d. char_of (d + 48)) ds)"
  by (auto simp: list_all_iff is_digit_char_def char_digit_char_of)

lemma digits_value_map: "\<forall>d \<in> set ds. d < 10 \<Longrightarrow> digits_value (map (\<lambda>d. char_of (d + 48)) ds) = numeral_value ds"
proof -
  assume "\<forall>d \<in> set ds. d < 10"
  then have "List.map_filter char_digit (map (\<lambda>d. char_of (d + 48)) ds) = ds"
    by (induction ds) (simp_all add: map_filter_simps char_digit_char_of)
  then show ?thesis by (simp add: digits_value_def)
qed

lemma decimal_value [simp]: "digits_value (decimal n) = n"
  using decimal_digits_below by (simp add: decimal_def digits_value_map)

lemma decimal_digits: "list_all is_digit_char (decimal n)"
  using decimal_digits_below by (simp add: decimal_def digits_are_digits)

lemma decimal_not_Nil [simp]: "decimal n \<noteq> []"
  by (simp add: decimal_def)

lemma numeral_value_zeros: "numeral_value (replicate n 0 @ ds) = numeral_value ds"
  by (induction n) (simp_all add: numeral_value_def)

lemma pad_zeros_digits: "list_all is_digit_char (pad_zeros n (decimal m))"
  using decimal_digits [of m] by (auto simp: pad_zeros_def list_all_iff is_digit_char_def char_digit_def)

lemma char_zero: "CHR ''0'' = char_of (48 :: nat)"
  by code_simp

lemma digits_value_pad [simp]: "digits_value (pad_zeros n (decimal m)) = m"
proof -
  have "pad_zeros n (decimal m) = map (\<lambda>d. char_of (d + 48)) (replicate (n - length (decimal m)) 0 @ decimal_digits m)"
    using char_zero by (simp add: pad_zeros_def decimal_def)
  moreover have "\<forall>d \<in> set (replicate (n - length (decimal m)) 0 @ decimal_digits m). d < (10::nat)"
    using decimal_digits_below by auto
  ultimately show ?thesis using digits_value_map numeral_value_zeros by (metis numeral_value_decimal)
qed

lemma length_digits: "m < 10 ^ p \<Longrightarrow> 0 < p \<Longrightarrow> length (decimal_digits m) \<le> p"
proof (induction m arbitrary: p rule: decimal_induct)
  case (small m)
  then show ?case by (simp add: decimal_digits_small)
next
  case (large m)
  obtain k where p: "p = Suc k" using large.prems by (cases p) auto
  have k: "0 < k" using large p by (cases k) auto
  have "m < 10 ^ k * 10" using large.prems(1) p by simp
  then have "m div 10 < 10 ^ k" by (rule less_mult_imp_div_less)
  then have "length (decimal_digits (m div 10)) \<le> k" using large.IH k by blast
  then show ?case using large.hyps p by (simp add: decimal_digits_large)
qed

lemma length_pad: "m < 10 ^ p \<Longrightarrow> 0 < p \<Longrightarrow> length (pad_zeros p (decimal m)) = p"
proof -
  assume "m < 10 ^ p" and "0 < p"
  then have "length (decimal m) \<le> p" using length_digits unfolding decimal_def length_map by blast
  then show ?thesis unfolding pad_zeros_def length_append length_replicate by linarith
qed

text \<open>The rest of a text after a printed value: nothing, or a separator of JSON.\<close>

definition stops :: "string \<Rightarrow> bool" where
  "stops r \<longleftrightarrow> r = [] \<or> hd r \<in> {CHR '','', CHR '']'', CHR ''}''}"

lemma stops_no_digit: "stops r \<Longrightarrow> takeWhile is_digit_char r = [] \<and> dropWhile is_digit_char r = r"
  by (cases r) (auto simp: stops_def is_digit_char_def char_digit_def)

lemma stops_frac: "stops r \<Longrightarrow> parse_frac r = Some (0, r)"
  by (cases r) (auto simp: stops_def parse_frac_def)

lemma stops_exp: "stops r \<Longrightarrow> parse_exp r = Some (0, r)"
  by (cases r) (auto simp: stops_def parse_exp_def)

lemma span_digits_append:
  assumes "list_all is_digit_char ds" and "takeWhile is_digit_char r = []"
  shows "span_digits (ds @ r) = (ds, r)"
proof -
  have "dropWhile is_digit_char r = r" using assms(2) takeWhile_dropWhile_id by (metis append_Nil)
  then show ?thesis using assms by (auto simp: span_digits_def list_all_iff)
qed

lemma hd_digits_zero: "hd (decimal_digits n) = 0 \<longleftrightarrow> n = 0"
  by (induction n rule: decimal_induct) (simp_all add: decimal_digits_small decimal_digits_large div_eq_0_iff)

lemma hd_decimal: "is_digit_char (hd (decimal n))" "hd (decimal n) = CHR ''0'' \<longleftrightarrow> n = 0"
proof -
  show "is_digit_char (hd (decimal n))" using decimal_digits [of n] by (cases "decimal n") simp_all
  have "hd (decimal n) = char_of (hd (decimal_digits n) + 48)" by (simp add: decimal_def hd_map)
  moreover have "hd (decimal_digits n) < 10" using decimal_digits_below [of "hd (decimal_digits n)" n] by simp
  ultimately have "char_digit (hd (decimal n)) = Some (hd (decimal_digits n))" by (simp add: char_digit_char_of)
  moreover have "char_digit (CHR ''0'') = Some 0" by (simp add: char_digit_def)
  ultimately show "hd (decimal n) = CHR ''0'' \<longleftrightarrow> n = 0"
    using hd_digits_zero [of n] \<open>hd (decimal n) = char_of (hd (decimal_digits n) + 48)\<close> char_zero
    by (metis add_0 option.inject)
qed

lemma decimal_zero: "decimal 0 = ''0''"
  using char_zero by (simp add: decimal_def decimal_digits.simps [of 0])

text \<open>The parser's integer part, on a printed integer.\<close>

lemma parse_number_decimal:
  assumes r: "takeWhile is_digit_char r = []"
    and f: "parse_frac r = Some (f, r1)" and e: "parse_exp r1 = Some (0, r2)"
  shows "parse_number (decimal n @ r) = Some (of_nat n + f, r2)"
    and "parse_number (CHR ''-'' # decimal n @ r) = Some (- (of_nat n + f), r2)"
proof -
  obtain c cs where c: "decimal n = c # cs" by (cases "decimal n") auto
  have minus: "c \<noteq> CHR ''-''" using hd_decimal(1) [of n] c by (auto simp: is_digit_char_def char_digit_def)
  have val: "digits_value (c # cs) = n" using decimal_value [of n] c by simp
  have span: "span_digits (c # cs @ r) = (c # cs, r)"
    using span_digits_append [OF decimal_digits [of n] r] c by simp
  have zero: "cs = []" if "c = CHR ''0''" using that hd_decimal(2) [of n] c decimal_zero by simp
  show "parse_number (decimal n @ r) = Some (of_nat n + f, r2)"
    using c f e minus span zero val
    by (cases "c = CHR ''0''") (simp_all add: parse_number_def Let_def scale10_def)
  show "parse_number (CHR ''-'' # decimal n @ r) = Some (- (of_nat n + f), r2)"
    using c f e minus span zero val
    by (cases "c = CHR ''0''") (simp_all add: parse_number_def Let_def scale10_def)
qed

lemma parse_frac_pad:
  assumes "m < 10 ^ p" and "0 < p" and "stops r"
  shows "parse_frac (CHR ''.'' # pad_zeros p (decimal m) @ r) = Some (of_nat m / 10 ^ p, r)"
proof -
  have "span_digits (pad_zeros p (decimal m) @ r) = (pad_zeros p (decimal m), r)"
    using span_digits_append [OF pad_zeros_digits] stops_no_digit [OF assms(3)] by blast
  moreover have "pad_zeros p (decimal m) \<noteq> []" by (simp add: pad_zeros_def)
  ultimately show ?thesis using length_pad [OF assms(1,2)] by (simp add: parse_frac_def)
qed

lemma integer_nat: "is_integer x \<Longrightarrow> 0 \<le> x \<Longrightarrow> of_nat (nat \<lfloor>x\<rfloor>) = x"
  by (simp add: is_integer_def)

lemma parse_positive:
  assumes "is_integer (q * 10 ^ decimal_places q)" and "1 / 10 ^ 6 \<le> q" and "q < 10 ^ 21" and r: "stops r"
  shows "parse_number (positive_str q @ r) = Some (q, r)"
    and "parse_number (CHR ''-'' # positive_str q @ r) = Some (- q, r)"
proof -
  define p where "p = decimal_places q"
  define m where "m = nat \<lfloor>q * 10 ^ p\<rfloor>"
  have "0 \<le> q" using assms(2) order_trans [of 0 "1 / 10 ^ 6" q] by simp
  then have m: "of_nat m = q * 10 ^ p" using integer_nat assms(1) by (simp add: m_def p_def)
  have "parse_number (positive_str q @ r) = Some (q, r) \<and>
        parse_number (CHR ''-'' # positive_str q @ r) = Some (- q, r)"
  proof (cases "p = 0")
    case True
    then have "positive_str q = decimal m" and "of_nat m = q"
      using assms(3) m by (simp_all add: positive_str_def Let_def p_def [symmetric] m_def)
    then show ?thesis
      using parse_number_decimal [of r 0 r r m] stops_no_digit [OF r] stops_frac [OF r] stops_exp [OF r] by simp
  next
    case False
    define f where "f = CHR ''.'' # pad_zeros p (decimal (m mod 10 ^ p)) @ r"
    have str: "positive_str q @ r = decimal (m div 10 ^ p) @ f"
      using False assms(2,3) by (simp add: positive_str_def Let_def p_def [symmetric] m_def f_def)
    have "parse_frac f = Some (of_nat (m mod 10 ^ p) / 10 ^ p, r)"
      unfolding f_def using False r by (intro parse_frac_pad) simp_all
    moreover have "takeWhile is_digit_char f = []" by (simp add: f_def is_digit_char_def char_digit_def)
    moreover have "of_nat (m div 10 ^ p) + of_nat (m mod 10 ^ p) / 10 ^ p = q"
    proof -
      have "m = m div 10 ^ p * 10 ^ p + m mod 10 ^ p" by (rule div_mult_mod_eq [symmetric])
      then have "(of_nat m :: rat) = of_nat (m div 10 ^ p) * 10 ^ p + of_nat (m mod 10 ^ p)"
        by (metis of_nat_add of_nat_mult of_nat_numeral of_nat_power)
      then have "q * 10 ^ p = (of_nat (m div 10 ^ p) + of_nat (m mod 10 ^ p) / 10 ^ p) * 10 ^ p"
        using m by (simp add: field_simps)
      then show ?thesis by simp
    qed
    ultimately show ?thesis using parse_number_decimal [of f _ r r "m div 10 ^ p"] stops_exp [OF r] str by metis
  qed
  then show "parse_number (positive_str q @ r) = Some (q, r)"
    and "parse_number (CHR ''-'' # positive_str q @ r) = Some (- q, r)" by blast+
qed

lemma parse_number_str:
  assumes "plain_number q" and r: "stops r"
  shows "parse_number (number_str q @ r) = Some (q, r)"
proof -
  consider "q = 0" | "q < 0" | "0 < q" by linarith
  then show ?thesis
  proof cases
    case 1
    then show ?thesis
      using parse_number_decimal(1) [of r 0 r r 0] stops_no_digit [OF r] stops_frac [OF r] stops_exp [OF r]
      by (simp add: number_str_def decimal_zero)
  next
    case 2
    then show ?thesis using parse_positive(2) [of "- q" r] assms by (simp add: number_str_def plain_number_def)
  next
    case 3
    then show ?thesis using parse_positive(1) [of q r] assms by (simp add: number_str_def plain_number_def)
  qed
qed

subsection \<open>Printed values\<close>

text \<open>What a printed value starts with: neither white space nor a closing bracket.\<close>

definition value_start :: "char \<Rightarrow> bool" where
  "value_start c \<longleftrightarrow> \<not> json_ws c \<and> c \<noteq> CHR '']'' \<and> c \<noteq> CHR ''}''"

lemma positive_start: "1 / 10 ^ 6 \<le> q \<Longrightarrow> q < 10 ^ 21 \<Longrightarrow> \<exists>n t. positive_str q = decimal n @ t"
proof (cases "decimal_places q = 0")
  case True
  assume "q < 10 ^ 21"
  then have "positive_str q = decimal (nat \<lfloor>q\<rfloor>)" using True by (simp add: positive_str_def)
  then show ?thesis by (metis append_Nil2)
next
  case False
  assume "1 / 10 ^ 6 \<le> q" and "q < 10 ^ 21"
  then show ?thesis unfolding positive_str_def Let_def using False by (simp only: simp_thms if_True if_False) blast
qed

lemma number_start:
  assumes "plain_number q"
  obtains c cs where "number_str q = c # cs" and "is_digit_char c \<or> c = CHR ''-''"
proof -
  consider "q = 0" | "q < 0" | "0 < q" by linarith
  then have "\<exists>c cs. number_str q = c # cs \<and> (is_digit_char c \<or> c = CHR ''-'')"
  proof cases
    case 1
    then show ?thesis by (simp add: number_str_def is_digit_char_def char_digit_def)
  next
    case 2
    then show ?thesis by (simp add: number_str_def)
  next
    case 3
    then obtain n t where "number_str q = decimal n @ t"
      using assms positive_start [of q] by (auto simp: number_str_def plain_number_def)
    then show ?thesis using hd_decimal(1) [of n] by (cases "decimal n") auto
  qed
  then show thesis using that by blast
qed

lemma value_start_number: "is_digit_char c \<or> c = CHR ''-'' \<Longrightarrow> value_start c"
  by (auto simp: value_start_def json_ws_def is_digit_char_def char_digit_def)

lemma stringify_start:
  assumes "printable v"
  obtains c cs where "JSON_stringify v = c # cs" and "value_start c"
proof (cases v)
  case (JNum q)
  then show thesis using number_start [of q] value_start_number that assms by fastforce
next
  case (JBool b)
  then show thesis using that by (cases b) (simp_all add: value_start_def json_ws_def)
qed (use that in \<open>auto simp: value_start_def json_ws_def quote_def split: if_splits\<close>)

lemma stringify_not_Nil: "printable v \<Longrightarrow> JSON_stringify v \<noteq> []"
  by (erule stringify_start) simp

lemma skip_ws_start: "value_start c \<Longrightarrow> skip_ws (c # cs) = c # cs"
  by (simp add: skip_ws_def value_start_def)

lemma skip_ws_sep: "c \<in> {CHR '','', CHR '']'', CHR ''}'', CHR '':'', CHR 0x22} \<Longrightarrow> skip_ws (c # cs) = c # cs"
  by (auto simp: skip_ws_def json_ws_def)

lemma parse_value_number:
  assumes "plain_number q" and "stops r"
  shows "parse_value (number_str q @ r) = Some (JNum q, r)"
proof -
  obtain c cs where c: "number_str q = c # cs" and d: "is_digit_char c \<or> c = CHR ''-''"
    using number_start [OF assms(1)] .
  have "c \<notin> {CHR ''{'', CHR ''['', CHR 0x22, CHR ''t'', CHR ''f'', CHR ''n''}"
    using d by (auto simp: is_digit_char_def char_digit_def)
  moreover have "skip_ws (c # cs @ r) = c # cs @ r"
    using skip_ws_start [OF value_start_number [OF d]] .
  moreover have "parse_number (c # cs @ r) = Some (q, r)"
    using parse_number_str [OF assms] c by simp
  ultimately show ?thesis
    by (subst parse_value.simps) (simp add: c strip_prefix_def startsWith_def)
qed

definition reads_back :: "jsval \<Rightarrow> bool" where
  "reads_back v \<longleftrightarrow> (\<forall>r. stops r \<longrightarrow> parse_value (JSON_stringify v @ r) = Some (v, r))"

lemma stops_sep: "c \<in> {CHR '','', CHR '']'', CHR ''}''} \<Longrightarrow> stops (c # r)"
  by (simp add: stops_def)

lemma parse_elems_print:
  assumes "xs \<noteq> []" and "\<forall>v \<in> set xs. printable v \<and> reads_back v"
  shows "parse_elems (join '','' (map JSON_stringify xs) @ CHR '']'' # r) = Some (xs, r)"
  using assms
proof (induction xs rule: list_nonempty_induct)
  case (single v)
  then have "parse_value (JSON_stringify v @ CHR '']'' # r) = Some (v, CHR '']'' # r)"
    by (simp add: reads_back_def stops_sep)
  moreover have "JSON_stringify v \<noteq> []" using single by (simp add: stringify_not_Nil)
  ultimately show ?case
    by (subst parse_elems.simps) (simp add: skip_ws_sep)
next
  case (cons v xs)
  define t where "t = join '','' (map JSON_stringify xs) @ CHR '']'' # r"
  have s: "join '','' (map JSON_stringify (v # xs)) @ CHR '']'' # r = JSON_stringify v @ CHR '','' # t"
    using cons.hyps(1) by (cases xs) (simp_all add: t_def)
  have "parse_value (JSON_stringify v @ CHR '','' # t) = Some (v, CHR '','' # t)"
    using cons.prems by (simp add: reads_back_def stops_sep)
  moreover have "JSON_stringify v \<noteq> []" using cons.prems by (simp add: stringify_not_Nil)
  moreover have "parse_elems t = Some (xs, r)" using cons by (simp add: t_def)
  ultimately show ?case unfolding s
    by (subst parse_elems.simps) (simp add: skip_ws_sep)
qed

lemma parse_member_print:
  assumes "reads_back v" and "c \<in> {CHR '','', CHR ''}''}"
  shows "parse_members (member_str (k, v) @ c # t) =
    (if c = CHR ''}'' then Some ([(k, v)], t) else map_option (\<lambda>(ms, r'). ((k, v) # ms, r')) (parse_members t))"
proof -
  have "stops (c # t)" using assms(2) by (auto simp: stops_def)
  then have "parse_value (JSON_stringify v @ c # t) = Some (v, c # t)"
    using assms by (simp add: reads_back_def)
  moreover have "skip_ws (c # t) = c # t" using assms(2) by (auto simp: skip_ws_sep)
  ultimately show ?thesis using assms(2)
    by (subst parse_members.simps) (auto simp: quote_def skip_ws_sep parse_quoted)
qed

lemma parse_members_print:
  assumes "ps \<noteq> []" and "\<forall>p \<in> set ps. reads_back (snd p)"
  shows "parse_members (join '','' (map member_str ps) @ CHR ''}'' # r) = Some (ps, r)"
  using assms
proof (induction ps rule: list_nonempty_induct)
  case (single p)
  then show ?case using parse_member_print [of "snd p" "CHR ''}''" "fst p" r] by simp
next
  case (cons p ps)
  define t where "t = join '','' (map member_str ps) @ CHR ''}'' # r"
  have "join '','' (map member_str (p # ps)) @ CHR ''}'' # r = member_str (fst p, snd p) @ CHR '','' # t"
    using cons.hyps(1) by (cases ps) (simp_all add: t_def del: member_str.simps)
  then show ?case using parse_member_print [of "snd p" "CHR '',''" "fst p" t] cons by (simp add: t_def del: member_str.simps)
qed

lemma reads_back_array:
  assumes ok: "\<forall>v \<in> set xs. printable v \<and> reads_back v"
  shows "reads_back (JArr xs)"
  unfolding reads_back_def
proof (intro allI impI)
  fix r
  define body where "body = join '','' (map JSON_stringify xs) @ CHR '']'' # r"
  have "parse_value (CHR ''['' # body) = Some (JArr xs, r)"
  proof (cases xs)
    case Nil
    then show ?thesis by (simp add: body_def parse_value.simps [of "CHR ''['' # _"] skip_ws_def json_ws_def)
  next
    case (Cons v vs)
    obtain c cs where c: "JSON_stringify v = c # cs" and start: "value_start c"
      using ok Cons stringify_start [of v] by (metis list.set_intros(1))
    have "\<exists>t. body = c # t" using Cons c by (cases vs) (simp_all add: body_def)
    then obtain t where t: "body = c # t" by blast
    have "parse_elems body = Some (xs, r)" using parse_elems_print [OF _ ok] Cons by (simp add: body_def)
    moreover have "skip_ws body = body" using skip_ws_start [OF start] t by simp
    moreover have "c \<noteq> CHR '']''" using start by (simp add: value_start_def)
    ultimately show ?thesis using t by (subst parse_value.simps) (simp add: skip_ws_def json_ws_def)
  qed
  then show "parse_value (JSON_stringify (JArr xs) @ r) = Some (JArr xs, r)" by (simp add: body_def)
qed

lemma reads_back_object:
  assumes ok: "\<forall>p \<in> set ps. reads_back (snd p)" and o: "obj_of_pairs ps = ps"
  shows "reads_back (JObj ps)"
  unfolding reads_back_def
proof (intro allI impI)
  fix r
  define body where "body = join '','' (map member_str ps) @ CHR ''}'' # r"
  have "parse_value (CHR ''{'' # body) = Some (JObj ps, r)"
  proof (cases ps)
    case Nil
    then show ?thesis by (simp add: body_def parse_value.simps [of "CHR ''{'' # _"] skip_ws_def json_ws_def)
  next
    case (Cons p qs)
    have "\<exists>t. body = CHR 0x22 # t" using Cons by (cases p; cases qs) (simp_all add: body_def quote_def)
    then obtain t where t: "body = CHR 0x22 # t" by blast
    have "parse_members body = Some (ps, r)" using parse_members_print [OF _ ok] Cons by (simp add: body_def)
    moreover have "skip_ws body = body" using t by (simp add: skip_ws_sep)
    ultimately show ?thesis using t o by (subst parse_value.simps) (simp add: skip_ws_def json_ws_def)
  qed
  then show "parse_value (JSON_stringify (JObj ps) @ r) = Some (JObj ps, r)" by (simp add: body_def)
qed

lemma printed_reads_back:
  "printable v \<Longrightarrow> reads_back v"
  "printable_member p \<Longrightarrow> reads_back (snd p)"
proof (induction v and p rule: JSON_stringify_member_str.induct)
  case (1)
  then show ?case by (simp add: reads_back_def parse_value.simps skip_ws_def json_ws_def strip_prefix_def startsWith_def)
next
  case (2 b)
  then show ?case
    by (cases b) (simp_all add: reads_back_def parse_value.simps skip_ws_def json_ws_def strip_prefix_def startsWith_def)
next
  case (4 s)
  show ?case unfolding reads_back_def
    by (simp add: quote_def parse_quoted parse_value.simps [of "CHR 0x22 # _"] skip_ws_sep)
next
  case (3 q)
  then show ?case by (simp add: reads_back_def parse_value_number)
next
  case (5 xs)
  then show ?case by (intro reads_back_array) (simp add: list_all_iff)
next
  case (6 ps)
  then show ?case by (intro reads_back_object) (auto simp: list_all_iff)
qed simp

theorem JSON_roundtrip: "printable v \<Longrightarrow> JSON_parse (JSON_stringify v) = Some v"
  using printed_reads_back(1) [of v] by (auto simp: reads_back_def stops_def JSON_parse_def skip_ws_def dest: spec [of _ "[]"])

subsection \<open>Which values are printable\<close>

lemma decimal_places_integer: "is_integer q \<Longrightarrow> decimal_places q = 0"
  by (simp add: decimal_places_def numeral_eq_Suc)

lemma plain_number_int: "\<bar>i\<bar> < 10 ^ 21 \<Longrightarrow> plain_number (of_int i)"
proof -
  assume "\<bar>i\<bar> < 10 ^ 21"
  then have lt: "\<bar>of_int i\<bar> < (10 ^ 21 :: rat)" by (metis of_int_abs of_int_less_iff of_int_numeral of_int_power)
  have "is_integer \<bar>of_int i\<bar>" by (simp add: is_integer_def flip: of_int_abs)
  moreover have "i \<noteq> 0 \<Longrightarrow> (1 :: rat) \<le> \<bar>of_int i\<bar>" by (simp flip: of_int_abs)
  ultimately show ?thesis using lt by (auto simp: plain_number_def decimal_places_integer)
qed

lemma number_str_nat: "n < 10 ^ 21 \<Longrightarrow> number_str (of_nat n) = decimal n"
proof -
  assume "n < 10 ^ 21"
  then have "(of_nat n :: rat) < 10 ^ 21" by (metis of_nat_less_iff of_nat_numeral of_nat_power)
  moreover have "is_integer (of_nat n)" by (simp add: is_integer_def)
  ultimately show ?thesis
    by (cases "n = 0") (simp_all add: number_str_def decimal_zero positive_str_def decimal_places_integer)
qed

lemma update_all_distinct:
  "distinct (map fst (ms @ ps)) \<Longrightarrow> foldl (\<lambda>m (k, v). AList.update k v m) ms ps = ms @ ps"
proof (induction ps arbitrary: ms)
  case (Cons p ps)
  obtain k v where p: "p = (k, v)" by (cases p)
  have "k \<notin> fst ` set ms" using Cons.prems p by auto
  then have "AList.update k v ms = ms @ [(k, v)]" by (induction ms) auto
  then show ?case using Cons.IH [of "ms @ [p]"] Cons.prems p by simp
qed simp

text \<open>Objects with distinct keys, none of them an array index, are in enumeration order.\<close>

lemma obj_of_pairs_id:
  assumes "distinct (map fst ps)" and "list_all (\<lambda>p. \<not> is_array_index (fst p)) ps"
  shows "obj_of_pairs ps = ps"
proof -
  have "foldl (\<lambda>m (k, v). AList.update k v m) [] ps = ps" using update_all_distinct [of "[]" ps] assms(1) by simp
  moreover have "filter (\<lambda>(k, v). is_array_index k) ps = []" and "filter (\<lambda>(k, v). \<not> is_array_index k) ps = ps"
    using assms(2) by (auto simp: list_all_iff filter_empty_conv filter_id_conv)
  ultimately show ?thesis by (simp add: obj_of_pairs_def)
qed

lemma length_join: "length (join sep xs) = sum_list (map length xs) + length sep * (length xs - 1)"
  by (induction sep xs rule: join.induct) simp_all

lemma length_quote: "length s + 2 \<le> length (quote s)"
proof -
  have "length s \<le> length (concat (map escape_char s))"
  proof (induction s)
    case (Cons c s)
    have "1 \<le> length (escape_char c)" by (auto simp: escape_char_def Let_def split: option.splits)
    then show ?case using Cons by simp
  qed simp
  then show ?thesis by (simp add: quote_def)
qed

end
