(* ===== verification/Storage.thy ===== *)
theory Storage
  imports Streaming JsonPrint "HOL-Library.Monad_Syntax" "HOL-Library.Sublist"
begin

text \<open>
  What the playground keeps in the browser: \<open>lib/storage/{storage-schema,storage}.ts\<close>,
  \<open>lib/state/playground-state-utils.ts\<close> and the hook \<open>hooks/use-playground-state.ts\<close>.

  The browser's \<open>localStorage\<close> is a map from keys to texts.  Whether it accepts a write is a parameter
  \<open>quota\<close> of the contents after the write: where it refuses, \<open>setItem\<close> throws and the contents stay.  A schema of the
  package \<open>zod\<close> is the function the schema in the source describes: it checks the types of the listed
  properties, drops the others and fails otherwise.  The times of a message are integers, as every writer of
  this program makes them; a stored fraction is refused here.

  Array and object identity (\<open>!==\<close> between references) is modelled where the code branches on it, by a flag.
\<close>

named_theorems storage_codec \<open>encoding and decoding of the stored values\<close>

subsection \<open>Schemas, storage-schema.ts\<close>

definition STORAGE_VERSION :: nat where "STORAGE_VERSION = 1"
definition MAX_STORED_MESSAGES :: nat where "MAX_STORED_MESSAGES = 100"
definition MAX_STORED_MESSAGES_BYTES :: nat where "MAX_STORED_MESSAGES_BYTES = 1024 * 1024"
definition MAX_LOADED_MESSAGES_CHARS :: nat where "MAX_LOADED_MESSAGES_CHARS = 120000"
definition MAX_LOADED_MESSAGE_CHARS :: nat where "MAX_LOADED_MESSAGE_CHARS = 40000"

fun z_string :: "jsval \<Rightarrow> string option" where
  "z_string (JStr s) = Some s"
| "z_string _ = None"

fun z_bool :: "jsval \<Rightarrow> bool option" where
  "z_bool (JBool b) = Some b"
| "z_bool _ = None"

fun z_number :: "jsval \<Rightarrow> rat option" where
  "z_number (JNum q) = Some q"
| "z_number _ = None"

definition z_int :: "jsval \<Rightarrow> int option" where
  "z_int v = (case v of JNum q \<Rightarrow> if is_integer q then Some \<lfloor>q\<rfloor> else None | _ \<Rightarrow> None)"

definition z_positive :: "jsval \<Rightarrow> nat option" where
  "z_positive v = (case z_int v of Some i \<Rightarrow> if 0 < i then Some (nat i) else None | None \<Rightarrow> None)"

definition z_array :: "(jsval \<Rightarrow> 'a option) \<Rightarrow> jsval \<Rightarrow> 'a list option" where
  "z_array dec v =
     (case v of JArr xs \<Rightarrow> those (map dec xs) | _ \<Rightarrow> None)"

text \<open>A property of an object schema: required, \<open>.optional()\<close>, and \<open>.nullable().optional()\<close>.\<close>

definition required :: "(jsval \<Rightarrow> 'a option) \<Rightarrow> (string \<times> jsval) list \<Rightarrow> string \<Rightarrow> 'a option" where
  "required dec ps k = (case map_of ps k of None \<Rightarrow> None | Some v \<Rightarrow> dec v)"

definition optional :: "(jsval \<Rightarrow> 'a option) \<Rightarrow> (string \<times> jsval) list \<Rightarrow> string \<Rightarrow> 'a option option" where
  "optional dec ps k = (case map_of ps k of None \<Rightarrow> Some None | Some v \<Rightarrow> map_option Some (dec v))"

definition nullable_optional :: "(jsval \<Rightarrow> 'a option) \<Rightarrow> (string \<times> jsval) list \<Rightarrow> string \<Rightarrow> 'a nullish option" where
  "nullable_optional dec ps k =
     (case map_of ps k of None \<Rightarrow> Some Undefined | Some JNull \<Rightarrow> Some Null | Some v \<Rightarrow> map_option Value (dec v))"

definition messageRoleSchema :: "jsval \<Rightarrow> MessageRole option" where
  "messageRoleSchema v =
     (case v of JStr s \<Rightarrow> map_of [(''user'', USER), (''assistant'', ASSISTANT), (''system'', SYSTEM)] s | _ \<Rightarrow> None)"

definition messageStatusSchema :: "jsval \<Rightarrow> MessageStatus option" where
  "messageStatusSchema v =
     (case v of
        JStr s \<Rightarrow> map_of [(''loading'', LOADING), (''streaming'', STREAMING), (''complete'', COMPLETE), (''error'', ERROR)] s
      | _ \<Rightarrow> None)"

definition messageVersionSchema :: "jsval \<Rightarrow> MessageVersion option" where
  "messageVersionSchema v = do {
     ps \<leftarrow> plain_object v;
     vid \<leftarrow> required z_string ps ''id'';
     content \<leftarrow> required z_string ps ''content'';
     Some \<lparr>v_id = vid, v_content = content\<rparr> }"

definition sourceSchema :: "jsval \<Rightarrow> (string \<times> string) option" where
  "sourceSchema v = do {
     ps \<leftarrow> plain_object v;
     href \<leftarrow> required z_string ps ''href'';
     title \<leftarrow> required z_string ps ''title'';
     Some (href, title) }"

definition reasoningSchema :: "jsval \<Rightarrow> Reasoning option" where
  "reasoningSchema v = do {
     ps \<leftarrow> plain_object v;
     content \<leftarrow> required z_string ps ''content'';
     duration \<leftarrow> required z_int ps ''duration'';
     startedAt \<leftarrow> optional z_int ps ''startedAt'';
     completedAt \<leftarrow> optional z_int ps ''completedAt'';
     durationMs \<leftarrow> optional z_int ps ''durationMs'';
     Some \<lparr>r_content = content, r_duration = duration, r_startedAt = startedAt, r_completedAt = completedAt,
       r_durationMs = durationMs\<rparr> }"

definition versionsSchema :: "jsval \<Rightarrow> MessageVersion list option" where
  "versionsSchema v = do {
     vs \<leftarrow> z_array messageVersionSchema v;
     if vs = [] then None else Some vs }"

definition messageSchema :: "jsval \<Rightarrow> Message option" where
  "messageSchema v = do {
     ps \<leftarrow> plain_object v;
     key \<leftarrow> required z_string ps ''key'';
     from \<leftarrow> required messageRoleSchema ps ''from'';
     versions \<leftarrow> required versionsSchema ps ''versions'';
     createdAt \<leftarrow> optional z_int ps ''createdAt'';
     startedAt \<leftarrow> optional z_int ps ''startedAt'';
     completedAt \<leftarrow> optional z_int ps ''completedAt'';
     durationMs \<leftarrow> optional z_int ps ''durationMs'';
     sources \<leftarrow> optional (z_array sourceSchema) ps ''sources'';
     reasoning \<leftarrow> optional reasoningSchema ps ''reasoning'';
     reasoningStreaming \<leftarrow> optional z_bool ps ''isReasoningStreaming'';
     reasoningComplete \<leftarrow> optional z_bool ps ''isReasoningComplete'';
     contentComplete \<leftarrow> optional z_bool ps ''isContentComplete'';
     status \<leftarrow> optional messageStatusSchema ps ''status'';
     errorCode \<leftarrow> nullable_optional z_string ps ''errorCode'';
     Some \<lparr>m_key = key, m_from = from, m_versions = versions, m_createdAt = createdAt, m_startedAt = startedAt,
       m_completedAt = completedAt, m_durationMs = durationMs, m_sources = sources, m_reasoning = reasoning,
       m_isReasoningStreaming = reasoningStreaming, m_isReasoningComplete = reasoningComplete,
       m_isContentComplete = contentComplete, m_status = status, m_errorCode = errorCode, m_attachments = None\<rparr> }"

definition messagesSchema :: "jsval \<Rightarrow> Message list option" where
  "messagesSchema = z_array messageSchema"

text \<open>A partial configuration, and the partial record of enabled parameters.\<close>

record StoredConfig =
  s_model :: "string option"
  s_selectedTokenId :: "nat nullish"
  s_temperature :: "rat option"
  s_top_p :: "rat option"
  s_max_tokens :: "rat option"
  s_frequency_penalty :: "rat option"
  s_presence_penalty :: "rat option"
  s_seed :: "rat nullish"
  s_stream :: "bool option"

record StoredEnabled =
  e_temperature :: "bool option"
  e_top_p :: "bool option"
  e_max_tokens :: "bool option"
  e_frequency_penalty :: "bool option"
  e_presence_penalty :: "bool option"
  e_seed :: "bool option"

definition playgroundConfigSchema :: "jsval \<Rightarrow> StoredConfig option" where
  "playgroundConfigSchema v = do {
     ps \<leftarrow> plain_object v;
     model \<leftarrow> optional z_string ps ''model'';
     selectedTokenId \<leftarrow> nullable_optional z_positive ps ''selectedTokenId'';
     temperature \<leftarrow> optional z_number ps ''temperature'';
     top_p \<leftarrow> optional z_number ps ''top_p'';
     max_tokens \<leftarrow> optional z_number ps ''max_tokens'';
     frequency_penalty \<leftarrow> optional z_number ps ''frequency_penalty'';
     presence_penalty \<leftarrow> optional z_number ps ''presence_penalty'';
     seed \<leftarrow> nullable_optional z_number ps ''seed'';
     stream \<leftarrow> optional z_bool ps ''stream'';
     Some \<lparr>s_model = model, s_selectedTokenId = selectedTokenId, s_temperature = temperature, s_top_p = top_p,
       s_max_tokens = max_tokens, s_frequency_penalty = frequency_penalty, s_presence_penalty = presence_penalty,
       s_seed = seed, s_stream = stream\<rparr> }"

definition parameterEnabledSchema :: "jsval \<Rightarrow> StoredEnabled option" where
  "parameterEnabledSchema v = do {
     ps \<leftarrow> plain_object v;
     temperature \<leftarrow> optional z_bool ps ''temperature'';
     top_p \<leftarrow> optional z_bool ps ''top_p'';
     max_tokens \<leftarrow> optional z_bool ps ''max_tokens'';
     frequency_penalty \<leftarrow> optional z_bool ps ''frequency_penalty'';
     presence_penalty \<leftarrow> optional z_bool ps ''presence_penalty'';
     seed \<leftarrow> optional z_bool ps ''seed'';
     Some \<lparr>e_temperature = temperature, e_top_p = top_p, e_max_tokens = max_tokens,
       e_frequency_penalty = frequency_penalty, e_presence_penalty = presence_penalty, e_seed = seed\<rparr> }"

subsection \<open>Encoding\<close>

text \<open>The values \<open>JSON.stringify\<close> is given: what the schemas return, properties in the order of the schema,
  undefined ones left out.\<close>

definition members :: "(string \<times> jsval option) list \<Rightarrow> (string \<times> jsval) list" where
  "members fs = List.map_filter (\<lambda>(k, x). map_option (Pair k) x) fs"

definition nullish_json :: "('a \<Rightarrow> jsval) \<Rightarrow> 'a nullish \<Rightarrow> jsval option" where
  "nullish_json enc x = (case x of Undefined \<Rightarrow> None | Null \<Rightarrow> Some JNull | Value v \<Rightarrow> Some (enc v))"

definition j_int :: "int \<Rightarrow> jsval" where "j_int i = JNum (of_int i)"

fun role_str :: "MessageRole \<Rightarrow> string" where
  "role_str USER = ''user''"
| "role_str ASSISTANT = ''assistant''"
| "role_str SYSTEM = ''system''"

fun status_str :: "MessageStatus \<Rightarrow> string" where
  "status_str LOADING = ''loading''"
| "status_str STREAMING = ''streaming''"
| "status_str COMPLETE = ''complete''"
| "status_str ERROR = ''error''"

definition version_json :: "MessageVersion \<Rightarrow> jsval" where
  "version_json v = JObj [(''id'', JStr (v_id v)), (''content'', JStr (v_content v))]"

definition source_json :: "string \<times> string \<Rightarrow> jsval" where
  "source_json s = JObj [(''href'', JStr (fst s)), (''title'', JStr (snd s))]"

definition reasoning_json :: "Reasoning \<Rightarrow> jsval" where
  "reasoning_json r = JObj (members
     [(''content'', Some (JStr (r_content r))),
      (''duration'', Some (j_int (r_duration r))),
      (''startedAt'', map_option j_int (r_startedAt r)),
      (''completedAt'', map_option j_int (r_completedAt r)),
      (''durationMs'', map_option j_int (r_durationMs r))])"

definition message_json :: "Message \<Rightarrow> jsval" where
  "message_json m = JObj (members
     [(''key'', Some (JStr (m_key m))),
      (''from'', Some (JStr (role_str (m_from m)))),
      (''versions'', Some (JArr (map version_json (m_versions m)))),
      (''createdAt'', map_option j_int (m_createdAt m)),
      (''startedAt'', map_option j_int (m_startedAt m)),
      (''completedAt'', map_option j_int (m_completedAt m)),
      (''durationMs'', map_option j_int (m_durationMs m)),
      (''sources'', map_option (\<lambda>ss. JArr (map source_json ss)) (m_sources m)),
      (''reasoning'', map_option reasoning_json (m_reasoning m)),
      (''isReasoningStreaming'', map_option JBool (m_isReasoningStreaming m)),
      (''isReasoningComplete'', map_option JBool (m_isReasoningComplete m)),
      (''isContentComplete'', map_option JBool (m_isContentComplete m)),
      (''status'', map_option (\<lambda>s. JStr (status_str s)) (m_status m)),
      (''errorCode'', nullish_json JStr (m_errorCode m))])"

definition config_json :: "StoredConfig \<Rightarrow> jsval" where
  "config_json c = JObj (members
     [(''model'', map_option JStr (s_model c)),
      (''selectedTokenId'', nullish_json (\<lambda>n. j_int (int n)) (s_selectedTokenId c)),
      (''temperature'', map_option JNum (s_temperature c)),
      (''top_p'', map_option JNum (s_top_p c)),
      (''max_tokens'', map_option JNum (s_max_tokens c)),
      (''frequency_penalty'', map_option JNum (s_frequency_penalty c)),
      (''presence_penalty'', map_option JNum (s_presence_penalty c)),
      (''seed'', nullish_json JNum (s_seed c)),
      (''stream'', map_option JBool (s_stream c))])"

definition enabled_json :: "StoredEnabled \<Rightarrow> jsval" where
  "enabled_json e = JObj (members
     [(''temperature'', map_option JBool (e_temperature e)),
      (''top_p'', map_option JBool (e_top_p e)),
      (''max_tokens'', map_option JBool (e_max_tokens e)),
      (''frequency_penalty'', map_option JBool (e_frequency_penalty e)),
      (''presence_penalty'', map_option JBool (e_presence_penalty e)),
      (''seed'', map_option JBool (e_seed e))])"

subsection \<open>The browser's storage\<close>

type_synonym local_storage = "string \<rightharpoonup> string"

text \<open>\<open>setItem\<close> throws when the quota is exceeded.\<close>

definition setItem :: "(local_storage \<Rightarrow> bool) \<Rightarrow> string \<Rightarrow> string \<Rightarrow> local_storage \<Rightarrow> local_storage option" where
  "setItem quota k v st = (if quota (st(k \<mapsto> v)) then Some (st(k \<mapsto> v)) else None)"

definition removeItem :: "string \<Rightarrow> local_storage \<Rightarrow> local_storage" where
  "removeItem k st = st(k := None)"

definition KEY_CONFIG :: string where "KEY_CONFIG = ''playground_config''"
definition KEY_MESSAGES :: string where "KEY_MESSAGES = ''playground_messages''"
definition KEY_PARAMETER_ENABLED :: string where "KEY_PARAMETER_ENABLED = ''playground_parameter_enabled''"

subsection \<open>Reading and writing texts, storage.ts\<close>

text \<open>The value read, \<^const>\<open>Inl\<close> where \<open>JSON.parse\<close> throws; null is \<^const>\<open>JNull\<close>.\<close>

definition parse_saved :: "string \<Rightarrow> js_error + jsval" where
  "parse_saved saved = (case JSON_parse saved of None \<Rightarrow> Inl SyntaxError | Some v \<Rightarrow> Inr v)"

definition readStoredValue :: "string \<Rightarrow> local_storage \<Rightarrow> js_error + jsval" where
  "readStoredValue k st =
     (case st k of
        None \<Rightarrow> Inr JNull
      | Some saved \<Rightarrow> if saved = [] then Inr JNull else parse_saved saved)"

definition readStoredMessagesValue :: "local_storage \<Rightarrow> (js_error + jsval) \<times> local_storage" where
  "readStoredMessagesValue st =
     (case st KEY_MESSAGES of
        None \<Rightarrow> (Inr JNull, st)
      | Some saved \<Rightarrow>
          if saved = [] then (Inr JNull, st)
          else if length saved > MAX_STORED_MESSAGES_BYTES then (Inr JNull, removeItem KEY_MESSAGES st)
          else (parse_saved saved, st))"

definition unwrapStoredValue :: "jsval \<Rightarrow> jsval" where
  "unwrapStoredValue value =
     (case value of
        JObj ps \<Rightarrow>
          (case (map_of ps ''version'', map_of ps ''data'') of
             (Some _, Some data) \<Rightarrow> data
           | _ \<Rightarrow> value)
      | _ \<Rightarrow> value)"

definition envelope_text :: "jsval \<Rightarrow> string" where
  "envelope_text data = JSON_stringify (JObj [(''version'', j_int (int STORAGE_VERSION)), (''data'', data)])"

definition writeStoredValue ::
  "(local_storage \<Rightarrow> bool) \<Rightarrow> string \<Rightarrow> jsval \<Rightarrow> local_storage \<Rightarrow> local_storage option" where
  "writeStoredValue quota k data st = setItem quota k (envelope_text data) st"

text \<open>The handlers catch what is thrown and log it: the storage stays as it was.\<close>

definition caught :: "local_storage option \<Rightarrow> local_storage \<Rightarrow> local_storage" where
  "caught r st = (case r of None \<Rightarrow> st | Some st' \<Rightarrow> st')"

subsection \<open>Bounding what is kept, storage.ts\<close>

text \<open>The flag says whether the very array given is returned.\<close>

definition trimMessages :: "Message list \<Rightarrow> bool \<times> Message list" where
  "trimMessages messages =
     (if length messages \<le> MAX_STORED_MESSAGES then (True, messages)
      else (False, drop (length messages - MAX_STORED_MESSAGES) messages))"

definition getMessageSize :: "Message \<Rightarrow> nat" where
  "getMessageSize m =
     (let versionsSize = foldl (\<lambda>total v. total + length (v_content v)) 0 (m_versions m);
          reasoningSize = (case m_reasoning m of None \<Rightarrow> 0 | Some r \<Rightarrow> length (r_content r)) in
      versionsSize + reasoningSize)"

definition TRUNCATED_CONTENT_SUFFIX :: string where
  "TRUNCATED_CONTENT_SUFFIX = [CHR 0x0A, CHR 0x0A] @ ''[...]''"

definition truncateText :: "string \<Rightarrow> nat \<Rightarrow> string" where
  "truncateText text maxLength =
     (if length text \<le> maxLength then text
      else if maxLength \<le> length TRUNCATED_CONTENT_SUFFIX then take maxLength text
      else take (maxLength - length TRUNCATED_CONTENT_SUFFIX) text @ TRUNCATED_CONTENT_SUFFIX)"

definition MIN_PREFIX_COLLAPSE_LENGTH :: nat where "MIN_PREFIX_COLLAPSE_LENGTH = 2000"
definition MIN_REPEATED_SECTION_COUNT :: nat where "MIN_REPEATED_SECTION_COUNT = 3"

text \<open>The pattern of a numbered heading, \<open>^#{2,6}\s+\d+\.\s+.+$\<close>: the length of its match at the start of
  a line.  White space matches line breaks as well; the last white-space run gives characters back until one that is
  not a line break follows.\<close>

definition line_break :: "char \<Rightarrow> bool" where
  "line_break c \<longleftrightarrow> c = CHR 0x0A \<or> c = CHR 0x0D"

fun give_back :: "string \<Rightarrow> nat \<Rightarrow> nat option" where
  "give_back s 0 = None"
| "give_back s (Suc n) =
     (if Suc n < length s \<and> \<not> line_break (s ! Suc n) then Some (Suc n) else give_back s n)"

definition heading_match :: "string \<Rightarrow> nat option" where
  "heading_match s =
     (let hashes = takeWhile (\<lambda>c. c = CHR ''#'') s;
          s1 = drop (length hashes) s;
          ws = takeWhile is_ws s1;
          s2 = drop (length ws) s1;
          ds = takeWhile is_digit_char s2;
          s3 = drop (length ds) s2 in
      if 2 \<le> length hashes \<and> length hashes \<le> 6 \<and> ws \<noteq> [] \<and> ds \<noteq> [] then
        (case s3 of
           dot # s4 \<Rightarrow>
             if dot = CHR ''.'' then
               (case give_back s4 (length (takeWhile is_ws s4)) of
                  Some w \<Rightarrow>
                    Some (length hashes + length ws + length ds + 1 + w
                          + length (takeWhile (\<lambda>c. \<not> line_break c) (drop w s4)))
                | None \<Rightarrow> None)
             else None
         | [] \<Rightarrow> None)
      else None)"

record SectionOccurrence =
  oc_heading :: string
  oc_index :: nat

text \<open>\<open>matchAll\<close>: the text is searched from a position on; \<open>bol\<close> says whether a line starts there.\<close>

function section_scan :: "bool \<Rightarrow> nat \<Rightarrow> string \<Rightarrow> SectionOccurrence list" where
  "section_scan bol index s =
     (case s of
        [] \<Rightarrow> []
      | c # cs \<Rightarrow>
          (case (if bol then heading_match s else None) of
             Some n \<Rightarrow>
               \<lparr>oc_heading = take n s, oc_index = index\<rparr>
               # section_scan False (index + n) (if n = 0 then cs else drop n s)
           | None \<Rightarrow> section_scan (line_break c) (index + 1) cs))"
  by pat_completeness auto
termination by (relation "measure (\<lambda>(bol, index, s). length s)") auto

declare section_scan.simps [simp del]

definition getSectionOccurrences :: "string \<Rightarrow> SectionOccurrence list" where
  "getSectionOccurrences text = section_scan True 0 text"

definition getHeadingCounts :: "SectionOccurrence list \<Rightarrow> (string \<times> nat) list" where
  "getHeadingCounts occurrences =
     foldl (\<lambda>counts oc. AList.update (oc_heading oc) (opt_or (map_of counts (oc_heading oc)) 0 + 1) counts)
       [] occurrences"

text \<open>The backward loop: the occurrences still to visit, last one first.\<close>

fun last_repeated :: "(string \<times> nat) list \<Rightarrow> string list \<Rightarrow> SectionOccurrence list \<Rightarrow> nat list" where
  "last_repeated counts seen [] = []"
| "last_repeated counts seen (oc # ocs) =
     (if opt_or (map_of counts (oc_heading oc)) 0 < MIN_REPEATED_SECTION_COUNT \<or> oc_heading oc \<in> set seen
      then last_repeated counts seen ocs
      else oc_index oc # last_repeated counts (oc_heading oc # seen) ocs)"

definition findLastRepeatedSectionRunStart :: "string \<Rightarrow> nat option" where
  "findLastRepeatedSectionRunStart text =
     (let occurrences = getSectionOccurrences text;
          indexes = last_repeated (getHeadingCounts occurrences) [] (rev occurrences) in
      if indexes = [] then None else Some (Min (set indexes)))"

definition collapseRepeatedSectionSnapshots :: "string \<Rightarrow> string" where
  "collapseRepeatedSectionSnapshots text =
     (if length text < MIN_PREFIX_COLLAPSE_LENGTH then text
      else (case findLastRepeatedSectionRunStart text of
              None \<Rightarrow> text
            | Some start \<Rightarrow> drop start text))"

text \<open>One version, with the flag whether it changed.\<close>

definition normalize_version :: "MessageVersion \<Rightarrow> bool \<times> MessageVersion" where
  "normalize_version version =
     (let collapsed = collapseRepeatedSectionSnapshots (v_content version);
          content = truncateText collapsed MAX_LOADED_MESSAGE_CHARS in
      if content = v_content version \<and> collapsed = v_content version then (False, version)
      else (True, version\<lparr>v_content := content\<rparr>))"

text \<open>The message with bounded contents; the flag says whether the very object given is returned.\<close>

definition normalize_contents :: "Message \<Rightarrow> bool \<times> Message" where
  "normalize_contents m =
     (let vs = map normalize_version (m_versions m);
          reasoning = map_option (\<lambda>r. r\<lparr>r_content := truncateText (r_content r) MAX_LOADED_MESSAGE_CHARS\<rparr>)
            (m_reasoning m);
          changed = list_ex fst vs \<or> map_option r_content reasoning \<noteq> map_option r_content (m_reasoning m) in
      if changed then (False, m\<lparr>m_versions := map snd vs, m_reasoning := reasoning\<rparr>) else (True, m))"

definition normalizeStoredMessageForLoad :: "int \<Rightarrow> Message \<Rightarrow> bool \<times> Message" where
  "normalizeStoredMessageForLoad now m =
     (let (same, normalized) = normalize_contents m;
          hasReasoning = (case m_reasoning normalized of None \<Rightarrow> False | Some r \<Rightarrow> trim (r_content r) \<noteq> []) in
      if \<not> isAssistantMessagePending normalized then (same, normalized)
      else if \<not> hasMessageContent normalized \<and> \<not> hasReasoning then (same, normalized)
      else
        (let completedAt =
               opt_or (opt_else (m_completedAt normalized)
                 (opt_else (case m_reasoning normalized of None \<Rightarrow> None | Some r \<Rightarrow> r_completedAt r)
                   (opt_else (m_startedAt normalized) (m_createdAt normalized)))) now in
         (False, completeAssistantTiming completedAt
            ((finalizeMessage now normalized None)
               \<lparr>m_status := Some COMPLETE, m_isReasoningStreaming := Some False\<rparr>))))"

text \<open>The backward loop over the messages, last one first, with the total and the number kept so far.\<close>

fun take_within :: "nat \<Rightarrow> Message list \<Rightarrow> Message list \<Rightarrow> Message list" where
  "take_within totalSize result [] = result"
| "take_within totalSize result (m # ms) =
     (if result \<noteq> [] \<and> totalSize + getMessageSize m > MAX_LOADED_MESSAGES_CHARS then result
      else take_within (totalSize + getMessageSize m) (result @ [m]) ms)"

definition trimMessagesByContentSize :: "Message list \<Rightarrow> Message list" where
  "trimMessagesByContentSize messages = rev (take_within 0 [] (rev messages))"

subsection \<open>Loading and saving, storage.ts\<close>

definition empty_config :: StoredConfig where
  "empty_config = \<lparr>s_model = None, s_selectedTokenId = Undefined, s_temperature = None, s_top_p = None,
     s_max_tokens = None, s_frequency_penalty = None, s_presence_penalty = None, s_seed = Undefined, s_stream = None\<rparr>"

definition empty_enabled :: StoredEnabled where
  "empty_enabled = \<lparr>e_temperature = None, e_top_p = None, e_max_tokens = None, e_frequency_penalty = None,
     e_presence_penalty = None, e_seed = None\<rparr>"

definition loadConfig :: "local_storage \<Rightarrow> StoredConfig" where
  "loadConfig st =
     (case readStoredValue KEY_CONFIG st of
        Inl _ \<Rightarrow> empty_config
      | Inr saved \<Rightarrow>
          if \<not> truthy (Some saved) then empty_config
          else opt_or (playgroundConfigSchema (unwrapStoredValue saved)) empty_config)"

text \<open>The schema refuses the one value the type allows and it does not: a token id that is not positive.\<close>

definition saveConfig :: "(local_storage \<Rightarrow> bool) \<Rightarrow> StoredConfig \<Rightarrow> local_storage \<Rightarrow> local_storage" where
  "saveConfig quota config st =
     (if s_selectedTokenId config = Value 0 then st
      else caught (writeStoredValue quota KEY_CONFIG (config_json config) st) st)"

definition loadParameterEnabled :: "local_storage \<Rightarrow> StoredEnabled" where
  "loadParameterEnabled st =
     (case readStoredValue KEY_PARAMETER_ENABLED st of
        Inl _ \<Rightarrow> empty_enabled
      | Inr saved \<Rightarrow>
          if \<not> truthy (Some saved) then empty_enabled
          else opt_or (parameterEnabledSchema (unwrapStoredValue saved)) empty_enabled)"

definition saveParameterEnabled :: "(local_storage \<Rightarrow> bool) \<Rightarrow> StoredEnabled \<Rightarrow> local_storage \<Rightarrow> local_storage" where
  "saveParameterEnabled quota en st =
     caught (writeStoredValue quota KEY_PARAMETER_ENABLED (enabled_json en) st) st"

text \<open>The schema refuses a message without a version; attachments are left out.\<close>

definition saveMessages :: "(local_storage \<Rightarrow> bool) \<Rightarrow> Message list \<Rightarrow> local_storage \<Rightarrow> local_storage" where
  "saveMessages quota messages st =
     (let trimmed = snd (trimMessages messages) in
      if list_all (\<lambda>m. m_versions m \<noteq> []) trimmed
      then caught (writeStoredValue quota KEY_MESSAGES (JArr (map message_json trimmed)) st) st
      else st)"

text \<open>The clock is read once per message and once by the repair of the last pending one.  The array the size bound
  returns is always a new one, so the bounded messages are always written back.\<close>

definition loadMessages ::
  "(local_storage \<Rightarrow> bool) \<Rightarrow> (string \<Rightarrow> string) \<Rightarrow> (nat \<Rightarrow> int) \<Rightarrow> int \<Rightarrow> local_storage \<Rightarrow>
   Message list option \<times> local_storage" where
  "loadMessages quota t clock now st =
     (case readStoredMessagesValue st of
        (Inl _, st1) \<Rightarrow> (None, st1)
      | (Inr saved, st1) \<Rightarrow>
          if \<not> truthy (Some saved) then (None, st1)
          else (case messagesSchema (unwrapStoredValue saved) of
              None \<Rightarrow> (None, st1)
            | Some parsed \<Rightarrow>
                (let loaded = map (\<lambda>(i, m). normalizeStoredMessageForLoad (clock i) m) (enumerate 0 parsed);
                     normalized = map snd loaded;
                     normalizedChanged = list_ex (\<lambda>x. \<not> fst x) loaded;
                     (sameTrimmed, trimmed) = trimMessages normalized;
                     sizeTrimmed = trimMessagesByContentSize trimmed;
                     sameSizeTrimmed = False;
                     sanitized = sanitizeMessagesOnLoad t now sizeTrimmed in
                 (Some sanitized,
                  if normalizedChanged \<or> \<not> sameTrimmed \<or> \<not> sameSizeTrimmed
                     \<or> last_index isPendingAssistantMessage sizeTrimmed \<noteq> None
                  then saveMessages quota sanitized st1 else st1))))"

definition clearPlaygroundData :: "local_storage \<Rightarrow> local_storage" where
  "clearPlaygroundData st =
     removeItem KEY_MESSAGES (removeItem KEY_PARAMETER_ENABLED (removeItem KEY_CONFIG st))"

subsection \<open>Initial state, playground-state-utils.ts\<close>

definition DEFAULT_CONFIG :: PlaygroundConfig where
  "DEFAULT_CONFIG = \<lparr>cfg_model = ''acu-auto'', cfg_selectedTokenId = None, cfg_temperature = 7 / 10, cfg_top_p = 1,
     cfg_max_tokens = 4096, cfg_frequency_penalty = 0, cfg_presence_penalty = 0, cfg_seed = None, cfg_stream = True\<rparr>"

definition DEFAULT_PARAMETER_ENABLED :: ParameterEnabled where
  "DEFAULT_PARAMETER_ENABLED = \<lparr>en_temperature = True, en_top_p = True, en_max_tokens = False,
     en_frequency_penalty = True, en_presence_penalty = True, en_seed = False\<rparr>"

definition nullish_or :: "'a nullish \<Rightarrow> 'a option \<Rightarrow> 'a option" where
  "nullish_or x d = (case x of Undefined \<Rightarrow> d | Null \<Rightarrow> None | Value v \<Rightarrow> Some v)"

definition spread_config :: "PlaygroundConfig \<Rightarrow> StoredConfig \<Rightarrow> PlaygroundConfig" where
  "spread_config d c =
     \<lparr>cfg_model = opt_or (s_model c) (cfg_model d),
      cfg_selectedTokenId = nullish_or (s_selectedTokenId c) (cfg_selectedTokenId d),
      cfg_temperature = opt_or (s_temperature c) (cfg_temperature d),
      cfg_top_p = opt_or (s_top_p c) (cfg_top_p d),
      cfg_max_tokens = opt_or (s_max_tokens c) (cfg_max_tokens d),
      cfg_frequency_penalty = opt_or (s_frequency_penalty c) (cfg_frequency_penalty d),
      cfg_presence_penalty = opt_or (s_presence_penalty c) (cfg_presence_penalty d),
      cfg_seed = nullish_or (s_seed c) (cfg_seed d),
      cfg_stream = opt_or (s_stream c) (cfg_stream d)\<rparr>"

definition spread_enabled :: "ParameterEnabled \<Rightarrow> StoredEnabled \<Rightarrow> ParameterEnabled" where
  "spread_enabled d e =
     \<lparr>en_temperature = opt_or (e_temperature e) (en_temperature d),
      en_top_p = opt_or (e_top_p e) (en_top_p d),
      en_max_tokens = opt_or (e_max_tokens e) (en_max_tokens d),
      en_frequency_penalty = opt_or (e_frequency_penalty e) (en_frequency_penalty d),
      en_presence_penalty = opt_or (e_presence_penalty e) (en_presence_penalty d),
      en_seed = opt_or (e_seed e) (en_seed d)\<rparr>"

definition getInitialPlaygroundConfig :: "local_storage \<Rightarrow> PlaygroundConfig" where
  "getInitialPlaygroundConfig st = spread_config DEFAULT_CONFIG (loadConfig st)"

definition getInitialParameterEnabled :: "local_storage \<Rightarrow> ParameterEnabled" where
  "getInitialParameterEnabled st = spread_enabled DEFAULT_PARAMETER_ENABLED (loadParameterEnabled st)"

text \<open>The full records as the partial ones the save functions take.\<close>

definition nullish_of :: "'a option \<Rightarrow> 'a nullish" where
  "nullish_of x = (case x of None \<Rightarrow> Null | Some v \<Rightarrow> Value v)"

definition stored_config :: "PlaygroundConfig \<Rightarrow> StoredConfig" where
  "stored_config c =
     \<lparr>s_model = Some (cfg_model c), s_selectedTokenId = nullish_of (cfg_selectedTokenId c),
      s_temperature = Some (cfg_temperature c), s_top_p = Some (cfg_top_p c), s_max_tokens = Some (cfg_max_tokens c),
      s_frequency_penalty = Some (cfg_frequency_penalty c), s_presence_penalty = Some (cfg_presence_penalty c),
      s_seed = nullish_of (cfg_seed c), s_stream = Some (cfg_stream c)\<rparr>"

definition stored_enabled :: "ParameterEnabled \<Rightarrow> StoredEnabled" where
  "stored_enabled e =
     \<lparr>e_temperature = Some (en_temperature e), e_top_p = Some (en_top_p e), e_max_tokens = Some (en_max_tokens e),
      e_frequency_penalty = Some (en_frequency_penalty e), e_presence_penalty = Some (en_presence_penalty e),
      e_seed = Some (en_seed e)\<rparr>"

subsection \<open>The schemas read what was encoded\<close>

lemma those_map_Some: "(\<And>x. x \<in> set xs \<Longrightarrow> f x = Some (g x)) \<Longrightarrow> those (map f xs) = Some (map g xs)"
  by (induction xs) simp_all

lemma z_array_encoded [storage_codec]:
  "(\<And>x. x \<in> set xs \<Longrightarrow> dec (enc x) = Some (g x)) \<Longrightarrow> z_array dec (JArr (map enc xs)) = Some (map g xs)"
  by (simp add: z_array_def those_map_Some)

lemma keys_members: "set (map fst (members fs)) \<subseteq> set (map fst fs)"
  by (induction fs) (auto simp: members_def map_filter_simps split: option.splits)

lemma distinct_members: "distinct (map fst fs) \<Longrightarrow> distinct (map fst (members fs))"
proof (induction fs)
  case (Cons f fs)
  then show ?case using keys_members [of fs]
    by (cases f) (auto simp: members_def map_filter_simps split: option.splits)
qed (simp add: members_def map_filter_simps)

lemma map_of_members:
  "distinct (map fst fs) \<Longrightarrow> map_of (members fs) k = (case map_of fs k of None \<Rightarrow> None | Some x \<Rightarrow> x)"
proof (induction fs)
  case (Cons f fs)
  obtain k' x where f: "f = (k', x)" by (cases f)
  have "map_of (members fs) k' = None"
    using Cons.prems keys_members [of fs] f by (auto simp: map_of_eq_None_iff)
  then show ?case using Cons f
    by (cases x; cases "k = k'") (simp_all add: members_def map_filter_simps)
qed (simp add: members_def map_filter_simps)

lemma z_int_j_int [simp]: "z_int (j_int i) = Some i"
  by (simp add: z_int_def j_int_def is_integer_def)

lemma j_int_not_null [simp]: "j_int i \<noteq> JNull"
  by (simp add: j_int_def)

lemma z_positive_j_int [simp]: "0 < n \<Longrightarrow> z_positive (j_int (int n)) = Some n"
  by (simp add: z_positive_def)

text \<open>A property of an encoded object, read by each kind of schema.\<close>

lemma required_member:
  "map_of ps k = Some v \<Longrightarrow> required dec ps k = dec v"
  by (simp add: required_def)

lemma optional_member:
  "map_of ps k = map_option enc x \<Longrightarrow> (\<And>v. x = Some v \<Longrightarrow> dec (enc v) = Some v) \<Longrightarrow> optional dec ps k = Some x"
  by (cases x) (simp_all add: optional_def)

lemma nullable_member:
  "map_of ps k = nullish_json enc x \<Longrightarrow> (\<And>v. x = Value v \<Longrightarrow> dec (enc v) = Some v \<and> enc v \<noteq> JNull) \<Longrightarrow>
   nullable_optional dec ps k = Some x"
  by (cases x) (auto simp: nullable_optional_def nullish_json_def split: jsval.splits)

lemma role_read: "messageRoleSchema (JStr (role_str r)) = Some r"
  by (cases r) (simp_all add: messageRoleSchema_def)

lemma status_read: "messageStatusSchema (JStr (status_str s)) = Some s"
  by (cases s) (simp_all add: messageStatusSchema_def)

lemma version_read: "messageVersionSchema (version_json v) = Some v"
  by (simp add: messageVersionSchema_def version_json_def required_def)

lemma source_read: "sourceSchema (source_json s) = Some s"
  by (simp add: sourceSchema_def source_json_def required_def)

lemma versions_read: "vs \<noteq> [] \<Longrightarrow> versionsSchema (JArr (map version_json vs)) = Some vs"
  using z_array_encoded [of vs messageVersionSchema version_json id] by (simp add: versionsSchema_def version_read)

lemma sources_read: "z_array sourceSchema (JArr (map source_json ss)) = Some ss"
  using z_array_encoded [of ss sourceSchema source_json id] by (simp add: source_read)

lemma reasoning_read: "reasoningSchema (reasoning_json r) = Some r"
proof -
  define ps where "ps = members
     [(''content'', Some (JStr (r_content r))), (''duration'', Some (j_int (r_duration r))),
      (''startedAt'', map_option j_int (r_startedAt r)), (''completedAt'', map_option j_int (r_completedAt r)),
      (''durationMs'', map_option j_int (r_durationMs r))]"
  have "map_of ps ''content'' = Some (JStr (r_content r))"
    and "map_of ps ''duration'' = Some (j_int (r_duration r))"
    and "map_of ps ''startedAt'' = map_option j_int (r_startedAt r)"
    and "map_of ps ''completedAt'' = map_option j_int (r_completedAt r)"
    and "map_of ps ''durationMs'' = map_option j_int (r_durationMs r)"
    by (simp_all add: ps_def map_of_members)
  then show ?thesis
    by (simp add: reasoningSchema_def reasoning_json_def ps_def [symmetric] required_member optional_member)
qed

lemma message_read:
  assumes "m_versions m \<noteq> []"
  shows "messageSchema (message_json m) = Some (m\<lparr>m_attachments := None\<rparr>)"
proof -
  obtain ps where ps: "message_json m = JObj ps"
    and "map_of ps ''key'' = Some (JStr (m_key m))"
    and "map_of ps ''from'' = Some (JStr (role_str (m_from m)))"
    and "map_of ps ''versions'' = Some (JArr (map version_json (m_versions m)))"
    and "map_of ps ''createdAt'' = map_option j_int (m_createdAt m)"
    and "map_of ps ''startedAt'' = map_option j_int (m_startedAt m)"
    and "map_of ps ''completedAt'' = map_option j_int (m_completedAt m)"
    and "map_of ps ''durationMs'' = map_option j_int (m_durationMs m)"
    and "map_of ps ''sources'' = map_option (\<lambda>ss. JArr (map source_json ss)) (m_sources m)"
    and "map_of ps ''reasoning'' = map_option reasoning_json (m_reasoning m)"
    and "map_of ps ''isReasoningStreaming'' = map_option JBool (m_isReasoningStreaming m)"
    and "map_of ps ''isReasoningComplete'' = map_option JBool (m_isReasoningComplete m)"
    and "map_of ps ''isContentComplete'' = map_option JBool (m_isContentComplete m)"
    and "map_of ps ''status'' = map_option (\<lambda>s. JStr (status_str s)) (m_status m)"
    and "map_of ps ''errorCode'' = nullish_json JStr (m_errorCode m)"
    by (simp add: message_json_def map_of_members)
  then show ?thesis using assms
    by (simp add: messageSchema_def required_member optional_member nullable_member role_read status_read versions_read
        sources_read reasoning_read)
qed

lemma config_read:
  assumes "s_selectedTokenId c \<noteq> Value 0"
  shows "playgroundConfigSchema (config_json c) = Some c"
proof -
  obtain ps where ps: "config_json c = JObj ps"
    and "map_of ps ''model'' = map_option JStr (s_model c)"
    and tok: "map_of ps ''selectedTokenId'' = nullish_json (\<lambda>n. j_int (int n)) (s_selectedTokenId c)"
    and "map_of ps ''temperature'' = map_option JNum (s_temperature c)"
    and "map_of ps ''top_p'' = map_option JNum (s_top_p c)"
    and "map_of ps ''max_tokens'' = map_option JNum (s_max_tokens c)"
    and "map_of ps ''frequency_penalty'' = map_option JNum (s_frequency_penalty c)"
    and "map_of ps ''presence_penalty'' = map_option JNum (s_presence_penalty c)"
    and "map_of ps ''seed'' = nullish_json JNum (s_seed c)"
    and "map_of ps ''stream'' = map_option JBool (s_stream c)"
    by (simp add: config_json_def map_of_members)
  moreover have "nullable_optional z_positive ps ''selectedTokenId'' = Some (s_selectedTokenId c)"
    using tok assms by (intro nullable_member) auto
  ultimately show ?thesis
    by (simp add: playgroundConfigSchema_def optional_member nullable_member)
qed

lemma enabled_read: "parameterEnabledSchema (enabled_json e) = Some e"
proof -
  obtain ps where "enabled_json e = JObj ps"
    and "map_of ps ''temperature'' = map_option JBool (e_temperature e)"
    and "map_of ps ''top_p'' = map_option JBool (e_top_p e)"
    and "map_of ps ''max_tokens'' = map_option JBool (e_max_tokens e)"
    and "map_of ps ''frequency_penalty'' = map_option JBool (e_frequency_penalty e)"
    and "map_of ps ''presence_penalty'' = map_option JBool (e_presence_penalty e)"
    and "map_of ps ''seed'' = map_option JBool (e_seed e)"
    by (simp add: enabled_json_def map_of_members)
  then show ?thesis by (simp add: parameterEnabledSchema_def optional_member)
qed

subsection \<open>Encoded values are printable\<close>

definition opt_printable :: "jsval option \<Rightarrow> bool" where
  "opt_printable x \<longleftrightarrow> (case x of None \<Rightarrow> True | Some v \<Rightarrow> printable v)"

lemma printable_members:
  assumes "distinct (map fst fs)" and "list_all (\<lambda>f. \<not> is_array_index (fst f)) fs"
    and "list_all (\<lambda>f. opt_printable (snd f)) fs"
  shows "printable (JObj (members fs))"
proof -
  have "list_all (\<lambda>p. \<not> is_array_index (fst p)) (members fs)"
    using assms(2) keys_members [of fs] by (fastforce simp: list_all_iff)
  then have "obj_of_pairs (members fs) = members fs"
    using obj_of_pairs_id distinct_members [OF assms(1)] by blast
  moreover have "list_all printable_member (members fs)"
    using assms(3)
    by (induction fs) (auto simp: members_def map_filter_simps opt_printable_def split: option.splits)
  ultimately show ?thesis by simp
qed

text \<open>Integers printed in full.\<close>

definition printable_time :: "int option \<Rightarrow> bool" where
  "printable_time x \<longleftrightarrow> (case x of None \<Rightarrow> True | Some i \<Rightarrow> \<bar>i\<bar> < 10 ^ 21)"

definition printable_reasoning :: "Reasoning \<Rightarrow> bool" where
  "printable_reasoning r \<longleftrightarrow>
     list_all printable_time [Some (r_duration r), r_startedAt r, r_completedAt r, r_durationMs r]"

definition printable_message :: "Message \<Rightarrow> bool" where
  "printable_message m \<longleftrightarrow>
     list_all printable_time [m_createdAt m, m_startedAt m, m_completedAt m, m_durationMs m]
     \<and> (case m_reasoning m of None \<Rightarrow> True | Some r \<Rightarrow> printable_reasoning r)"

lemma not_index: "c \<noteq> [] \<Longrightarrow> \<not> is_digit_char (hd c) \<Longrightarrow> \<not> is_array_index c"
  by (cases c) (simp_all add: is_array_index_def)

lemma printable_version_json: "printable (version_json v)"
  by (simp add: version_json_def obj_of_pairs_id not_index is_digit_char_def char_digit_def)

lemma printable_source_json: "printable (source_json s)"
  by (simp add: source_json_def obj_of_pairs_id not_index is_digit_char_def char_digit_def)

lemma opt_printable_simps [simp]:
  "opt_printable None" "opt_printable (Some v) = printable v"
  "opt_printable (map_option JBool b)" "opt_printable (map_option JStr s)" "opt_printable (nullish_json JStr x)"
  by (auto simp: opt_printable_def nullish_json_def split: option.splits nullish.splits)

lemma opt_printable_time: "printable_time x \<Longrightarrow> opt_printable (map_option j_int x)"
  by (auto simp: opt_printable_def printable_time_def j_int_def plain_number_int split: option.splits)

lemma opt_printable_number: "plain_number q \<Longrightarrow> opt_printable (map_option JNum (Some q))"
  by simp

lemma printable_j_int: "printable_time (Some i) \<Longrightarrow> printable (j_int i)"
  using opt_printable_time [of "Some i"] by simp

lemmas printable_keys = not_index is_digit_char_def char_digit_def

lemma printable_reasoning_json: "printable_reasoning r \<Longrightarrow> printable (reasoning_json r)"
  unfolding reasoning_json_def
  by (rule printable_members)
    (simp_all add: printable_keys printable_reasoning_def opt_printable_time printable_j_int)

lemma opt_printable_parts:
  "case m_reasoning m of None \<Rightarrow> True | Some r \<Rightarrow> printable_reasoning r \<Longrightarrow>
     opt_printable (map_option reasoning_json (m_reasoning m))"
  "opt_printable (map_option (\<lambda>s. JStr (status_str s)) (m_status m))"
  "opt_printable (map_option (\<lambda>ss. JArr (map source_json ss)) (m_sources m))"
  by (auto simp: opt_printable_def printable_reasoning_json printable_source_json list_all_iff split: option.splits)

lemma printable_message_json: "printable_message m \<Longrightarrow> printable (message_json m)"
  unfolding message_json_def
  by (rule printable_members)
    (simp_all add: printable_keys printable_message_def opt_printable_time opt_printable_parts printable_version_json
      list_all_iff)

subsection \<open>The contract of a stored value\<close>

text \<open>What the load functions rely on: the schema reads back what the save functions encode.\<close>

definition envelope :: "jsval \<Rightarrow> jsval" where
  "envelope data = JObj [(''version'', j_int (int STORAGE_VERSION)), (''data'', data)]"

lemma unwrap_envelope [simp]: "unwrapStoredValue (envelope data) = data"
  by (simp add: unwrapStoredValue_def envelope_def)

lemma printable_envelope: "printable data \<Longrightarrow> printable (envelope data)"
  using obj_of_pairs_id [of "[(''version'', j_int (int STORAGE_VERSION)), (''data'', data)]"]
  by (simp add: envelope_def printable_keys printable_j_int printable_time_def STORAGE_VERSION_def)

lemma envelope_text_alt: "envelope_text data = JSON_stringify (envelope data)"
  by (simp add: envelope_text_def envelope_def)

lemma envelope_text_not_Nil: "envelope_text data \<noteq> []"
  by (simp add: envelope_text_def)

locale stored_value =
  fixes enc :: "'a \<Rightarrow> jsval" and dec :: "jsval \<Rightarrow> 'a option" and kept :: "'a \<Rightarrow> 'a" and ok :: "'a \<Rightarrow> bool"
  assumes read_encoded: "ok x \<Longrightarrow> dec (enc x) = Some (kept x)"
    and print_encoded: "ok x \<Longrightarrow> printable (enc x)"
begin

lemma parse_written: "ok x \<Longrightarrow> parse_saved (envelope_text (enc x)) = Inr (envelope (enc x))"
  using JSON_roundtrip [OF printable_envelope [OF print_encoded]]
  by (simp add: parse_saved_def envelope_text_alt)

lemma decode_written: "ok x \<Longrightarrow> dec (unwrapStoredValue (envelope (enc x))) = Some (kept x)"
  by (simp add: read_encoded)

lemma read_after_write:
  assumes "ok x" and "writeStoredValue quota k (enc x) st = Some st'"
  shows "readStoredValue k st' = Inr (envelope (enc x))"
    and "k' \<noteq> k \<Longrightarrow> st' k' = st k'"
proof -
  have st': "st' = st(k \<mapsto> envelope_text (enc x))"
    using assms(2) by (auto simp: writeStoredValue_def setItem_def split: if_splits)
  then show "readStoredValue k st' = Inr (envelope (enc x))"
    using parse_written [OF assms(1)] by (simp add: readStoredValue_def envelope_text_not_Nil)
  show "k' \<noteq> k \<Longrightarrow> st' k' = st k'" using st' by simp
qed

end

definition config_ok :: "StoredConfig \<Rightarrow> bool" where
  "config_ok c \<longleftrightarrow>
     (case s_selectedTokenId c of Value n \<Rightarrow> 0 < n \<and> n < 10 ^ 21 | _ \<Rightarrow> True)
     \<and> list_all (\<lambda>x. case x of None \<Rightarrow> True | Some q \<Rightarrow> plain_number q)
         [s_temperature c, s_top_p c, s_max_tokens c, s_frequency_penalty c, s_presence_penalty c]
     \<and> (case s_seed c of Value q \<Rightarrow> plain_number q | _ \<Rightarrow> True)"

lemma opt_printable_nums:
  "(case x of None \<Rightarrow> True | Some q \<Rightarrow> plain_number q) \<Longrightarrow> opt_printable (map_option JNum x)"
  "(case y of Value q \<Rightarrow> plain_number q | _ \<Rightarrow> True) \<Longrightarrow> opt_printable (nullish_json JNum y)"
  "(case z of Value n \<Rightarrow> 0 < n \<and> n < 10 ^ 21 | _ \<Rightarrow> True) \<Longrightarrow> opt_printable (nullish_json (\<lambda>n. j_int (int n)) z)"
proof -
  show "(case x of None \<Rightarrow> True | Some q \<Rightarrow> plain_number q) \<Longrightarrow> opt_printable (map_option JNum x)"
    by (cases x) simp_all
  show "(case y of Value q \<Rightarrow> plain_number q | _ \<Rightarrow> True) \<Longrightarrow> opt_printable (nullish_json JNum y)"
    by (cases y) (simp_all add: nullish_json_def)
  show "(case z of Value n \<Rightarrow> 0 < n \<and> n < 10 ^ 21 | _ \<Rightarrow> True) \<Longrightarrow> opt_printable (nullish_json (\<lambda>n. j_int (int n)) z)"
    by (cases z) (simp_all add: nullish_json_def printable_j_int printable_time_def)
qed

lemma printable_config_json: "config_ok c \<Longrightarrow> printable (config_json c)"
  unfolding config_json_def
  by (rule printable_members) (simp_all add: printable_keys config_ok_def opt_printable_nums)

lemma printable_enabled_json: "printable (enabled_json e)"
  unfolding enabled_json_def by (rule printable_members) (simp_all add: printable_keys)

interpretation stored_cfg: stored_value config_json playgroundConfigSchema id config_ok
proof
  fix c
  assume ok: "config_ok c"
  then have "s_selectedTokenId c \<noteq> Value 0" by (auto simp: config_ok_def)
  then show "playgroundConfigSchema (config_json c) = Some (id c)" by (simp add: config_read)
  show "printable (config_json c)" using printable_config_json [OF ok] .
qed

interpretation stored_flags: stored_value enabled_json parameterEnabledSchema id "\<lambda>_. True"
  by unfold_locales (simp_all add: enabled_read printable_enabled_json)

definition storable :: "Message list \<Rightarrow> bool" where
  "storable ms \<longleftrightarrow> list_all (\<lambda>m. m_versions m \<noteq> [] \<and> printable_message m) ms"

definition without_attachments :: "Message \<Rightarrow> Message" where
  "without_attachments m = m\<lparr>m_attachments := None\<rparr>"

interpretation stored_msgs: stored_value "\<lambda>ms. JArr (map message_json ms)" messagesSchema "map without_attachments" storable
proof
  fix ms
  assume ok: "storable ms"
  then show "messagesSchema (JArr (map message_json ms)) = Some (map without_attachments ms)"
    unfolding messagesSchema_def
    by (intro z_array_encoded) (simp add: message_read storable_def list_all_iff without_attachments_def)
  show "printable (JArr (map message_json ms))"
    using ok by (simp add: storable_def list_all_iff printable_message_json)
qed

subsection \<open>Bounds\<close>

definition total_size :: "Message list \<Rightarrow> nat" where
  "total_size ms = sum_list (map getMessageSize ms)"

lemma total_size_simps [simp]:
  "total_size [] = 0" "total_size (m # ms) = getMessageSize m + total_size ms"
  "total_size (xs @ ys) = total_size xs + total_size ys" "total_size (rev ms) = total_size ms"
  by (simp_all add: total_size_def rev_map [symmetric])

lemma take_within_spec:
  assumes "tot \<le> MAX_LOADED_MESSAGES_CHARS \<or> length res \<le> 1"
  shows "\<exists>n \<le> length ms. take_within tot res ms = res @ take n ms
    \<and> (tot + total_size (take n ms) \<le> MAX_LOADED_MESSAGES_CHARS \<or> length (res @ take n ms) \<le> 1)
    \<and> (n < length ms \<longrightarrow> res @ take n ms \<noteq> [] \<and> tot + total_size (take (Suc n) ms) > MAX_LOADED_MESSAGES_CHARS)"
  using assms
proof (induction tot res ms rule: take_within.induct)
  case (2 tot res m ms)
  show ?case
  proof (cases "res \<noteq> [] \<and> tot + getMessageSize m > MAX_LOADED_MESSAGES_CHARS")
    case True
    then show ?thesis using "2.prems" by (intro exI [of _ 0]) auto
  next
    case False
    then have "tot + getMessageSize m \<le> MAX_LOADED_MESSAGES_CHARS \<or> length (res @ [m]) \<le> 1" by auto
    from "2.IH" [OF False this] obtain n where n: "n \<le> length ms"
      and *: "take_within (tot + getMessageSize m) (res @ [m]) ms = (res @ [m]) @ take n ms"
        "tot + getMessageSize m + total_size (take n ms) \<le> MAX_LOADED_MESSAGES_CHARS
          \<or> length ((res @ [m]) @ take n ms) \<le> 1"
        "n < length ms \<longrightarrow> (res @ [m]) @ take n ms \<noteq> [] \<and>
          tot + getMessageSize m + total_size (take (Suc n) ms) > MAX_LOADED_MESSAGES_CHARS" by blast
    show ?thesis
      using n * False by (intro exI [of _ "Suc n"]) (auto simp: add.assoc)
  qed
qed auto

lemma take_within_all: "tot + total_size ms \<le> MAX_LOADED_MESSAGES_CHARS \<Longrightarrow> take_within tot res ms = res @ ms"
  by (induction tot res ms rule: take_within.induct) (simp_all add: add.assoc)

lemma trim_by_size_all: "total_size ms \<le> MAX_LOADED_MESSAGES_CHARS \<Longrightarrow> trimMessagesByContentSize ms = ms"
  by (simp add: trimMessagesByContentSize_def take_within_all)

lemma suffix_rev_take: "suffix (rev (take n (rev ms))) ms"
  by (metis prefix_def append_take_drop_id rev_rev_ident suffix_to_prefix rev_append)

lemma total_size_suffix: "suffix xs ys \<Longrightarrow> total_size xs \<le> total_size ys"
  by (auto simp: suffix_def)

lemma set_trimmed: "set (trimMessagesByContentSize ms) \<subseteq> set ms"
  using take_within_spec [of 0 "[]" "rev ms"] set_take_subset
  by (fastforce simp: trimMessagesByContentSize_def)

lemma length_trimmed: "length (trimMessagesByContentSize ms) \<le> length ms"
  using take_within_spec [of 0 "[]" "rev ms"]
  by (fastforce simp: trimMessagesByContentSize_def)

text \<open>
  C32: The size bound keeps the longest end of the conversation that fits the budget: what it keeps is a suffix,
  within 120000 characters unless it is the last message alone; every longer suffix is over the budget; and a conversation that
  is not empty keeps its last message.
\<close>

theorem storage_keeps_longest_suffix:
  "suffix (trimMessagesByContentSize ms) ms
   \<and> (length (trimMessagesByContentSize ms) \<le> 1 \<or> total_size (trimMessagesByContentSize ms) \<le> 120000)
   \<and> (\<forall>s. suffix s ms \<and> length (trimMessagesByContentSize ms) < length s \<longrightarrow> 120000 < total_size s)
   \<and> (ms = [] \<longleftrightarrow> trimMessagesByContentSize ms = [])"
proof -
  obtain n where n: "n \<le> length (rev ms)" and r: "take_within 0 [] (rev ms) = take n (rev ms)"
    and le: "total_size (take n (rev ms)) \<le> MAX_LOADED_MESSAGES_CHARS \<or> length (take n (rev ms)) \<le> 1"
    and more: "n < length (rev ms) \<longrightarrow> take n (rev ms) \<noteq> [] \<and>
      total_size (take (Suc n) (rev ms)) > MAX_LOADED_MESSAGES_CHARS"
    using take_within_spec [of 0 "[]" "rev ms"] by auto
  have t: "trimMessagesByContentSize ms = rev (take n (rev ms))" using r by (simp add: trimMessagesByContentSize_def)
  have "120000 < total_size s" if "suffix s ms" and "n < length s" for s
  proof -
    have "n < length ms" using that suffix_length_le by fastforce
    moreover have "suffix (rev (take (Suc n) (rev ms))) s"
      by (rule suffix_length_suffix [OF suffix_rev_take that(1)]) (use that in auto)
    ultimately show ?thesis using more total_size_suffix [of "rev (take (Suc n) (rev ms))" s]
      by (simp add: MAX_LOADED_MESSAGES_CHARS_def)
  qed
  moreover have "ms = [] \<longleftrightarrow> take n (rev ms) = []" using more n by auto
  ultimately show ?thesis using t le n suffix_rev_take by (auto simp: MAX_LOADED_MESSAGES_CHARS_def min_def)
qed

lemma truncateText_bound: "length (truncateText s n) \<le> n"
  by (auto simp: truncateText_def)

lemma collapse_suffix: "suffix (collapseRepeatedSectionSnapshots s) s"
  by (auto simp: collapseRepeatedSectionSnapshots_def suffix_drop split: option.splits)

definition sized_message :: "nat \<Rightarrow> Message" where
  "sized_message n = createUserMessage ''k'' ''v'' (replicate n (CHR ''a'')) 0 []"

lemma sized_message_size [simp]: "getMessageSize (sized_message n) = n"
  by (simp add: sized_message_def getMessageSize_def createUserMessage_def createMessageVersion_def)

theorem storage_keeps_longest_suffix_witness:
  "trimMessagesByContentSize [sized_message 120000, sized_message 1] = [sized_message 1] \<and>
   120000 < total_size [sized_message 120000, sized_message 1]"
proof -
  have "trimMessagesByContentSize [sized_message 120000, sized_message 1] = [sized_message 1]"
    by (simp add: trimMessagesByContentSize_def MAX_LOADED_MESSAGES_CHARS_def)
  then show ?thesis
    using storage_keeps_longest_suffix [of "[sized_message 120000, sized_message 1]"] by force
qed

subsection \<open>What is loaded\<close>

lemma length_trimMessages: "length (snd (trimMessages ms)) \<le> MAX_STORED_MESSAGES"
  by (simp add: trimMessages_def)

lemma set_trimMessages: "set (snd (trimMessages ms)) \<subseteq> set ms"
  by (auto simp: trimMessages_def dest: in_set_dropD)

lemma trimMessages_idem: "trimMessages (snd (trimMessages ms)) = (True, snd (trimMessages ms))"
  by (simp add: trimMessages_def)

text \<open>A message that is waiting for an answer and has received nothing.\<close>

definition has_reasoning :: "Message \<Rightarrow> bool" where
  "has_reasoning m \<longleftrightarrow> (case m_reasoning m of None \<Rightarrow> False | Some r \<Rightarrow> trim (r_content r) \<noteq> [])"

definition pending_only_empty :: "Message \<Rightarrow> bool" where
  "pending_only_empty m \<longleftrightarrow> (isAssistantMessagePending m \<longrightarrow> \<not> hasMessageContent m \<and> \<not> has_reasoning m)"

lemma completeAssistantTiming_status [simp]: "m_status (completeAssistantTiming now m) = m_status m"
  by (simp add: completeAssistantTiming_def Let_def)

lemma normalized_pending: "pending_only_empty (snd (normalizeStoredMessageForLoad now m))"
  by (auto simp: normalizeStoredMessageForLoad_def Let_def pending_only_empty_def has_reasoning_def
      isAssistantMessagePending_def split: prod.splits)

lemma sanitized_pending:
  assumes "\<forall>m \<in> set ms. pending_only_empty m"
  shows "\<forall>m \<in> set (sanitizeMessagesOnLoad t now ms). pending_only_empty m"
proof (cases "last_index isPendingAssistantMessage ms")
  case (Some i)
  have "pending_only_empty (sanitizeMessage t now (ms ! i))"
    using sanitizeMessage_status [of t now "ms ! i"] by (auto simp: pending_only_empty_def isAssistantMessagePending_def)
  then show ?thesis using assms Some set_update_subset_insert [of ms i]
    by (auto simp: sanitizeMessagesOnLoad_def)
qed (use assms in \<open>simp add: sanitizeMessagesOnLoad_def\<close>)

lemma length_sanitized: "length (sanitizeMessagesOnLoad t now ms) = length ms"
  by (simp add: sanitizeMessagesOnLoad_def split: option.splits)

lemma loadMessages_cases:
  assumes "loadMessages quota t clock now st = (Some ms, st')"
  obtains saved parsed st1 where "readStoredMessagesValue st = (Inr saved, st1)"
    and "messagesSchema (unwrapStoredValue saved) = Some parsed"
    and "ms = sanitizeMessagesOnLoad t now (trimMessagesByContentSize (snd (trimMessages
           (map (\<lambda>(i, m). snd (normalizeStoredMessageForLoad (clock i) m)) (enumerate 0 parsed)))))"
    and "st' = saveMessages quota ms st1"
  using assms
  by (cases "readStoredMessagesValue st")
    (auto simp: loadMessages_def Let_def comp_def case_prod_unfold split: sum.splits if_splits option.splits)

text \<open>
  Whatever text the storage holds, the conversation that is loaded has at most 100 messages, and a
  message that is still waiting in it has neither text nor reasoning: everything that was received before the page
  was closed is shown as a finished answer.
\<close>

theorem storage_load_settles:
  assumes "loadMessages quota t clock now st = (Some ms, st')"
  shows "length ms \<le> 100 \<and> (\<forall>m \<in> set ms. isAssistantMessagePending m \<longrightarrow> \<not> hasMessageContent m \<and> \<not> has_reasoning m)"
proof -
  obtain parsed where ms: "ms = sanitizeMessagesOnLoad t now (trimMessagesByContentSize (snd (trimMessages
           (map (\<lambda>(i, m). snd (normalizeStoredMessageForLoad (clock i) m)) (enumerate 0 parsed)))))"
    using loadMessages_cases [OF assms] by metis
  define ns where "ns = map (\<lambda>(i, m). snd (normalizeStoredMessageForLoad (clock i) m)) (enumerate 0 parsed)"
  have "\<forall>m \<in> set ns. pending_only_empty m" using normalized_pending by (auto simp: ns_def)
  then have "\<forall>m \<in> set (trimMessagesByContentSize (snd (trimMessages ns))). pending_only_empty m"
    using set_trimmed set_trimMessages by blast
  then have "\<forall>m \<in> set ms. pending_only_empty m" using sanitized_pending ms by (simp add: ns_def)
  moreover have "length ms \<le> 100"
    using ms length_trimmed [of "snd (trimMessages ns)"] length_trimMessages [of ns]
    by (simp add: length_sanitized ns_def MAX_STORED_MESSAGES_def)
  ultimately show ?thesis by (simp add: pending_only_empty_def)
qed

text \<open>A stored conversation that is there, for the witness: a finished answer and one cut off after its first words.\<close>

definition cut_off_answer :: Message where
  "cut_off_answer = (createLoadingAssistantMessage ''a'' ''v'' 5)
     \<lparr>m_versions := [createMessageVersion ''v'' ''partial''], m_status := Some STREAMING\<rparr>"

definition sample_storage :: "Message list \<Rightarrow> local_storage" where
  "sample_storage ms = saveMessages (\<lambda>_. True) ms (\<lambda>_. None)"

subsection \<open>Round trips\<close>

text \<open>The messages the load functions leave alone.\<close>

definition settled :: "Message \<Rightarrow> bool" where
  "settled m \<longleftrightarrow>
     \<not> isAssistantMessagePending m
     \<and> list_all (\<lambda>v. length (v_content v) \<le> MAX_LOADED_MESSAGE_CHARS
                      \<and> collapseRepeatedSectionSnapshots (v_content v) = v_content v) (m_versions m)
     \<and> (case m_reasoning m of None \<Rightarrow> True | Some r \<Rightarrow> length (r_content r) \<le> MAX_LOADED_MESSAGE_CHARS)"

definition stored_text :: "Message list \<Rightarrow> string" where
  "stored_text ms = envelope_text (JArr (map message_json (snd (trimMessages ms))))"

lemma truncateText_id: "length s \<le> n \<Longrightarrow> truncateText s n = s"
  by (simp add: truncateText_def)

lemma normalize_settled: "settled m \<Longrightarrow> normalizeStoredMessageForLoad now m = (True, m)"
proof -
  assume m: "settled m"
  have vs: "map normalize_version (m_versions m) = map (Pair False) (m_versions m)"
    using m by (auto simp: settled_def normalize_version_def Let_def list_all_iff truncateText_id)
  have r: "map_option (\<lambda>r. r\<lparr>r_content := truncateText (r_content r) MAX_LOADED_MESSAGE_CHARS\<rparr>) (m_reasoning m)
      = m_reasoning m"
    using m by (cases "m_reasoning m") (simp_all add: settled_def truncateText_id)
  have "normalize_contents m = (True, m)"
    using vs r by (simp add: normalize_contents_def Let_def list_ex_iff)
  then show ?thesis using m by (simp add: normalizeStoredMessageForLoad_def settled_def)
qed

lemma normalize_all_settled:
  "list_all settled ms \<Longrightarrow>
   map (\<lambda>(i, m). normalizeStoredMessageForLoad (clock i) m) (enumerate k ms) = map (Pair True) ms"
  by (induction ms arbitrary: k) (simp_all add: normalize_settled)

lemma without_attachments_simps [simp]:
  "message_json (without_attachments m) = message_json m"
  "settled (without_attachments m) = settled m"
  "getMessageSize (without_attachments m) = getMessageSize m"
  "m_versions (without_attachments m) = m_versions m"
  "isPendingAssistantMessage (without_attachments m) = isPendingAssistantMessage m"
  by (simp_all add: without_attachments_def message_json_def settled_def getMessageSize_def isAssistantMessagePending_def
      isPendingAssistantMessage_def)

lemma last_index_none_left: "(\<And>x. x \<in> set xs \<Longrightarrow> \<not> P x) \<Longrightarrow> last_index P xs = None"
  by (induction xs) simp_all

lemma sanitize_settled: "list_all settled ms \<Longrightarrow> sanitizeMessagesOnLoad t now ms = ms"
  using last_index_none_left [of ms isPendingAssistantMessage]
  by (auto simp: sanitizeMessagesOnLoad_def list_all_iff settled_def isPendingAssistantMessage_def)

lemma saveMessages_stores:
  assumes "list_all (\<lambda>m. m_versions m \<noteq> []) (snd (trimMessages ms))" and "quota (st(KEY_MESSAGES \<mapsto> stored_text ms))"
  shows "saveMessages quota ms st = st(KEY_MESSAGES \<mapsto> stored_text ms)"
  using assms by (simp add: saveMessages_def caught_def writeStoredValue_def setItem_def stored_text_def)

lemma stored_text_kept:
  "stored_text (map without_attachments (snd (trimMessages ms))) = stored_text ms"
  by (simp add: stored_text_def trimMessages_def comp_def)

lemma truthy_envelope [simp]: "truthy (Some (envelope data))"
  by (simp add: envelope_def)

text \<open>
  C10: A conversation that is saved is the conversation that is loaded: its last 100 messages without their attachments,
  provided they are finished, printable, within the bounds on their contents and on the text, not of the repeated form that
  loading collapses, and the browser accepts the write.  Loading changes nothing in the storage.
\<close>

theorem storage_messages_roundtrip:
  assumes kept: "kept = snd (trimMessages ms)"
    and ok: "storable kept" "list_all settled kept" "total_size kept \<le> 120000"
    and short: "length (stored_text ms) \<le> 1048576" and quota: "quota (st(KEY_MESSAGES \<mapsto> stored_text ms))"
  shows "saveMessages quota ms st = st(KEY_MESSAGES \<mapsto> stored_text ms) \<and>
    loadMessages quota t clock now (saveMessages quota ms st) =
      (Some (map without_attachments kept), saveMessages quota ms st)"
proof -
  define st1 where "st1 = st(KEY_MESSAGES \<mapsto> stored_text ms)"
  define data where "data = JArr (map message_json kept)"
  define restored where "restored = map without_attachments kept"
  have saved: "saveMessages quota ms st = st1"
    using saveMessages_stores [of ms quota st] quota ok(1) kept by (simp add: st1_def storable_def list_all_iff)
  have encoded: "stored_text ms = envelope_text data" by (simp add: stored_text_def data_def kept)
  have "readStoredMessagesValue st1 = (Inr (envelope data), st1)"
    using short stored_msgs.parse_written [OF ok(1)] envelope_text_not_Nil [of data]
    by (simp add: readStoredMessagesValue_def st1_def encoded data_def MAX_STORED_MESSAGES_BYTES_def)
  moreover have "messagesSchema data = Some restored"
    using stored_msgs.read_encoded [OF ok(1)] by (simp add: data_def restored_def)
  moreover have settled: "list_all settled restored" using ok(2) by (simp add: restored_def list_all_iff)
  moreover have small: "total_size restored \<le> MAX_LOADED_MESSAGES_CHARS"
    using ok(3) by (simp add: restored_def total_size_def comp_def MAX_LOADED_MESSAGES_CHARS_def)
  moreover have trim: "trimMessages restored = (True, restored)"
    using kept length_trimMessages [of ms] by (simp add: trimMessages_def restored_def)
  moreover have "saveMessages quota restored st1 = st1"
  proof -
    have same: "stored_text restored = stored_text ms" by (simp only: restored_def kept stored_text_kept)
    have again: "st1(KEY_MESSAGES \<mapsto> stored_text ms) = st1" by (simp add: st1_def)
    have "list_all (\<lambda>m. m_versions m \<noteq> []) (snd (trimMessages restored))"
      using ok(1) trim by (simp add: restored_def storable_def list_all_iff)
    then show ?thesis using saveMessages_stores [of restored quota st1] same again quota by (simp add: st1_def)
  qed
  ultimately have "loadMessages quota t clock now st1 = (Some restored, st1)"
    using normalize_all_settled [OF settled, of clock 0] trim_by_size_all [OF small] sanitize_settled [OF settled, of t now]
    by (simp add: loadMessages_def Let_def comp_def list_ex_iff)
  then show ?thesis using saved by (simp add: st1_def restored_def)
qed

subsection \<open>Concrete conversations\<close>

lemma decimal_one: "decimal 1 = ''1''"
proof -
  have "decimal_digits 1 = [1]" by (subst decimal_digits.simps) simp
  moreover have "CHR ''1'' = char_of (49 :: nat)" by code_simp
  ultimately show ?thesis by (simp add: decimal_def)
qed

lemma version_text: "JSON_stringify (j_int (int STORAGE_VERSION)) = ''1''"
  using number_str_nat [of 1] decimal_one by (simp add: j_int_def STORAGE_VERSION_def)

lemma version_number: "number_str (of_nat STORAGE_VERSION) = ''1''"
  using version_text by (simp add: j_int_def)

lemmas text_eval = stored_text_def envelope_text_def trimMessages_def MAX_STORED_MESSAGES_def version_text version_number message_json_def
  members_def map_filter_simps version_json_def createUserMessage_def createLoadingAssistantMessage_def
  createMessageVersion_def nullish_json_def

definition greeting :: Message where
  "greeting = createUserMessage ''k'' ''v'' ''hi'' 0 [\<lparr>att_url = ''data:'', att_filename = None, att_mediaType = None\<rparr>]"

lemma greeting_stored: "length (stored_text [greeting]) \<le> 1048576"
proof -
  have "number_str 0 = ''0''" by (simp add: number_str_def)
  then show ?thesis by (simp add: text_eval greeting_def j_int_def quote_def escape_char_def short_escape_def)
qed

lemma greeting_ok: "storable [greeting]" "list_all settled [greeting]" "total_size [greeting] \<le> 120000"
  by (simp_all add: storable_def settled_def total_size_def greeting_def createUserMessage_def createMessageVersion_def
      printable_message_def printable_time_def isAssistantMessagePending_def collapseRepeatedSectionSnapshots_def
      getMessageSize_def MAX_LOADED_MESSAGE_CHARS_def MIN_PREFIX_COLLAPSE_LENGTH_def)

theorem storage_messages_roundtrip_witness:
  "loadMessages (\<lambda>_. True) id (\<lambda>_. 0) 7 (saveMessages (\<lambda>_. True) [greeting] (\<lambda>_. None)) =
     (Some [greeting\<lparr>m_attachments := None\<rparr>], saveMessages (\<lambda>_. True) [greeting] (\<lambda>_. None))"
proof -
  have "[greeting] = snd (trimMessages [greeting])" by (simp add: trimMessages_def MAX_STORED_MESSAGES_def)
  from storage_messages_roundtrip [OF this greeting_ok greeting_stored, of "\<lambda>_. True" "\<lambda>_. None", THEN conjunct2]
  show ?thesis by (simp only: simp_thms list.map without_attachments_def)
qed

lemma load_stored:
  assumes "storable (snd (trimMessages ms))" and "length (stored_text ms) \<le> 1048576"
    and "st KEY_MESSAGES = Some (stored_text ms)"
  shows "fst (loadMessages quota t clock now st) = Some
    (sanitizeMessagesOnLoad t now (trimMessagesByContentSize (snd (trimMessages
       (map (\<lambda>(i, m). snd (normalizeStoredMessageForLoad (clock i) m))
          (enumerate 0 (map without_attachments (snd (trimMessages ms)))))))))"
proof -
  have "readStoredMessagesValue st = (Inr (envelope (JArr (map message_json (snd (trimMessages ms))))), st)"
    using assms stored_msgs.parse_written [OF assms(1)] envelope_text_not_Nil
    by (simp add: readStoredMessagesValue_def stored_text_def MAX_STORED_MESSAGES_BYTES_def)
  then show ?thesis using stored_msgs.read_encoded [OF assms(1)]
    by (simp add: loadMessages_def Let_def comp_def case_prod_unfold)
qed

lemma cut_off_stored: "length (stored_text [cut_off_answer]) \<le> 1048576"
proof -
  have "decimal_digits 5 = [5]" by (subst decimal_digits.simps) simp
  then have "number_str 5 = decimal 5" and "length (decimal 5) = 1" using number_str_nat [of 5] by (simp_all add: decimal_def)
  then show ?thesis
    by (simp add: text_eval cut_off_answer_def j_int_def quote_def escape_char_def short_escape_def)
qed

lemma cut_off_normalized:
  "hasMessageContent (snd (normalizeStoredMessageForLoad 0 (without_attachments cut_off_answer)))"
  "\<not> isAssistantMessagePending (snd (normalizeStoredMessageForLoad 0 (without_attachments cut_off_answer)))"
proof -
  have "js_includes ''partial'' OPEN_TAG = False" by (simp add: js_includes_def OPEN_TAG_def startsWith_def)
  moreover have "trim ''partial'' = ''partial''" by (simp add: trim_def trim_by_def is_ws_def)
  ultimately show "hasMessageContent (snd (normalizeStoredMessageForLoad 0 (without_attachments cut_off_answer)))"
    by (simp add: normalizeStoredMessageForLoad_def without_attachments_def cut_off_answer_def
      createLoadingAssistantMessage_def createMessageVersion_def normalize_contents_def normalize_version_def
      collapseRepeatedSectionSnapshots_def truncateText_def MIN_PREFIX_COLLAPSE_LENGTH_def MAX_LOADED_MESSAGE_CHARS_def
      isAssistantMessagePending_def hasMessageContent_def getMessageContent_def getCurrentVersion_def
      completeAssistantTiming_def finalizeMessage_def completeReasoningTiming_def updateCurrentVersionContent_def
      str_or_def opt_or_def Let_def)
  then show "\<not> isAssistantMessagePending (snd (normalizeStoredMessageForLoad 0 (without_attachments cut_off_answer)))"
    using normalized_pending [of 0 "without_attachments cut_off_answer"] by (auto simp: pending_only_empty_def)
qed

theorem storage_load_settles_witness:
  "\<exists>ms st'. loadMessages (\<lambda>_. True) id (\<lambda>_. 0) 7 (sample_storage [cut_off_answer]) = (Some ms, st') \<and> ms \<noteq> [] \<and>
     length ms \<le> 100 \<and> hasMessageContent (hd ms) \<and> \<not> isAssistantMessagePending (hd ms)"
proof -
  have st: "sample_storage [cut_off_answer] KEY_MESSAGES = Some (stored_text [cut_off_answer])"
    by (simp add: sample_storage_def saveMessages_stores trimMessages_def MAX_STORED_MESSAGES_def cut_off_answer_def)
  have ok: "storable (snd (trimMessages [cut_off_answer]))"
    by (simp add: storable_def trimMessages_def MAX_STORED_MESSAGES_def cut_off_answer_def createLoadingAssistantMessage_def
        printable_message_def printable_time_def)
  obtain ms st' where load: "loadMessages (\<lambda>_. True) id (\<lambda>_. 0) 7 (sample_storage [cut_off_answer]) = (Some ms, st')"
    using load_stored [OF ok cut_off_stored, of "sample_storage [cut_off_answer]" "\<lambda>_. True" id "\<lambda>_. 0" 7] st
    by (metis prod.collapse)
  have "ms = [snd (normalizeStoredMessageForLoad 0 (without_attachments cut_off_answer))]"
    using load load_stored [OF ok cut_off_stored, of "sample_storage [cut_off_answer]" "\<lambda>_. True" id "\<lambda>_. 0" 7] st
      cut_off_normalized(2)
    by (simp add: trimMessages_def MAX_STORED_MESSAGES_def trimMessagesByContentSize_def sanitizeMessagesOnLoad_def
        isPendingAssistantMessage_def)
  then show ?thesis using load storage_load_settles [OF load] cut_off_normalized(1) by simp
qed

subsection \<open>Settings\<close>

lemma spread_stored [simp]: "spread_config d (stored_config c) = c" "spread_enabled d' (stored_enabled e) = e"
  by (simp_all add: spread_config_def stored_config_def spread_enabled_def stored_enabled_def opt_or_def nullish_or_def
      nullish_of_def split: option.splits)

text \<open>
  The settings that are saved are the settings the next visit starts with, and saving them touches no
  other key, provided the browser accepts the write and the numbers are printed without an exponent.
\<close>

theorem storage_settings_roundtrip:
  assumes "config_ok (stored_config c)"
    and "quota (st(KEY_CONFIG \<mapsto> envelope_text (config_json (stored_config c))))"
    and "quota (st(KEY_PARAMETER_ENABLED \<mapsto> envelope_text (enabled_json (stored_enabled e))))"
  shows "getInitialPlaygroundConfig (saveConfig quota (stored_config c) st) = c
    \<and> getInitialParameterEnabled (saveParameterEnabled quota (stored_enabled e) st) = e
    \<and> saveConfig quota (stored_config c) st KEY_MESSAGES = st KEY_MESSAGES
    \<and> saveParameterEnabled quota (stored_enabled e) st KEY_MESSAGES = st KEY_MESSAGES"
proof -
  define st1 where "st1 = st(KEY_CONFIG \<mapsto> envelope_text (config_json (stored_config c)))"
  define st2 where "st2 = st(KEY_PARAMETER_ENABLED \<mapsto> envelope_text (enabled_json (stored_enabled e)))"
  have w1: "writeStoredValue quota KEY_CONFIG (config_json (stored_config c)) st = Some st1"
    using assms(2) by (simp add: writeStoredValue_def setItem_def st1_def)
  have w2: "writeStoredValue quota KEY_PARAMETER_ENABLED (enabled_json (stored_enabled e)) st = Some st2"
    using assms(3) by (simp add: writeStoredValue_def setItem_def st2_def)
  have s1: "saveConfig quota (stored_config c) st = st1"
    using assms(1) w1 by (auto simp: saveConfig_def caught_def config_ok_def)
  have s2: "saveParameterEnabled quota (stored_enabled e) st = st2"
    using w2 by (simp add: saveParameterEnabled_def caught_def)
  have "loadConfig st1 = stored_config c"
    using stored_cfg.read_after_write(1) [OF assms(1) w1] stored_cfg.decode_written [OF assms(1)]
    by (simp add: loadConfig_def opt_or_def)
  moreover have "loadParameterEnabled st2 = stored_enabled e"
    using stored_flags.read_after_write(1) [OF TrueI w2] stored_flags.decode_written [OF TrueI]
    by (simp add: loadParameterEnabled_def opt_or_def)
  moreover have "st1 KEY_MESSAGES = st KEY_MESSAGES" "st2 KEY_MESSAGES = st KEY_MESSAGES"
    by (simp_all add: st1_def st2_def KEY_MESSAGES_def KEY_CONFIG_def KEY_PARAMETER_ENABLED_def)
  ultimately show ?thesis using s1 s2
    by (simp add: getInitialPlaygroundConfig_def getInitialParameterEnabled_def)
qed

lemma decimal_places_tenth: "decimal_places (7 / 10) = 1"
proof -
  have "\<not> is_integer (7 / 10)" by (simp add: is_integer_def floor_divide_of_int_eq [of 7 10, simplified])
  moreover have "is_integer 7" by (simp add: is_integer_def)
  ultimately show ?thesis by (simp add: decimal_places_def numeral_eq_Suc)
qed

lemma default_config_ok: "config_ok (stored_config DEFAULT_CONFIG)"
proof -
  have "plain_number 0" "plain_number 1" "plain_number 4096"
    using plain_number_int [of 0] plain_number_int [of 1] plain_number_int [of 4096] by simp_all
  moreover have "plain_number (7 / 10)"
    by (simp add: plain_number_def decimal_places_tenth is_integer_def)
  ultimately show ?thesis
    by (simp add: config_ok_def stored_config_def DEFAULT_CONFIG_def nullish_of_def)
qed

theorem storage_settings_roundtrip_witness:
  "getInitialPlaygroundConfig (saveConfig (\<lambda>_. True) (stored_config DEFAULT_CONFIG) (\<lambda>_. None)) = DEFAULT_CONFIG"
  using storage_settings_roundtrip [OF default_config_ok, of "\<lambda>_. True" "\<lambda>_. None" DEFAULT_PARAMETER_ENABLED] by simp

subsection \<open>Long conversations\<close>

text \<open>
  C40: A conversation is written without a bound on its text, but a text of more than 1 MiB is not read: what was
  saved is then not loaded, and the load removes it.
\<close>

theorem storage_long_history_lost:
  assumes "list_all (\<lambda>m. m_versions m \<noteq> []) (snd (trimMessages ms))"
    and "quota (st(KEY_MESSAGES \<mapsto> stored_text ms))" and "1048576 < length (stored_text ms)"
  shows "saveMessages quota ms st KEY_MESSAGES = Some (stored_text ms) \<and>
    loadMessages quota t clock now (saveMessages quota ms st) = (None, st(KEY_MESSAGES := None))"
proof -
  have s: "saveMessages quota ms st = st(KEY_MESSAGES \<mapsto> stored_text ms)" using saveMessages_stores assms(1,2) .
  have "stored_text ms \<noteq> []" using assms(3) by auto
  then have "readStoredMessagesValue (st(KEY_MESSAGES \<mapsto> stored_text ms)) = (Inr JNull, st(KEY_MESSAGES := None))"
    using assms(3) by (simp add: readStoredMessagesValue_def MAX_STORED_MESSAGES_BYTES_def removeItem_def)
  then show ?thesis using s by (simp add: loadMessages_def)
qed

theorem storage_long_history_lost_witness:
  "loadMessages (\<lambda>_. True) id (\<lambda>_. 0) 7 (saveMessages (\<lambda>_. True) [sized_message 1048577] (\<lambda>_. None)) =
     (None, \<lambda>_. None)"
proof -
  have "1048576 < length (stored_text [sized_message 1048577])"
    using length_quote [of "replicate 1048577 (CHR ''a'')"] by (simp add: text_eval sized_message_def)
  moreover have "list_all (\<lambda>m. m_versions m \<noteq> []) (snd (trimMessages [sized_message 1048577]))"
    by (simp add: trimMessages_def sized_message_def createUserMessage_def MAX_STORED_MESSAGES_def)
  ultimately show ?thesis
    using storage_long_history_lost [of "[sized_message 1048577]" "\<lambda>_. True" "\<lambda>_. None" id "\<lambda>_. 0" 7] by simp
qed

end
