(* ===== verification/Playground.thy ===== *)
theory Playground
  imports Storage
begin

text \<open>
  The playground page around the messages: \<open>hooks/use-playground-state.ts\<close> (state kept in the component and its
  delayed saving), \<open>hooks/use-playground-options.ts\<close>, \<open>hooks/use-playground-conversation.ts\<close>,
  \<open>hooks/use-message-action-guard.ts\<close>, and the pure helpers of \<open>lib/parameters\<close>, \<open>lib/options\<close>, \<open>lib/input\<close>.

  The state hook is a state machine over the events of the component's life: its two timers, the calls of its
  actions, the runs of queued updates, and its removal.  What is given to \<open>setMessages\<close> is queued, and React runs the queue in
  order at times of its own, one entry per event, until the component is removed; so the timers may fire between a call
  and its effect.  The setters of the settings are taken to apply at once, since nothing else reads or writes what they
  change.  The timers fire at most once each after they are set, and the browser may refuse any write to the storage.
\<close>

subsection \<open>Options, playground-option-utils.ts and use-playground-options.ts\<close>

record ModelOption =
  mo_label :: string
  mo_value :: string

record PlaygroundApiKeyOption =
  key_id :: nat
  key_name :: string
  key_maskedKey :: string
  key_group :: string
  key_routingPreference :: string

record ACUConversationOptions =
  opt_tokens :: "PlaygroundApiKeyOption list"
  opt_selectedTokenId :: nat
  opt_models :: "ModelOption list"

definition getModelFallback :: "ModelOption list \<Rightarrow> string \<Rightarrow> string option" where
  "getModelFallback models currentModel =
     (if list_ex (\<lambda>m. mo_value m = currentModel) models \<or> models = [] then None else Some (mo_value (hd models)))"

definition shouldClearModelForOptions :: "ModelOption list \<Rightarrow> string \<Rightarrow> bool" where
  "shouldClearModelForOptions models currentModel =
     (if currentModel = [] then False else \<not> list_ex (\<lambda>m. mo_value m = currentModel) models)"

definition getOptionLoadErrorMessage :: "string option \<Rightarrow> string \<Rightarrow> string" where
  "getOptionLoadErrorMessage message_of_error fallbackMessage = opt_or message_of_error fallbackMessage"

subsection \<open>The component's state, use-playground-state.ts\<close>

text \<open>An entry of the queue of \<open>setMessages\<close>: the loaded list, or the closure of \<open>updateMessages\<close>.\<close>

datatype queued_update =
    QueuedList "Message list"
  | QueuedUpdater "Message list + (Message list \<Rightarrow> Message list)"

record playground =
  pg_config :: PlaygroundConfig
  pg_parameterEnabled :: ParameterEnabled
  pg_messages :: "Message list"
  pg_queue :: "queued_update list"
  pg_isLoadingMessages :: bool
  pg_saveTimer :: bool
  pg_latestMessages :: "Message list"
  pg_hasLoadedMessages :: bool
  pg_models :: "ModelOption list"
  pg_tokens :: "PlaygroundApiKeyOption list"
  pg_loadTimer :: bool
  pg_mounted :: bool
  pg_storage :: local_storage

definition usePlaygroundState :: "local_storage \<Rightarrow> playground" where
  "usePlaygroundState st =
     \<lparr>pg_config = getInitialPlaygroundConfig st, pg_parameterEnabled = getInitialParameterEnabled st,
      pg_messages = [], pg_queue = [], pg_isLoadingMessages = True, pg_saveTimer = False, pg_latestMessages = [],
      pg_hasLoadedMessages = False, pg_models = [], pg_tokens = [], pg_loadTimer = True, pg_mounted = True,
      pg_storage = st\<rparr>"

text \<open>Setting the timer again replaces the one that is set.\<close>

definition persistMessages :: "Message list \<Rightarrow> playground \<Rightarrow> playground" where
  "persistMessages messagesToSave s =
     (let s1 = s\<lparr>pg_latestMessages := messagesToSave\<rparr> in
      if \<not> pg_hasLoadedMessages s1 then s1 else s1\<lparr>pg_saveTimer := True\<rparr>)"

definition applyMessageStateUpdate :: "Message list \<Rightarrow> Message list + (Message list \<Rightarrow> Message list) \<Rightarrow> Message list" where
  "applyMessageStateUpdate previousMessages updater =
     (case updater of Inl messages \<Rightarrow> messages | Inr f \<Rightarrow> f previousMessages)"

definition updateMessages :: "Message list + (Message list \<Rightarrow> Message list) \<Rightarrow> playground \<Rightarrow> playground" where
  "updateMessages updater s = s\<lparr>pg_queue := pg_queue s @ [QueuedUpdater updater]\<rparr>"

text \<open>React runs the first entry of the queue; the closure of \<open>updateMessages\<close> schedules the save.\<close>

definition run_update :: "playground \<Rightarrow> playground" where
  "run_update s =
     (case pg_queue s of
        [] \<Rightarrow> s
      | QueuedList ms # q \<Rightarrow> s\<lparr>pg_queue := q, pg_messages := ms\<rparr>
      | QueuedUpdater updater # q \<Rightarrow>
          (let newMessages = applyMessageStateUpdate (pg_messages s) updater in
           (persistMessages newMessages s)\<lparr>pg_queue := q, pg_messages := newMessages\<rparr>))"

definition clearMessages :: "playground \<Rightarrow> playground" where
  "clearMessages s = updateMessages (Inl []) s"

definition load_timer ::
  "(local_storage \<Rightarrow> bool) \<Rightarrow> (string \<Rightarrow> string) \<Rightarrow> (nat \<Rightarrow> int) \<Rightarrow> int \<Rightarrow> playground \<Rightarrow> playground" where
  "load_timer quota t clock now s =
     (let (loaded, st) = loadMessages quota t clock now (pg_storage s);
          loadedMessages = opt_or loaded [];
          s1 = s\<lparr>pg_loadTimer := False, pg_storage := st\<rparr> in
      if \<not> pg_mounted s then s1
      else s1\<lparr>pg_latestMessages := loadedMessages, pg_hasLoadedMessages := True,
              pg_queue := pg_queue s @ [QueuedList loadedMessages], pg_isLoadingMessages := False\<rparr>)"

definition save_timer :: "(local_storage \<Rightarrow> bool) \<Rightarrow> playground \<Rightarrow> playground" where
  "save_timer quota s =
     s\<lparr>pg_saveTimer := False, pg_storage := saveMessages quota (pg_latestMessages s) (pg_storage s)\<rparr>"

definition unmount_page :: "(local_storage \<Rightarrow> bool) \<Rightarrow> playground \<Rightarrow> playground" where
  "unmount_page quota s = (if pg_saveTimer s then save_timer quota s else s)\<lparr>pg_mounted := False\<rparr>"

datatype config_change =
    SetModel string
  | SetSelectedTokenId "nat option"
  | SetTemperature rat
  | SetTopP rat
  | SetMaxTokens rat
  | SetFrequencyPenalty rat
  | SetPresencePenalty rat
  | SetSeed "rat option"
  | SetStream bool

fun change_config :: "config_change \<Rightarrow> PlaygroundConfig \<Rightarrow> PlaygroundConfig" where
  "change_config (SetModel v) c = c\<lparr>cfg_model := v\<rparr>"
| "change_config (SetSelectedTokenId v) c = c\<lparr>cfg_selectedTokenId := v\<rparr>"
| "change_config (SetTemperature v) c = c\<lparr>cfg_temperature := v\<rparr>"
| "change_config (SetTopP v) c = c\<lparr>cfg_top_p := v\<rparr>"
| "change_config (SetMaxTokens v) c = c\<lparr>cfg_max_tokens := v\<rparr>"
| "change_config (SetFrequencyPenalty v) c = c\<lparr>cfg_frequency_penalty := v\<rparr>"
| "change_config (SetPresencePenalty v) c = c\<lparr>cfg_presence_penalty := v\<rparr>"
| "change_config (SetSeed v) c = c\<lparr>cfg_seed := v\<rparr>"
| "change_config (SetStream v) c = c\<lparr>cfg_stream := v\<rparr>"

datatype parameter_key = Temperature | Top_p | Max_tokens | Frequency_penalty | Presence_penalty | Seed

fun change_enabled :: "parameter_key \<Rightarrow> bool \<Rightarrow> ParameterEnabled \<Rightarrow> ParameterEnabled" where
  "change_enabled Temperature b e = e\<lparr>en_temperature := b\<rparr>"
| "change_enabled Top_p b e = e\<lparr>en_top_p := b\<rparr>"
| "change_enabled Max_tokens b e = e\<lparr>en_max_tokens := b\<rparr>"
| "change_enabled Frequency_penalty b e = e\<lparr>en_frequency_penalty := b\<rparr>"
| "change_enabled Presence_penalty b e = e\<lparr>en_presence_penalty := b\<rparr>"
| "change_enabled Seed b e = e\<lparr>en_seed := b\<rparr>"

definition updateConfig :: "(local_storage \<Rightarrow> bool) \<Rightarrow> config_change \<Rightarrow> playground \<Rightarrow> playground" where
  "updateConfig quota ch s =
     (let updated = change_config ch (pg_config s) in
      s\<lparr>pg_storage := saveConfig quota (stored_config updated) (pg_storage s), pg_config := updated\<rparr>)"

definition updateParameterEnabled :: "(local_storage \<Rightarrow> bool) \<Rightarrow> parameter_key \<Rightarrow> bool \<Rightarrow> playground \<Rightarrow> playground" where
  "updateParameterEnabled quota k v s =
     (let updated = change_enabled k v (pg_parameterEnabled s) in
      s\<lparr>pg_storage := saveParameterEnabled quota (stored_enabled updated) (pg_storage s),
        pg_parameterEnabled := updated\<rparr>)"

definition resetConfig :: "(local_storage \<Rightarrow> bool) \<Rightarrow> playground \<Rightarrow> playground" where
  "resetConfig quota s =
     (let st1 = saveConfig quota (stored_config DEFAULT_CONFIG) (pg_storage s);
          st2 = saveParameterEnabled quota (stored_enabled DEFAULT_PARAMETER_ENABLED) st1 in
      s\<lparr>pg_config := DEFAULT_CONFIG, pg_parameterEnabled := DEFAULT_PARAMETER_ENABLED, pg_storage := st2\<rparr>)"

text \<open>The effect that applies the fetched options.\<close>

definition apply_options :: "(local_storage \<Rightarrow> bool) \<Rightarrow> ACUConversationOptions \<Rightarrow> playground \<Rightarrow> playground" where
  "apply_options quota data s =
     (let currentModel = cfg_model (pg_config s);
          s1 = s\<lparr>pg_tokens := opt_tokens data, pg_models := opt_models data\<rparr>;
          resolvedTokenId = (if opt_selectedTokenId data = 0 then None else Some (opt_selectedTokenId data));
          s2 = (if cfg_selectedTokenId (pg_config s) \<noteq> resolvedTokenId
                then updateConfig quota (SetSelectedTokenId resolvedTokenId) s1 else s1) in
      case getModelFallback (opt_models data) currentModel of
        Some fallback \<Rightarrow>
          if fallback \<noteq> [] then updateConfig quota (SetModel fallback) s2
          else if shouldClearModelForOptions (opt_models data) currentModel
          then updateConfig quota (SetModel []) s2 else s2
      | None \<Rightarrow>
          if shouldClearModelForOptions (opt_models data) currentModel
          then updateConfig quota (SetModel []) s2 else s2)"

subsection \<open>The machine\<close>

datatype playground_event =
    LoadTimer "nat \<Rightarrow> int" int
  | SaveTimer
  | Unmount
  | RunUpdate
  | UpdateMessages "Message list + (Message list \<Rightarrow> Message list)"
  | ClearMessages
  | UpdateConfig config_change
  | UpdateParameterEnabled parameter_key bool
  | ResetConfig
  | OptionsFetched ACUConversationOptions

definition playground_step ::
  "(local_storage \<Rightarrow> bool) \<Rightarrow> (string \<Rightarrow> string) \<Rightarrow> playground_event \<Rightarrow> playground \<Rightarrow> playground" where
  "playground_step quota t e s =
     (case e of
        LoadTimer clock now \<Rightarrow> if pg_loadTimer s then load_timer quota t clock now s else s
      | SaveTimer \<Rightarrow> if pg_saveTimer s \<and> pg_mounted s then save_timer quota s else s
      | Unmount \<Rightarrow> if pg_mounted s then unmount_page quota s else s
      | RunUpdate \<Rightarrow> if pg_mounted s then run_update s else s
      | UpdateMessages updater \<Rightarrow> if pg_mounted s then updateMessages updater s else s
      | ClearMessages \<Rightarrow> if pg_mounted s then clearMessages s else s
      | UpdateConfig ch \<Rightarrow> if pg_mounted s then updateConfig quota ch s else s
      | UpdateParameterEnabled k v \<Rightarrow> if pg_mounted s then updateParameterEnabled quota k v s else s
      | ResetConfig \<Rightarrow> if pg_mounted s then resetConfig quota s else s
      | OptionsFetched data \<Rightarrow> if pg_mounted s then apply_options quota data s else s)"

definition playground_run ::
  "(local_storage \<Rightarrow> bool) \<Rightarrow> (string \<Rightarrow> string) \<Rightarrow> playground_event list \<Rightarrow> playground \<Rightarrow> playground" where
  "playground_run quota t es s = foldl (\<lambda>s e. playground_step quota t e s) s es"

subsection \<open>Loaded messages have versions\<close>

definition versioned :: "Message list \<Rightarrow> bool" where
  "versioned ms \<longleftrightarrow> list_all (\<lambda>m. m_versions m \<noteq> []) ms"

lemma versioned_mono: "versioned ms \<Longrightarrow> set ms' \<subseteq> set ms \<Longrightarrow> versioned ms'"
  by (auto simp: versioned_def list_all_iff)

lemma those_Some_mem: "those xs = Some ys \<Longrightarrow> y \<in> set ys \<Longrightarrow> Some y \<in> set xs"
proof (induction xs arbitrary: ys)
  case (Cons x xs)
  then show ?case by (cases x; cases "those xs") auto
qed simp

lemma messageSchema_versions: "messageSchema v = Some m \<Longrightarrow> m_versions m \<noteq> []"
  by (auto simp: messageSchema_def versionsSchema_def required_def Option.bind_eq_Some_conv split: option.splits if_splits)

lemma messagesSchema_versioned: "messagesSchema v = Some ms \<Longrightarrow> versioned ms"
proof -
  assume "messagesSchema v = Some ms"
  then obtain xs where xs: "those (map messageSchema xs) = Some ms"
    by (cases v) (auto simp: messagesSchema_def z_array_def)
  have "m_versions m \<noteq> []" if "m \<in> set ms" for m
    using those_Some_mem [OF xs that] messageSchema_versions by auto
  then show ?thesis by (simp add: versioned_def list_all_iff)
qed

lemma timing_versions [simp]:
  "m_versions (completeAssistantTiming now m) = m_versions m"
  "m_versions (completeReasoningTiming now m) = m_versions m"
  by (simp_all add: completeAssistantTiming_def completeReasoningTiming_def Let_def split: option.splits)

lemma rewritten_versions [simp]:
  "m_versions (updateCurrentVersionContent m c) \<noteq> []" "m_versions (finalizeMessage now m r) \<noteq> []"
  by (simp_all add: updateCurrentVersionContent_def finalizeMessage_def Let_def)

lemma sanitizeMessage_versions [simp]: "m_versions (sanitizeMessage t now m) \<noteq> []"
  by (simp add: sanitizeMessage_def Let_def)

lemma normalize_contents_versions: "m_versions m \<noteq> [] \<Longrightarrow> m_versions (snd (normalize_contents m)) \<noteq> []"
  by (simp add: normalize_contents_def Let_def)

lemma normalize_versions: "m_versions m \<noteq> [] \<Longrightarrow> m_versions (snd (normalizeStoredMessageForLoad now m)) \<noteq> []"
  using normalize_contents_versions [of m]
  by (cases "normalize_contents m") (simp add: normalizeStoredMessageForLoad_def Let_def)

lemma sanitize_versioned: "versioned ms \<Longrightarrow> versioned (sanitizeMessagesOnLoad t now ms)"
  using set_update_subset_insert [of ms]
  by (fastforce simp: versioned_def list_all_iff sanitizeMessagesOnLoad_def split: option.splits)

lemma load_versioned:
  assumes "loadMessages quota t clock now st = (Some ms, st')"
  shows "versioned ms"
proof -
  obtain saved parsed where "messagesSchema (unwrapStoredValue saved) = Some parsed"
    and ms: "ms = sanitizeMessagesOnLoad t now (trimMessagesByContentSize (snd (trimMessages
           (map (\<lambda>(i, m). snd (normalizeStoredMessageForLoad (clock i) m)) (enumerate 0 parsed)))))"
    using loadMessages_cases [OF assms] by metis
  then have "versioned parsed" using messagesSchema_versioned by blast
  then have "versioned (map (\<lambda>(i, m). snd (normalizeStoredMessageForLoad (clock i) m)) (enumerate 0 parsed))"
    by (auto simp: versioned_def list_all_iff normalize_versions in_set_enumerate_eq)
  then show ?thesis unfolding ms
    using sanitize_versioned versioned_mono [OF _ order_trans [OF set_trimmed set_trimMessages]] by blast
qed

text \<open>The storage holds the conversation, or the conversation is empty and what the storage holds does not load.\<close>

definition unreadable :: "local_storage \<Rightarrow> bool" where
  "unreadable st \<longleftrightarrow>
     (case fst (readStoredMessagesValue st) of
        Inl _ \<Rightarrow> True
      | Inr saved \<Rightarrow> \<not> truthy (Some saved) \<or> messagesSchema (unwrapStoredValue saved) = None)"

definition holds :: "Message list \<Rightarrow> local_storage \<Rightarrow> bool" where
  "holds ms st \<longleftrightarrow> st KEY_MESSAGES = Some (stored_text ms) \<or> ms = [] \<and> unreadable st"

lemma readStored_key: "st KEY_MESSAGES = st' KEY_MESSAGES \<Longrightarrow>
    fst (readStoredMessagesValue st) = fst (readStoredMessagesValue st')"
  by (simp add: readStoredMessagesValue_def split: option.splits)

lemma holds_key: "st KEY_MESSAGES = st' KEY_MESSAGES \<Longrightarrow> holds ms st = holds ms st'"
  using readStored_key [of st st'] by (simp add: holds_def unreadable_def)

lemma unreadable_load: "unreadable st \<longleftrightarrow> fst (loadMessages quota t clock now st) = None"
  by (cases "readStoredMessagesValue st")
    (auto simp: unreadable_def loadMessages_def Let_def split: sum.splits option.splits prod.splits)

lemma unreadable_after_read: "unreadable st \<Longrightarrow> unreadable (snd (readStoredMessagesValue st))"
  by (auto simp: unreadable_def readStoredMessagesValue_def removeItem_def split: option.splits if_splits)

lemma load_None:
  assumes "loadMessages quota t clock now st = (None, st')"
  shows "unreadable st'"
proof -
  have "unreadable st" using unreadable_load [of st quota t clock now] assms by simp
  moreover have "st' = snd (readStoredMessagesValue st)"
    using assms by (cases "readStoredMessagesValue st")
      (auto simp: loadMessages_def Let_def split: sum.splits option.splits if_splits prod.splits)
  ultimately show ?thesis using unreadable_after_read by simp
qed

text \<open>The storage holds the conversation, or the browser refuses it.\<close>

definition stored_or_refused :: "(Message list \<Rightarrow> bool) \<Rightarrow> Message list \<Rightarrow> local_storage \<Rightarrow> bool" where
  "stored_or_refused R ms st \<longleftrightarrow> holds ms st \<or> R ms"

definition covers_refusals :: "(Message list \<Rightarrow> bool) \<Rightarrow> (local_storage \<Rightarrow> bool) \<Rightarrow> local_storage \<Rightarrow> bool" where
  "covers_refusals R quota st \<longleftrightarrow> (\<forall>ms. quota (st(KEY_MESSAGES \<mapsto> stored_text ms)) \<or> R ms)"

lemma save_holds: "versioned ms \<Longrightarrow> covers_refusals R quota st \<Longrightarrow> stored_or_refused R ms (saveMessages quota ms st)"
proof -
  assume "versioned ms" and R: "covers_refusals R quota st"
  then have "list_all (\<lambda>m. m_versions m \<noteq> []) (snd (trimMessages ms))"
    using versioned_mono [OF _ set_trimMessages] by (simp add: versioned_def)
  then show ?thesis using saveMessages_stores [of ms quota st] R
    by (cases "quota (st(KEY_MESSAGES \<mapsto> stored_text ms))") (auto simp: stored_or_refused_def holds_def covers_refusals_def)
qed

lemma save_or_keep: "saveMessages quota ms st KEY_MESSAGES \<in> {st KEY_MESSAGES, Some (stored_text ms)}"
  by (simp add: saveMessages_def caught_def writeStoredValue_def setItem_def stored_text_def Let_def)

lemma read_covers: "covers_refusals R quota st \<Longrightarrow> covers_refusals R quota (snd (readStoredMessagesValue st))"
  by (auto simp: covers_refusals_def readStoredMessagesValue_def removeItem_def split: option.splits)

lemma load_holds:
  assumes "loadMessages quota t clock now st = (loaded, st')" "covers_refusals R quota st"
  shows "stored_or_refused R (opt_or loaded []) st' \<and> versioned (opt_or loaded [])"
proof (cases loaded)
  case None
  then show ?thesis using load_None assms(1) by (auto simp: stored_or_refused_def holds_def opt_or_def versioned_def)
next
  case (Some ms)
  then have "versioned ms" using load_versioned assms(1) by blast
  moreover obtain saved st1 where "readStoredMessagesValue st = (Inr saved, st1)" "st' = saveMessages quota ms st1"
    using loadMessages_cases assms(1) Some by metis
  ultimately show ?thesis using save_holds [of ms R quota st1] read_covers [OF assms(2)] Some by (simp add: opt_or_def)
qed

subsection \<open>The machine keeps the storage up to date\<close>

text \<open>An update that leaves every message a version, as those of the conversation and of the stream do.\<close>

definition updater_keeps_versions :: "Message list + (Message list \<Rightarrow> Message list) \<Rightarrow> bool" where
  "updater_keeps_versions u \<longleftrightarrow> (\<forall>ms. versioned ms \<longrightarrow> versioned (applyMessageStateUpdate ms u))"

definition keeps_versions :: "playground_event \<Rightarrow> bool" where
  "keeps_versions e \<longleftrightarrow> (case e of UpdateMessages u \<Rightarrow> updater_keeps_versions u | _ \<Rightarrow> True)"

text \<open>No update is waiting in the queue when the stored conversation is loaded.\<close>

fun loads_undisturbed ::
  "(local_storage \<Rightarrow> bool) \<Rightarrow> (string \<Rightarrow> string) \<Rightarrow> playground_event list \<Rightarrow> playground \<Rightarrow> bool" where
  "loads_undisturbed quota t [] s = True"
| "loads_undisturbed quota t (e # es) s =
     ((case e of LoadTimer _ _ \<Rightarrow> pg_loadTimer s \<longrightarrow> pg_queue s = [] | _ \<Rightarrow> True)
      \<and> loads_undisturbed quota t es (playground_step quota t e s))"

text \<open>In some state of a run the browser refuses to store the conversation.\<close>

fun refuses ::
  "(local_storage \<Rightarrow> bool) \<Rightarrow> (string \<Rightarrow> string) \<Rightarrow> playground_event list \<Rightarrow> playground \<Rightarrow> Message list \<Rightarrow> bool" where
  "refuses quota t [] s ms = (\<not> quota ((pg_storage s)(KEY_MESSAGES \<mapsto> stored_text ms)))"
| "refuses quota t (e # es) s ms =
     (\<not> quota ((pg_storage s)(KEY_MESSAGES \<mapsto> stored_text ms)) \<or> refuses quota t es (playground_step quota t e s) ms)"

text \<open>
  The list to be saved is the one shown, unless the loaded one is still to be shown; the updates that wait come after it.
\<close>

definition queue_inv :: "playground \<Rightarrow> bool" where
  "queue_inv s \<longleftrightarrow>
     (\<exists>us. list_all updater_keeps_versions us
        \<and> (pg_queue s = map QueuedUpdater us \<and> pg_messages s = pg_latestMessages s
           \<or> pg_hasLoadedMessages s \<and> pg_queue s = QueuedList (pg_latestMessages s) # map QueuedUpdater us))"

definition playground_inv :: "(Message list \<Rightarrow> bool) \<Rightarrow> playground \<Rightarrow> bool" where
  "playground_inv R s \<longleftrightarrow>
     queue_inv s \<and> versioned (pg_latestMessages s) \<and> versioned (pg_messages s)
     \<and> (pg_saveTimer s \<longrightarrow> pg_mounted s \<and> pg_hasLoadedMessages s)
     \<and> (pg_hasLoadedMessages s \<longrightarrow>
          \<not> pg_loadTimer s \<and> (pg_saveTimer s \<or> stored_or_refused R (pg_latestMessages s) (pg_storage s)))"

lemma save_settings_key [simp]:
  "saveConfig quota c st KEY_MESSAGES = st KEY_MESSAGES"
  "saveParameterEnabled quota e st KEY_MESSAGES = st KEY_MESSAGES"
  by (auto simp: saveConfig_def saveParameterEnabled_def caught_def writeStoredValue_def setItem_def KEY_MESSAGES_def
      KEY_CONFIG_def KEY_PARAMETER_ENABLED_def split: option.splits if_splits)

text \<open>The settings' operations touch neither the messages nor their place in the storage.\<close>

definition same_messages :: "playground \<Rightarrow> playground \<Rightarrow> bool" where
  "same_messages s s' \<longleftrightarrow>
     pg_messages s' = pg_messages s \<and> pg_queue s' = pg_queue s \<and> pg_latestMessages s' = pg_latestMessages s \<and> pg_saveTimer s' = pg_saveTimer s
     \<and> pg_mounted s' = pg_mounted s \<and> pg_hasLoadedMessages s' = pg_hasLoadedMessages s \<and> pg_loadTimer s' = pg_loadTimer s
     \<and> pg_storage s' KEY_MESSAGES = pg_storage s KEY_MESSAGES"

lemma same_messages_inv: "playground_inv R s \<Longrightarrow> same_messages s s' \<Longrightarrow> playground_inv R s'"
  using holds_key [of "pg_storage s" "pg_storage s'"]
  by (auto simp: playground_inv_def same_messages_def queue_inv_def stored_or_refused_def)

lemma same_messages_trans: "same_messages s s1 \<Longrightarrow> same_messages s1 s2 \<Longrightarrow> same_messages s s2"
  by (simp add: same_messages_def)

lemma updateConfig_same: "same_messages s (updateConfig quota ch s)"
  by (simp add: same_messages_def updateConfig_def Let_def)

lemma apply_options_same: "same_messages s (apply_options quota data s)"
proof -
  define s1 where "s1 = s\<lparr>pg_tokens := opt_tokens data, pg_models := opt_models data\<rparr>"
  have "same_messages s s1" by (simp add: same_messages_def s1_def)
  then have one: "same_messages s (updateConfig quota ch s1)" for ch
    using updateConfig_same same_messages_trans by blast
  then have "same_messages s (updateConfig quota ch (updateConfig quota ch' s1))" for ch ch'
    using updateConfig_same same_messages_trans by blast
  then show ?thesis using one \<open>same_messages s s1\<close>
    by (auto simp: apply_options_def Let_def s1_def [symmetric] split: option.splits)
qed

lemma updateMessages_inv:
  assumes "playground_inv R s" and "updater_keeps_versions u"
  shows "playground_inv R (updateMessages u s)"
proof -
  have "queue_inv (updateMessages u s)"
  proof -
    obtain us where us: "list_all updater_keeps_versions us" "pg_queue s = map QueuedUpdater us \<and> pg_messages s = pg_latestMessages s
           \<or> pg_hasLoadedMessages s \<and> pg_queue s = QueuedList (pg_latestMessages s) # map QueuedUpdater us"
      using assms(1) by (auto simp: playground_inv_def queue_inv_def)
    then show ?thesis using assms(2) unfolding queue_inv_def
      by (intro exI [of _ "us @ [u]"]) (auto simp: updateMessages_def)
  qed
  then show ?thesis using assms(1) by (auto simp: playground_inv_def updateMessages_def)
qed

lemma run_update_inv:
  assumes "playground_inv R s" "pg_mounted s"
  shows "playground_inv R (run_update s)"
proof -
  obtain us where us: "list_all updater_keeps_versions us" "pg_queue s = map QueuedUpdater us \<and> pg_messages s = pg_latestMessages s
         \<or> pg_hasLoadedMessages s \<and> pg_queue s = QueuedList (pg_latestMessages s) # map QueuedUpdater us"
    using assms(1) by (auto simp: playground_inv_def queue_inv_def)
  from us(2) consider "pg_queue s = []"
    | "pg_queue s = QueuedList (pg_latestMessages s) # map QueuedUpdater us"
    | u us' where "us = u # us'" "pg_queue s = QueuedUpdater u # map QueuedUpdater us'" by (cases us) auto
  then show ?thesis
  proof cases
    case 1
    then show ?thesis using assms(1) by (simp add: run_update_def)
  next
    case 2
    then show ?thesis using assms(1) us(1) by (auto simp: run_update_def playground_inv_def queue_inv_def)
  next
    case 3
    have "versioned (applyMessageStateUpdate (pg_messages s) u)"
      using assms(1) us(1) 3(1) by (simp add: playground_inv_def updater_keeps_versions_def)
    then show ?thesis using assms us(1) 3
      by (auto simp: run_update_def playground_inv_def queue_inv_def persistMessages_def Let_def)
  qed
qed

lemma load_timer_inv:
  assumes "playground_inv R s" "pg_loadTimer s" "pg_queue s = []" and R: "covers_refusals R quota (pg_storage s)"
  shows "playground_inv R (load_timer quota t clock now s)"
proof -
  obtain loaded st where load: "loadMessages quota t clock now (pg_storage s) = (loaded, st)" by fastforce
  have "\<not> pg_hasLoadedMessages s" "\<not> pg_saveTimer s" using assms by (auto simp: playground_inv_def)
  moreover have "queue_inv (s\<lparr>pg_hasLoadedMessages := True, pg_latestMessages := ms, pg_queue := [QueuedList ms]\<rparr>)" for ms
    unfolding queue_inv_def by (intro exI [of _ "[]"]) simp
  ultimately show ?thesis using assms load_holds [OF load R] load
    by (auto simp: load_timer_def playground_inv_def queue_inv_def Let_def)
qed

lemma save_timer_inv:
  "playground_inv R s \<Longrightarrow> covers_refusals R quota (pg_storage s) \<Longrightarrow> playground_inv R (save_timer quota s)"
  using save_holds [of "pg_latestMessages s" R quota "pg_storage s"]
  by (auto simp: save_timer_def playground_inv_def queue_inv_def)

lemma playground_step_inv:
  assumes inv: "playground_inv R s" and keeps: "keeps_versions e" and R: "covers_refusals R quota (pg_storage s)"
    and calm: "case e of LoadTimer _ _ \<Rightarrow> pg_loadTimer s \<longrightarrow> pg_queue s = [] | _ \<Rightarrow> True"
  shows "playground_inv R (playground_step quota t e s)"
proof (cases e)
  case (LoadTimer clock now)
  then show ?thesis using inv calm load_timer_inv [OF inv _ _ R] by (simp add: playground_step_def)
next
  case SaveTimer
  then show ?thesis using inv save_timer_inv R by (simp add: playground_step_def)
next
  case Unmount
  have "playground_inv R (if pg_saveTimer s then save_timer quota s else s)" using inv save_timer_inv R by simp
  then have "playground_inv R (unmount_page quota s)"
    by (auto simp: unmount_page_def playground_inv_def queue_inv_def save_timer_def split: if_splits)
  then show ?thesis using inv Unmount by (simp add: playground_step_def)
next
  case RunUpdate
  then show ?thesis using inv run_update_inv by (simp add: playground_step_def)
next
  case (UpdateMessages u)
  then show ?thesis using inv keeps updateMessages_inv by (simp add: playground_step_def keeps_versions_def)
next
  case ClearMessages
  then show ?thesis using inv updateMessages_inv [OF inv, of "Inl []"]
    by (simp add: playground_step_def clearMessages_def updater_keeps_versions_def applyMessageStateUpdate_def versioned_def)
next
  case (UpdateConfig ch)
  then show ?thesis using inv same_messages_inv [OF inv updateConfig_same] by (simp add: playground_step_def)
next
  case (UpdateParameterEnabled k v)
  then show ?thesis using inv same_messages_inv [OF inv, of "updateParameterEnabled quota k v s"]
    by (simp add: playground_step_def same_messages_def updateParameterEnabled_def Let_def)
next
  case ResetConfig
  then show ?thesis using inv same_messages_inv [OF inv, of "resetConfig quota s"]
    by (simp add: playground_step_def same_messages_def resetConfig_def Let_def)
next
  case (OptionsFetched data)
  then show ?thesis using inv same_messages_inv [OF inv apply_options_same] by (simp add: playground_step_def)
qed

lemma refuses_now: "\<not> refuses quota t es s ms \<Longrightarrow> quota ((pg_storage s)(KEY_MESSAGES \<mapsto> stored_text ms))"
  by (cases es) auto

lemma playground_run_inv:
  assumes "playground_inv R s" and "list_all keeps_versions es" and "loads_undisturbed quota t es s"
    and "\<And>ms. refuses quota t es s ms \<Longrightarrow> R ms"
  shows "playground_inv R (playground_run quota t es s) \<and> covers_refusals R quota (pg_storage (playground_run quota t es s))"
  using assms
proof (induction es arbitrary: s)
  case Nil
  then show ?case by (auto simp: playground_run_def covers_refusals_def)
next
  case (Cons e es)
  have "covers_refusals R quota (pg_storage s)"
    using Cons.prems(4) refuses_now unfolding covers_refusals_def by blast
  then have "playground_inv R (playground_step quota t e s)"
    using Cons.prems by (intro playground_step_inv) auto
  then show ?case using Cons.IH [of "playground_step quota t e s"] Cons.prems by (simp add: playground_run_def)
qed

lemma initial_inv: "playground_inv R (usePlaygroundState st)"
  by (simp add: playground_inv_def queue_inv_def usePlaygroundState_def versioned_def exI [of _ "[]"])

lemma shown_saved:
  assumes "list_all keeps_versions es" and "loads_undisturbed quota t es (usePlaygroundState st)"
    and "s = playground_run quota t es (usePlaygroundState st)" and "pg_hasLoadedMessages s" and "pg_queue s = []"
  defines "R \<equiv> refuses quota t es (usePlaygroundState st)"
  shows "pg_saveTimer s \<or> stored_or_refused R (pg_messages s) (pg_storage s)"
    and "stored_or_refused R (pg_messages s) (pg_storage (playground_step quota t Unmount s))"
    and "pg_latestMessages s = pg_messages s"
proof -
  have inv: "playground_inv R s" and R: "covers_refusals R quota (pg_storage s)"
    using playground_run_inv [OF initial_inv assms(1,2), of R] by (auto simp: R_def assms(3))
  show m: "pg_latestMessages s = pg_messages s" using inv assms(5) by (auto simp: playground_inv_def queue_inv_def)
  then show a: "pg_saveTimer s \<or> stored_or_refused R (pg_messages s) (pg_storage s)"
    using inv assms(4) by (auto simp: playground_inv_def)
  have "versioned (pg_messages s)" using inv by (simp add: playground_inv_def)
  then show "stored_or_refused R (pg_messages s) (pg_storage (playground_step quota t Unmount s))"
    using a m inv save_holds [OF _ R, of "pg_messages s"]
    by (auto simp: playground_step_def unmount_page_def save_timer_def playground_inv_def)
qed

text \<open>
  C24: What the delayed saving keeps.  In every run of the page in which no update is waiting at the moment the stored conversation
  is loaded and every update leaves each message a version: once the conversation is loaded and all queued updates have
  run, either a save is scheduled or the storage holds the conversation shown, unless the browser refuses to store that
  very conversation; earlier writes may have been refused.  Removing the page flushes the scheduled save, so afterwards the
  storage holds the conversation that was shown, with the same exception; a refused write leaves what was stored before.
\<close>

theorem playground_saves_conversation:
  assumes "list_all keeps_versions es" and "loads_undisturbed quota t es (usePlaygroundState st)"
    and "s = playground_run quota t es (usePlaygroundState st)" and "pg_hasLoadedMessages s" and "pg_queue s = []"
  shows "(pg_saveTimer s \<or> holds (pg_messages s) (pg_storage s) \<or> refuses quota t es (usePlaygroundState st) (pg_messages s))
    \<and> (holds (pg_messages s) (pg_storage (playground_step quota t Unmount s)) \<or> refuses quota t es (usePlaygroundState st) (pg_messages s))
    \<and> pg_storage (playground_step quota t Unmount s) KEY_MESSAGES \<in> {pg_storage s KEY_MESSAGES, Some (stored_text (pg_messages s))}"
proof -
  have "pg_latestMessages s = pg_messages s"
    by (rule shown_saved(3) [OF assms])
  then have "pg_storage (playground_step quota t Unmount s) KEY_MESSAGES \<in> {pg_storage s KEY_MESSAGES, Some (stored_text (pg_messages s))}"
    using save_or_keep [of quota "pg_messages s" "pg_storage s"] by (simp add: playground_step_def unmount_page_def save_timer_def)
  then show ?thesis using shown_saved [OF assms] by (simp add: stored_or_refused_def)
qed

text \<open>
  Without the first condition a conversation can be lost: an update that was called before the load and runs after it
  schedules the save of its own list, while the page shows the loaded one; the save then overwrites the stored conversation.
\<close>

lemma early_update_overwrites:
  assumes "loadMessages quota t clock now st = (Some loaded, st')" "versioned ms" "\<And>st. quota st"
    and "s = playground_run quota t [UpdateMessages (Inl ms), LoadTimer clock now, RunUpdate, RunUpdate, SaveTimer] (usePlaygroundState st)"
  shows "pg_messages s = loaded \<and> pg_storage s KEY_MESSAGES = Some (stored_text ms)"
proof -
  have "saveMessages quota ms st' = st'(KEY_MESSAGES \<mapsto> stored_text ms)"
    using assms(2,3) versioned_mono [OF assms(2) set_trimMessages] by (intro saveMessages_stores) (simp_all add: versioned_def)
  then show ?thesis unfolding assms(4)
    by (simp add: playground_run_def playground_step_def usePlaygroundState_def updateMessages_def load_timer_def assms(1)
        run_update_def persistMessages_def applyMessageStateUpdate_def save_timer_def opt_or_def Let_def)
qed

lemma load_settled:
  assumes "st KEY_MESSAGES = Some (stored_text ms)" and kept: "kept = snd (trimMessages ms)"
    and ok: "storable kept" "list_all settled kept" "total_size kept \<le> 120000" and "length (stored_text ms) \<le> 1048576"
  shows "fst (loadMessages quota t clock now st) = Some (map without_attachments kept)"
proof -
  define ns where "ns = map without_attachments kept"
  have s: "list_all settled ns" using ok(2) by (simp add: ns_def list_all_iff)
  have "map (\<lambda>(i, m). snd (normalizeStoredMessageForLoad (clock i) m)) (enumerate 0 ns) = ns"
    using arg_cong [OF normalize_all_settled [OF s, of clock 0], of "map snd"] by (simp add: comp_def case_prod_unfold)
  moreover have "snd (trimMessages ns) = ns"
    using kept length_trimMessages [of ms] by (simp add: trimMessages_def ns_def)
  moreover have "trimMessagesByContentSize ns = ns"
    by (rule trim_by_size_all) (use ok(3) in \<open>simp add: ns_def total_size_def comp_def MAX_LOADED_MESSAGES_CHARS_def\<close>)
  ultimately show ?thesis
    using load_stored [of ms st quota t clock now] assms sanitize_settled [OF s, of t now] by (simp add: ns_def)
qed

lemma opened_messages:
  "pg_messages (playground_run quota t [LoadTimer clock now, RunUpdate] (usePlaygroundState st)) =
     opt_or (fst (loadMessages quota t clock now st)) []"
  by (cases "loadMessages quota t clock now st")
    (simp add: playground_run_def playground_step_def load_timer_def usePlaygroundState_def run_update_def Let_def)

text \<open>
  C11: Closing the page and opening it again.  In every run as above, with all queued updates run, the page that is opened after
  closing shows the last 100 messages of the conversation that was shown, without their attachments, provided these are
  finished, printable, within the bounds of 120000 characters in all and of the size of a message, not of the repeated form
  that loading collapses, their text as stored is at most 1 MiB, and the browser does not refuse to store them.  Any other
  write may have been refused.
\<close>

theorem playground_reopen:
  assumes "list_all keeps_versions es" and "loads_undisturbed quota t es (usePlaygroundState st)"
    and s: "s = playground_run quota t es (usePlaygroundState st)" "pg_hasLoadedMessages s" "pg_queue s = []"
    and kept: "kept = snd (trimMessages (pg_messages s))"
    and ok: "storable kept" "list_all settled kept" "total_size kept \<le> 120000"
      "length (stored_text (pg_messages s)) \<le> 1048576" "\<not> refuses quota t es (usePlaygroundState st) (pg_messages s)"
  shows "pg_messages (playground_run quota' t' [LoadTimer clock now, RunUpdate]
    (usePlaygroundState (pg_storage (playground_step quota t Unmount s)))) = map without_attachments kept"
proof -
  define st' where "st' = pg_storage (playground_step quota t Unmount s)"
  have h: "holds (pg_messages s) st'"
    using shown_saved(2) [OF assms(1,2) s] ok(5) by (simp add: st'_def stored_or_refused_def)
  have "opt_or (fst (loadMessages quota' t' clock now st')) [] = map without_attachments kept"
  proof (cases "st' KEY_MESSAGES = Some (stored_text (pg_messages s))")
    case True
    then show ?thesis using load_settled [of st' "pg_messages s" kept quota' t' clock now] kept ok by (simp add: opt_or_def)
  next
    case False
    then have "pg_messages s = []" and "unreadable st'" using h by (auto simp: holds_def)
    then show ?thesis using unreadable_load [of st' quota' t' clock now] kept by (simp add: opt_or_def trimMessages_def)
  qed
  then show ?thesis by (simp add: opened_messages st'_def)
qed

text \<open>A visit during which the browser refuses every write of the settings.\<close>

definition sample_visit :: "playground_event list" where
  "sample_visit = [LoadTimer (\<lambda>_. 0) 0, RunUpdate, UpdateMessages (Inl [greeting]), UpdateConfig (SetStream False), RunUpdate]"

definition sample_quota :: "local_storage \<Rightarrow> bool" where
  "sample_quota st \<longleftrightarrow> st KEY_CONFIG = None"

lemma sample_quota_config [simp]: "saveConfig sample_quota c st = st"
  by (simp add: saveConfig_def caught_def writeStoredValue_def setItem_def sample_quota_def)

lemma sample_visit_run:
  "list_all keeps_versions sample_visit"
  "loads_undisturbed sample_quota id sample_visit (usePlaygroundState (\<lambda>_. None))"
  "pg_hasLoadedMessages (playground_run sample_quota id sample_visit (usePlaygroundState (\<lambda>_. None)))"
  "pg_queue (playground_run sample_quota id sample_visit (usePlaygroundState (\<lambda>_. None))) = []"
  "pg_messages (playground_run sample_quota id sample_visit (usePlaygroundState (\<lambda>_. None))) = [greeting]"
  by (simp_all add: sample_visit_def keeps_versions_def updater_keeps_versions_def applyMessageStateUpdate_def versioned_def
      greeting_def createUserMessage_def playground_run_def playground_step_def load_timer_def usePlaygroundState_def Let_def
      loadMessages_def readStoredMessagesValue_def updateMessages_def updateConfig_def run_update_def persistMessages_def
      split: prod.splits)

lemma sample_visit_accepted: "\<not> refuses sample_quota id sample_visit (usePlaygroundState (\<lambda>_. None)) [greeting]"
  by (simp add: sample_visit_def playground_step_def load_timer_def usePlaygroundState_def Let_def sample_quota_def
      loadMessages_def readStoredMessagesValue_def updateMessages_def updateConfig_def run_update_def persistMessages_def
      applyMessageStateUpdate_def KEY_MESSAGES_def KEY_CONFIG_def split: prod.splits)

theorem playground_saves_conversation_witness:
  "holds [greeting] (pg_storage (playground_step sample_quota id Unmount
     (playground_run sample_quota id sample_visit (usePlaygroundState (\<lambda>_. None)))))"
  using playground_saves_conversation [OF sample_visit_run(1,2) refl sample_visit_run(3,4)] sample_visit_run(5) sample_visit_accepted
  by simp

theorem playground_reopen_witness:
  "pg_messages (playground_run (\<lambda>_. True) id [LoadTimer (\<lambda>_. 0) 9, RunUpdate]
     (usePlaygroundState (pg_storage (playground_step sample_quota id Unmount
        (playground_run sample_quota id sample_visit (usePlaygroundState (\<lambda>_. None))))))) = [without_attachments greeting]"
proof -
  have "[greeting] = snd (trimMessages [greeting])" by (simp add: trimMessages_def MAX_STORED_MESSAGES_def)
  then show ?thesis
    using playground_reopen [OF sample_visit_run(1,2) refl sample_visit_run(3,4), of "[greeting]"] sample_visit_run(5)
      sample_visit_accepted greeting_ok greeting_stored by simp
qed

subsection \<open>The options settle\<close>

lemma offered_iff: "list_ex (\<lambda>m. mo_value m = v) ms \<longleftrightarrow> v \<in> mo_value ` set ms"
  by (auto simp: list_ex_iff)

text \<open>
  Applying the fetched options settles: afterwards the token is the one the server resolved and the model is one of
  those offered (none when none is offered), and applying the same options again changes nothing, so the effect
  does not run for ever.
\<close>

theorem playground_options_settle:
  "apply_options quota data (apply_options quota data s) = apply_options quota data s
   \<and> cfg_selectedTokenId (pg_config (apply_options quota data s)) =
       (if opt_selectedTokenId data = 0 then None else Some (opt_selectedTokenId data))
   \<and> cfg_model (pg_config (apply_options quota data s)) \<in>
       (if opt_models data = [] then {[]} else mo_value ` set (opt_models data))"
proof -
  define s' where "s' = apply_options quota data s"
  define tok where "tok = (if opt_selectedTokenId data = 0 then None else Some (opt_selectedTokenId data))"
  have fields: "pg_tokens s' = opt_tokens data" "pg_models s' = opt_models data" "cfg_selectedTokenId (pg_config s') = tok"
    by (simp_all add: s'_def tok_def apply_options_def updateConfig_def Let_def split: option.splits)
  have model: "cfg_model (pg_config s') \<in> (if opt_models data = [] then {[]} else mo_value ` set (opt_models data))"
    by (cases "opt_models data")
      (auto simp: s'_def apply_options_def updateConfig_def Let_def getModelFallback_def shouldClearModelForOptions_def
        offered_iff)
  then have "getModelFallback (opt_models data) (cfg_model (pg_config s')) = None"
    and "\<not> shouldClearModelForOptions (opt_models data) (cfg_model (pg_config s'))"
    by (auto simp: getModelFallback_def shouldClearModelForOptions_def offered_iff split: if_splits)
  then have "apply_options quota data s' = s'"
    using fields by (simp add: apply_options_def Let_def tok_def)
  then show ?thesis using fields(3) model by (simp add: s'_def tok_def)
qed

subsection \<open>Parameter values, playground-parameters.ts\<close>

text \<open>Numbers with the values that are not finite.\<close>

datatype js_number = NaN | Infinite bool | Finite rat

text \<open>\<open>Number.parseFloat\<close>: the longest prefix that is a decimal literal.\<close>

definition parse_sign :: "string \<Rightarrow> bool \<times> string" where
  "parse_sign s =
     (case s of
        c # cs \<Rightarrow> if c = CHR ''-'' then (True, cs) else if c = CHR ''+'' then (False, cs) else (False, s)
      | [] \<Rightarrow> (False, s))"

definition parseFloat :: "string \<Rightarrow> js_number" where
  "parseFloat text =
     (let (neg, s) = parse_sign (dropWhile is_ws text) in
      if startsWith s ''Infinity'' then Infinite neg
      else
        (let (ip, r) = span_digits s;
             (fp, r2) = (case r of c # cs \<Rightarrow> if c = CHR ''.'' then span_digits cs else ([], r) | [] \<Rightarrow> ([], r));
             e = (case parse_exp r2 of Some (e, _) \<Rightarrow> e | None \<Rightarrow> 0);
             q = scale10 (of_nat (digits_value ip) + of_nat (digits_value fp) / 10 ^ length fp) e in
         if ip = [] \<and> fp = [] then NaN else Finite (if neg then - q else q)))"

record PlaygroundParameterControl =
  pc_key :: parameter_key
  pc_labelKey :: string
  pc_descriptionKey :: string
  pc_valueType :: string
  pc_min :: rat
  pc_max :: rat
  pc_step :: rat

definition PLAYGROUND_PARAMETER_CONTROLS :: "PlaygroundParameterControl list" where
  "PLAYGROUND_PARAMETER_CONTROLS =
     [\<lparr>pc_key = Temperature, pc_labelKey = ''Temperature'', pc_descriptionKey = ''Controls randomness and creativity'',
       pc_valueType = ''slider'', pc_min = 1 / 10, pc_max = 1, pc_step = 1 / 10\<rparr>,
      \<lparr>pc_key = Top_p, pc_labelKey = ''Top P'', pc_descriptionKey = ''Limits token selection to a probability mass'',
       pc_valueType = ''slider'', pc_min = 1 / 10, pc_max = 1, pc_step = 1 / 10\<rparr>,
      \<lparr>pc_key = Frequency_penalty, pc_labelKey = ''Frequency Penalty'', pc_descriptionKey = ''Reduces repeated wording'',
       pc_valueType = ''slider'', pc_min = - 2, pc_max = 2, pc_step = 1 / 10\<rparr>,
      \<lparr>pc_key = Presence_penalty, pc_labelKey = ''Presence Penalty'', pc_descriptionKey = ''Encourages new topics'',
       pc_valueType = ''slider'', pc_min = - 2, pc_max = 2, pc_step = 1 / 10\<rparr>,
      \<lparr>pc_key = Max_tokens, pc_labelKey = ''Max Tokens'', pc_descriptionKey = ''Caps the response length'',
       pc_valueType = ''number'', pc_min = 0, pc_max = 200000, pc_step = 1\<rparr>,
      \<lparr>pc_key = Seed, pc_labelKey = ''Seed'', pc_descriptionKey = ''Keeps compatible responses more repeatable'',
       pc_valueType = ''number'', pc_min = 0, pc_max = 2147483647, pc_step = 1\<rparr>]"

datatype parameter_input = InText string | InNumber js_number

definition clamp :: "rat \<Rightarrow> rat \<Rightarrow> js_number \<Rightarrow> rat" where
  "clamp lo hi v = (case v of Finite q \<Rightarrow> min hi (max lo q) | Infinite neg \<Rightarrow> if neg then min hi lo else hi | NaN \<Rightarrow> 0)"

text \<open>\<open>Number(x.toFixed(p))\<close>: the nearest multiple, the larger one in magnitude where two are as near.\<close>

definition to_fixed :: "nat \<Rightarrow> rat \<Rightarrow> rat" where
  "to_fixed p x =
     (let r = (\<lambda>y. of_int \<lfloor>y * 10 ^ p + 1 / 2\<rfloor> / 10 ^ p) in if x < 0 then - r (- x) else r x)"

definition js_trunc :: "rat \<Rightarrow> rat" where
  "js_trunc x = (if x < 0 then - of_int \<lfloor>- x\<rfloor> else of_int \<lfloor>x\<rfloor>)"

definition step_precision :: "rat \<Rightarrow> nat" where
  "step_precision step = (case split_on (CHR ''.'') (number_str step) of _ # f # _ \<Rightarrow> length f | _ \<Rightarrow> 0)"

definition normalizeParameterNumberValue :: "parameter_key \<Rightarrow> parameter_input \<Rightarrow> rat option" where
  "normalizeParameterNumberValue key value =
     (if value = InText [] then (if key = Seed then None else Some 0)
      else
        (let control = List.find (\<lambda>c. pc_key c = key) PLAYGROUND_PARAMETER_CONTROLS;
             parsed = (case value of InNumber n \<Rightarrow> n | InText s \<Rightarrow> parseFloat s) in
         case control of
           None \<Rightarrow> (if key = Seed then None else Some 0)
         | Some c \<Rightarrow>
             if parsed = NaN then (if key = Seed then None else Some 0)
             else
               (let clamped = clamp (pc_min c) (pc_max c) parsed in
                if pc_step c \<ge> 1 then Some (js_trunc clamped)
                else Some (to_fixed (step_precision (pc_step c)) clamped))))"

definition getParameterControlValueText :: "parameter_key \<Rightarrow> rat option \<Rightarrow> string" where
  "getParameterControlValueText key value =
     (case value of None \<Rightarrow> if key = Seed then ''Not set'' else ''null'' | Some q \<Rightarrow> number_str q)"

definition entered_number :: "parameter_input \<Rightarrow> js_number" where
  "entered_number v = (case v of InNumber n \<Rightarrow> n | InText s \<Rightarrow> parseFloat s)"

lemma decimal_places_one_tenth: "decimal_places (1 / 10) = 1"
proof -
  have "\<not> is_integer (1 / 10)" by (simp add: is_integer_def floor_divide_of_int_eq [of 1 10, simplified])
  moreover have "is_integer 1" by (simp add: is_integer_def)
  ultimately show ?thesis by (simp add: decimal_places_def numeral_eq_Suc)
qed

lemma step_precision_tenth: "step_precision (1 / 10) = 1"
proof -
  have "number_str (1 / 10) = ''0.1''"
    using decimal_one
    by (simp add: number_str_def positive_str_def decimal_places_one_tenth decimal_zero pad_zeros_def)
  then show ?thesis by (simp add: step_precision_def)
qed

lemma clamp_range: "lo \<le> hi \<Longrightarrow> v \<noteq> NaN \<Longrightarrow> lo \<le> clamp lo hi v \<and> clamp lo hi v \<le> hi"
  by (cases v) (auto simp: clamp_def min_def max_def)

lemma round_tenth:
  assumes "of_int n \<le> 10 * (x :: rat)" and "10 * x \<le> of_int m"
  shows "n \<le> \<lfloor>x * 10 + 1 / 2\<rfloor> \<and> \<lfloor>x * 10 + 1 / 2\<rfloor> \<le> m"
  using assms by (simp add: le_floor_iff floor_le_iff mult.commute)

lemma to_fixed_range:
  assumes "of_int n / 10 \<le> x" and "x \<le> of_int m / 10"
  shows "of_int n / 10 \<le> to_fixed 1 x \<and> to_fixed 1 x \<le> of_int m / 10 \<and> is_integer (to_fixed 1 x * 10)"
proof (cases "x < 0")
  case True
  have "of_int (- m) \<le> 10 * (- x)" and "10 * (- x) \<le> of_int (- n)" using assms by simp_all
  from round_tenth [OF this] have "- m \<le> \<lfloor>- x * 10 + 1 / 2\<rfloor>" and "\<lfloor>- x * 10 + 1 / 2\<rfloor> \<le> - n" by simp_all
  moreover define r where "r = \<lfloor>- x * 10 + 1 / 2\<rfloor>"
  ultimately have "of_int n \<le> (- of_int r :: rat)" and "(- of_int r :: rat) \<le> of_int m"
    by (simp_all add: r_def flip: of_int_minus)
  moreover have "to_fixed 1 x = - of_int r / 10" using True by (simp add: to_fixed_def r_def)
  moreover have "is_integer (- of_int r)" by (simp add: is_integer_def flip: of_int_minus)
  ultimately show ?thesis by simp
next
  case False
  have "of_int n \<le> 10 * x" and "10 * x \<le> of_int m" using assms by simp_all
  from round_tenth [OF this] show ?thesis using False by (simp add: to_fixed_def is_integer_def)
qed

lemma js_trunc_range:
  assumes "0 \<le> x" and "x \<le> of_int m"
  shows "0 \<le> js_trunc x \<and> js_trunc x \<le> of_int m \<and> is_integer (js_trunc x)"
  using assms by (simp add: js_trunc_def is_integer_def) linarith

text \<open>
  A parameter that is entered stays in the range of its control: whatever number is typed or slid, infinite
  ones included, the value kept is between the control's bounds and on its grid.  What is not a number is kept as no
  seed, or as zero.
\<close>

theorem playground_parameters_in_range:
  "(if v = InText [] \<or> entered_number v = NaN
    then normalizeParameterNumberValue k v = (if k = Seed then None else Some 0)
    else \<exists>r c. normalizeParameterNumberValue k v = Some r \<and> c \<in> set PLAYGROUND_PARAMETER_CONTROLS \<and> pc_key c = k
      \<and> pc_min c \<le> r \<and> r \<le> pc_max c \<and> is_integer (r / pc_step c))"
proof (cases "v = InText [] \<or> entered_number v = NaN")
  case True
  then show ?thesis
    by (auto simp: normalizeParameterNumberValue_def entered_number_def Let_def split: option.splits)
next
  case False
  obtain c where find: "List.find (\<lambda>c. pc_key c = k) PLAYGROUND_PARAMETER_CONTROLS = Some c"
    by (cases k) (simp_all add: PLAYGROUND_PARAMETER_CONTROLS_def)
  then have c: "c \<in> set PLAYGROUND_PARAMETER_CONTROLS" "pc_key c = k" by (auto simp: find_Some_iff)
  define x where "x = clamp (pc_min c) (pc_max c) (entered_number v)"
  define r where "r = (if pc_step c \<ge> 1 then js_trunc x else to_fixed (step_precision (pc_step c)) x)"
  have norm: "normalizeParameterNumberValue k v = Some r"
    using False find by (simp add: normalizeParameterNumberValue_def entered_number_def Let_def x_def r_def)
  have controls: "pc_min c \<le> pc_max c"
    "pc_step c = 1 \<and> pc_min c = 0 \<and> (\<exists>m. pc_max c = of_int m)
     \<or> pc_step c = 1 / 10 \<and> (\<exists>n m. pc_min c = of_int n / 10 \<and> pc_max c = of_int m / 10)"
    using c(1) by (auto simp: PLAYGROUND_PARAMETER_CONTROLS_def
        intro: exI [of _ 200000] exI [of _ 2147483647] exI [of _ 1] exI [of _ 10] exI [of _ "- 20"] exI [of _ 20])
  have x: "pc_min c \<le> x \<and> x \<le> pc_max c" using clamp_range [OF controls(1)] False by (simp add: x_def)
  have "pc_min c \<le> r \<and> r \<le> pc_max c \<and> is_integer (r / pc_step c)"
    using controls(2)
  proof
    assume "pc_step c = 1 \<and> pc_min c = 0 \<and> (\<exists>m. pc_max c = of_int m)"
    then show ?thesis using x js_trunc_range by (auto simp: r_def)
  next
    assume "pc_step c = 1 / 10 \<and> (\<exists>n m. pc_min c = of_int n / 10 \<and> pc_max c = of_int m / 10)"
    then obtain n m where s: "pc_step c = 1 / 10" "pc_min c = of_int n / 10" "pc_max c = of_int m / 10" by blast
    have "r = to_fixed 1 x" unfolding r_def s(1) step_precision_tenth by simp
    then show ?thesis using to_fixed_range [of n x m] x unfolding s by simp
  qed
  then show ?thesis using False norm c unfolding if_not_P [OF False] by blast
qed

subsection \<open>The conversation, use-playground-conversation.ts\<close>

text \<open>The calls a handler makes, in order.  The messages are those of the render the handler belongs to.\<close>

datatype conversation_call =
    CallUpdateMessages "Message list + (Message list \<Rightarrow> Message list)"
  | CallSendChat "Message list"

definition handleSendMessage ::
  "string \<times> string \<times> string \<times> string \<Rightarrow> int \<Rightarrow> Message list \<Rightarrow> string \<Rightarrow> MessageAttachment list \<Rightarrow>
   conversation_call list" where
  "handleSendMessage ids now messages content attachments =
     (let nextMessages = appendUserMessagePair ids now messages content attachments in
      [CallUpdateMessages (Inl nextMessages), CallSendChat nextMessages])"

definition handleRegenerateMessage ::
  "string \<times> string \<Rightarrow> int \<Rightarrow> Message list \<Rightarrow> Message \<Rightarrow> conversation_call list" where
  "handleRegenerateMessage ids now messages m =
     (case createRegeneratedMessages ids now messages (m_key m) of
        None \<Rightarrow> []
      | Some nextMessages \<Rightarrow> [CallUpdateMessages (Inl nextMessages), CallSendChat nextMessages])"

definition handleEditMessage :: "Message \<Rightarrow> string option" where
  "handleEditMessage m = Some (m_key m)"

definition handleEditOpenChange :: "bool \<Rightarrow> string option \<Rightarrow> string option" where
  "handleEditOpenChange opened editingMessageKey = (if \<not> opened then None else editingMessageKey)"

definition applyEdit ::
  "string \<times> string \<Rightarrow> int \<Rightarrow> Message list \<Rightarrow> string option \<Rightarrow> string \<Rightarrow> bool \<Rightarrow>
   string option \<times> conversation_call list" where
  "applyEdit ids now messages editingMessageKey newContent shouldSubmit =
     (case editingMessageKey of
        None \<Rightarrow> (editingMessageKey, [])
      | Some k \<Rightarrow>
          if k = [] then (editingMessageKey, [])
          else (case applyMessageEdit ids now messages k newContent shouldSubmit of
              None \<Rightarrow> (editingMessageKey, [])
            | Some (edited, shouldSend) \<Rightarrow>
                (None, CallUpdateMessages (Inl edited) # (if shouldSend then [CallSendChat edited] else []))))"

definition handleDeleteMessage :: "Message \<Rightarrow> conversation_call list" where
  "handleDeleteMessage m = [CallUpdateMessages (Inr (\<lambda>previous. removeMessageByKey previous (m_key m)))]"

text \<open>The calls seen by the state hook, and the requests.\<close>

definition call_event :: "conversation_call \<Rightarrow> playground_event option" where
  "call_event c = (case c of CallUpdateMessages u \<Rightarrow> Some (UpdateMessages u) | CallSendChat _ \<Rightarrow> None)"

definition calls_keep_versions :: "conversation_call list \<Rightarrow> bool" where
  "calls_keep_versions cs \<longleftrightarrow> list_all keeps_versions (List.map_filter call_event cs)"

lemma keeps_versions_list: "versioned ms \<Longrightarrow> keeps_versions (UpdateMessages (Inl ms))"
  by (simp add: keeps_versions_def updater_keeps_versions_def applyMessageStateUpdate_def)

lemma versioned_append [simp]: "versioned (xs @ ys) \<longleftrightarrow> versioned xs \<and> versioned ys"
  "versioned [m] \<longleftrightarrow> m_versions m \<noteq> []" "versioned []"
  by (simp_all add: versioned_def)

lemma created_versions [simp]:
  "m_versions (createUserMessage k v c n a) \<noteq> []" "m_versions (createLoadingAssistantMessage k v n) \<noteq> []"
  by (simp_all add: createUserMessage_def createLoadingAssistantMessage_def)

lemma loading_message [simp]:
  "m_from (createLoadingAssistantMessage k v n) = ASSISTANT"
  "m_status (createLoadingAssistantMessage k v n) = Some LOADING"
  by (simp_all add: createLoadingAssistantMessage_def)

lemma versioned_take: "versioned ms \<Longrightarrow> versioned (take n ms)"
  by (erule versioned_mono) (rule set_take_subset)

lemma versioned_edit: "versioned ms \<Longrightarrow> versioned (map (edit_message now k c b) ms)"
  by (auto simp: versioned_def list_all_iff edit_message_def)

text \<open>The updates of every action leave each message a version, as the saving of the conversation asks of them.\<close>

lemma conversation_keeps_versions:
  assumes v: "versioned messages"
  shows "calls_keep_versions (handleSendMessage ids4 now messages content attachments)"
    and "calls_keep_versions (handleRegenerateMessage ids now messages m)"
    and "calls_keep_versions (snd (applyEdit ids now messages editing content submit))"
    and "calls_keep_versions (handleDeleteMessage m)"
proof -
  show "calls_keep_versions (handleSendMessage ids4 now messages content attachments)"
    using v by (cases ids4) (simp add: handleSendMessage_def appendUserMessagePair_def Let_def calls_keep_versions_def
        map_filter_simps call_event_def keeps_versions_list versioned_append(1) [of _ "_ # _"] versioned_def)
  show "calls_keep_versions (handleRegenerateMessage ids now messages m)"
    using versioned_take [OF v]
    by (auto simp: handleRegenerateMessage_def createRegeneratedMessages_def calls_keep_versions_def map_filter_simps
        call_event_def intro!: keeps_versions_list split: option.splits)
  show "calls_keep_versions (snd (applyEdit ids now messages editing content submit))"
    using versioned_edit [OF v] versioned_take
    by (auto simp: applyEdit_def applyMessageEdit_def Let_def calls_keep_versions_def map_filter_simps
        call_event_def intro!: keeps_versions_list split: option.splits)
  show "calls_keep_versions (handleDeleteMessage m)"
    by (auto simp: handleDeleteMessage_def calls_keep_versions_def map_filter_simps call_event_def keeps_versions_def
        updater_keeps_versions_def applyMessageStateUpdate_def removeMessageByKey_def intro: versioned_mono)
qed

text \<open>What the calls of an action put into the requests, and what the page shows once their update has run.\<close>

definition requested :: "PlaygroundConfig \<Rightarrow> ParameterEnabled \<Rightarrow> conversation_call list \<Rightarrow> ChatCompletionMessage list list" where
  "requested config en cs =
     List.map_filter (\<lambda>c. case c of CallSendChat sent \<Rightarrow> Some (req_messages (buildChatCompletionPayload sent config en)) | _ \<Rightarrow> None) cs"

definition shown_after ::
  "(local_storage \<Rightarrow> bool) \<Rightarrow> (string \<Rightarrow> string) \<Rightarrow> conversation_call list \<Rightarrow> playground \<Rightarrow> Message list" where
  "shown_after quota t cs s = pg_messages (playground_run quota t (List.map_filter call_event cs @ [RunUpdate]) s)"

definition user_request :: "string \<Rightarrow> MessageAttachment list \<Rightarrow> ChatCompletionMessage" where
  "user_request content attachments = \<lparr>api_role = USER, api_content = buildMessageContent content (map att_url attachments)\<rparr>"

definition api_messages :: "Message list \<Rightarrow> ChatCompletionMessage list" where
  "api_messages ms = map formatMessageForAPI (filter isValidMessage ms)"

lemma payload_messages: "req_messages (buildChatCompletionPayload sent config en) = api_messages sent"
  by (simp add: buildChatCompletionPayload_def api_messages_def)

lemma requested_simps [simp]:
  "requested config en [] = []"
  "requested config en (CallUpdateMessages u # cs) = requested config en cs"
  "requested config en (CallSendChat sent # cs) = api_messages sent # requested config en cs"
  unfolding requested_def payload_messages by (simp_all add: map_filter_simps)

lemma api_messages_simps [simp]:
  "api_messages [] = []" "api_messages (xs @ ys) = api_messages xs @ api_messages ys"
  by (simp_all add: api_messages_def)

lemma api_placeholder [simp]: "api_messages [createLoadingAssistantMessage k v now] = []"
  by (simp add: api_messages_def isValidMessage_def hasMessageContent_def getMessageContent_def getCurrentVersion_def
      createLoadingAssistantMessage_def createMessageVersion_def trim_def trim_by_def)

lemma api_user:
  "m_from m = USER \<Longrightarrow> m_versions m = [v] \<Longrightarrow>
    api_messages (m # ms) = user_request (v_content v) (opt_or (m_attachments m) []) # api_messages ms"
  by (simp add: api_messages_def isValidMessage_def formatMessageForAPI_def user_request_def getCurrentVersion_def)

lemma shown_one_update:
  assumes "pg_mounted s" "pg_queue s = []" "List.map_filter call_event cs = [UpdateMessages u]"
  shows "shown_after quota t cs s = applyMessageStateUpdate (pg_messages s) u"
  using assms by (simp add: shown_after_def playground_run_def playground_step_def updateMessages_def run_update_def Let_def)



subsection \<open>Guards and display helpers\<close>

text \<open>The wrapped action runs, or a warning with the translated label is shown.\<close>

definition WAIT_GENERATION :: string where
  "WAIT_GENERATION = ''Please wait for the current generation to complete''"

definition guardAction :: "(string \<Rightarrow> string) \<Rightarrow> bool \<Rightarrow> conversation_call list \<Rightarrow> string + conversation_call list" where
  "guardAction t isGenerating action = (if isGenerating then Inl (t WAIT_GENERATION) else Inr action)"

definition isAdminRole :: "int option \<Rightarrow> bool" where
  "isAdminRole role = (case role of None \<Rightarrow> False | Some r \<Rightarrow> r \<ge> 10)"

definition isErrorMessage :: "Message \<Rightarrow> bool" where
  "isErrorMessage m \<longleftrightarrow> m_status m = Some ERROR"

datatype error_kind = GenericError | ModelPriceError

record MessageErrorState =
  es_content :: string
  es_kind :: error_kind
  es_showSettingsLink :: bool

definition getMessageErrorState :: "Message \<Rightarrow> bool \<Rightarrow> MessageErrorState option" where
  "getMessageErrorState m isAdmin =
     (if \<not> isErrorMessage m then None
      else
        (let content = str_or (getMessageContent m) ''An unknown error occurred'';
             isModelPriceError = (m_errorCode m = Value ''model_price_error'') in
         Some \<lparr>es_content = content, es_kind = (if isModelPriceError then ModelPriceError else GenericError),
               es_showSettingsLink = (isModelPriceError \<and> isAdmin)\<rparr>))"

record MessageActionState =
  as_content :: string
  as_hasContent :: bool
  as_isAssistant :: bool
  as_isLoading :: bool
  as_isUser :: bool

definition getMessageActionState :: "Message \<Rightarrow> MessageActionState" where
  "getMessageActionState m =
     \<lparr>as_content = getMessageContent m, as_hasContent = hasMessageContent m, as_isAssistant = (m_from m = ASSISTANT),
      as_isLoading = (m_status m = Some LOADING \<or> m_status m = Some STREAMING), as_isUser = (m_from m = USER)\<rparr>"

record MessageEditorState =
  ed_canSave :: bool
  ed_hasChanged :: bool
  ed_showSaveAndSubmit :: bool

definition getMessageEditorState :: "Message \<Rightarrow> string \<Rightarrow> string \<Rightarrow> MessageEditorState" where
  "getMessageEditorState m editText originalText =
     (let hasText = length (trim editText) > 0; hasChanged = (editText \<noteq> originalText) in
      \<lparr>ed_canSave = (hasText \<and> hasChanged), ed_hasChanged = hasChanged, ed_showSaveAndSubmit = (m_from m = USER)\<rparr>)"

definition getSubmittableInputText :: "string option \<Rightarrow> bool \<Rightarrow> string option" where
  "getSubmittableInputText entered disabled =
     (case entered of None \<Rightarrow> None | Some s \<Rightarrow> if disabled \<or> trim s = [] then None else Some s)"

record InputControlState =
  ic_canSubmit :: bool
  ic_isSelectorDisabled :: bool
  ic_shouldShowStop :: bool

definition getInputControlState ::
  "bool \<Rightarrow> bool \<Rightarrow> bool \<Rightarrow> bool \<Rightarrow> bool \<Rightarrow> bool \<Rightarrow> ModelOption list \<Rightarrow> string \<Rightarrow> InputControlState" where
  "getInputControlState disabled hasStopHandler hasSelectedToken hasAttachments isGenerating isModelLoading models entered =
     \<lparr>ic_canSubmit = (\<not> disabled \<and> models \<noteq> [] \<and> hasSelectedToken \<and> (length (trim entered) > 0 \<or> hasAttachments)),
      ic_isSelectorDisabled = (disabled \<or> isModelLoading \<or> \<not> hasSelectedToken),
      ic_shouldShowStop = (isGenerating \<and> hasStopHandler)\<rparr>"

text \<open>Without a comma the search answers -1 and the whole text is the payload.\<close>

definition dataUrlByteLength :: "string \<Rightarrow> nat" where
  "dataUrlByteLength dataUrl =
     (let start = (case indexOf dataUrl '','' 0 of None \<Rightarrow> 0 | Some i \<Rightarrow> i + 1);
          payload = filter (\<lambda>c. \<not> is_ws c) (drop start dataUrl);
          unpadded = rev (dropWhile (\<lambda>c. c = CHR ''='') (rev payload)) in
      length unpadded * 3 div 4)"

text \<open>
  The size computed for an attached image is the number of its bytes: a data URL whose payload encodes \<open>n\<close> bytes
  in groups of three, with the last group padded, measures \<open>n\<close>.
\<close>

lemma dataUrlByteLength_exact:
  assumes "CHR '','' \<notin> set mime" and chars: "\<forall>c \<in> set body. \<not> is_ws c \<and> c \<noteq> CHR ''=''"
    and len: "length body = 4 * (n div 3) + (if n mod 3 = 0 then 0 else n mod 3 + 1)"
  shows "dataUrlByteLength (mime @ '','' @ body @ replicate pad (CHR ''='')) = n"
proof -
  have "find_at '','' mime = None" using assms(1) by (induction mime) (auto simp: startsWith_def)
  then have "find_at '','' (mime @ '','' @ body @ replicate pad (CHR ''='')) = Some (length mime)"
    using find_at_append [of "'',''" mime "CHR '',''" "[]"] by simp
  then have start: "indexOf (mime @ '','' @ body @ replicate pad (CHR ''='')) '','' 0 = Some (length mime)"
    by (simp add: indexOf_def)
  have "filter (\<lambda>c. \<not> is_ws c) (body @ replicate pad (CHR ''='')) = body @ replicate pad (CHR ''='')"
    using chars by (auto simp: filter_id_conv is_ws_def)
  moreover have "dropWhile (\<lambda>c. c = CHR ''='') (replicate pad (CHR ''='') @ rev body) = rev body"
  proof -
    have "dropWhile (\<lambda>c. c = CHR ''='') (rev body) = rev body"
      using chars by (cases body rule: rev_cases) simp_all
    then show ?thesis by (induction pad) simp_all
  qed
  ultimately have "dataUrlByteLength (mime @ '','' @ body @ replicate pad (CHR ''='')) = length body * 3 div 4"
    using start by (simp add: dataUrlByteLength_def)
  moreover have "length body * 3 div 4 = n"
  proof -
    define q r where "q = n div 3" and "r = n mod 3"
    have n: "3 * q + r = n" by (simp add: q_def r_def)
    have "r = 0 \<or> r = 1 \<or> r = 2" by (simp add: r_def) linarith
    then have "(4 * q + (if r = 0 then 0 else r + 1)) * 3 div 4 = 3 * q + r" by auto
    then show ?thesis using len n by (simp only: q_def r_def)
  qed
  ultimately show ?thesis by simp
qed

end
