(* ===== verification/HttpClient.thy ===== *)
theory HttpClient
  imports AuthSession JsonPrint
begin

text \<open>
  The HTTP client of the application, \<open>lib/http-client.ts\<close>, and the table of \<open>lib/server-error-message.ts\<close>: the
  sharing of concurrent GET requests, the interceptor that authorizes requests, and the interceptor that reads
  responses and repeats a request once after a token refresh.

  The client is a state machine on top of the authentication module: its state is that module, the requests made so
  far (numbered in the order they were made), the map of GET requests in flight and the path of the page.  What the
  package \<open>axios\<close> does with a request on the wire is an event; the requests that wait for a refresh
  continue when the refresh settles.  What leaves the client is put out: requests on the wire with their
  authorization, notifications, redirects and the results given to the callers.  Translation (\<open>i18next\<close>) is a parameter.

  Texts of the message table are lists of code units, since one of them has code units above 255.
\<close>

subsection \<open>Error messages, server-error-message.ts\<close>

definition serverErrorMessageKeys :: "(string \<times> units) list" where
  "serverErrorMessageKeys =
     [(''AUTH_SESSION_LIMIT'',
        code_units ''Too many active login sessions. On a device where you are already signed in, open Login sessions and use ''
        @ [8220] @ code_units ''Sign out other sessions'' @ [8221]
        @ code_units '' to revoke them. If you cannot access a signed-in device, reset your password to sign out all sessions.''),
      (''AUTH_SESSION_ISSUANCE_LIMIT'',
        code_units ''Too many login sessions were created recently. Please wait for the rolling window to pass, then try again.''),
      (''TELEGRAM_BIND_DISABLED'', code_units ''Telegram binding is disabled.''),
      (''TELEGRAM_BIND_INVALID_REQUEST'', code_units ''The Telegram authorization request is invalid or expired.''),
      (''TELEGRAM_BIND_FLOW_INVALID'', code_units ''This Telegram binding request has expired or has already been used.''),
      (''TELEGRAM_BIND_SESSION_INVALID'',
        code_units ''The login session that started this Telegram binding is no longer valid.''),
      (''TELEGRAM_BIND_ALREADY_BOUND'', code_units ''This Telegram account is already bound.''),
      (''TELEGRAM_BIND_USER_DELETED'', code_units ''This user account no longer exists.''),
      (''TELEGRAM_BIND_USER_DISABLED'', code_units ''This user account is disabled.''),
      (''TELEGRAM_BIND_INTERNAL_ERROR'', code_units ''Telegram binding failed. Please try again.'')]"

text \<open>A property of an object literal is looked up along its prototype chain, so a name every object
  inherits is found as well.\<close>

definition inherited_names :: "string list" where
  "inherited_names =
     [''constructor'', ''__defineGetter__'', ''__defineSetter__'', ''hasOwnProperty'', ''__lookupGetter__'',
      ''__lookupSetter__'', ''isPrototypeOf'', ''propertyIsEnumerable'', ''toString'', ''valueOf'', ''__proto__'',
      ''toLocaleString'']"

datatype message_key = MessageKey units | InheritedMember string

definition serverErrorPayload :: "jsval option \<Rightarrow> jsval option" where
  "serverErrorPayload value =
     (if \<not> is_record value then None
      else
        (let response = get_prop value ''response'' in
         if is_record response \<and> is_record (get_prop response ''data'') then get_prop response ''data'' else value))"

definition getServerErrorMessageKey :: "jsval option \<Rightarrow> message_key option" where
  "getServerErrorMessageKey value =
     (let payload = serverErrorPayload value; code = get_prop payload ''code'' in
      if payload = None \<or> \<not> is_str code then None
      else (case map_of serverErrorMessageKeys (the_str code) of
              Some k \<Rightarrow> Some (MessageKey k)
            | None \<Rightarrow> if the_str code \<in> set inherited_names then Some (InheritedMember (the_str code)) else None))"

subsection \<open>Requests\<close>

record api_config =
  cf_url :: string
  cf_params :: "jsval option"
  cf_headers :: "(string \<times> string) list"
  cf_skipBusinessError :: bool
  cf_skipErrorHandler :: bool
  cf_disableDuplicate :: bool
  cf_skipAuthRefresh :: bool
  cf_authRetry :: bool
  cf_acceptAuthRotation :: bool

text \<open>Errors are the values the handler reads; \<open>with_config\<close> says whether the error carries the request's
  configuration.\<close>

record api_error =
  ae_value :: "jsval option"
  ae_withConfig :: bool

datatype api_result = Fulfilled "jsval option" | Failed api_error | RotationError string | RefreshError

datatype request_phase = OnWire | AwaitRefresh api_error | Finished api_result

record api_request =
  rq_config :: api_config
  rq_phase :: request_phase
  rq_key :: "string option"

datatype client_output =
    Wire nat "string option"
  | SharedWith nat
  | Toast jsval
  | Redirect string
  | Result nat api_result
  | AuthOutput auth_output

record http_client =
  hc_auth :: auth_module
  hc_requests :: "api_request list"
  hc_inFlightGet :: "(string \<times> nat) list"
  hc_pathname :: string

definition initial_client :: "string \<Rightarrow> http_client" where
  "initial_client path =
     \<lparr>hc_auth = initial_module, hc_requests = [], hc_inFlightGet = [], hc_pathname = path\<rparr>"

text \<open>The request interceptor: the access token in the store at the time of sending.\<close>

definition authorize :: "auth_module \<Rightarrow> api_config \<Rightarrow> api_config" where
  "authorize auth cf =
     (case a_accessToken (as_store auth) of
        Some tok \<Rightarrow> if tok \<noteq> [] then cf\<lparr>cf_headers := AList.update ''Authorization'' (''Bearer '' @ tok) (cf_headers cf)\<rparr> else cf
      | None \<Rightarrow> cf)"

definition authorization :: "api_config \<Rightarrow> string option" where
  "authorization cf = map_of (cf_headers cf) ''Authorization''"

text \<open>A new request, and the same request sent again.\<close>

definition send_new :: "string option \<Rightarrow> api_config \<Rightarrow> http_client \<Rightarrow> http_client \<times> client_output list" where
  "send_new key cf c =
     (let cf' = authorize (hc_auth c) cf; i = length (hc_requests c) in
      (c\<lparr>hc_requests := hc_requests c @ [\<lparr>rq_config = cf', rq_phase = OnWire, rq_key = key\<rparr>],
         hc_inFlightGet := (case key of None \<Rightarrow> hc_inFlightGet c | Some k \<Rightarrow> AList.update k i (hc_inFlightGet c))\<rparr>,
       [Wire i (authorization cf')]))"

definition send_again :: "nat \<Rightarrow> api_config \<Rightarrow> http_client \<Rightarrow> http_client \<times> client_output list" where
  "send_again i cf c =
     (let cf' = authorize (hc_auth c) cf in
      (c\<lparr>hc_requests := (hc_requests c)[i := (hc_requests c ! i)\<lparr>rq_config := cf', rq_phase := OnWire\<rparr>]\<rparr>,
       [Wire i (authorization cf')]))"

definition get_key :: "auth_module \<Rightarrow> api_config \<Rightarrow> string" where
  "get_key auth cf =
     (let params = (case cf_params cf of
            Some p \<Rightarrow> if truthy (Some p) then JSON_stringify p else ''{}''
          | None \<Rightarrow> ''{}'');
          sessionSID = (case sid_of (a_session (as_store auth)) of
            Some s \<Rightarrow> if s \<noteq> [] then s else ''anonymous''
          | None \<Rightarrow> ''anonymous'') in
      sessionSID @ '':'' @ cf_url cf @ ''?'' @ params)"

definition api_get :: "api_config \<Rightarrow> http_client \<Rightarrow> http_client \<times> client_output list" where
  "api_get cf c =
     (if cf_disableDuplicate cf then send_new None cf c
      else
        (let key = get_key (hc_auth c) cf in
         case map_of (hc_inFlightGet c) key of
           Some i \<Rightarrow> (c, [SharedWith i])
         | None \<Rightarrow> send_new (Some key) cf c))"

definition api_other :: "api_config \<Rightarrow> http_client \<Rightarrow> http_client \<times> client_output list" where
  "api_other cf c = send_new None cf c"

definition redirectToSignIn :: "http_client \<Rightarrow> client_output list" where
  "redirectToSignIn c = (if hc_pathname c \<noteq> ''/sign-in'' then [Redirect ''/sign-in''] else [])"

text \<open>A promise settles: the caller has its result and a shared GET request leaves the map.\<close>

definition finish :: "nat \<Rightarrow> api_result \<Rightarrow> http_client \<Rightarrow> http_client \<times> client_output list" where
  "finish i result c =
     (c\<lparr>hc_requests := (hc_requests c)[i := (hc_requests c ! i)\<lparr>rq_phase := Finished result\<rparr>],
        hc_inFlightGet := (case rq_key (hc_requests c ! i) of
            None \<Rightarrow> hc_inFlightGet c | Some k \<Rightarrow> AList.delete k (hc_inFlightGet c))\<rparr>,
      [Result i result])"

definition and_then ::
  "http_client \<times> client_output list \<Rightarrow> (http_client \<Rightarrow> http_client \<times> client_output list) \<Rightarrow>
   http_client \<times> client_output list" where
  "and_then p f = (let (c, os) = p; (c', os') = f c in (c', os @ os'))"

subsection \<open>The response interceptor\<close>

definition first_truthy :: "jsval option list \<Rightarrow> jsval \<Rightarrow> jsval" where
  "first_truthy vs d = (case List.find truthy vs of Some (Some v) \<Rightarrow> v | _ \<Rightarrow> d)"

definition business_error_toast :: "(message_key \<Rightarrow> string) \<Rightarrow> jsval option \<Rightarrow> jsval" where
  "business_error_toast t data =
     (case getServerErrorMessageKey data of
        Some k \<Rightarrow> JStr (t k)
      | None \<Rightarrow> first_truthy [get_prop data ''message''] (JStr (t (MessageKey (code_units ''Request failed'')))))"

fun rotation_failure :: "auth_output list \<Rightarrow> string option" where
  "rotation_failure [] = None"
| "rotation_failure (RotationFailed m # os) = Some m"
| "rotation_failure (_ # os) = rotation_failure os"

definition response_handler ::
  "(message_key \<Rightarrow> string) \<Rightarrow> nat \<Rightarrow> jsval option \<Rightarrow> http_client \<Rightarrow> http_client \<times> client_output list" where
  "response_handler t i data c =
     (let cf = rq_config (hc_requests c ! i);
          rotates = (cf_acceptAuthRotation cf \<and> get_prop data ''success'' = Some (JBool True));
          (auth, os) = (if rotates then applyAuthRotation (get_prop data ''data'') (hc_auth c) else (hc_auth c, []));
          c1 = c\<lparr>hc_auth := auth\<rparr> in
      case rotation_failure os of
        Some m \<Rightarrow> finish i (RotationError m) c1
      | None \<Rightarrow>
          and_then
            (c1, map AuthOutput os
               @ (if \<not> cf_skipBusinessError cf \<and> get_prop data ''success'' = Some (JBool False)
                  then [Toast (business_error_toast t data)] else []))
            (finish i (Fulfilled data)))"

text \<open>What an error is read as.\<close>

definition error_status :: "api_error \<Rightarrow> rat option" where
  "error_status e =
     (let s = get_prop (get_prop (ae_value e) ''response'') ''status'' in if is_num s then Some (the_num s) else None)"

definition session_expired :: "(message_key \<Rightarrow> string) \<Rightarrow> bool \<Rightarrow> client_output list" where
  "session_expired t skipErrorHandler =
     (if \<not> skipErrorHandler then [Toast (JStr (t (MessageKey (code_units ''Session expired!''))))] else [])"

definition error_toast :: "(message_key \<Rightarrow> string) \<Rightarrow> api_error \<Rightarrow> jsval" where
  "error_toast t e =
     (case getServerErrorMessageKey (ae_value e) of
        Some k \<Rightarrow> JStr (t k)
      | None \<Rightarrow> first_truthy
          [get_prop (get_prop (get_prop (ae_value e) ''response'') ''data'') ''message'', get_prop (ae_value e) ''message'']
          (JStr (t (MessageKey (code_units ''Request failed'')))))"

text \<open>The handler up to the awaited refresh, and after it.\<close>

definition error_handler ::
  "(message_key \<Rightarrow> string) \<Rightarrow> nat \<Rightarrow> api_error \<Rightarrow> http_client \<Rightarrow> http_client \<times> client_output list" where
  "error_handler t i e c =
     (let cf = rq_config (hc_requests c ! i);
          skipErrorHandler = (ae_withConfig e \<and> cf_skipErrorHandler cf) in
      if error_status e = Some 401 then
        (if ae_withConfig e \<and> \<not> cf_skipAuthRefresh cf \<and> \<not> cf_authRetry cf then
           (c\<lparr>hc_requests := (hc_requests c)[i := (hc_requests c ! i)
                \<lparr>rq_config := cf\<lparr>cf_authRetry := True\<rparr>, rq_phase := AwaitRefresh e\<rparr>],
              hc_auth := refreshAuthentication (hc_auth c)\<rparr>, [])
         else if ae_withConfig e \<and> cf_authRetry cf then
           (let (auth, os) = clearAuthentication False Complete (hc_auth c); c1 = c\<lparr>hc_auth := auth\<rparr> in
            and_then (c1, map AuthOutput os @ session_expired t skipErrorHandler @ redirectToSignIn c1)
              (finish i (Failed e)))
         else and_then (c, session_expired t skipErrorHandler) (finish i (Failed e)))
      else and_then (c, if \<not> skipErrorHandler then [Toast (error_toast t e)] else []) (finish i (Failed e)))"

definition after_refresh ::
  "(message_key \<Rightarrow> string) \<Rightarrow> RefreshOutcome \<Rightarrow> nat \<Rightarrow> api_error \<Rightarrow> http_client \<Rightarrow> http_client \<times> client_output list" where
  "after_refresh t outcome i e c =
     (let cf = rq_config (hc_requests c ! i) in
      case outcome of
        Authenticated _ \<Rightarrow> send_again i (authorize (hc_auth c) cf) c
      | TransientError _ \<Rightarrow> finish i (Failed e) c
      | _ \<Rightarrow> and_then (c, session_expired t (cf_skipErrorHandler cf) @ redirectToSignIn c) (finish i (Failed e)))"

subsection \<open>The machine\<close>

text \<open>The requests that wait continue in the order they began to wait; they are numbered in that order up to
  the order of their responses, which does not matter to what they do.\<close>

definition waiting :: "http_client \<Rightarrow> nat list" where
  "waiting c = filter (\<lambda>i. case rq_phase (hc_requests c ! i) of AwaitRefresh _ \<Rightarrow> True | _ \<Rightarrow> False) [0..<length (hc_requests c)]"

definition resume ::
  "(nat \<Rightarrow> api_error \<Rightarrow> http_client \<Rightarrow> http_client \<times> client_output list) \<Rightarrow> nat \<Rightarrow> http_client \<Rightarrow>
   http_client \<times> client_output list" where
  "resume f i c = (case rq_phase (hc_requests c ! i) of AwaitRefresh e \<Rightarrow> f i e c | _ \<Rightarrow> (c, []))"

definition resume_all ::
  "(nat \<Rightarrow> api_error \<Rightarrow> http_client \<Rightarrow> http_client \<times> client_output list) \<Rightarrow> http_client \<Rightarrow>
   http_client \<times> client_output list" where
  "resume_all f c = foldl (\<lambda>p i. and_then p (resume f i)) (c, []) (waiting c)"

datatype client_event =
    ApiGet api_config
  | ApiOther api_config
  | ResponseOk nat "jsval option"
  | ResponseError nat api_error
  | AuthEvent auth_event

definition on_wire :: "http_client \<Rightarrow> nat \<Rightarrow> bool" where
  "on_wire c i \<longleftrightarrow> i < length (hc_requests c) \<and> rq_phase (hc_requests c ! i) = OnWire"

definition auth_continues ::
  "(message_key \<Rightarrow> string) \<Rightarrow> auth_output \<Rightarrow> http_client \<Rightarrow> http_client \<times> client_output list" where
  "auth_continues t x c =
     (case x of
        Settled outcome \<Rightarrow> resume_all (after_refresh t outcome) c
      | RefreshRejected \<Rightarrow> resume_all (\<lambda>i e. finish i RefreshError) c
      | _ \<Rightarrow> (c, []))"

definition client_step ::
  "(message_key \<Rightarrow> string) \<Rightarrow> client_event \<Rightarrow> http_client \<Rightarrow> http_client \<times> client_output list" where
  "client_step t ev c =
     (case ev of
        ApiGet cf \<Rightarrow> api_get cf c
      | ApiOther cf \<Rightarrow> api_other cf c
      | ResponseOk i data \<Rightarrow> if on_wire c i then response_handler t i data c else (c, [])
      | ResponseError i e \<Rightarrow> if on_wire c i then error_handler t i e c else (c, [])
      | AuthEvent e \<Rightarrow>
          (let (auth, os) = auth_step e (hc_auth c) in
           foldl (\<lambda>p x. and_then p (auth_continues t x)) (c\<lparr>hc_auth := auth\<rparr>, map AuthOutput os) os))"

definition run_client ::
  "(message_key \<Rightarrow> string) \<Rightarrow> client_event list \<Rightarrow> http_client \<Rightarrow> http_client \<times> client_output list" where
  "run_client t = run_steps (client_step t)"

subsection \<open>Moves of the client\<close>

text \<open>Every event is a sequence of six kinds of moves; the invariants below are proved once for each kind.\<close>

definition is_wire :: "client_output \<Rightarrow> bool" where
  "is_wire x \<longleftrightarrow> (case x of Wire _ _ \<Rightarrow> True | _ \<Rightarrow> False)"

fun is_finished :: "request_phase \<Rightarrow> bool" where
  "is_finished (Finished _) = True"
| "is_finished _ = False"

inductive moves :: "http_client \<Rightarrow> client_output list \<Rightarrow> http_client \<Rightarrow> bool" where
  stay: "moves c [] c"
| emit: "moves c os c' \<Longrightarrow> list_all (\<lambda>x. \<not> is_wire x) os' \<Longrightarrow> moves c (os @ os') c'"
| authenticate: "moves c os c' \<Longrightarrow> moves c os (c'\<lparr>hc_auth := auth\<rparr>)"
| send: "moves c os c' \<Longrightarrow> (\<And>k. key = Some k \<Longrightarrow> map_of (hc_inFlightGet c') k = None) \<Longrightarrow>
    moves c (os @ snd (send_new key cf c')) (fst (send_new key cf c'))"
| await: "moves c os c' \<Longrightarrow> on_wire c' i \<Longrightarrow> \<not> cf_authRetry (rq_config (hc_requests c' ! i)) \<Longrightarrow>
    moves c os (c'\<lparr>hc_requests := (hc_requests c')[i := (hc_requests c' ! i)
      \<lparr>rq_config := (rq_config (hc_requests c' ! i))\<lparr>cf_authRetry := True\<rparr>, rq_phase := AwaitRefresh e\<rparr>]\<rparr>)"
| again: "moves c os c' \<Longrightarrow> i < length (hc_requests c') \<Longrightarrow> rq_phase (hc_requests c' ! i) = AwaitRefresh e \<Longrightarrow>
    cf_authRetry cf = cf_authRetry (rq_config (hc_requests c' ! i)) \<Longrightarrow>
    moves c (os @ snd (send_again i cf c')) (fst (send_again i cf c'))"
| settle: "moves c os c' \<Longrightarrow> i < length (hc_requests c') \<Longrightarrow> \<not> is_finished (rq_phase (hc_requests c' ! i)) \<Longrightarrow>
    moves c (os @ snd (finish i r c')) (fst (finish i r c'))"

lemma moves_trans: "moves c1 os' c2 \<Longrightarrow> moves c os c1 \<Longrightarrow> moves c (os @ os') c2"
proof (induction rule: moves.induct)
  case (stay c)
  then show ?case by simp
next
  case (emit c os1 c' os2)
  then show ?case using moves.emit [of _ "os @ os1"] by simp
next
  case (authenticate c os1 c' auth)
  then show ?case by (simp add: moves.authenticate)
next
  case (send c os1 c' key cf)
  then show ?case using moves.send [of _ "os @ os1" c' key cf] by simp
next
  case (await c os1 c' i e)
  then show ?case using moves.await [of _ "os @ os1" c' i e] by simp
next
  case (again c os1 c' i e cf)
  then show ?case using moves.again [of _ "os @ os1" c' i e cf] by simp
next
  case (settle c os1 c' i r)
  then show ?case using moves.settle [of _ "os @ os1" c' i r] by simp
qed

lemma moves_and_then:
  "moves c (snd p) (fst p) \<Longrightarrow> moves (fst p) (snd (f (fst p))) (fst (f (fst p))) \<Longrightarrow>
   moves c (snd (and_then p f)) (fst (and_then p f))"
  using moves_trans by (simp add: and_then_def Let_def split_beta)

lemma send_new_moves:
  "(\<And>k. key = Some k \<Longrightarrow> map_of (hc_inFlightGet c) k = None) \<Longrightarrow>
   moves c (snd (send_new key cf c)) (fst (send_new key cf c))"
  using moves.send [OF moves.stay [of c], of key cf] by simp

lemma finish_moves:
  "i < length (hc_requests c) \<Longrightarrow> \<not> is_finished (rq_phase (hc_requests c ! i)) \<Longrightarrow>
   moves c (snd (finish i r c)) (fst (finish i r c))"
  using moves.settle [OF moves.stay [of c], of i r] by simp

lemma emit_finish_moves:
  assumes "i < length (hc_requests c)" and "\<not> is_finished (rq_phase (hc_requests c ! i))"
    and "list_all (\<lambda>x. \<not> is_wire x) os"
  shows "moves c (snd (and_then (c\<lparr>hc_auth := auth\<rparr>, os) (finish i r)))
    (fst (and_then (c\<lparr>hc_auth := auth\<rparr>, os) (finish i r)))"
proof (rule moves_and_then)
  show "moves c (snd (c\<lparr>hc_auth := auth\<rparr>, os)) (fst (c\<lparr>hc_auth := auth\<rparr>, os))"
    using moves.emit [OF moves.authenticate [OF moves.stay [of c], of auth] assms(3)] by simp
  show "moves (fst (c\<lparr>hc_auth := auth\<rparr>, os)) (snd (finish i r (fst (c\<lparr>hc_auth := auth\<rparr>, os))))
    (fst (finish i r (fst (c\<lparr>hc_auth := auth\<rparr>, os))))"
    using assms by (intro finish_moves) simp_all
qed

lemma auth_outputs_not_wire: "list_all (\<lambda>x. \<not> is_wire x) (map AuthOutput os)"
  by (simp add: list_all_iff is_wire_def)

lemma notices_not_wire:
  "list_all (\<lambda>x. \<not> is_wire x) (session_expired t b)" "list_all (\<lambda>x. \<not> is_wire x) (redirectToSignIn c)"
  by (simp_all add: session_expired_def redirectToSignIn_def is_wire_def)

lemma same_auth [simp]: "c\<lparr>hc_auth := hc_auth c\<rparr> = c"
  by simp

lemma on_wire_open: "on_wire c i \<Longrightarrow> i < length (hc_requests c) \<and> \<not> is_finished (rq_phase (hc_requests c ! i))"
  by (simp add: on_wire_def)

lemma response_handler_moves:
  assumes "on_wire c i"
  shows "moves c (snd (response_handler t i data c)) (fst (response_handler t i data c))"
proof -
  note op = on_wire_open [OF assms]
  define cf where "cf = rq_config (hc_requests c ! i)"
  obtain auth os where rot:
    "(if cf_acceptAuthRotation cf \<and> get_prop data ''success'' = Some (JBool True)
      then applyAuthRotation (get_prop data ''data'') (hc_auth c) else (hc_auth c, [])) = (auth, os)" by fastforce
  show ?thesis
  proof (cases "rotation_failure os")
    case (Some m)
    then have "response_handler t i data c = finish i (RotationError m) (c\<lparr>hc_auth := auth\<rparr>)"
      using rot by (simp add: response_handler_def Let_def cf_def)
    then show ?thesis
      using emit_finish_moves [of i c "[]" auth "RotationError m"] op by (simp add: and_then_def Let_def split_beta)
  next
    case None
    define toasts where "toasts = (if \<not> cf_skipBusinessError cf \<and> get_prop data ''success'' = Some (JBool False)
      then [Toast (business_error_toast t data)] else [])"
    have "response_handler t i data c = and_then (c\<lparr>hc_auth := auth\<rparr>, map AuthOutput os @ toasts) (finish i (Fulfilled data))"
      using rot None by (simp add: response_handler_def Let_def cf_def toasts_def)
    moreover have "list_all (\<lambda>x. \<not> is_wire x) (map AuthOutput os @ toasts)"
      using auth_outputs_not_wire by (simp add: toasts_def is_wire_def)
    ultimately show ?thesis using emit_finish_moves op by presburger
  qed
qed

lemma error_handler_moves:
  assumes "on_wire c i"
  shows "moves c (snd (error_handler t i e c)) (fst (error_handler t i e c))"
proof -
  note op = on_wire_open [OF assms]
  define cf where "cf = rq_config (hc_requests c ! i)"
  have plain: "moves c (snd (and_then (c, os) (finish i (Failed e)))) (fst (and_then (c, os) (finish i (Failed e))))"
    if "list_all (\<lambda>x. \<not> is_wire x) os" for os
    using emit_finish_moves [of i c os "hc_auth c" "Failed e"] op that by simp
  consider (wait) "error_status e = Some 401" "ae_withConfig e" "\<not> cf_skipAuthRefresh cf" "\<not> cf_authRetry cf"
    | (out) "error_status e = Some 401" "\<not> (ae_withConfig e \<and> \<not> cf_skipAuthRefresh cf \<and> \<not> cf_authRetry cf)"
        "ae_withConfig e \<and> cf_authRetry cf"
    | (skip) "error_status e = Some 401" "\<not> (ae_withConfig e \<and> \<not> cf_skipAuthRefresh cf \<and> \<not> cf_authRetry cf)"
        "\<not> (ae_withConfig e \<and> cf_authRetry cf)"
    | (other) "error_status e \<noteq> Some 401" by blast
  then show ?thesis
  proof cases
    case wait
    then show ?thesis
      using moves.authenticate [OF moves.await [OF moves.stay [of c], of i e], of "refreshAuthentication (hc_auth c)"] assms
      by (simp add: error_handler_def Let_def cf_def)
  next
    case out
    obtain auth os where clear: "clearAuthentication False Complete (hc_auth c) = (auth, os)" by fastforce
    define quiet where "quiet = map AuthOutput os @ session_expired t (ae_withConfig e \<and> cf_skipErrorHandler cf)
      @ redirectToSignIn (c\<lparr>hc_auth := auth\<rparr>)"
    have "error_handler t i e c = and_then (c\<lparr>hc_auth := auth\<rparr>, quiet) (finish i (Failed e))"
      using out clear by (simp add: error_handler_def Let_def cf_def quiet_def)
    moreover have "list_all (\<lambda>x. \<not> is_wire x) quiet"
      using auth_outputs_not_wire notices_not_wire by (simp add: quiet_def)
    ultimately show ?thesis using emit_finish_moves op by presburger
  next
    case skip
    then have "error_handler t i e c =
        and_then (c, session_expired t (ae_withConfig e \<and> cf_skipErrorHandler cf)) (finish i (Failed e))"
      by (auto simp: error_handler_def Let_def cf_def)
    then show ?thesis using plain [OF notices_not_wire(1)] by simp
  next
    case other
    then have "error_handler t i e c = and_then
        (c, if \<not> (ae_withConfig e \<and> cf_skipErrorHandler cf) then [Toast (error_toast t e)] else []) (finish i (Failed e))"
      by (simp add: error_handler_def Let_def cf_def)
    then show ?thesis using plain [of "if \<not> (ae_withConfig e \<and> cf_skipErrorHandler cf) then [Toast (error_toast t e)] else []"]
      by (simp add: is_wire_def)
  qed
qed

lemma authorize_retry [simp]: "cf_authRetry (authorize auth cf) = cf_authRetry cf"
  by (simp add: authorize_def split: option.split)

lemma after_refresh_moves:
  assumes "i < length (hc_requests c)" and "rq_phase (hc_requests c ! i) = AwaitRefresh e"
  shows "moves c (snd (after_refresh t outcome i e c)) (fst (after_refresh t outcome i e c))"
proof -
  have op: "\<not> is_finished (rq_phase (hc_requests c ! i))" using assms(2) by simp
  have plain: "moves c (snd (and_then (c, os) (finish i (Failed e)))) (fst (and_then (c, os) (finish i (Failed e))))"
    if "list_all (\<lambda>x. \<not> is_wire x) os" for os
    using emit_finish_moves [of i c os "hc_auth c" "Failed e"] op assms(1) that by simp
  have quiet: "list_all (\<lambda>x. \<not> is_wire x) (session_expired t b @ redirectToSignIn c)" for b
    using notices_not_wire by simp
  have again: "moves c (snd (send_again i cf c)) (fst (send_again i cf c))"
    if "cf_authRetry cf = cf_authRetry (rq_config (hc_requests c ! i))" for cf
    using moves.again [OF moves.stay [of c] assms that] by simp
  show ?thesis
    using again plain [OF quiet] finish_moves [OF assms(1) op]
    by (cases outcome) (simp_all add: after_refresh_def Let_def)
qed

lemma resume_moves:
  assumes "\<And>e. rq_phase (hc_requests c ! i) = AwaitRefresh e \<Longrightarrow> moves c (snd (f i e c)) (fst (f i e c))"
  shows "moves c (snd (resume f i c)) (fst (resume f i c))"
  using assms moves.stay by (auto simp: resume_def split: request_phase.split)

lemma finish_length [simp]: "length (hc_requests (fst (finish i r c))) = length (hc_requests c)"
  by (simp add: finish_def)

lemma moves_length: "moves c os c' \<Longrightarrow> length (hc_requests c) \<le> length (hc_requests c')"
  by (induction rule: moves.induct) (simp_all add: send_new_def send_again_def Let_def)

lemma resume_fold_moves:
  assumes f: "\<And>i e c. i < length (hc_requests c) \<Longrightarrow> rq_phase (hc_requests c ! i) = AwaitRefresh e \<Longrightarrow>
      moves c (snd (f i e c)) (fst (f i e c))"
    and "moves c0 (snd p) (fst p)" and "\<forall>i \<in> set ks. i < length (hc_requests (fst p))"
  shows "moves c0 (snd (foldl (\<lambda>p i. and_then p (resume f i)) p ks)) (fst (foldl (\<lambda>p i. and_then p (resume f i)) p ks))"
  using assms(2,3)
proof (induction ks arbitrary: p)
  case (Cons i js)
  have step: "moves (fst p) (snd (resume f i (fst p))) (fst (resume f i (fst p)))"
    using Cons.prems(2) by (intro resume_moves f) simp_all
  have all: "moves c0 (snd (and_then p (resume f i))) (fst (and_then p (resume f i)))"
    using moves_and_then [of c0 p "resume f i"] Cons.prems(1) step by blast
  have "length (hc_requests (fst p)) \<le> length (hc_requests (fst (and_then p (resume f i))))"
    using moves_length [OF step] by (simp add: and_then_def Let_def split_beta)
  then show ?case using Cons.IH [OF all] Cons.prems(2) by fastforce
qed simp

lemma resume_all_moves:
  assumes "\<And>i e c. i < length (hc_requests c) \<Longrightarrow> rq_phase (hc_requests c ! i) = AwaitRefresh e \<Longrightarrow>
      moves c (snd (f i e c)) (fst (f i e c))"
  shows "moves c (snd (resume_all f c)) (fst (resume_all f c))"
  unfolding resume_all_def by (rule resume_fold_moves [OF assms]) (simp_all add: moves.stay waiting_def)

lemma auth_continues_moves: "moves c (snd (auth_continues t x c)) (fst (auth_continues t x c))"
proof -
  have "moves c (snd (resume_all (after_refresh t outcome) c)) (fst (resume_all (after_refresh t outcome) c))" for outcome
    by (rule resume_all_moves) (rule after_refresh_moves)
  moreover have "moves c (snd (resume_all (\<lambda>i e. finish i RefreshError) c)) (fst (resume_all (\<lambda>i e. finish i RefreshError) c))"
    by (rule resume_all_moves) (simp add: finish_moves)
  ultimately show ?thesis by (simp add: auth_continues_def moves.stay split: auth_output.split)
qed

lemma continue_fold_moves:
  "moves c0 (snd p) (fst p) \<Longrightarrow>
   moves c0 (snd (foldl (\<lambda>p x. and_then p (auth_continues t x)) p xs)) (fst (foldl (\<lambda>p x. and_then p (auth_continues t x)) p xs))"
  by (induction xs arbitrary: p) (simp_all add: moves_and_then auth_continues_moves)

lemma client_step_moves: "moves c (snd (client_step t ev c)) (fst (client_step t ev c))"
proof (cases ev)
  case (ApiGet cf)
  then show ?thesis
    using send_new_moves [of None c cf] send_new_moves [of "Some (get_key (hc_auth c) cf)" c cf]
      moves.emit [OF moves.stay [of c], of "[SharedWith _]"]
    by (auto simp: client_step_def api_get_def Let_def is_wire_def split: option.split)
next
  case (ApiOther cf)
  then show ?thesis using send_new_moves [of None c cf] by (simp add: client_step_def api_other_def)
next
  case (AuthEvent e)
  obtain auth os where st: "auth_step e (hc_auth c) = (auth, os)" by fastforce
  have "moves c (map AuthOutput os) (c\<lparr>hc_auth := auth\<rparr>)"
    using moves.emit [OF moves.authenticate [OF moves.stay [of c], of auth] auth_outputs_not_wire] by simp
  then show ?thesis using AuthEvent st continue_fold_moves [of c "(c\<lparr>hc_auth := auth\<rparr>, map AuthOutput os)"]
    by (simp add: client_step_def)
qed (simp_all add: client_step_def response_handler_moves error_handler_moves moves.stay)

lemma run_client_moves: "moves c (snd (run_client t es c)) (fst (run_client t es c))"
proof (induction es arbitrary: c)
  case Nil
  then show ?case by (simp add: run_client_def moves.stay)
next
  case (Cons e es)
  obtain c1 os1 where st: "client_step t e c = (c1, os1)" by fastforce
  have "moves c os1 c1" using client_step_moves [of c t e] st by simp
  then show ?case using moves_trans [OF Cons.IH [of c1]] st by (simp add: run_client_def Let_def split_beta)
qed

subsection \<open>How often a request is sent\<close>

definition wires :: "client_output list \<Rightarrow> nat \<Rightarrow> nat" where
  "wires os i = length (filter (\<lambda>x. case x of Wire j _ \<Rightarrow> j = i | _ \<Rightarrow> False) os)"

lemma wires_simps [simp]:
  "wires [] i = 0" "wires (os @ os') i = wires os i + wires os' i"
  "wires [Wire j a] i = (if j = i then 1 else 0)" "wires [Result j r] i = 0"
  by (simp_all add: wires_def)

lemma wires_quiet: "list_all (\<lambda>x. \<not> is_wire x) os \<Longrightarrow> wires os i = 0"
  by (induction os) (auto simp: wires_def is_wire_def split: client_output.splits)

definition sent_within :: "api_request \<Rightarrow> nat \<Rightarrow> bool" where
  "sent_within r n \<longleftrightarrow>
     (let waits = (\<exists>e. rq_phase r = AwaitRefresh e) in
      n \<le> (if \<not> cf_authRetry (rq_config r) \<or> waits then 1 else 2) \<and> (waits \<longrightarrow> cf_authRetry (rq_config r)))"

definition sends_ok :: "http_client \<Rightarrow> client_output list \<Rightarrow> bool" where
  "sends_ok c os \<longleftrightarrow>
     (\<forall>i. if i < length (hc_requests c) then sent_within (hc_requests c ! i) (wires os i) else wires os i = 0)"

lemma sent_within_bound: "sent_within r n \<Longrightarrow> n \<le> 2"
  by (simp add: sent_within_def Let_def split: if_splits)

lemma sends_ok_bound: "sends_ok c os \<Longrightarrow> wires os i \<le> 2"
  using sent_within_bound by (metis sends_ok_def zero_le)

lemma sends_ok_same: "sends_ok c os \<Longrightarrow> (\<And>i. wires os' i = wires os i) \<Longrightarrow> hc_requests c' = hc_requests c \<Longrightarrow> sends_ok c' os'"
  by (simp add: sends_ok_def)

lemma sends_ok_update:
  assumes "sends_ok c os" and "i < length (hc_requests c)" and "sent_within r (wires os' i)"
    and "\<And>j. j \<noteq> i \<Longrightarrow> wires os' j = wires os j" and "hc_requests c' = (hc_requests c)[i := r]"
  shows "sends_ok c' os'"
  using assms by (auto simp: sends_ok_def nth_list_update split: if_splits)

lemma moves_sends_ok: "moves c os' c' \<Longrightarrow> sends_ok c os \<Longrightarrow> sends_ok c' (os @ os')"
proof (induction rule: moves.induct)
  case (stay c)
  then show ?case by simp
next
  case (emit c os1 c' os2)
  then show ?case using sends_ok_same [of c' "os @ os1" "os @ os1 @ os2" c'] by (simp add: wires_quiet)
next
  case (authenticate c os1 c' auth)
  then show ?case using sends_ok_same [of c' "os @ os1" "os @ os1"] by simp
next
  case (send c os1 c' key cf)
  then have ok: "sends_ok c' (os @ os1)" by simp
  have "if i < Suc (length (hc_requests c'))
      then sent_within (hc_requests (fst (send_new key cf c')) ! i) (wires (os @ os1 @ snd (send_new key cf c')) i)
      else wires (os @ os1 @ snd (send_new key cf c')) i = 0" for i
    using ok [unfolded sends_ok_def, THEN spec, of i]
    by (cases "i = length (hc_requests c')") (auto simp: send_new_def Let_def nth_append sent_within_def)
  moreover have "length (hc_requests (fst (send_new key cf c'))) = Suc (length (hc_requests c'))"
    by (simp add: send_new_def Let_def)
  ultimately show ?case unfolding sends_ok_def by presburger
next
  case (await c os1 c' i e)
  then have ok: "sends_ok c' (os @ os1)" and i: "i < length (hc_requests c')" by (simp_all add: on_wire_def)
  then have "sent_within (hc_requests c' ! i) (wires (os @ os1) i)" unfolding sends_ok_def by presburger
  then show ?case using await by (intro sends_ok_update [OF ok i]) (simp_all add: sent_within_def Let_def)
next
  case (again c os1 c' i e cf)
  then have ok: "sends_ok c' (os @ os1)" and i: "i < length (hc_requests c')" by simp_all
  then have "sent_within (hc_requests c' ! i) (wires (os @ os1) i)" unfolding sends_ok_def by presburger
  then show ?case using again
    by (intro sends_ok_update [OF ok i]) (auto simp: sent_within_def send_again_def Let_def)
next
  case (settle c os1 c' i r)
  then have ok: "sends_ok c' (os @ os1)" and i: "i < length (hc_requests c')" by simp_all
  then have "sent_within (hc_requests c' ! i) (wires (os @ os1) i)" unfolding sends_ok_def by presburger
  then show ?case
    by (intro sends_ok_update [OF ok i]) (auto simp: sent_within_def finish_def Let_def split: if_splits)
qed

lemma initial_sends_ok: "sends_ok (initial_client path) []"
  by (simp add: sends_ok_def initial_client_def)

subsection \<open>Shared GET requests\<close>

definition open_get :: "http_client \<Rightarrow> string \<Rightarrow> nat \<Rightarrow> bool" where
  "open_get c k i \<longleftrightarrow>
     i < length (hc_requests c) \<and> rq_key (hc_requests c ! i) = Some k \<and> \<not> is_finished (rq_phase (hc_requests c ! i))"

definition in_flight_exact :: "http_client \<Rightarrow> bool" where
  "in_flight_exact c \<longleftrightarrow> (\<forall>k i. map_of (hc_inFlightGet c) k = Some i \<longleftrightarrow> open_get c k i)"

lemma phase_update_open:
  assumes "i < length (hc_requests c)" and "rq_key r = rq_key (hc_requests c ! i)"
    and "is_finished (rq_phase r) = is_finished (rq_phase (hc_requests c ! i))"
  shows "open_get (c\<lparr>hc_requests := (hc_requests c)[i := r]\<rparr>) k j = open_get c k j"
  using assms by (auto simp: open_get_def nth_list_update)

lemma finish_open: "i < length (hc_requests c) \<Longrightarrow> open_get (fst (finish i r c)) k j \<longleftrightarrow> open_get c k j \<and> j \<noteq> i"
  by (auto simp: open_get_def finish_def nth_list_update)

lemma finish_map:
  "hc_inFlightGet (fst (finish i r c)) =
     (case rq_key (hc_requests c ! i) of None \<Rightarrow> hc_inFlightGet c | Some k \<Rightarrow> AList.delete k (hc_inFlightGet c))"
  by (simp add: finish_def)

lemma moves_in_flight: "moves c os c' \<Longrightarrow> in_flight_exact c \<Longrightarrow> in_flight_exact c'"
proof (induction rule: moves.induct)
  case (send c os1 c' key cf)
  then have ex: "in_flight_exact c'" by simp
  show ?case
  proof (cases key)
    case None
    then show ?thesis using ex
      by (auto simp: in_flight_exact_def open_get_def send_new_def Let_def nth_append less_Suc_eq)
  next
    case (Some k)
    have none: "\<not> open_get c' k j" for j using send(2) [OF Some] ex unfolding in_flight_exact_def by (metis option.distinct(1))
    then show ?thesis using ex Some
      by (auto simp: in_flight_exact_def send_new_def Let_def update_conv' open_get_def nth_append less_Suc_eq
          split: if_splits)
  qed
next
  case (await c os1 c' i e)
  then show ?case using phase_update_open [of i c'] by (simp add: in_flight_exact_def on_wire_def)
next
  case (again c os1 c' i e cf)
  then show ?case using phase_update_open [of i c'] by (simp add: in_flight_exact_def send_again_def Let_def)
next
  case (settle c os1 c' i r)
  then have ex: "in_flight_exact c'" by simp
  have i: "i < length (hc_requests c')" using settle by simp
  show ?case
  proof (cases "rq_key (hc_requests c' ! i)")
    case None
    have "\<not> open_get c' k i" for k using None by (simp add: open_get_def)
    then show ?thesis using ex None by (auto simp: in_flight_exact_def finish_open [OF i] finish_map)
  next
    case (Some k)
    have "open_get c' k i" using settle Some by (simp add: open_get_def)
    then have m: "map_of (hc_inFlightGet c') k = Some i" using ex by (simp add: in_flight_exact_def)
    have uniq: "j = i" if "open_get c' k j" for j
      using that ex m unfolding in_flight_exact_def by (metis option.inject)
    have "\<not> open_get c' k' i" if "k' \<noteq> k" for k' using that Some by (simp add: open_get_def)
    then show ?thesis using ex Some uniq
      by (auto simp: in_flight_exact_def finish_open [OF i] finish_map delete_conv' split: if_splits)
  qed
qed (auto simp: in_flight_exact_def open_get_def)

lemma initial_in_flight: "in_flight_exact (initial_client path)"
  by (simp add: in_flight_exact_def open_get_def initial_client_def)

subsection \<open>Waiting for a refresh\<close>

definition waits :: "http_client \<Rightarrow> nat \<Rightarrow> bool" where
  "waits c i \<longleftrightarrow> i < length (hc_requests c) \<and> (\<exists>e. rq_phase (hc_requests c ! i) = AwaitRefresh e)"

definition waiting_refreshes :: "http_client \<Rightarrow> bool" where
  "waiting_refreshes c \<longleftrightarrow> (\<forall>i. waits c i \<longrightarrow> as_refresh (hc_auth c) \<noteq> None)"

text \<open>A refresh that ends says so.\<close>

definition ends_refresh :: "auth_output \<Rightarrow> bool" where
  "ends_refresh x \<longleftrightarrow> (case x of Settled _ \<Rightarrow> True | RefreshRejected \<Rightarrow> True | _ \<Rightarrow> False)"

lemma clear_refresh [simp]: "as_refresh (fst (clearAuthentication b bs s)) = as_refresh s"
  by (simp add: clearAuthentication_def store_update_def)

lemma apply_bundle_refresh [simp]: "as_refresh (fst (applyAuthBundle b sync s)) = as_refresh s"
  by (simp add: applyAuthBundle_def store_update_def Let_def)

lemma apply_rotation_refresh [simp]: "as_refresh (fst (applyAuthRotation v s)) = as_refresh s"
  by (simp add: applyAuthRotation_def Let_def split: option.split)

lemma refresh_running [simp]: "as_refresh (refreshAuthentication s) \<noteq> None"
  by (simp add: refreshAuthentication_def)

lemma run_start_ends:
  "as_refresh (fst (run_start job s)) = None \<Longrightarrow> list_ex ends_refresh (snd (run_start job s))"
  by (auto simp: run_start_def settle_refresh_def ends_refresh_def split: if_splits)

lemma settle_after_ends: "list_ex ends_refresh (snd (settle_after outcome p))"
  by (simp add: settle_after_def settle_refresh_def ends_refresh_def)

lemma run_response_ends:
  "as_refresh (fst (run_response job r s)) = None \<Longrightarrow> list_ex ends_refresh (snd (run_response job r s))"
  by (cases rule: run_response_cases [of s job r])
    (auto simp: settle_after_ends run_start_ends settle_refresh_def ends_refresh_def)

lemma auth_step_ends:
  assumes "as_refresh s \<noteq> None" and "as_refresh (fst (auth_step e s)) = None"
  shows "list_ex ends_refresh (snd (auth_step e s))"
proof (cases e)
  case (Bootstrap now)
  then show ?thesis using assms
    by (auto simp: bootstrapAuthentication_def store_update_def Let_def split: option.splits if_splits)
next
  case LockRejected
  then show ?thesis using assms by (auto simp: lock_rejected_def ends_refresh_def split: option.splits if_splits)
qed (use assms run_start_ends run_response_ends in
    \<open>auto simp: store_update_def lock_granted_def response_received_def delay_elapsed_def
      split: option.splits if_splits refresh_phase.splits\<close>)

text \<open>Continuing the waiting requests leaves none of them waiting and the others as they are.\<close>

lemma resume_fold_waits:
  assumes f: "\<And>i e c. rq_phase (hc_requests c ! i) = AwaitRefresh e \<Longrightarrow>
      (\<forall>j. waits (fst (f i e c)) j \<longrightarrow> waits c j \<and> j \<noteq> i) \<and> hc_auth (fst (f i e c)) = hc_auth c"
  shows "(\<forall>j. waits (fst (foldl (\<lambda>p i. and_then p (resume f i)) p ks)) j \<longrightarrow> waits (fst p) j \<and> j \<notin> set ks)
    \<and> hc_auth (fst (foldl (\<lambda>p i. and_then p (resume f i)) p ks)) = hc_auth (fst p)"
proof (induction ks arbitrary: p)
  case (Cons i js)
  have "(\<forall>j. waits (fst (resume f i (fst p))) j \<longrightarrow> waits (fst p) j \<and> j \<noteq> i)
      \<and> hc_auth (fst (resume f i (fst p))) = hc_auth (fst p)"
  proof (cases "\<exists>e. rq_phase (hc_requests (fst p) ! i) = AwaitRefresh e")
    case True
    then obtain e where "rq_phase (hc_requests (fst p) ! i) = AwaitRefresh e" ..
    then show ?thesis using f [of "fst p" i e] by (simp add: resume_def)
  next
    case False
    then have "resume f i (fst p) = (fst p, [])" by (simp add: resume_def split: request_phase.split)
    then show ?thesis using False by (auto simp: waits_def)
  qed
  then show ?case using Cons.IH [of "and_then p (resume f i)"] by (auto simp: and_then_def Let_def split_beta)
qed simp

lemma waits_waiting: "waits c i \<longleftrightarrow> i \<in> set (waiting c)"
  by (auto simp: waits_def waiting_def split: request_phase.splits)

lemma resume_all_waits:
  assumes "\<And>i e c. rq_phase (hc_requests c ! i) = AwaitRefresh e \<Longrightarrow>
      (\<forall>j. waits (fst (f i e c)) j \<longrightarrow> waits c j \<and> j \<noteq> i) \<and> hc_auth (fst (f i e c)) = hc_auth c"
  shows "(\<forall>j. \<not> waits (fst (resume_all f c)) j) \<and> hc_auth (fst (resume_all f c)) = hc_auth c"
  using resume_fold_waits [OF assms, where p = "(c, [])" and ks = "waiting c"] waits_waiting
  by (auto simp: resume_all_def)

lemma finish_waits: "waits (fst (finish i r c)) j \<longrightarrow> waits c j \<and> j \<noteq> i"
  by (cases "i = j") (auto simp: waits_def finish_def)

lemma finish_auth [simp]: "hc_auth (fst (finish i r c)) = hc_auth c"
  by (simp add: finish_def)

lemma and_then_fst [simp]: "fst (and_then (c, os) f) = fst (f c)"
  by (simp add: and_then_def split_beta)

lemma send_again_waits:
  "waits (fst (send_again i cf c)) j \<longrightarrow> waits c j \<and> j \<noteq> i" "hc_auth (fst (send_again i cf c)) = hc_auth c"
  by (cases "i = j"; auto simp: waits_def send_again_def Let_def)+

lemma after_refresh_waits:
  "(\<forall>j. waits (fst (after_refresh t outcome i e c)) j \<longrightarrow> waits c j \<and> j \<noteq> i)
   \<and> hc_auth (fst (after_refresh t outcome i e c)) = hc_auth c"
proof -
  have f: "(\<forall>j. waits (fst (finish i r c)) j \<longrightarrow> waits c j \<and> j \<noteq> i) \<and> hc_auth (fst (finish i r c)) = hc_auth c" for r
    by (intro conjI allI finish_waits finish_auth)
  have g: "(\<forall>j. waits (fst (send_again i cf c)) j \<longrightarrow> waits c j \<and> j \<noteq> i) \<and> hc_auth (fst (send_again i cf c)) = hc_auth c" for cf
    by (intro conjI allI send_again_waits)
  show ?thesis
    by (cases outcome) (simp_all only: after_refresh_def Let_def RefreshOutcome.case and_then_fst, (rule f g)+)
qed

lemma auth_continues_waits:
  "hc_auth (fst (auth_continues t x c)) = hc_auth c"
  "waits (fst (auth_continues t x c)) j \<Longrightarrow> waits c j \<and> \<not> ends_refresh x"
proof -
  have r: "(\<forall>j. \<not> waits (fst (resume_all (after_refresh t outcome) c)) j)
      \<and> hc_auth (fst (resume_all (after_refresh t outcome) c)) = hc_auth c" for outcome
    by (rule resume_all_waits) (rule after_refresh_waits)
  have q: "(\<forall>j. \<not> waits (fst (resume_all (\<lambda>i e. finish i RefreshError) c)) j)
      \<and> hc_auth (fst (resume_all (\<lambda>i e. finish i RefreshError) c)) = hc_auth c"
    by (rule resume_all_waits) (simp add: finish_waits)
  show "hc_auth (fst (auth_continues t x c)) = hc_auth c"
    using r q by (simp add: auth_continues_def split: auth_output.split)
  show "waits (fst (auth_continues t x c)) j \<Longrightarrow> waits c j \<and> \<not> ends_refresh x"
    using r q by (cases x) (simp_all add: auth_continues_def ends_refresh_def)
qed

lemma continue_fold_waits:
  "hc_auth (fst (foldl (\<lambda>p x. and_then p (auth_continues t x)) p xs)) = hc_auth (fst p)
   \<and> (\<forall>j. waits (fst (foldl (\<lambda>p x. and_then p (auth_continues t x)) p xs)) j \<longrightarrow>
        waits (fst p) j \<and> list_all (\<lambda>x. \<not> ends_refresh x) xs)"
proof (induction xs arbitrary: p)
  case (Cons x xs)
  have "fst (and_then p (auth_continues t x)) = fst (auth_continues t x (fst p))"
    by (simp add: and_then_def Let_def split_beta)
  then show ?case using Cons.IH [of "and_then p (auth_continues t x)"] auth_continues_waits [of t x "fst p"]
    by (simp only: foldl_Cons list.pred_inject) metis
qed simp

lemma waits_auth [simp]: "waits (c\<lparr>hc_auth := auth\<rparr>) j = waits c j"
  by (simp add: waits_def)

lemma send_new_waits: "waits (fst (send_new key cf c)) j \<Longrightarrow> waits c j" "hc_auth (fst (send_new key cf c)) = hc_auth c"
  by (auto simp: waits_def send_new_def Let_def nth_append less_Suc_eq split: if_splits)

lemma response_handler_waits:
  "waits (fst (response_handler t i data c)) j \<Longrightarrow> waits c j"
  "as_refresh (hc_auth (fst (response_handler t i data c))) = as_refresh (hc_auth c)"
proof -
  define cf where "cf = rq_config (hc_requests c ! i)"
  define rot where "rot = (if cf_acceptAuthRotation cf \<and> get_prop data ''success'' = Some (JBool True)
      then applyAuthRotation (get_prop data ''data'') (hc_auth c) else (hc_auth c, []))"
  obtain r where h: "fst (response_handler t i data c) = fst (finish i r (c\<lparr>hc_auth := fst rot\<rparr>))"
    by (cases "rotation_failure (snd rot)") (simp_all add: response_handler_def Let_def cf_def rot_def split_beta)
  have "as_refresh (fst rot) = as_refresh (hc_auth c)" by (simp add: rot_def)
  then show "as_refresh (hc_auth (fst (response_handler t i data c))) = as_refresh (hc_auth c)" by (simp add: h)
  show "waits (fst (response_handler t i data c)) j \<Longrightarrow> waits c j"
    using finish_waits [of i r "c\<lparr>hc_auth := fst rot\<rparr>" j] by (simp add: h)
qed

lemma error_handler_waits:
  assumes "waiting_refreshes c"
  shows "waiting_refreshes (fst (error_handler t i e c))"
proof -
  define cf where "cf = rq_config (hc_requests c ! i)"
  consider (wait) "as_refresh (hc_auth (fst (error_handler t i e c))) \<noteq> None"
    | (closed) auth where "fst (error_handler t i e c) = fst (finish i (Failed e) (c\<lparr>hc_auth := auth\<rparr>))"
        "as_refresh auth = as_refresh (hc_auth c)"
  proof (cases "error_status e = Some 401 \<and> ae_withConfig e \<and> \<not> cf_skipAuthRefresh cf \<and> \<not> cf_authRetry cf")
    case True
    then show thesis using wait by (simp add: error_handler_def Let_def cf_def)
  next
    case False
    show thesis
    proof (cases "error_status e = Some 401 \<and> ae_withConfig e \<and> cf_authRetry cf")
      case True
      then have "fst (error_handler t i e c) =
          fst (finish i (Failed e) (c\<lparr>hc_auth := fst (clearAuthentication False Complete (hc_auth c))\<rparr>))"
        by (simp add: error_handler_def Let_def cf_def split_beta)
      then show thesis using closed by simp
    next
      case no: False
      have "fst (error_handler t i e c) = fst (finish i (Failed e) (c\<lparr>hc_auth := hc_auth c\<rparr>))"
        using False no by (auto simp: error_handler_def Let_def cf_def)
      then show thesis using closed by blast
    qed
  qed
  then show ?thesis
  proof cases
    case wait
    then show ?thesis by (simp add: waiting_refreshes_def)
  next
    case (closed auth)
    have "waits c j" if "waits (fst (error_handler t i e c)) j" for j
      using that finish_waits [of i "Failed e" "c\<lparr>hc_auth := auth\<rparr>" j] by (simp add: closed(1))
    then show ?thesis using assms by (auto simp: waiting_refreshes_def closed)
  qed
qed

lemma waiting_refreshes_mono:
  "waiting_refreshes c \<Longrightarrow> (\<And>j. waits c' j \<Longrightarrow> waits c j) \<Longrightarrow> as_refresh (hc_auth c') = as_refresh (hc_auth c) \<Longrightarrow>
   waiting_refreshes c'"
  by (auto simp: waiting_refreshes_def)

lemma send_new_refreshes: "waiting_refreshes c \<Longrightarrow> waiting_refreshes (fst (send_new key cf c))"
  by (erule waiting_refreshes_mono) (simp_all add: send_new_waits)

lemma response_handler_refreshes: "waiting_refreshes c \<Longrightarrow> waiting_refreshes (fst (response_handler t i data c))"
  by (erule waiting_refreshes_mono) (erule response_handler_waits, rule response_handler_waits)

lemma client_step_waits:
  assumes "waiting_refreshes c"
  shows "waiting_refreshes (fst (client_step t ev c))"
proof (cases ev)
  case (ApiGet cf)
  then show ?thesis using assms by (simp add: client_step_def api_get_def Let_def send_new_refreshes split: option.split)
next
  case (ApiOther cf)
  then show ?thesis using assms by (simp add: client_step_def api_other_def send_new_refreshes)
next
  case (ResponseOk i data)
  then show ?thesis using assms by (simp add: client_step_def response_handler_refreshes)
next
  case (ResponseError i e)
  then show ?thesis using assms error_handler_waits by (simp add: client_step_def)
next
  case (AuthEvent e)
  obtain auth os where st: "auth_step e (hc_auth c) = (auth, os)" by fastforce
  define c' where "c' = fst (client_step t ev c)"
  have "hc_auth c' = auth" and w: "\<And>j. waits c' j \<Longrightarrow> waits c j \<and> list_all (\<lambda>x. \<not> ends_refresh x) os"
    using continue_fold_waits [of t "(c\<lparr>hc_auth := auth\<rparr>, map AuthOutput os)" os] AuthEvent st
    by (simp_all add: c'_def client_step_def)
  moreover have "as_refresh auth \<noteq> None" if "waits c j" "list_all (\<lambda>x. \<not> ends_refresh x) os" for j
  proof
    assume "as_refresh auth = None"
    moreover have "as_refresh (hc_auth c) \<noteq> None" using assms that(1) by (auto simp: waiting_refreshes_def)
    ultimately have "list_ex ends_refresh os" using auth_step_ends [of "hc_auth c" e] st by simp
    then show False using that(2) by (auto simp: list_ex_iff list_all_iff)
  qed
  ultimately show ?thesis by (auto simp: waiting_refreshes_def c'_def [symmetric])
qed

subsection \<open>Properties of every run\<close>

text \<open>
  C9: A request is sent at most twice, whatever the server answers and however refreshes end: once, and once more
  after a refresh, so an answer 401 never starts a loop.
\<close>

theorem http_sent_at_most_twice:
  "wires (snd (run_client t es (initial_client path))) i \<le> 2"
  using sends_ok_bound moves_sends_ok [OF run_client_moves initial_sends_ok] by fastforce

text \<open>
  C25: No request waits for ever on a refresh that is over: in every state that can be reached, while a request
  waits for a refresh, a refresh is running.  So once no refresh is running, no request is left waiting.
\<close>

theorem http_waits_only_for_refresh:
  assumes "c = fst (run_client t es (initial_client path))" and "i < length (hc_requests c)"
    and "rq_phase (hc_requests c ! i) = AwaitRefresh e"
  shows "as_refresh (hc_auth c) \<noteq> None"
proof -
  have "waiting_refreshes (fst (run_client t es (initial_client path)))"
    unfolding run_client_def
    by (rule run_steps_state_invariant)
      (simp_all add: client_step_waits, simp add: waiting_refreshes_def waits_def initial_client_def)
  then show ?thesis using assms by (auto simp: waiting_refreshes_def waits_def)
qed

text \<open>
  C14: Concurrent GET requests are shared: in every state that can be reached there is at most one unfinished request
  for a key of session, address and parameters, and a further GET for it sends nothing but is given that request.
\<close>

theorem http_get_shared:
  assumes "c = fst (run_client t es (initial_client path))"
    and "i < length (hc_requests c)" and "rq_key (hc_requests c ! i) = Some k"
    and "\<not> is_finished (rq_phase (hc_requests c ! i))"
  shows "(\<forall>j < length (hc_requests c). rq_key (hc_requests c ! j) = Some k \<and> \<not> is_finished (rq_phase (hc_requests c ! j)) \<longrightarrow> j = i)
    \<and> (get_key (hc_auth c) cf = k \<and> \<not> cf_disableDuplicate cf \<longrightarrow> client_step t (ApiGet cf) c = (c, [SharedWith i]))"
proof -
  have ex: "in_flight_exact c" unfolding assms(1) by (rule moves_in_flight [OF run_client_moves initial_in_flight])
  have m: "map_of (hc_inFlightGet c) k = Some i" using ex assms(2-4) by (simp add: in_flight_exact_def open_get_def)
  have "j = i" if "open_get c k j" for j using that ex m unfolding in_flight_exact_def by (metis option.inject)
  then show ?thesis using m by (auto simp: open_get_def client_step_def api_get_def Let_def)
qed

subsection \<open>Authorization\<close>

definition carries_token :: "http_client \<Rightarrow> client_output list \<Rightarrow> bool" where
  "carries_token c os \<longleftrightarrow>
     (\<forall>i a tok. Wire i a \<in> set os \<longrightarrow> a_accessToken (as_store (hc_auth c)) = Some tok \<longrightarrow> tok \<noteq> [] \<longrightarrow>
        a = Some (''Bearer '' @ tok))"

lemma carries_quiet: "list_all (\<lambda>x. \<not> is_wire x) os \<Longrightarrow> carries_token c os"
  by (auto simp: carries_token_def list_all_iff is_wire_def)

lemma carries_append: "carries_token c os \<Longrightarrow> carries_token c os' \<Longrightarrow> carries_token c (os @ os')"
  by (auto simp: carries_token_def)

lemma carries_auth: "hc_auth c' = hc_auth c \<Longrightarrow> carries_token c' os = carries_token c os"
  by (simp add: carries_token_def)

lemma authorization_authorize:
  "a_accessToken (as_store auth) = Some tok \<Longrightarrow> tok \<noteq> [] \<Longrightarrow> authorization (authorize auth cf) = Some (''Bearer '' @ tok)"
  by (simp add: authorization_def authorize_def update_conv')

lemma sends_carry:
  "carries_token c (snd (send_new key cf c))" "carries_token c (snd (send_again i cf c))" "carries_token c (snd (finish i r c))"
  by (auto simp: carries_token_def send_new_def send_again_def finish_def Let_def authorization_authorize)

lemma and_then_snd [simp]: "snd (and_then (c, os) f) = os @ snd (f c)"
  by (simp add: and_then_def split_beta)

lemma after_refresh_carries: "carries_token c (snd (after_refresh t outcome i e c))"
  using sends_carry carries_append [OF carries_quiet] notices_not_wire
  by (cases outcome) (simp_all add: after_refresh_def Let_def)

lemma resume_fold_carries:
  assumes f: "\<And>i e c. hc_auth (fst (f i e c)) = hc_auth c \<and> carries_token c (snd (f i e c))"
    and "carries_token c0 (snd p)" and "hc_auth (fst p) = hc_auth c0"
  shows "carries_token c0 (snd (foldl (\<lambda>p i. and_then p (resume f i)) p ks))"
  using assms(2,3)
proof (induction ks arbitrary: p)
  case (Cons i ks)
  have r: "hc_auth (fst (resume f i (fst p))) = hc_auth (fst p)" "carries_token (fst p) (snd (resume f i (fst p)))"
    using f by (auto simp: resume_def carries_quiet split: request_phase.splits)
  have p: "and_then p (resume f i) = and_then (fst p, snd p) (resume f i)" by simp
  have "carries_token c0 (snd (and_then p (resume f i)))"
    using carries_append [OF Cons.prems(1)] r(2) carries_auth [OF Cons.prems(2)] unfolding p and_then_snd by blast
  moreover have "hc_auth (fst (and_then p (resume f i))) = hc_auth c0"
    using r(1) Cons.prems(2) unfolding p and_then_fst by simp
  ultimately show ?case using Cons.IH by simp
qed simp

lemma auth_continues_carries: "carries_token c (snd (auth_continues t x c))"
proof -
  have "carries_token c (snd (resume_all (after_refresh t outcome) c))" for outcome
    unfolding resume_all_def
    by (rule resume_fold_carries) (auto simp: after_refresh_waits after_refresh_carries carries_quiet)
  moreover have "carries_token c (snd (resume_all (\<lambda>i e. finish i RefreshError) c))"
    unfolding resume_all_def by (rule resume_fold_carries) (auto simp: sends_carry carries_quiet)
  ultimately show ?thesis by (simp add: auth_continues_def carries_quiet split: auth_output.split)
qed

lemma continue_fold_carries:
  "carries_token c0 (snd p) \<Longrightarrow> hc_auth (fst p) = hc_auth c0 \<Longrightarrow>
   carries_token c0 (snd (foldl (\<lambda>p x. and_then p (auth_continues t x)) p xs))"
proof (induction xs arbitrary: p)
  case (Cons x xs)
  have p: "and_then p (auth_continues t x) = and_then (fst p, snd p) (auth_continues t x)" by simp
  have "carries_token c0 (snd (and_then p (auth_continues t x)))"
    using carries_append [OF Cons.prems(1)] auth_continues_carries [of "fst p" t x] carries_auth [OF Cons.prems(2)]
    unfolding p and_then_snd by blast
  moreover have "hc_auth (fst (and_then p (auth_continues t x))) = hc_auth c0"
    using auth_continues_waits(1) Cons.prems(2) unfolding p and_then_fst by metis
  ultimately show ?case using Cons.IH by simp
qed simp

lemma response_handler_quiet: "list_all (\<lambda>x. \<not> is_wire x) (snd (response_handler t i data c))"
proof -
  have "list_all (\<lambda>x. \<not> is_wire x) (snd (finish i r c'))" for r c' by (simp add: finish_def is_wire_def)
  then show ?thesis using auth_outputs_not_wire
    by (simp add: response_handler_def Let_def is_wire_def split: prod.split option.split)
qed

lemma error_handler_quiet: "list_all (\<lambda>x. \<not> is_wire x) (snd (error_handler t i e c))"
proof -
  have "list_all (\<lambda>x. \<not> is_wire x) (snd (finish i r c'))" for r c' by (simp add: finish_def is_wire_def)
  then show ?thesis using auth_outputs_not_wire notices_not_wire
    by (simp add: error_handler_def Let_def is_wire_def split: prod.split)
qed

text \<open>
  Every request that leaves the client, the first time or again after a refresh, carries the access token the store
  holds at that moment.
\<close>

theorem http_requests_carry_current_token:
  assumes "client_step t ev c = (c', os)" and "Wire i a \<in> set os"
    and "a_accessToken (as_store (hc_auth c')) = Some tok" and "tok \<noteq> []"
  shows "a = Some (''Bearer '' @ tok)"
proof -
  have "carries_token c' os"
  proof (cases ev)
    case (ApiGet cf)
    then show ?thesis using assms(1) sends_carry(1) carries_auth [OF send_new_waits(2)] carries_quiet
      by (auto simp: client_step_def api_get_def Let_def is_wire_def split: if_splits option.splits) (metis fst_conv snd_conv)+
  next
    case (ApiOther cf)
    then show ?thesis using assms(1) sends_carry(1) [of c None cf] carries_auth [OF send_new_waits(2)]
      by (auto simp: client_step_def api_other_def) (metis fst_conv snd_conv)
  next
    case (ResponseOk i data)
    then show ?thesis using assms(1) carries_quiet [OF response_handler_quiet] carries_quiet [of "[]"]
      by (auto simp: client_step_def split: if_splits) (metis snd_conv)
  next
    case (ResponseError i e)
    then show ?thesis using assms(1) carries_quiet [OF error_handler_quiet] carries_quiet [of "[]"]
      by (auto simp: client_step_def split: if_splits) (metis snd_conv)
  next
    case (AuthEvent e)
    obtain auth os' where st: "auth_step e (hc_auth c) = (auth, os')" by fastforce
    define c0 where "c0 = c\<lparr>hc_auth := auth\<rparr>"
    define p where "p = foldl (\<lambda>p x. and_then p (auth_continues t x)) (c0, map AuthOutput os') os'"
    have p: "p = (c', os)" using assms(1) AuthEvent st by (simp add: client_step_def p_def c0_def)
    have "carries_token c0 (snd p)" unfolding p_def
      by (rule continue_fold_carries) (simp_all add: carries_quiet auth_outputs_not_wire)
    moreover have "hc_auth (fst p) = hc_auth c0" unfolding p_def using continue_fold_waits by simp
    ultimately show ?thesis using p carries_auth by (metis fst_conv snd_conv)
  qed
  then show ?thesis using assms by (auto simp: carries_token_def)
qed

text \<open>
  C36: A request refused with 401 a second time signs the user out: the store is emptied, the page goes to the sign-in
  page unless it is there, and the caller is given the error.
\<close>

theorem http_second_401_signs_out:
  assumes "on_wire c i" and "cf_authRetry (rq_config (hc_requests c ! i))" and "ae_withConfig e"
    and "error_status e = Some 401" and "client_step t (ResponseError i e) c = (c', os)"
  shows "as_store (hc_auth c') = reset Complete (as_store (hc_auth c))
    \<and> rq_phase (hc_requests c' ! i) = Finished (Failed e) \<and> Result i (Failed e) \<in> set os
    \<and> (Redirect ''/sign-in'' \<in> set os \<longleftrightarrow> hc_pathname c \<noteq> ''/sign-in'')"
proof -
  define auth where "auth = fst (clearAuthentication False Complete (hc_auth c))"
  define quiet where "quiet = map AuthOutput (snd (clearAuthentication False Complete (hc_auth c)))
    @ session_expired t (cf_skipErrorHandler (rq_config (hc_requests c ! i))) @ redirectToSignIn c"
  have "client_step t (ResponseError i e) c = and_then (c\<lparr>hc_auth := auth\<rparr>, quiet) (finish i (Failed e))"
    using assms(1-4)
    by (simp add: client_step_def error_handler_def Let_def split_beta auth_def quiet_def redirectToSignIn_def)
  then have c': "c' = fst (finish i (Failed e) (c\<lparr>hc_auth := auth\<rparr>))" and os: "os = quiet @ [Result i (Failed e)]"
    using assms(5) by (auto simp: and_then_def finish_def)
  have "Redirect ''/sign-in'' \<in> set quiet \<longleftrightarrow> hc_pathname c \<noteq> ''/sign-in''"
    by (auto simp: quiet_def session_expired_def redirectToSignIn_def)
  moreover have "i < length (hc_requests c)" using assms(1) by (simp add: on_wire_def)
  ultimately show ?thesis
    by (simp add: c' os finish_def auth_def clearAuthentication_def store_update_def)
qed

text \<open>
  A server code that is the name of a member every object inherits is taken for a known error code: the lookup does
  not answer null for it.
\<close>

theorem server_error_inherited_code:
  "getServerErrorMessageKey (Some (JObj [(''code'', JStr ''constructor'')])) = Some (InheritedMember ''constructor'')"
  by (simp add: getServerErrorMessageKey_def serverErrorPayload_def serverErrorMessageKeys_def inherited_names_def Let_def)

subsection \<open>Concrete runs\<close>

definition sample_request :: api_config where
  "sample_request = \<lparr>cf_url = ''/api/user/self'', cf_params = None, cf_headers = [], cf_skipBusinessError = False,
     cf_skipErrorHandler = False, cf_disableDuplicate = False, cf_skipAuthRefresh = False, cf_authRetry = False,
     cf_acceptAuthRotation = False\<rparr>"

definition sample_401 :: api_error where
  "sample_401 = \<lparr>ae_value = Some (JObj [(''response'', JObj [(''status'', JNum 401)])]), ae_withConfig = True\<rparr>"

lemma sample_401_status [simp]: "error_status sample_401 = Some 401" "ae_withConfig sample_401"
  by (simp_all add: error_status_def sample_401_def)

lemmas client_eval = run_client_def client_step_def api_get_def api_other_def send_new_def authorize_def initial_client_def
  initial_module_def initial_auth_def sample_request_def on_wire_def error_handler_def Let_def

theorem http_waits_only_for_refresh_witness:
  "as_refresh (hc_auth (fst (run_client (\<lambda>_. '''') [ApiOther sample_request, ResponseError 0 sample_401] (initial_client ''/''))))
     \<noteq> None"
  by (rule http_waits_only_for_refresh [OF refl, of 0 _ _ _ sample_401]) (simp_all add: client_eval)

theorem http_get_shared_witness:
  "client_step (\<lambda>_. '''') (ApiGet sample_request)
       (fst (run_client (\<lambda>_. '''') [ApiGet sample_request] (initial_client ''/''))) =
     (fst (run_client (\<lambda>_. '''') [ApiGet sample_request] (initial_client ''/'')), [SharedWith 0])"
proof -
  let ?c = "fst (run_client (\<lambda>_. '''') [ApiGet sample_request] (initial_client ''/''))"
  have "0 < length (hc_requests ?c)" and "rq_key (hc_requests ?c ! 0) = Some (get_key (hc_auth ?c) sample_request)"
    and "\<not> is_finished (rq_phase (hc_requests ?c ! 0))" and "\<not> cf_disableDuplicate sample_request"
    by (simp_all add: client_eval get_key_def)
  then show ?thesis using http_get_shared [OF refl, of 0] by blast
qed

definition signed_in_client :: http_client where
  "signed_in_client = (initial_client ''/'')\<lparr>hc_auth := initial_module\<lparr>as_store := initial_auth\<lparr>a_accessToken := Some ''tok''\<rparr>\<rparr>\<rparr>"

theorem http_requests_carry_current_token_witness:
  "snd (client_step (\<lambda>_. '''') (ApiOther sample_request) signed_in_client) = [Wire 0 (Some ''Bearer tok'')]"
proof -
  have s: "client_step (\<lambda>_. '''') (ApiOther sample_request) signed_in_client =
      (fst (client_step (\<lambda>_. '''') (ApiOther sample_request) signed_in_client),
       [Wire 0 (authorization (authorize (hc_auth signed_in_client) sample_request))])"
    by (simp add: client_step_def api_other_def send_new_def signed_in_client_def initial_client_def Let_def)
  have "authorization (authorize (hc_auth signed_in_client) sample_request) = Some (''Bearer '' @ ''tok'')"
    by (rule http_requests_carry_current_token [OF s, of 0])
      (simp_all add: client_step_def api_other_def send_new_def signed_in_client_def initial_client_def Let_def)
  then show ?thesis using s by (metis append_Cons append_Nil snd_conv)
qed

definition retried_client :: http_client where
  "retried_client = (initial_client ''/home'')
     \<lparr>hc_requests := [\<lparr>rq_config = sample_request\<lparr>cf_authRetry := True\<rparr>, rq_phase = OnWire, rq_key = None\<rparr>]\<rparr>"

theorem http_second_401_signs_out_witness:
  "Redirect ''/sign-in'' \<in> set (snd (client_step (\<lambda>_. '''') (ResponseError 0 sample_401) retried_client))"
  using http_second_401_signs_out [of retried_client 0 sample_401 "\<lambda>_. ''''"
      "fst (client_step (\<lambda>_. '''') (ResponseError 0 sample_401) retried_client)"
      "snd (client_step (\<lambda>_. '''') (ResponseError 0 sample_401) retried_client)"]
  by (simp add: retried_client_def on_wire_def initial_client_def)

end
