(* ===== verification/Billing.thy ===== *)
theory Billing
  imports JsonPrint "HOL-Library.Monad_Syntax" "HOL-Library.Sublist"
begin

text \<open>
  Billing expressions, \<open>features/pricing/lib/billing-expr.ts\<close>: the registry of billing variables, and the request
  rules of an expression, i.e. the conditional multipliers after its base price: their parser, the editor's builder,
  and the splitting and combining of an expression.

  The regular expressions of the parser are written out as the functions they compute.  Each of them is anchored and,
  apart from the greedy condition of a rule, has at most one way to match, so no search is needed; the greedy
  part takes the last place where the rest of the pattern fits.  \<open>JSON.parse\<close> of a literal may throw, and nothing
  catches it: the parser's result is then \<^const>\<open>Inl\<close>.
\<close>

subsection \<open>Variables\<close>

datatype billing_side = InputSide | OutputSide | ConditionSide

record BillingVar =
  bv_key :: string
  bv_field :: "string option"
  bv_tierField :: "string option"
  bv_label :: string
  bv_shortLabel :: string
  bv_side :: billing_side
  bv_isBase :: bool
  bv_isConditionOnly :: bool
  bv_group :: "string option"

definition price_var ::
  "string \<Rightarrow> string \<Rightarrow> string \<Rightarrow> string \<Rightarrow> string \<Rightarrow> billing_side \<Rightarrow> bool \<Rightarrow> string option \<Rightarrow> BillingVar" where
  "price_var key field tierField label shortLabel side base grp =
     \<lparr>bv_key = key, bv_field = Some field, bv_tierField = Some tierField, bv_label = label, bv_shortLabel = shortLabel,
      bv_side = side, bv_isBase = base, bv_isConditionOnly = False, bv_group = grp\<rparr>"

definition BILLING_VARS :: "BillingVar list" where
  "BILLING_VARS =
     [price_var ''p'' ''inputPrice'' ''input_unit_cost'' ''Input price'' ''Input'' InputSide True None,
      price_var ''c'' ''outputPrice'' ''output_unit_cost'' ''Completion price'' ''Output'' OutputSide True None,
      \<lparr>bv_key = ''len'', bv_field = None, bv_tierField = None, bv_label = ''Input length'', bv_shortLabel = ''Length'',
       bv_side = ConditionSide, bv_isBase = False, bv_isConditionOnly = True, bv_group = None\<rparr>,
      price_var ''cr'' ''cacheReadPrice'' ''cache_read_unit_cost'' ''Cache read price'' ''Cache Read'' InputSide False (Some ''cache''),
      price_var ''cc'' ''cacheCreatePrice'' ''cache_create_unit_cost'' ''Cache create price'' ''Cache Write'' InputSide False
        (Some ''cache''),
      price_var ''cc1h'' ''cacheCreate1hPrice'' ''cache_create_1h_unit_cost'' ''Cache create (1h) price'' ''Cache Write (1h)''
        InputSide False (Some ''cache''),
      price_var ''img'' ''imagePrice'' ''image_unit_cost'' ''Image input price'' ''Image In'' InputSide False (Some ''media''),
      price_var ''img_o'' ''imageOutputPrice'' ''image_output_unit_cost'' ''Image output price'' ''Image Out'' OutputSide False
        (Some ''media''),
      price_var ''ai'' ''audioInputPrice'' ''audio_input_unit_cost'' ''Audio input price'' ''Audio In'' InputSide False
        (Some ''media''),
      price_var ''ao'' ''audioOutputPrice'' ''audio_output_unit_cost'' ''Audio output price'' ''Audio Out'' OutputSide False
        (Some ''media'')]"

definition BILLING_PRICING_VARS :: "BillingVar list" where
  "BILLING_PRICING_VARS = filter (\<lambda>v. \<not> bv_isConditionOnly v) BILLING_VARS"

definition BILLING_CONDITION_VARS :: "string list" where
  "BILLING_CONDITION_VARS = map bv_key (filter (\<lambda>v. bv_isBase v \<or> bv_isConditionOnly v) BILLING_VARS)"

definition BILLING_VAR_KEY_TO_FIELD :: "(string \<times> string) list" where
  "BILLING_VAR_KEY_TO_FIELD = map (\<lambda>v. (bv_key v, the (bv_field v))) BILLING_PRICING_VARS"

definition BILLING_EXTRA_VARS :: "BillingVar list" where
  "BILLING_EXTRA_VARS = filter (\<lambda>v. \<not> bv_isBase v \<and> \<not> bv_isConditionOnly v) BILLING_VARS"

definition BILLING_CACHE_VAR_MAP :: "(string \<times> string) list" where
  "BILLING_CACHE_VAR_MAP = map (\<lambda>v. (the (bv_tierField v), bv_key v)) BILLING_EXTRA_VARS"

subsection \<open>Request rules\<close>

definition MATCH_EQ :: string where "MATCH_EQ = ''eq''"
definition MATCH_CONTAINS :: string where "MATCH_CONTAINS = ''contains''"
definition MATCH_GT :: string where "MATCH_GT = ''gt''"
definition MATCH_GTE :: string where "MATCH_GTE = ''gte''"
definition MATCH_LT :: string where "MATCH_LT = ''lt''"
definition MATCH_LTE :: string where "MATCH_LTE = ''lte''"
definition MATCH_EXISTS :: string where "MATCH_EXISTS = ''exists''"
definition MATCH_RANGE :: string where "MATCH_RANGE = ''range''"

definition TIME_FUNCS :: "string list" where
  "TIME_FUNCS = [''hour'', ''minute'', ''weekday'', ''month'', ''day'']"

lemmas match_modes = MATCH_EQ_def MATCH_CONTAINS_def MATCH_GT_def MATCH_GTE_def MATCH_LT_def MATCH_LTE_def
  MATCH_EXISTS_def MATCH_RANGE_def

datatype field_source = Param | Header

record ParamHeaderCondition =
  ph_source :: field_source
  ph_path :: string
  ph_mode :: string
  ph_value :: string

record TimeCondition =
  tc_timeFunc :: string
  tc_timezone :: string
  tc_mode :: string
  tc_value :: string
  tc_rangeStart :: string
  tc_rangeEnd :: string

datatype RequestCondition = FieldRule ParamHeaderCondition | TimeRule TimeCondition

record RequestRuleGroup =
  rg_conditions :: "RequestCondition list"
  rg_multiplier :: string

subsection \<open>Patterns\<close>

text \<open>\<open>[\d.eE+-]\<close>\<close>

definition num_char :: "char \<Rightarrow> bool" where
  "num_char c \<longleftrightarrow> is_digit_char c \<or> c \<in> set ''.eE+-''"

text \<open>\<open>([\d.eE+-]+)\<close> followed by something that does not start with such a character.\<close>

definition take_num :: "string \<Rightarrow> (string \<times> string) option" where
  "take_num s = (let n = takeWhile num_char s in if n = [] then None else Some (n, dropWhile num_char s))"

text \<open>\<open>"([^"]+)"\<close>\<close>

definition take_name :: "string \<Rightarrow> (string \<times> string) option" where
  "take_name s =
     (case s of
        q # r \<Rightarrow>
          if q = CHR 0x22 then
            (let n = takeWhile (\<lambda>c. c \<noteq> CHR 0x22) r in
             case dropWhile (\<lambda>c. c \<noteq> CHR 0x22) r of
               _ # rest \<Rightarrow> if n = [] then None else Some (n, rest)
             | [] \<Rightarrow> None)
          else None
      | [] \<Rightarrow> None)"

text \<open>\<open>"(?:[^"\\]|\\.)*"\<close>: the literal with its quotes.\<close>

fun literal_body :: "string \<Rightarrow> (string \<times> string) option" where
  "literal_body [] = None"
| "literal_body (c # cs) =
     (if c = CHR 0x22 then Some ([c], cs)
      else if c = CHR 0x5C then
        (case cs of
           e # r \<Rightarrow> if e = CHR 0x0A \<or> e = CHR 0x0D then None
                   else map_option (\<lambda>(l, rest). (c # e # l, rest)) (literal_body r)
         | [] \<Rightarrow> None)
      else map_option (\<lambda>(l, rest). (c # l, rest)) (literal_body cs))"

definition take_literal :: "string \<Rightarrow> (string \<times> string) option" where
  "take_literal s =
     (case s of
        q # r \<Rightarrow> if q = CHR 0x22 then map_option (\<lambda>(l, rest). (q # l, rest)) (literal_body r) else None
      | [] \<Rightarrow> None)"

text \<open>One of several keywords with what follows it.\<close>

definition take_one_of :: "string list \<Rightarrow> string \<Rightarrow> string \<Rightarrow> (string \<times> string) option" where
  "take_one_of ks suf s =
     (case List.find (\<lambda>k. startsWith s (k @ suf)) ks of
        None \<Rightarrow> None | Some k \<Rightarrow> Some (k, drop (length (k @ suf)) s))"

text \<open>Text that \<open>.\<close> of a pattern can run through.\<close>

definition one_line :: "string \<Rightarrow> bool" where
  "one_line s \<longleftrightarrow> list_all (\<lambda>c. c \<noteq> CHR 0x0A \<and> c \<noteq> CHR 0x0D) s"

definition at_end :: "string \<Rightarrow> unit option" where
  "at_end s = (if s = [] then Some () else None)"

text \<open>\<open>NUMERIC_LITERAL_REGEX\<close>, \<open>^-?(?:\d+\.?\d*|\.\d+)(?:[eE][+-]?\d+)?$\<close>\<close>

definition numeric_exponent :: "string \<Rightarrow> bool" where
  "numeric_exponent s =
     (case s of
        [] \<Rightarrow> True
      | c # cs \<Rightarrow>
          (c = CHR ''e'' \<or> c = CHR ''E'') \<and>
          (let ds = (case cs of x # xs \<Rightarrow> if x = CHR ''+'' \<or> x = CHR ''-'' then xs else cs | [] \<Rightarrow> []) in
           ds \<noteq> [] \<and> list_all is_digit_char ds))"

definition NUMERIC_LITERAL :: "string \<Rightarrow> bool" where
  "NUMERIC_LITERAL s =
     (let s1 = (case s of c # cs \<Rightarrow> if c = CHR ''-'' then cs else s | [] \<Rightarrow> []);
          (ip, r) = span_digits s1 in
      if ip \<noteq> []
      then (case r of
              c # cs \<Rightarrow> if c = CHR ''.'' then numeric_exponent (dropWhile is_digit_char cs) else numeric_exponent r
            | [] \<Rightarrow> True)
      else (case r of
              c # cs \<Rightarrow> c = CHR ''.'' \<and> takeWhile is_digit_char cs \<noteq> [] \<and> numeric_exponent (dropWhile is_digit_char cs)
            | [] \<Rightarrow> False))"

subsection \<open>Version prefix and top-level splitting\<close>

definition stripExprVersion :: "string \<Rightarrow> nat \<times> string" where
  "stripExprVersion exprStr =
     (case exprStr of
        v # r \<Rightarrow>
          (let (ds, rest) = span_digits r in
           case rest of
             c # body \<Rightarrow> if v = CHR ''v'' \<and> ds \<noteq> [] \<and> c = CHR '':'' then (digits_value ds, body) else (1, exprStr)
           | [] \<Rightarrow> (1, exprStr))
      | [] \<Rightarrow> (1, []))"

text \<open>The two splitting loops: the rest of the expression, the depth of parentheses, and the current part, reversed.\<close>

definition paren_depth :: "char \<Rightarrow> int \<Rightarrow> int" where
  "paren_depth c d = (if c = CHR ''('' then d + 1 else if c = CHR '')'' then d - 1 else d)"

function split_top :: "string \<Rightarrow> int \<Rightarrow> string \<Rightarrow> string \<Rightarrow> string list" where
  "split_top sep depth part [] = [trim (rev part)]"
| "split_top sep depth part (c # cs) =
     (let d = paren_depth c depth in
      if d = 0 \<and> sep \<noteq> [] \<and> startsWith (c # cs) sep
      then trim (rev part) # split_top sep d [] (drop (length sep) (c # cs))
      else split_top sep d (c # part) cs)"
  by pat_completeness auto
termination by (relation "measure (\<lambda>(sep, d, part, s). length s)") auto

definition splitTopLevelMultiply :: "string \<Rightarrow> string list" where
  "splitTopLevelMultiply expr = filter (\<lambda>p. p \<noteq> []) (split_top '' * '' 0 [] expr)"

definition splitTopLevelAnd :: "string \<Rightarrow> string list" where
  "splitTopLevelAnd expr = filter (\<lambda>p. p \<noteq> []) (split_top '' && '' 0 [] expr)"

subsection \<open>Parsing conditions\<close>

text \<open>\<open>String(v)\<close>\<close>

fun js_string :: "jsval \<Rightarrow> string" where
  "js_string JNull = ''null''"
| "js_string (JBool b) = (if b then ''true'' else ''false'')"
| "js_string (JNum q) = number_str q"
| "js_string (JStr s) = s"
| "js_string (JArr xs) = join '','' (map (\<lambda>x. if x = JNull then [] else js_string x) xs)"
| "js_string (JObj ps) = ''[object Object]''"

definition parseExprLiteral :: "string \<Rightarrow> jsval option" where
  "parseExprLiteral raw =
     (let s = trim raw in
      if s = ''true'' \<or> s = ''false'' then Some (JStr s)
      else if NUMERIC_LITERAL s then Some (JStr s)
      else (case JSON_parse s of Some v \<Rightarrow> if v = JNull then None else Some v | None \<Rightarrow> None))"

definition paren_open :: string where "paren_open = [CHR ''('']"

text \<open>\<open>f("tz") >= n || f("tz") < n\<close>\<close>

definition match_range :: "string \<Rightarrow> TimeCondition option" where
  "match_range expr = do {
     (f, r1) \<leftarrow> take_one_of TIME_FUNCS paren_open expr;
     (tz, r2) \<leftarrow> take_name r1;
     r3 \<leftarrow> strip_prefix '') >= '' r2;
     (lo, r4) \<leftarrow> take_num r3;
     r5 \<leftarrow> strip_prefix ('' || '' @ f @ paren_open @ [CHR 0x22] @ tz @ [CHR 0x22] @ '') < '') r4;
     (hi, r6) \<leftarrow> take_num r5;
     _ \<leftarrow> at_end r6;
     Some \<lparr>tc_timeFunc = f, tc_timezone = tz, tc_mode = MATCH_RANGE, tc_value = [], tc_rangeStart = lo, tc_rangeEnd = hi\<rparr> }"

text \<open>The same between parentheses.\<close>

definition strip_parens :: "string \<Rightarrow> string option" where
  "strip_parens s =
     (if length s \<ge> 2 \<and> hd s = CHR ''('' \<and> last s = CHR '')'' then Some (butlast (tl s)) else None)"

text \<open>\<open>f("tz") op n\<close>\<close>

definition match_time_op :: "string \<Rightarrow> TimeCondition option" where
  "match_time_op expr = do {
     (f, r1) \<leftarrow> take_one_of TIME_FUNCS paren_open expr;
     (tz, r2) \<leftarrow> take_name r1;
     r3 \<leftarrow> strip_prefix '') '' r2;
     (op, r4) \<leftarrow> take_one_of [''=='', ''>='', ''<''] '' '' r3;
     (n, r5) \<leftarrow> take_num r4;
     _ \<leftarrow> at_end r5;
     Some \<lparr>tc_timeFunc = f, tc_timezone = tz,
       tc_mode = opt_or (map_of [(''=='', MATCH_EQ), (''>='', MATCH_GTE), (''<'', MATCH_LT)] op) MATCH_EQ,
       tc_value = n, tc_rangeStart = [], tc_rangeEnd = []\<rparr> }"

definition tryParseTimeCondition :: "string \<Rightarrow> TimeCondition option" where
  "tryParseTimeCondition expr =
     (case match_range expr of
        Some c \<Rightarrow> Some c
      | None \<Rightarrow>
          (case strip_parens expr \<bind> match_range of
             Some c \<Rightarrow> Some c
           | None \<Rightarrow> match_time_op expr))"

definition field_rule :: "field_source \<Rightarrow> string \<Rightarrow> string \<Rightarrow> string \<Rightarrow> RequestCondition" where
  "field_rule source path mode value =
     FieldRule \<lparr>ph_source = source, ph_path = path, ph_mode = mode, ph_value = value\<rparr>"

text \<open>\<open>name("path")\<close>\<close>

definition take_field :: "string \<Rightarrow> string \<Rightarrow> (string \<times> string) option" where
  "take_field name s = do {
     r1 \<leftarrow> strip_prefix (name @ paren_open) s;
     (path, r2) \<leftarrow> take_name r1;
     r3 \<leftarrow> strip_prefix '')'' r2;
     Some (path, r3) }"

definition match_header_exists :: "string \<Rightarrow> string option" where
  "match_header_exists expr = do {
     (path, r) \<leftarrow> take_field ''header'' expr;
     r' \<leftarrow> strip_prefix ('' != '' @ [CHR 0x22, CHR 0x22]) r;
     _ \<leftarrow> at_end r';
     Some path }"

definition match_param_exists :: "string \<Rightarrow> string option" where
  "match_param_exists expr = do {
     (path, r) \<leftarrow> take_field ''param'' expr;
     r' \<leftarrow> strip_prefix '' != nil'' r;
     _ \<leftarrow> at_end r';
     Some path }"

definition take_has :: "string \<Rightarrow> string \<Rightarrow> (string \<times> string) option" where
  "take_has name s = do {
     r1 \<leftarrow> strip_prefix (''has'' @ paren_open) s;
     (path, r2) \<leftarrow> take_field name r1;
     r3 \<leftarrow> strip_prefix '', '' r2;
     (lit, r4) \<leftarrow> take_literal r3;
     r5 \<leftarrow> strip_prefix '')'' r4;
     _ \<leftarrow> at_end r5;
     Some (path, lit) }"

definition match_param_has :: "string \<Rightarrow> (string \<times> string) option" where
  "match_param_has expr = do {
     (path, r) \<leftarrow> take_field ''param'' expr;
     r1 \<leftarrow> strip_prefix '' != nil && '' r;
     (path2, lit) \<leftarrow> take_has ''param'' r1;
     if path = path2 then Some (path, lit) else None }"

definition match_param_compare :: "string \<Rightarrow> (string \<times> string \<times> string) option" where
  "match_param_compare expr = do {
     (path, r) \<leftarrow> take_field ''param'' expr;
     r1 \<leftarrow> strip_prefix '' != nil && '' r;
     (path2, r2) \<leftarrow> take_field ''param'' r1;
     r3 \<leftarrow> strip_prefix '' '' r2;
     (op, r4) \<leftarrow> take_one_of [''>'', ''>='', ''<'', ''<=''] '' '' r3;
     (n, r5) \<leftarrow> take_num r4;
     _ \<leftarrow> at_end r5;
     if path = path2 then Some (path, op, n) else None }"

definition match_equals :: "string \<Rightarrow> (field_source \<times> string \<times> string) option" where
  "match_equals expr =
     (let go = (\<lambda>src name. do {
            (path, r) \<leftarrow> take_field name expr;
            v \<leftarrow> strip_prefix '' == '' r;
            if v \<noteq> [] \<and> one_line v then Some (src, path, v) else None }) in
      case go Param ''param'' of Some x \<Rightarrow> Some x | None \<Rightarrow> go Header ''header'')"

definition compare_mode :: "string \<Rightarrow> string" where
  "compare_mode op = opt_or (map_of [(''>'', MATCH_GT), (''>='', MATCH_GTE), (''<'', MATCH_LT), (''<='', MATCH_LTE)] op) []"

text \<open>\<open>JSON.parse(lit) as string\<close> of a quoted literal.\<close>

definition parse_lit :: "field_source \<Rightarrow> string \<Rightarrow> string \<Rightarrow> js_error + RequestCondition option" where
  "parse_lit source path lit =
     (case JSON_parse lit of
        None \<Rightarrow> Inl SyntaxError
      | Some v \<Rightarrow> Inr (Some (field_rule source path MATCH_CONTAINS (js_string v))))"

definition tryParseRequestCondition :: "string \<Rightarrow> js_error + RequestCondition option" where
  "tryParseRequestCondition expr =
     (case tryParseTimeCondition expr of
        Some tc \<Rightarrow> Inr (Some (TimeRule tc))
      | None \<Rightarrow>
     (case match_header_exists expr of
        Some path \<Rightarrow> Inr (Some (field_rule Header path MATCH_EXISTS []))
      | None \<Rightarrow>
     (case match_param_exists expr of
        Some path \<Rightarrow> Inr (Some (field_rule Param path MATCH_EXISTS []))
      | None \<Rightarrow>
     (case take_has ''header'' expr of
        Some (path, lit) \<Rightarrow> parse_lit Header path lit
      | None \<Rightarrow>
     (case match_param_has expr of
        Some (path, lit) \<Rightarrow> parse_lit Param path lit
      | None \<Rightarrow>
     (case match_param_compare expr of
        Some (path, op, n) \<Rightarrow> Inr (Some (field_rule Param path (compare_mode op) n))
      | None \<Rightarrow>
     (case match_equals expr of
        Some (source, path, v) \<Rightarrow>
          Inr (map_option (\<lambda>x. field_rule source path MATCH_EQ (js_string x)) (parseExprLiteral v))
      | None \<Rightarrow> Inr None)))))))"

subsection \<open>Parsing rules\<close>

text \<open>\<open>^\((.+) \? ([\d.eE+-]+) : 1\)$\<close> with the flag under which \<open>.\<close> matches line breaks: the condition and the multiplier.\<close>

definition strip_suffix :: "string \<Rightarrow> string \<Rightarrow> string option" where
  "strip_suffix p s = map_option rev (strip_prefix (rev p) (rev s))"

definition match_factor :: "string \<Rightarrow> (string \<times> string) option" where
  "match_factor part = do {
     r1 \<leftarrow> strip_prefix paren_open part;
     r2 \<leftarrow> strip_suffix '' : 1)'' r1;
     (n, r3) \<leftarrow> take_num (rev r2);
     c \<leftarrow> strip_suffix '' ? '' (rev r3);
     if c = [] then None else Some (c, rev n) }"

fun parse_conditions :: "string list \<Rightarrow> js_error + RequestCondition list option" where
  "parse_conditions [] = Inr (Some [])"
| "parse_conditions (ap # aps) =
     (case tryParseRequestCondition (trim ap) of
        Inl e \<Rightarrow> Inl e
      | Inr None \<Rightarrow> Inr None
      | Inr (Some c) \<Rightarrow>
          (case parse_conditions aps of
             Inl e \<Rightarrow> Inl e
           | Inr None \<Rightarrow> Inr None
           | Inr (Some cs) \<Rightarrow> Inr (Some (c # cs))))"

definition tryParseRuleGroupFactor :: "string \<Rightarrow> js_error + RequestRuleGroup option" where
  "tryParseRuleGroupFactor part =
     (case match_factor part of
        None \<Rightarrow> Inr None
      | Some (conditionStr, multiplier) \<Rightarrow>
          (case parse_conditions (splitTopLevelAnd conditionStr) of
             Inl e \<Rightarrow> Inl e
           | Inr None \<Rightarrow> Inr None
           | Inr (Some conditions) \<Rightarrow>
               if conditions = [] then Inr None
               else Inr (Some \<lparr>rg_conditions = conditions, rg_multiplier = multiplier\<rparr>)))"

fun parse_groups :: "string list \<Rightarrow> js_error + RequestRuleGroup list option" where
  "parse_groups [] = Inr (Some [])"
| "parse_groups (part # parts) =
     (case tryParseRuleGroupFactor part of
        Inl e \<Rightarrow> Inl e
      | Inr None \<Rightarrow> Inr None
      | Inr (Some g) \<Rightarrow>
          (case parse_groups parts of
             Inl e \<Rightarrow> Inl e
           | Inr None \<Rightarrow> Inr None
           | Inr (Some gs) \<Rightarrow> Inr (Some (g # gs))))"

definition tryParseRequestRuleExpr :: "string \<Rightarrow> js_error + RequestRuleGroup list option" where
  "tryParseRequestRuleExpr expr =
     (let trimmed = trim expr in
      if trimmed = [] then Inr (Some []) else parse_groups (splitTopLevelMultiply trimmed))"

subsection \<open>Splitting and combining an expression\<close>

text \<open>The loop of \<open>hasFullOuterParens\<close>: whether the depth stays above zero before the last character, and ends at zero.\<close>

fun outer_parens :: "int \<Rightarrow> string \<Rightarrow> bool" where
  "outer_parens depth [] = (depth = 0)"
| "outer_parens depth (c # cs) =
     (let d = paren_depth c depth in if d = 0 \<and> cs \<noteq> [] then False else outer_parens d cs)"

definition hasFullOuterParens :: "string \<Rightarrow> bool" where
  "hasFullOuterParens expr \<longleftrightarrow>
     startsWith expr paren_open \<and> endsWith expr '')'' \<and> outer_parens 0 expr"

lemma trim_length: "length (trim s) \<le> length s"
  using length_dropWhile_le [of is_ws "rev (dropWhile is_ws s)"] length_dropWhile_le [of is_ws s]
  by (simp add: trim_def trim_by_def)

lemma full_outer_parens_length: "hasFullOuterParens s \<Longrightarrow> s \<noteq> []"
  by (auto simp: hasFullOuterParens_def paren_open_def startsWith_def)

function unwrap_loop :: "string \<Rightarrow> string" where
  "unwrap_loop current =
     (if hasFullOuterParens current then unwrap_loop (trim (slice current 1 (length current - 1))) else current)"
  by pat_completeness auto
termination
proof (relation "measure length")
  fix s :: string
  assume "hasFullOuterParens s"
  then have "0 < length s" using full_outer_parens_length by auto
  moreover have "length (slice s 1 (length s - 1)) \<le> length s - 1" by (simp add: slice_def)
  ultimately have "length (trim (slice s 1 (length s - 1))) < length s"
    using trim_length [of "slice s 1 (length s - 1)"] by (meson diff_less le_less_trans less_numeral_extra(1) order_trans)
  then show "(trim (slice s 1 (length s - 1)), s) \<in> measure length" by simp
qed simp

declare unwrap_loop.simps [simp del]

definition unwrapOuterParens :: "string \<Rightarrow> string" where
  "unwrapOuterParens expr = unwrap_loop (trim expr)"

record split_expr =
  sp_billingExpr :: string
  sp_requestRuleExpr :: string

text \<open>The callback of \<open>forEach\<close>: the rule parts and the base parts so far.\<close>

fun split_parts :: "string list \<Rightarrow> string list \<Rightarrow> string list \<Rightarrow> js_error + (string list \<times> string list)" where
  "split_parts ruleParts baseParts [] = Inr (ruleParts, baseParts)"
| "split_parts ruleParts baseParts (part # parts) =
     (case tryParseRequestRuleExpr part of
        Inl e \<Rightarrow> Inl e
      | Inr (Some (g # gs)) \<Rightarrow> split_parts (ruleParts @ [part]) baseParts parts
      | Inr _ \<Rightarrow> split_parts ruleParts (baseParts @ [part]) parts)"

definition splitBillingExprAndRequestRules :: "string \<Rightarrow> js_error + split_expr" where
  "splitBillingExprAndRequestRules expr =
     (let trimmed = trim expr; parts = splitTopLevelMultiply trimmed in
      if trimmed = [] then Inr \<lparr>sp_billingExpr = [], sp_requestRuleExpr = []\<rparr>
      else if length parts \<le> 1 then Inr \<lparr>sp_billingExpr = trimmed, sp_requestRuleExpr = []\<rparr>
      else (case split_parts [] [] parts of
          Inl e \<Rightarrow> Inl e
        | Inr (ruleParts, baseParts) \<Rightarrow>
            if ruleParts = [] \<or> length baseParts \<noteq> 1 then Inr \<lparr>sp_billingExpr = trimmed, sp_requestRuleExpr = []\<rparr>
            else Inr \<lparr>sp_billingExpr = unwrapOuterParens (hd baseParts), sp_requestRuleExpr = join '' * '' ruleParts\<rparr>))"

definition combineBillingExpr :: "string \<Rightarrow> string \<Rightarrow> string" where
  "combineBillingExpr baseExpr requestRuleExpr =
     (let base = trim baseExpr; rules = trim requestRuleExpr in
      if base = [] then []
      else if rules = [] then base
      else paren_open @ base @ '') * '' @ rules)"

subsection \<open>The editor\<close>

definition createEmptyCondition :: ParamHeaderCondition where
  "createEmptyCondition = \<lparr>ph_source = Param, ph_path = [], ph_mode = MATCH_EQ, ph_value = []\<rparr>"

definition createEmptyTimeCondition :: TimeCondition where
  "createEmptyTimeCondition = \<lparr>tc_timeFunc = ''hour'', tc_timezone = ''Asia/Shanghai'', tc_mode = MATCH_GTE, tc_value = [],
     tc_rangeStart = [], tc_rangeEnd = []\<rparr>"

definition createEmptyRuleGroup :: RequestRuleGroup where
  "createEmptyRuleGroup = \<lparr>rg_conditions = [FieldRule createEmptyCondition], rg_multiplier = []\<rparr>"

definition createEmptyTimeRuleGroup :: RequestRuleGroup where
  "createEmptyTimeRuleGroup = \<lparr>rg_conditions = [TimeRule createEmptyTimeCondition], rg_multiplier = []\<rparr>"

definition time_match_options :: "(string \<times> string) list" where
  "time_match_options =
     [(MATCH_EQ, ''Equals''), (MATCH_GTE, ''Greater than or equal''), (MATCH_LT, ''Less than''),
      (MATCH_RANGE, ''Overnight range'')]"

definition field_match_options :: "field_source \<Rightarrow> (string \<times> string) list" where
  "field_match_options source =
     (let base = [(MATCH_EQ, ''Equals''), (MATCH_CONTAINS, ''Contains''), (MATCH_EXISTS, ''Exists'')] in
      if source = Header then base
      else base @ [(MATCH_GT, ''Greater than''), (MATCH_GTE, ''Greater than or equal''), (MATCH_LT, ''Less than''),
                   (MATCH_LTE, ''Less than or equal'')])"

text \<open>The callers give \<open>normalizeCondition\<close> complete conditions; what is left to it is to replace an unknown function or
  mode and an empty time zone.\<close>

definition normalize_time :: "TimeCondition \<Rightarrow> TimeCondition" where
  "normalize_time c =
     c\<lparr>tc_timeFunc := (if tc_timeFunc c \<in> set TIME_FUNCS then tc_timeFunc c else ''hour''),
       tc_timezone := str_or (tc_timezone c) ''Asia/Shanghai'',
       tc_mode := (if tc_mode c \<in> set (map fst time_match_options) then tc_mode c else MATCH_GTE)\<rparr>"

definition normalize_field :: "ParamHeaderCondition \<Rightarrow> ParamHeaderCondition" where
  "normalize_field c =
     c\<lparr>ph_mode := (if ph_mode c \<in> set (map fst (field_match_options (ph_source c))) then ph_mode c else MATCH_EQ)\<rparr>"

definition normalizeCondition :: "RequestCondition \<Rightarrow> RequestCondition" where
  "normalizeCondition cond = (case cond of TimeRule c \<Rightarrow> TimeRule (normalize_time c) | FieldRule c \<Rightarrow> FieldRule (normalize_field c))"

definition buildExprLiteral :: "string \<Rightarrow> string \<Rightarrow> string" where
  "buildExprLiteral mode value =
     (let s = trim value in
      if mode = MATCH_CONTAINS then quote s
      else if s = ''true'' \<or> s = ''false'' then s
      else if NUMERIC_LITERAL s then s
      else quote s)"

definition buildTimeConditionExpr :: "TimeCondition \<Rightarrow> string" where
  "buildTimeConditionExpr cond =
     (let n = normalize_time cond;
          fn = tc_timeFunc n @ paren_open @ quote (tc_timezone n) @ '')'' in
      if tc_mode n = MATCH_RANGE then
        (let s = trim (tc_rangeStart n); e = trim (tc_rangeEnd n) in
         if \<not> NUMERIC_LITERAL s \<or> \<not> NUMERIC_LITERAL e then []
         else fn @ '' >= '' @ s @ '' || '' @ fn @ '' < '' @ e)
      else
        (let v = trim (tc_value n);
             op = opt_or (map_of [(MATCH_EQ, ''==''), (MATCH_GTE, ''>=''), (MATCH_LT, ''<'')] (tc_mode n)) ''=='' in
         if \<not> NUMERIC_LITERAL v then [] else fn @ '' '' @ op @ '' '' @ v))"

definition buildFieldConditionExpr :: "ParamHeaderCondition \<Rightarrow> string" where
  "buildFieldConditionExpr cond =
     (let n = normalize_field cond;
          path = trim (ph_path n);
          sourceExpr = (if ph_source n = Header then ''header'' else ''param'') @ paren_open @ quote path @ '')'';
          lit = buildExprLiteral (ph_mode n) (ph_value n) in
      if path = [] then []
      else if ph_mode n = MATCH_EXISTS then
        (if ph_source n = Header then sourceExpr @ '' != '' @ [CHR 0x22, CHR 0x22] else sourceExpr @ '' != nil'')
      else if ph_mode n = MATCH_CONTAINS then
        (if ph_source n = Header then ''has'' @ paren_open @ sourceExpr @ '', '' @ lit @ '')''
         else sourceExpr @ '' != nil && has'' @ paren_open @ sourceExpr @ '', '' @ lit @ '')'')
      else if ph_mode n \<in> {MATCH_GT, MATCH_GTE, MATCH_LT, MATCH_LTE} then
        (let numText = trim (ph_value n);
             op = opt_or (map_of [(MATCH_GT, ''>''), (MATCH_GTE, ''>=''), (MATCH_LT, ''<''), (MATCH_LTE, ''<='')] (ph_mode n)) [] in
         if \<not> NUMERIC_LITERAL numText then []
         else sourceExpr @ '' != nil && '' @ sourceExpr @ '' '' @ op @ '' '' @ numText)
      else sourceExpr @ '' == '' @ lit)"

definition buildRequestConditionExpr :: "RequestCondition \<Rightarrow> string" where
  "buildRequestConditionExpr cond =
     (case cond of TimeRule c \<Rightarrow> buildTimeConditionExpr c | FieldRule c \<Rightarrow> buildFieldConditionExpr c)"

definition combine_conditions :: "string list \<Rightarrow> string" where
  "combine_conditions condExprs =
     (if length condExprs = 1 then hd condExprs
      else join '' && '' (map (\<lambda>e. if js_includes e '' || '' then paren_open @ e @ '')'' else e) condExprs))"

definition buildRuleGroupFactor :: "RequestRuleGroup \<Rightarrow> string" where
  "buildRuleGroupFactor grp =
     (let multiplier = trim (rg_multiplier grp);
          condExprs = filter (\<lambda>e. e \<noteq> []) (map buildRequestConditionExpr (rg_conditions grp)) in
      if \<not> NUMERIC_LITERAL multiplier then []
      else if condExprs = [] then []
      else paren_open @ combine_conditions condExprs @ '' ? '' @ multiplier @ '' : 1)'')"

definition buildRequestRuleExpr :: "RequestRuleGroup list \<Rightarrow> string" where
  "buildRequestRuleExpr groups = join '' * '' (filter (\<lambda>e. e \<noteq> []) (map buildRuleGroupFactor groups))"

end
