(* ===== verification/BillingRules.thy ===== *)
theory BillingRules
  imports Billing
begin

text \<open>
  Request rules of billing expressions, the properties: what the editor builds is read back by the parser, an
  expression that is combined from a base and rules is split into them again, and the conditions for which neither
  holds.
\<close>

subsection \<open>Splitting joined parts\<close>

definition paren_sum :: "string \<Rightarrow> int" where
  "paren_sum s = sum_list (map (\<lambda>c. paren_depth c 0) s)"

lemma paren_sum_simps [simp]:
  "paren_sum [] = 0" "paren_sum (c # cs) = paren_depth c 0 + paren_sum cs" "paren_sum (xs @ ys) = paren_sum xs + paren_sum ys"
  by (simp_all add: paren_sum_def)

lemma paren_sum_flat: "CHR ''('' \<notin> set s \<Longrightarrow> CHR '')'' \<notin> set s \<Longrightarrow> paren_sum s = 0"
  by (induction s) (auto simp: paren_depth_def)

lemma paren_depth_add: "paren_depth c d = d + paren_depth c 0"
  by (simp add: paren_depth_def)

lemma startsWith_Cons [simp]:
  "startsWith s [] = True" "startsWith [] (a # p) = False" "startsWith (b # s) (a # p) = (a = b \<and> startsWith s p)"
  by (auto simp: startsWith_def)

text \<open>A stretch without the second character of the separator holds no separator, nor the start of one unless it ends
  with a space.\<close>

lemma split_top_pass:
  assumes "sep = CHR '' '' # x # sep'" and "x \<notin> set s" and "s \<noteq> [] \<Longrightarrow> last s \<noteq> CHR '' ''"
  shows "split_top sep d part (s @ rest) = split_top sep (d + paren_sum s) (rev s @ part) rest"
  using assms(2,3)
proof (induction s arbitrary: d part)
  case (Cons c s)
  have "\<not> startsWith (c # s @ rest) sep"
    using Cons.prems assms(1) by (cases s) auto
  moreover have "s \<noteq> [] \<Longrightarrow> last s \<noteq> CHR '' ''" using Cons.prems by auto
  ultimately show ?case
    using Cons.IH [of "paren_depth c d" "c # part"] Cons.prems(1)
    by (simp add: Let_def paren_depth_add [of c d] add.assoc del: startsWith_Cons)
qed simp

lemma split_top_sep:
  "sep = CHR '' '' # x # sep' \<Longrightarrow> split_top sep 0 part (sep @ rest) = trim (rev part) # split_top sep 0 [] rest"
  by (simp add: Let_def paren_depth_def)

definition solid :: "char \<Rightarrow> string \<Rightarrow> bool" where
  "solid x e \<longleftrightarrow> x \<notin> set e \<and> e \<noteq> [] \<and> trim e = e \<and> paren_sum e = 0"

lemma trim_ends:
  "trim e = e \<Longrightarrow> e \<noteq> [] \<Longrightarrow> \<not> is_ws (hd e) \<and> \<not> is_ws (last e)"
  using trim_by_ends [of is_ws e] by (simp add: trim_def)

lemma solid_last: "solid x e \<Longrightarrow> last e \<noteq> CHR '' ''"
  using trim_ends [of e] by (auto simp: solid_def is_ws_def)

lemma split_top_solid: "sep = CHR '' '' # x # sep' \<Longrightarrow> solid x e \<Longrightarrow> split_top sep 0 [] e = [e]"
  using split_top_pass [of sep x sep' e 0 "[]" "[]"] solid_last [of x e] by (simp add: solid_def)

lemma split_top_join:
  assumes sep: "sep = CHR '' '' # x # sep'" and "es \<noteq> []" and "list_all (solid x) es"
  shows "split_top sep 0 [] (join sep es) = es"
  using assms(2,3)
proof (induction es rule: list_nonempty_induct)
  case (single e)
  then show ?case using split_top_solid [OF sep] by simp
next
  case (cons e es)
  have e: "solid x e" using cons.prems by simp
  have "join sep (e # es) = e @ sep @ join sep es" using cons.hyps(1) by (cases es) simp_all
  then have "split_top sep 0 [] (join sep (e # es)) = split_top sep 0 (rev e) (sep @ join sep es)"
    using split_top_pass [OF sep, of e 0 "[]" "sep @ join sep es"] solid_last [OF e] e by (simp add: solid_def)
  also have "\<dots> = e # split_top sep 0 [] (join sep es)"
    using split_top_sep [OF sep, of "rev e"] e by (simp add: solid_def)
  finally show ?case using cons by simp
qed

lemma solid_not_Nil: "list_all (solid x) es \<Longrightarrow> filter (\<lambda>e. e \<noteq> []) es = es"
  by (auto simp: filter_id_conv list_all_iff solid_def)

lemma splitTopLevelAnd_join:
  "es \<noteq> [] \<Longrightarrow> list_all (solid (CHR ''&'')) es \<Longrightarrow> splitTopLevelAnd (join '' && '' es) = es"
  using split_top_join [of "'' && ''" "CHR ''&''"] by (simp add: splitTopLevelAnd_def solid_not_Nil)

lemma splitTopLevelMultiply_join:
  "es \<noteq> [] \<Longrightarrow> list_all (solid (CHR ''*'')) es \<Longrightarrow> splitTopLevelMultiply (join '' * '' es) = es"
  using split_top_join [of "'' * ''" "CHR ''*''"] by (simp add: splitTopLevelMultiply_def solid_not_Nil)

subsection \<open>Characters of built expressions\<close>

definition special :: "char set" where
  "special = {CHR ''('', CHR '')'', CHR ''&'', CHR ''*'', CHR ''|''}"

definition value_ok :: "string \<Rightarrow> bool" where
  "value_ok s \<longleftrightarrow> trim s = s \<and> list_all (\<lambda>c. c \<notin> special) s"

definition name_ok :: "string \<Rightarrow> bool" where
  "name_ok s \<longleftrightarrow> s \<noteq> [] \<and> value_ok s \<and> list_all (\<lambda>c. c \<noteq> CHR 0x22 \<and> c \<noteq> CHR 0x5C \<and> 32 \<le> (of_char c :: nat)) s"

definition hex_chars :: "char set" where
  "hex_chars = {c. of_char c \<in> {48..57::nat} \<union> {97..102}}"

lemma hex_char_cases: "n < 16 \<Longrightarrow> hex_char n \<in> hex_chars"
  by (simp add: hex_char_def hex_chars_def)

text \<open>What an escape consists of.\<close>

lemma escape_char_set: "set (escape_char c) \<subseteq> {c, CHR 0x22, CHR 0x5C} \<union> set ''bfnrtu0'' \<union> hex_chars"
  by (auto simp: escape_char_def short_escape_def Let_def intro!: hex_char_cases)

lemma escape_char_control: "(of_char c :: nat) < 32 \<Longrightarrow> c \<notin> set (escape_char c)"
proof -
  define n where "n = (of_char c :: nat)"
  assume "(of_char c :: nat) < 32"
  then have n: "n < 32" by (simp add: n_def)
  then have "hex_char (n div 16) \<in> hex_chars" "hex_char (n mod 16) \<in> hex_chars"
    by (auto intro!: hex_char_cases)
  moreover have "c \<notin> hex_chars" using n by (auto simp: n_def hex_chars_def)
  ultimately have "c \<noteq> hex_char (n div 16)" "c \<noteq> hex_char (n mod 16)" by metis+
  moreover have "c \<notin> set (CHR 0x22 # CHR 0x5C # ''bfnrtu0'')" using n by (auto simp: n_def)
  ultimately show ?thesis using n by (auto simp: escape_char_def short_escape_def Let_def n_def [symmetric])
qed

lemma escape_char_special: "x \<in> special \<Longrightarrow> x \<in> set (escape_char c) \<Longrightarrow> x = c"
  using escape_char_set [of c] by (auto simp: special_def hex_chars_def)

lemma quote_special: "x \<in> special \<Longrightarrow> x \<in> set (quote s) \<Longrightarrow> x \<in> set s"
proof -
  assume x: "x \<in> special" and q: "x \<in> set (quote s)"
  have "x \<noteq> CHR 0x22" using x by (auto simp: special_def)
  then obtain c where "c \<in> set s" "x \<in> set (escape_char c)" using q by (auto simp: quote_def)
  then show "x \<in> set s" using escape_char_special [OF x] by metis
qed

lemma escape_char_plain: "c \<noteq> CHR 0x22 \<Longrightarrow> c \<noteq> CHR 0x5C \<Longrightarrow> 32 \<le> (of_char c :: nat) \<Longrightarrow> escape_char c = [c]"
  by (auto simp: escape_char_def short_escape_def Let_def)

lemma quote_name: "name_ok s \<Longrightarrow> quote s = CHR 0x22 # s @ [CHR 0x22]"
proof -
  assume "name_ok s"
  then have "list_all (\<lambda>c. c \<noteq> CHR 0x22 \<and> c \<noteq> CHR 0x5C \<and> 32 \<le> (of_char c :: nat)) s" by (simp add: name_ok_def)
  then have "concat (map escape_char s) = s" by (induction s) (auto simp: escape_char_plain)
  then show ?thesis by (simp add: quote_def)
qed

lemma quote_one_line: "one_line (quote s)"
proof -
  have "x \<notin> set (escape_char c)" if "x = CHR 0x0A \<or> x = CHR 0x0D" for x c
    using that escape_char_set [of c] escape_char_control [of c] by (auto simp: hex_chars_def)
  then show ?thesis by (auto simp: quote_def one_line_def list_all_iff)
qed

lemma numeric_exponent_chars: "numeric_exponent s \<Longrightarrow> list_all num_char s"
  by (auto simp: numeric_exponent_def num_char_def list_all_iff Let_def split: list.splits if_splits)

lemma digits_num_chars: "list_all num_char (dropWhile is_digit_char s) \<Longrightarrow> list_all num_char s"
  by (induction s) (auto simp: num_char_def split: if_splits)

lemma numeric_chars: "NUMERIC_LITERAL s \<Longrightarrow> s \<noteq> [] \<and> list_all num_char s"
proof -
  assume n: "NUMERIC_LITERAL s"
  define s1 where "s1 = (case s of c # cs \<Rightarrow> if c = CHR ''-'' then cs else s | [] \<Rightarrow> [])"
  define r where "r = dropWhile is_digit_char s1"
  have r: "list_all num_char r"
  proof (cases r)
    case (Cons c cs)
    then have c: "(c = CHR ''.'' \<and> numeric_exponent (dropWhile is_digit_char cs)) \<or> numeric_exponent r"
      using n by (auto simp: NUMERIC_LITERAL_def Let_def span_digits_def s1_def [symmetric] r_def [symmetric] split: if_splits)
    have "list_all num_char cs" if "numeric_exponent (dropWhile is_digit_char cs)"
      using that numeric_exponent_chars digits_num_chars by blast
    then show ?thesis using c Cons numeric_exponent_chars [of r] by (auto simp: num_char_def)
  qed simp
  then have "list_all num_char s1" unfolding r_def by (rule digits_num_chars)
  moreover have "s \<noteq> []" using n by (auto simp: NUMERIC_LITERAL_def span_digits_def)
  ultimately show ?thesis by (cases s) (auto simp: s1_def num_char_def split: if_splits)
qed

subsection \<open>Reading what was built\<close>

lemma strip_prefix_simps [simp]:
  "strip_prefix [] s = Some s" "strip_prefix (a # p) [] = None"
  "strip_prefix (a # p) (b # s) = (if a = b then strip_prefix p s else None)"
  by (auto simp: strip_prefix_def)

lemma strip_prefix_same [simp]: "strip_prefix (p @ q) (p @ s) = strip_prefix q s"
  by (induction p) simp_all

lemma strip_prefix_all [simp]: "strip_prefix p (p @ s) = Some s"
  using strip_prefix_same [of p "[]" s] by simp

lemma strip_suffix_append [simp]: "strip_suffix p (s @ p) = Some s"
  by (simp add: strip_suffix_def)

lemma take_num_stops: "n \<noteq> [] \<Longrightarrow> list_all num_char n \<Longrightarrow> (case r of [] \<Rightarrow> True | c # _ \<Rightarrow> \<not> num_char c) \<Longrightarrow>
  take_num (n @ r) = Some (n, r)"
  by (cases r) (auto simp: take_num_def list_all_iff takeWhile_append dropWhile_append Let_def takeWhile_eq_all_conv [THEN iffD2]
      dropWhile_eq_Nil_conv [THEN iffD2])

lemma take_num_all: "NUMERIC_LITERAL n \<Longrightarrow> take_num n = Some (n, [])"
  using take_num_stops [of n "[]"] numeric_chars by simp

lemma take_num_space: "NUMERIC_LITERAL n \<Longrightarrow> take_num (n @ CHR '' '' # r) = Some (n, CHR '' '' # r)"
  using take_num_stops [of n "CHR '' '' # r"] numeric_chars by (simp add: num_char_def is_digit_char_def char_digit_def)

lemma take_name_quote: "name_ok p \<Longrightarrow> take_name (quote p @ r) = Some (p, r)"
proof -
  assume n: "name_ok p"
  then have "\<forall>c \<in> set p. c \<noteq> CHR 0x22" and "p \<noteq> []" by (auto simp: name_ok_def list_all_iff)
  then show ?thesis using quote_name [OF n] by (simp add: take_name_def takeWhile_append dropWhile_append)
qed

lemma take_field_quote: "name_ok p \<Longrightarrow> take_field name (name @ CHR ''('' # quote p @ CHR '')'' # r) = Some (p, r)"
  using strip_prefix_all [of "name @ paren_open"] take_name_quote [of p "CHR '')'' # r"]
  by (simp add: take_field_def paren_open_def)

lemma literal_escape:
  "literal_body (escape_char c @ t) = map_option (\<lambda>(l, rest). (escape_char c @ l, rest)) (literal_body t)"
proof (cases "short_escape c")
  case (Some e)
  then have "e \<noteq> CHR 0x0A \<and> e \<noteq> CHR 0x0D" by (auto simp: short_escape_def split: if_splits)
  then show ?thesis using Some by (simp add: escape_char_def option.map_comp comp_def split_beta)
next
  case None
  then have c: "c \<noteq> CHR 0x22" "c \<noteq> CHR 0x5C" by (auto simp: short_escape_def)
  have h: "x \<noteq> CHR 0x22" "x \<noteq> CHR 0x5C" if "x \<in> hex_chars" for x using that by (auto simp: hex_chars_def)
  define n where "n = (of_char c :: nat)"
  show ?thesis
  proof (cases "n < 32")
    case True
    then have "hex_char (n div 16) \<in> hex_chars" "hex_char (n mod 16) \<in> hex_chars" by (auto intro!: hex_char_cases)
    then show ?thesis using None True h
      by (cases "literal_body t") (auto simp: escape_char_def Let_def n_def [symmetric])
  qed (use None c in \<open>simp add: escape_char_def Let_def n_def [symmetric]\<close>)
qed

lemma take_literal_quote: "take_literal (quote v @ r) = Some (quote v, r)"
proof -
  have "literal_body (concat (map escape_char v) @ CHR 0x22 # r) = Some (concat (map escape_char v) @ [CHR 0x22], r)"
    by (induction v) (simp_all add: literal_escape)
  then show ?thesis by (simp add: quote_def take_literal_def)
qed

lemma JSON_parse_quote: "JSON_parse (quote v) = Some (JStr v)"
  using JSON_roundtrip [of "JStr v"] by simp

lemma trim_quote: "trim (quote v) = quote v"
  by (simp add: trim_def, rule trim_by_id) (simp add: quote_def is_ws_def)

lemma numeric_quote: "\<not> NUMERIC_LITERAL (quote v)"
  using numeric_chars [of "quote v"] by (auto simp: quote_def num_char_def is_digit_char_def char_digit_def)

lemma quote_literals: "quote v \<noteq> ''true''" "quote v \<noteq> ''false''"
  by (simp_all add: quote_def)

lemma parse_built_literal:
  assumes "value_ok v" "m \<noteq> MATCH_CONTAINS"
  shows "\<exists>x. parseExprLiteral (buildExprLiteral m v) = Some x \<and> js_string x = v"
proof -
  have t: "trim v = v" using assms(1) by (simp add: value_ok_def)
  have "parseExprLiteral (quote v) = Some (JStr v)"
    using numeric_quote [of v] quote_literals [of v] by (simp add: parseExprLiteral_def Let_def trim_quote JSON_parse_quote)
  then show ?thesis using t assms(2) by (auto simp: buildExprLiteral_def parseExprLiteral_def Let_def)
qed

subsection \<open>Conditions that are read back\<close>

definition plain_time :: "TimeCondition \<Rightarrow> bool" where
  "plain_time c \<longleftrightarrow> tc_timeFunc c \<in> set TIME_FUNCS \<and> name_ok (tc_timezone c) \<and>
     (if tc_mode c = MATCH_RANGE
      then tc_value c = [] \<and> NUMERIC_LITERAL (tc_rangeStart c) \<and> NUMERIC_LITERAL (tc_rangeEnd c)
      else tc_mode c \<in> {MATCH_EQ, MATCH_GTE, MATCH_LT} \<and> NUMERIC_LITERAL (tc_value c) \<and>
        tc_rangeStart c = [] \<and> tc_rangeEnd c = [])"

definition plain_field :: "ParamHeaderCondition \<Rightarrow> bool" where
  "plain_field c \<longleftrightarrow> name_ok (ph_path c) \<and>
     (if ph_mode c = MATCH_EXISTS then ph_value c = []
      else value_ok (ph_value c) \<and> (ph_mode c = MATCH_EQ \<or> ph_mode c = MATCH_CONTAINS \<and> ph_source c = Header))"

definition plain_condition :: "RequestCondition \<Rightarrow> bool" where
  "plain_condition c = (case c of TimeRule t \<Rightarrow> plain_time t | FieldRule f \<Rightarrow> plain_field f)"

text \<open>All modes the editor offers for a condition, and those of them that test a parameter behind a guard \<open>!= nil\<close>.\<close>

definition guarded_modes :: "string set" where
  "guarded_modes = {MATCH_CONTAINS, MATCH_GT, MATCH_GTE, MATCH_LT, MATCH_LTE}"

definition guarded_field :: "ParamHeaderCondition \<Rightarrow> bool" where
  "guarded_field c \<longleftrightarrow> name_ok (ph_path c) \<and> ph_source c = Param \<and> ph_mode c \<in> guarded_modes \<and>
     (if ph_mode c = MATCH_CONTAINS then value_ok (ph_value c) else NUMERIC_LITERAL (ph_value c))"

definition editor_condition :: "RequestCondition \<Rightarrow> bool" where
  "editor_condition c = (case c of TimeRule t \<Rightarrow> plain_time t | FieldRule f \<Rightarrow> plain_field f \<or> guarded_field f)"

lemma trim_numeric: "NUMERIC_LITERAL n \<Longrightarrow> trim n = n"
proof -
  assume "NUMERIC_LITERAL n"
  then have "list_all num_char n" using numeric_chars by blast
  moreover have "\<not> is_ws c" if "num_char c" for c
    using that by (auto simp: num_char_def is_ws_def is_digit_char_def char_digit_def)
  ultimately show ?thesis unfolding trim_def by (intro trim_by_no_ws) (auto simp: list_all_iff)
qed

lemma take_time: "f \<in> set TIME_FUNCS \<Longrightarrow> take_one_of TIME_FUNCS paren_open (f @ CHR ''('' # r) = Some (f, r)"
proof -
  assume "f \<in> set TIME_FUNCS"
  then consider "f = ''hour''" | "f = ''minute''" | "f = ''weekday''" | "f = ''month''" | "f = ''day''"
    by (auto simp: TIME_FUNCS_def)
  then show ?thesis by cases (simp_all add: TIME_FUNCS_def take_one_of_def paren_open_def)
qed

text \<open>No other expression starts with a time function.\<close>

lemma take_time_other:
  "take_one_of TIME_FUNCS paren_open (CHR ''('' # r) = None" "take_one_of TIME_FUNCS paren_open (''header'' @ r) = None"
  "take_one_of TIME_FUNCS paren_open (''param'' @ r) = None" "take_one_of TIME_FUNCS paren_open (''has'' @ r) = None"
  by (simp_all add: TIME_FUNCS_def take_one_of_def)

lemma time_func_start: "f \<in> set TIME_FUNCS \<Longrightarrow> \<exists>c cs. f = c # cs \<and> c \<noteq> CHR ''(''"
  by (auto simp: TIME_FUNCS_def)

lemma strip_parens_time: "f \<in> set TIME_FUNCS \<Longrightarrow> strip_parens (f @ r) = None"
  using time_func_start [of f] by (auto simp: strip_parens_def)

definition time_ops :: "(string \<times> string) list" where
  "time_ops = [(MATCH_EQ, ''==''), (MATCH_GTE, ''>=''), (MATCH_LT, ''<'')]"

lemma take_time_op:
  "(m, op) \<in> set time_ops \<Longrightarrow> take_one_of [''=='', ''>='', ''<''] '' '' (op @ CHR '' '' # r) = Some (op, r)"
  "(m, op) \<in> set time_ops \<Longrightarrow> map_of [(''=='', MATCH_EQ), (''>='', MATCH_GTE), (''<'', MATCH_LT)] op = Some m"
  by (auto simp: time_ops_def take_one_of_def)

lemma time_op_read:
  assumes "f \<in> set TIME_FUNCS" "name_ok tz" "NUMERIC_LITERAL n" "(m, op) \<in> set time_ops"
  shows "tryParseTimeCondition (f @ CHR ''('' # quote tz @ CHR '')'' # CHR '' '' # op @ CHR '' '' # n) =
    Some \<lparr>tc_timeFunc = f, tc_timezone = tz, tc_mode = m, tc_value = n, tc_rangeStart = [], tc_rangeEnd = []\<rparr>"
proof -
  define e where "e = f @ CHR ''('' # quote tz @ CHR '')'' # CHR '' '' # op @ CHR '' '' # n"
  have "match_range e = None"
    using assms(4) by (auto simp: e_def match_range_def take_time assms(1) take_name_quote [OF assms(2)] time_ops_def
        take_num_all [OF assms(3)])
  moreover have "strip_parens e = None" unfolding e_def by (rule strip_parens_time [OF assms(1)])
  moreover have "match_time_op e =
      Some \<lparr>tc_timeFunc = f, tc_timezone = tz, tc_mode = m, tc_value = n, tc_rangeStart = [], tc_rangeEnd = []\<rparr>"
    using take_time_op [OF assms(4)]
    by (simp add: e_def match_time_op_def take_time assms(1) take_name_quote [OF assms(2)] take_num_all [OF assms(3)]
        at_end_def opt_or_def)
  ultimately show ?thesis by (simp add: tryParseTimeCondition_def e_def [symmetric])
qed

definition range_text :: "string \<Rightarrow> string \<Rightarrow> string \<Rightarrow> string \<Rightarrow> string" where
  "range_text f tz lo hi = f @ CHR ''('' # quote tz @ '') >= '' @ lo @ '' || '' @ f @ CHR ''('' # quote tz @ '') < '' @ hi"

lemma range_read:
  assumes "f \<in> set TIME_FUNCS" "name_ok tz" "NUMERIC_LITERAL lo" "NUMERIC_LITERAL hi" "e = range_text f tz lo hi"
  shows "tryParseTimeCondition e =
      Some \<lparr>tc_timeFunc = f, tc_timezone = tz, tc_mode = MATCH_RANGE, tc_value = [], tc_rangeStart = lo, tc_rangeEnd = hi\<rparr>"
    and "tryParseTimeCondition (CHR ''('' # e @ '')'') = tryParseTimeCondition e"
proof -
  define r4 where "r4 = '' || '' @ f @ CHR ''('' # quote tz @ '') < '' @ hi"
  have "e = f @ CHR ''('' # quote tz @ '') >= '' @ lo @ r4" by (simp add: assms(5) range_text_def r4_def)
  moreover have "take_num (lo @ r4) = Some (lo, r4)" using take_num_space [OF assms(3)] by (simp add: r4_def)
  moreover have "strip_prefix ('' || '' @ f @ paren_open @ [CHR 0x22] @ tz @ [CHR 0x22] @ '') < '') r4 = Some hi"
    by (simp add: r4_def paren_open_def quote_name [OF assms(2)])
  ultimately have m: "match_range e = Some \<lparr>tc_timeFunc = f, tc_timezone = tz, tc_mode = MATCH_RANGE, tc_value = [],
      tc_rangeStart = lo, tc_rangeEnd = hi\<rparr>"
    by (simp add: match_range_def take_time [OF assms(1)] take_name_quote [OF assms(2)] take_num_all [OF assms(4)] at_end_def)
  then show "tryParseTimeCondition e =
      Some \<lparr>tc_timeFunc = f, tc_timezone = tz, tc_mode = MATCH_RANGE, tc_value = [], tc_rangeStart = lo, tc_rangeEnd = hi\<rparr>"
    by (simp add: tryParseTimeCondition_def)
  have "match_range (CHR ''('' # e @ '')'') = None" by (simp add: match_range_def take_time_other)
  moreover have "strip_parens (CHR ''('' # e @ '')'') = Some e" by (simp add: strip_parens_def)
  ultimately show "tryParseTimeCondition (CHR ''('' # e @ '')'') = tryParseTimeCondition e"
    using m by (simp add: tryParseTimeCondition_def)
qed

text \<open>The text that is built for a plain time condition.\<close>

lemma name_ok_trim: "name_ok p \<Longrightarrow> p \<noteq> [] \<and> trim p = p"
  by (simp add: name_ok_def value_ok_def)

lemma build_range:
  assumes "plain_time c" "tc_mode c = MATCH_RANGE"
  shows "buildTimeConditionExpr c = range_text (tc_timeFunc c) (tc_timezone c) (tc_rangeStart c) (tc_rangeEnd c)"
  using assms name_ok_trim [of "tc_timezone c"]
  by (simp add: plain_time_def buildTimeConditionExpr_def normalize_time_def Let_def time_match_options_def str_or_def
      trim_numeric range_text_def paren_open_def)

lemma build_time_op:
  assumes "plain_time c" "tc_mode c \<noteq> MATCH_RANGE"
  shows "\<exists>op. (tc_mode c, op) \<in> set time_ops \<and> buildTimeConditionExpr c =
    tc_timeFunc c @ CHR ''('' # quote (tc_timezone c) @ CHR '')'' # CHR '' '' # op @ CHR '' '' # tc_value c"
proof -
  have m: "tc_mode c = MATCH_EQ \<or> tc_mode c = MATCH_GTE \<or> tc_mode c = MATCH_LT" and v: "NUMERIC_LITERAL (tc_value c)"
    and f: "tc_timeFunc c \<in> set TIME_FUNCS" and z: "tc_timezone c \<noteq> []"
    using assms name_ok_trim by (auto simp: plain_time_def)
  have n: "normalize_time c = c" using m f z
    by (auto simp: normalize_time_def time_match_options_def str_or_def)
  show ?thesis using m v trim_numeric [OF v] assms(2)
    by (elim disjE) (simp_all add: buildTimeConditionExpr_def n time_ops_def match_modes paren_open_def opt_or_def)
qed

lemma time_reads_back:
  assumes "plain_time c"
  shows "tryParseTimeCondition (buildTimeConditionExpr c) = Some c"
    and "tc_mode c = MATCH_RANGE \<Longrightarrow> tryParseTimeCondition (CHR ''('' # buildTimeConditionExpr c @ '')'') = Some c"
proof -
  have p: "tc_timeFunc c \<in> set TIME_FUNCS" "name_ok (tc_timezone c)" using assms by (auto simp: plain_time_def)
  have r: "tryParseTimeCondition (buildTimeConditionExpr c) = Some c
      \<and> tryParseTimeCondition (CHR ''('' # buildTimeConditionExpr c @ '')'') = Some c" if "tc_mode c = MATCH_RANGE"
    using range_read [OF p _ _ build_range [OF assms that]] assms that by (simp add: plain_time_def)
  have "tryParseTimeCondition (buildTimeConditionExpr c) = Some c" if n: "tc_mode c \<noteq> MATCH_RANGE"
  proof -
    obtain op where "(tc_mode c, op) \<in> set time_ops" and b: "buildTimeConditionExpr c =
        tc_timeFunc c @ CHR ''('' # quote (tc_timezone c) @ CHR '')'' # CHR '' '' # op @ CHR '' '' # tc_value c"
      using build_time_op [OF assms n] by blast
    then show ?thesis using time_op_read [OF p] assms n by (simp add: plain_time_def)
  qed
  then show "tryParseTimeCondition (buildTimeConditionExpr c) = Some c" using r by blast
  show "tc_mode c = MATCH_RANGE \<Longrightarrow> tryParseTimeCondition (CHR ''('' # buildTimeConditionExpr c @ '')'') = Some c" using r by blast
qed

text \<open>Which patterns do not fit, by the first word of the expression.\<close>

lemma time_none:
  "tryParseTimeCondition (''header'' @ r) = None" "tryParseTimeCondition (''param'' @ r) = None"
  "tryParseTimeCondition (''has'' @ r) = None"
  using take_time_other
  by (simp_all add: tryParseTimeCondition_def match_range_def match_time_op_def strip_parens_def)

lemma other_field:
  "take_field ''header'' (''param'' @ r) = None" "take_field ''param'' (''header'' @ r) = None"
  "take_field ''header'' (''has'' @ r) = None" "take_field ''param'' (''has'' @ r) = None"
  "take_has name (''param'' @ r) = None" "take_has name (''header'' @ r) = None"
  by (simp_all add: take_field_def take_has_def)

lemmas field_matches = match_header_exists_def match_param_exists_def match_param_has_def match_param_compare_def
  match_equals_def Let_def other_field time_none tryParseRequestCondition_def

lemma header_text_read:
  assumes "name_ok p"
  shows "tryParseRequestCondition (''header'' @ CHR ''('' # quote p @ CHR '')'' # '' != '' @ [CHR 0x22, CHR 0x22]) =
      Inr (Some (field_rule Header p MATCH_EXISTS []))"
    and "tryParseRequestCondition (''has'' @ CHR ''('' # ''header'' @ CHR ''('' # quote p @ CHR '')'' # '', '' @ quote v @ '')'') =
      Inr (Some (field_rule Header p MATCH_CONTAINS v))"
    and "l \<noteq> [] \<Longrightarrow> one_line l \<Longrightarrow> parseExprLiteral l = Some x \<Longrightarrow>
      tryParseRequestCondition (''header'' @ CHR ''('' # quote p @ CHR '')'' # '' == '' @ l) =
      Inr (Some (field_rule Header p MATCH_EQ (js_string x)))"
proof -
  have h: "take_field ''header'' (''header'' @ CHR ''('' # quote p @ CHR '')'' # r) = Some (p, r)" for r
    by (rule take_field_quote [OF assms])
  show "tryParseRequestCondition (''header'' @ CHR ''('' # quote p @ CHR '')'' # '' != '' @ [CHR 0x22, CHR 0x22]) =
      Inr (Some (field_rule Header p MATCH_EXISTS []))"
    unfolding field_matches h by (simp add: at_end_def)
  have t: "take_has ''header'' (''has'' @ CHR ''('' # ''header'' @ CHR ''('' # quote p @ CHR '')'' # '', '' @ quote v @ '')'') =
      Some (p, quote v)"
    using h [of "'', '' @ quote v @ '')''"] take_literal_quote [of v "'')''"]
    by (simp add: take_has_def paren_open_def at_end_def)
  show "tryParseRequestCondition (''has'' @ CHR ''('' # ''header'' @ CHR ''('' # quote p @ CHR '')'' # '', '' @ quote v @ '')'') =
      Inr (Some (field_rule Header p MATCH_CONTAINS v))"
    unfolding field_matches t by (simp add: parse_lit_def JSON_parse_quote)
  show "tryParseRequestCondition (''header'' @ CHR ''('' # quote p @ CHR '')'' # '' == '' @ l) =
      Inr (Some (field_rule Header p MATCH_EQ (js_string x)))"
    if "l \<noteq> []" "one_line l" "parseExprLiteral l = Some x"
    unfolding field_matches h using that by simp
qed

lemma param_text_read:
  assumes "name_ok p"
  shows "tryParseRequestCondition (''param'' @ CHR ''('' # quote p @ CHR '')'' # '' != nil'') =
      Inr (Some (field_rule Param p MATCH_EXISTS []))"
    and "l \<noteq> [] \<Longrightarrow> one_line l \<Longrightarrow> parseExprLiteral l = Some x \<Longrightarrow>
      tryParseRequestCondition (''param'' @ CHR ''('' # quote p @ CHR '')'' # '' == '' @ l) =
      Inr (Some (field_rule Param p MATCH_EQ (js_string x)))"
proof -
  have h: "take_field ''param'' (''param'' @ CHR ''('' # quote p @ CHR '')'' # r) = Some (p, r)" for r
    by (rule take_field_quote [OF assms])
  show "tryParseRequestCondition (''param'' @ CHR ''('' # quote p @ CHR '')'' # '' != nil'') =
      Inr (Some (field_rule Param p MATCH_EXISTS []))"
    unfolding field_matches h by (simp add: at_end_def)
  show "tryParseRequestCondition (''param'' @ CHR ''('' # quote p @ CHR '')'' # '' == '' @ l) =
      Inr (Some (field_rule Param p MATCH_EQ (js_string x)))"
    if "l \<noteq> []" "one_line l" "parseExprLiteral l = Some x"
    unfolding field_matches h using that by simp
qed

lemma num_one_line: "list_all num_char l \<Longrightarrow> one_line l"
  by (auto simp: one_line_def list_all_iff num_char_def is_digit_char_def char_digit_def)

lemma built_literal_shape: "value_ok v \<Longrightarrow> buildExprLiteral m v \<noteq> [] \<and> one_line (buildExprLiteral m v)"
  using quote_one_line [of v] numeric_chars [of v] num_one_line [of v]
  by (auto simp: buildExprLiteral_def Let_def value_ok_def quote_def one_line_def)

definition field_text :: "ParamHeaderCondition \<Rightarrow> string" where
  "field_text c =
     (let s = (if ph_source c = Header then ''header'' else ''param'') @ CHR ''('' # quote (ph_path c) @ '')'' in
      if ph_mode c = MATCH_EXISTS then s @ (if ph_source c = Header then '' != '' @ [CHR 0x22, CHR 0x22] else '' != nil'')
      else if ph_mode c = MATCH_CONTAINS then ''has'' @ CHR ''('' # s @ '', '' @ quote (ph_value c) @ '')''
      else s @ '' == '' @ buildExprLiteral (ph_mode c) (ph_value c))"

lemma build_field: "plain_field c \<Longrightarrow> buildFieldConditionExpr c = field_text c"
proof -
  assume p: "plain_field c"
  have n: "normalize_field c = c" and m: "ph_mode c \<notin> {MATCH_GT, MATCH_GTE, MATCH_LT, MATCH_LTE}"
    using p by (auto simp: plain_field_def normalize_field_def field_match_options_def match_modes Let_def split: if_splits)
  have t: "trim (ph_path c) = ph_path c" "ph_path c \<noteq> []" using p name_ok_trim by (auto simp: plain_field_def)
  show ?thesis
  proof (cases "ph_mode c = MATCH_CONTAINS")
    case True
    then have "ph_source c = Header" "trim (ph_value c) = ph_value c"
      using p by (auto simp: plain_field_def match_modes value_ok_def)
    then show ?thesis using True n t by (simp add: buildFieldConditionExpr_def field_text_def paren_open_def Let_def
          buildExprLiteral_def match_modes)
  next
    case False
    then show ?thesis using n t m
      by (simp add: buildFieldConditionExpr_def field_text_def paren_open_def Let_def)
  qed
qed

lemma field_reads_back: "plain_field c \<Longrightarrow> tryParseRequestCondition (field_text c) = Inr (Some (FieldRule c))"
proof -
  assume p: "plain_field c"
  then have name: "name_ok (ph_path c)" by (simp add: plain_field_def)
  consider "ph_mode c = MATCH_EXISTS" "ph_value c = []" | "ph_mode c = MATCH_CONTAINS" "ph_source c = Header"
    | "ph_mode c = MATCH_EQ" "value_ok (ph_value c)"
    using p by (auto simp: plain_field_def split: if_splits)
  then show ?thesis
  proof cases
    case 1
    then show ?thesis using header_text_read(1) [OF name] param_text_read(1) [OF name]
      by (cases "ph_source c") (simp_all add: field_text_def field_rule_def)
  next
    case 2
    then show ?thesis using header_text_read(2) [OF name]
      by (simp add: field_text_def field_rule_def match_modes)
  next
    case 3
    obtain x where x: "parseExprLiteral (buildExprLiteral MATCH_EQ (ph_value c)) = Some x" "js_string x = ph_value c"
      using parse_built_literal [OF 3(2), of MATCH_EQ] by (auto simp: match_modes)
    show ?thesis using 3 x built_literal_shape [OF 3(2), of MATCH_EQ] header_text_read(3) [OF name _ _ x(1)]
        param_text_read(2) [OF name _ _ x(1)]
      by (cases "ph_source c") (simp_all add: field_text_def field_rule_def match_modes)
  qed
qed

subsection \<open>The shape of built expressions\<close>

definition flat :: "string \<Rightarrow> bool" where
  "flat s \<longleftrightarrow> (\<forall>c \<in> set s. c \<notin> special)"

lemma flat_simps [simp]:
  "flat []" "flat (c # s) \<longleftrightarrow> c \<notin> special \<and> flat s" "flat (s @ t) \<longleftrightarrow> flat s \<and> flat t"
  by (auto simp: flat_def)

lemma special_simps [simp]: "c \<in> special \<longleftrightarrow> c \<in> set ''()&*|''"
  by (auto simp: special_def)

lemma flat_quote: "value_ok v \<Longrightarrow> flat (quote v)"
  using quote_special by (auto simp: flat_def value_ok_def list_all_iff simp del: special_simps)

lemma flat_numeric: "NUMERIC_LITERAL n \<Longrightarrow> flat n"
proof -
  assume "NUMERIC_LITERAL n"
  then have "list_all num_char n" using numeric_chars by blast
  moreover have "c \<notin> special" if "num_char c" for c
    using that by (auto simp: num_char_def is_digit_char_def char_digit_def)
  ultimately show ?thesis by (auto simp: flat_def list_all_iff simp del: special_simps)
qed

lemma flat_time: "f \<in> set TIME_FUNCS \<Longrightarrow> flat f"
  by (auto simp: TIME_FUNCS_def)

lemma flat_literal: "value_ok v \<Longrightarrow> flat (buildExprLiteral m v)"
  using flat_quote flat_numeric by (auto simp: buildExprLiteral_def Let_def value_ok_def)

lemma flat_paren_sum: "flat s \<Longrightarrow> paren_sum s = 0"
  by (rule paren_sum_flat) (auto simp: flat_def)

text \<open>A condition as it stands between its neighbours: no separator in it, balanced, and with no space at its ends.\<close>

definition part_ok :: "string \<Rightarrow> bool" where
  "part_ok e \<longleftrightarrow> CHR ''&'' \<notin> set e \<and> CHR ''*'' \<notin> set e \<and> paren_sum e = 0 \<and> e \<noteq> [] \<and> \<not> is_ws (hd e) \<and> \<not> is_ws (last e)"

lemma part_solid: "part_ok e \<Longrightarrow> solid (CHR ''&'') e \<and> solid (CHR ''*'') e"
  using trim_by_id [of e is_ws] by (simp add: part_ok_def solid_def trim_def)

lemma literal_ends: "value_ok v \<Longrightarrow> \<not> is_ws (last (buildExprLiteral m v))"
proof -
  assume v: "value_ok v"
  have "\<not> is_ws (last (quote v))" by (simp add: quote_def is_ws_def)
  moreover have "\<not> is_ws (last v)" if "NUMERIC_LITERAL v"
    using trim_ends [OF trim_numeric [OF that]] numeric_chars [OF that] by blast
  ultimately show ?thesis using v by (auto simp: buildExprLiteral_def Let_def value_ok_def is_ws_def)
qed

lemma flat_no_separators: "flat s \<Longrightarrow> CHR ''&'' \<notin> set s \<and> CHR ''*'' \<notin> set s \<and> CHR ''|'' \<notin> set s"
  by (auto simp: flat_def)

lemma field_part: "plain_field c \<Longrightarrow> part_ok (field_text c) \<and> CHR ''|'' \<notin> set (field_text c)"
proof -
  assume p: "plain_field c"
  have q: "flat (quote (ph_path c))" using p by (simp add: plain_field_def name_ok_def flat_quote)
  consider "ph_mode c = MATCH_EXISTS" | "ph_mode c = MATCH_CONTAINS" "value_ok (ph_value c)"
    | "ph_mode c = MATCH_EQ" "value_ok (ph_value c)"
    using p by (auto simp: plain_field_def split: if_splits)
  then show ?thesis
  proof cases
    case 1
    then show ?thesis using flat_no_separators [OF q] flat_paren_sum [OF q]
      by (auto simp: field_text_def part_ok_def Let_def paren_depth_def is_ws_def)
  next
    case 2
    then show ?thesis
      using flat_no_separators [OF q] flat_paren_sum [OF q] flat_no_separators [OF flat_quote] flat_paren_sum [OF flat_quote]
      by (auto simp: field_text_def part_ok_def Let_def paren_depth_def is_ws_def match_modes)
  next
    case 3
    have l: "flat (buildExprLiteral MATCH_EQ (ph_value c))" using flat_literal [OF 3(2)] .
    show ?thesis
      using 3 flat_no_separators [OF q] flat_paren_sum [OF q] flat_no_separators [OF l] flat_paren_sum [OF l]
        literal_ends [OF 3(2), of MATCH_EQ] built_literal_shape [OF 3(2), of MATCH_EQ]
      by (auto simp: field_text_def part_ok_def Let_def paren_depth_def is_ws_def match_modes)
  qed
qed

lemma numeric_end: "NUMERIC_LITERAL n \<Longrightarrow> n \<noteq> [] \<and> \<not> is_ws (last n)"
  using trim_ends [OF trim_numeric] numeric_chars by blast

lemma time_func_ends: "f \<in> set TIME_FUNCS \<Longrightarrow> f \<noteq> [] \<and> \<not> is_ws (hd f)"
  by (auto simp: TIME_FUNCS_def is_ws_def)

lemma time_part:
  assumes "plain_time c"
  shows "part_ok (buildTimeConditionExpr c)" "tc_mode c \<noteq> MATCH_RANGE \<Longrightarrow> CHR ''|'' \<notin> set (buildTimeConditionExpr c)"
proof -
  have f: "flat (tc_timeFunc c)" "flat (quote (tc_timezone c))" "tc_timeFunc c \<noteq> []" "\<not> is_ws (hd (tc_timeFunc c))"
    using assms flat_time flat_quote time_func_ends by (auto simp: plain_time_def name_ok_def)
  note facts = f flat_no_separators [OF f(1)] flat_paren_sum [OF f(1)] flat_no_separators [OF f(2)] flat_paren_sum [OF f(2)]
  have r: "part_ok (buildTimeConditionExpr c)" if m: "tc_mode c = MATCH_RANGE"
  proof -
    have n: "flat (tc_rangeStart c)" "flat (tc_rangeEnd c)" "tc_rangeEnd c \<noteq> []" "\<not> is_ws (last (tc_rangeEnd c))"
      using assms m flat_numeric numeric_end by (auto simp: plain_time_def)
    show ?thesis unfolding build_range [OF assms m]
      using facts n flat_no_separators [OF n(1)] flat_paren_sum [OF n(1)] flat_no_separators [OF n(2)] flat_paren_sum [OF n(2)]
      by (simp add: range_text_def part_ok_def paren_depth_def)
  qed
  have o: "part_ok (buildTimeConditionExpr c) \<and> CHR ''|'' \<notin> set (buildTimeConditionExpr c)" if m: "tc_mode c \<noteq> MATCH_RANGE"
  proof -
    obtain op where op: "(tc_mode c, op) \<in> set time_ops" and b: "buildTimeConditionExpr c =
        tc_timeFunc c @ CHR ''('' # quote (tc_timezone c) @ CHR '')'' # CHR '' '' # op @ CHR '' '' # tc_value c"
      using build_time_op [OF assms m] by blast
    have n: "flat (tc_value c)" "tc_value c \<noteq> []" "\<not> is_ws (last (tc_value c))"
      using assms m flat_numeric numeric_end by (auto simp: plain_time_def)
    have "flat op" using op by (auto simp: time_ops_def)
    then show ?thesis unfolding b
      using facts n flat_no_separators [OF n(1)] flat_paren_sum [OF n(1)] flat_no_separators [of op] flat_paren_sum [of op]
      by (simp add: part_ok_def paren_depth_def)
  qed
  show "part_ok (buildTimeConditionExpr c)" using r o by blast
  show "tc_mode c \<noteq> MATCH_RANGE \<Longrightarrow> CHR ''|'' \<notin> set (buildTimeConditionExpr c)" using o by blast
qed

subsection \<open>Rules that are read back\<close>

text \<open>The expression of a condition inside a conjunction.\<close>

definition guarded :: "string \<Rightarrow> string" where
  "guarded e = (if js_includes e '' || '' then paren_open @ e @ '')'' else e)"

lemma js_includes_set: "js_includes s p \<Longrightarrow> set p \<subseteq> set s"
proof -
  assume "js_includes s p"
  then obtain i where "find_at p s = Some i" by (auto simp: js_includes_def)
  then obtain t where "drop i s = p @ t" using find_at_Some by blast
  then have "set p \<subseteq> set (drop i s)" by simp
  then show ?thesis using set_drop_subset [of i s] by blast
qed

lemma condition_reads_back:
  assumes "plain_condition c" and "e = buildRequestConditionExpr c"
  shows "part_ok e \<and> part_ok (guarded e) \<and> tryParseRequestCondition e = Inr (Some c)
    \<and> tryParseRequestCondition (guarded e) = Inr (Some c)"
proof (cases c)
  case (FieldRule f)
  then have p: "plain_field f" and e: "e = field_text f"
    using assms build_field by (auto simp: plain_condition_def buildRequestConditionExpr_def)
  have "guarded e = e" using field_part [OF p] js_includes_set [of e "'' || ''"] by (auto simp: guarded_def e)
  then show ?thesis using field_part [OF p] field_reads_back [OF p] FieldRule by (simp add: e)
next
  case (TimeRule t)
  then have p: "plain_time t" and e: "e = buildTimeConditionExpr t"
    using assms by (auto simp: plain_condition_def buildRequestConditionExpr_def)
  have r: "tryParseRequestCondition e = Inr (Some c)"
    using time_reads_back(1) [OF p] TimeRule by (simp add: tryParseRequestCondition_def e)
  show ?thesis
  proof (cases "tc_mode t = MATCH_RANGE")
    case True
    have g: "guarded e = CHR ''('' # e @ '')'' \<or> guarded e = e" by (simp add: guarded_def paren_open_def)
    have "part_ok (CHR ''('' # e @ '')'')" using time_part(1) [OF p] by (simp add: part_ok_def e paren_depth_def is_ws_def)
    moreover have "tryParseRequestCondition (CHR ''('' # e @ '')'') = Inr (Some c)"
      using time_reads_back(2) [OF p True] TimeRule by (simp add: tryParseRequestCondition_def e)
    ultimately show ?thesis using g r time_part(1) [OF p] by (auto simp: e)
  next
    case False
    then have "guarded e = e" using time_part(2) [OF p] js_includes_set [of e "'' || ''"] by (auto simp: guarded_def e)
    then show ?thesis using time_part(1) [OF p] r by (simp add: e)
  qed
qed

text \<open>A guarded test: two conditions for the parser, of which it reads the first and not the second.\<close>

definition compare_ops :: "(string \<times> string) list" where
  "compare_ops = [(MATCH_GT, ''>''), (MATCH_GTE, ''>=''), (MATCH_LT, ''<''), (MATCH_LTE, ''<='')]"

definition guarded_test :: "ParamHeaderCondition \<Rightarrow> string" where
  "guarded_test c =
     (let s = ''param'' @ CHR ''('' # quote (ph_path c) @ '')'' in
      if ph_mode c = MATCH_CONTAINS then ''has'' @ CHR ''('' # s @ '', '' @ quote (ph_value c) @ '')''
      else s @ CHR '' '' # opt_or (map_of compare_ops (ph_mode c)) [] @ CHR '' '' # ph_value c)"

lemma guarded_not_plain: "guarded_field c \<Longrightarrow> \<not> plain_field c"
  by (auto simp: guarded_field_def plain_field_def guarded_modes_def match_modes)

lemma guarded_text:
  assumes "guarded_field c"
  shows "buildFieldConditionExpr c =
    join '' && '' [''param'' @ CHR ''('' # quote (ph_path c) @ '') != nil'', guarded_test c]"
proof -
  have t: "trim (ph_path c) = ph_path c" "ph_path c \<noteq> []" using assms name_ok_trim by (auto simp: guarded_field_def)
  have n: "normalize_field c = c" "ph_source c = Param"
    using assms by (auto simp: guarded_field_def normalize_field_def field_match_options_def guarded_modes_def Let_def)
  consider "ph_mode c = MATCH_CONTAINS" "trim (ph_value c) = ph_value c"
    | op where "(ph_mode c, op) \<in> set compare_ops" "NUMERIC_LITERAL (ph_value c)"
    using assms by (auto simp: guarded_field_def guarded_modes_def compare_ops_def value_ok_def match_modes split: if_splits)
  then show ?thesis
  proof cases
    case 1
    then show ?thesis using t n
      by (simp add: buildFieldConditionExpr_def guarded_test_def buildExprLiteral_def paren_open_def match_modes Let_def)
  next
    case 2
    then show ?thesis using t n trim_numeric [OF 2(2)]
      by (auto simp: buildFieldConditionExpr_def guarded_test_def compare_ops_def paren_open_def match_modes opt_or_def Let_def)
  qed
qed

lemma guarded_part: "guarded_field c \<Longrightarrow> part_ok (guarded_test c) \<and> CHR ''|'' \<notin> set (guarded_test c)"
proof -
  assume g: "guarded_field c"
  have q: "flat (quote (ph_path c))" using g by (simp add: guarded_field_def name_ok_def flat_quote)
  consider "ph_mode c = MATCH_CONTAINS" "flat (quote (ph_value c))"
    | op where "(ph_mode c, op) \<in> set compare_ops" "NUMERIC_LITERAL (ph_value c)"
    using g flat_quote by (auto simp: guarded_field_def guarded_modes_def compare_ops_def match_modes split: if_splits)
  then show ?thesis
  proof cases
    case 1
    then show ?thesis using flat_no_separators [OF q] flat_paren_sum [OF q] flat_no_separators [OF 1(2)] flat_paren_sum [OF 1(2)]
      by (simp add: guarded_test_def part_ok_def paren_depth_def is_ws_def)
  next
    case 2
    have v: "flat (ph_value c)" "ph_value c \<noteq> []" "\<not> is_ws (last (ph_value c))"
      using 2(2) flat_numeric numeric_end by auto
    show ?thesis
      using 2(1) v flat_no_separators [OF q] flat_paren_sum [OF q] flat_no_separators [OF v(1)] flat_paren_sum [OF v(1)]
      by (auto simp: guarded_test_def compare_ops_def part_ok_def paren_depth_def is_ws_def match_modes opt_or_def)
  qed
qed

lemma guarded_unread: "guarded_field c \<Longrightarrow> tryParseRequestCondition (guarded_test c) = Inr None"
proof -
  assume g: "guarded_field c"
  then have name: "name_ok (ph_path c)" by (simp add: guarded_field_def)
  have h: "take_field ''param'' (''param'' @ CHR ''('' # quote (ph_path c) @ CHR '')'' # r) = Some (ph_path c, r)" for r
    by (rule take_field_quote [OF name])
  consider "ph_mode c = MATCH_CONTAINS" | op where "(ph_mode c, op) \<in> set compare_ops"
    using g by (auto simp: guarded_field_def guarded_modes_def compare_ops_def)
  then show ?thesis
  proof cases
    case 1
    have "take_has ''header'' (''has'' @ CHR ''('' # ''param'' @ r) = None" for r by (simp add: take_has_def take_field_def paren_open_def)
    then show ?thesis using 1 time_none(3) by (simp add: guarded_test_def field_matches del: append.simps)
  next
    case 2
    then have "guarded_test c = ''param'' @ CHR ''('' # quote (ph_path c) @ CHR '')'' # CHR '' '' #
        opt_or (map_of compare_ops (ph_mode c)) [] @ CHR '' '' # ph_value c"
      by (auto simp: guarded_test_def compare_ops_def match_modes)
    moreover have "tryParseRequestCondition (''param'' @ CHR ''('' # quote (ph_path c) @ CHR '')'' # CHR '' '' #
        opt_or (map_of compare_ops (ph_mode c)) [] @ CHR '' '' # ph_value c) = Inr None"
      unfolding field_matches h using 2 by (auto simp: compare_ops_def opt_or_def match_modes)
    ultimately show ?thesis by simp
  qed
qed

text \<open>How the parts between the conjunctions are read: as their condition, or with a second part that is not read.\<close>

definition reads_as :: "string list \<Rightarrow> RequestCondition \<Rightarrow> bool" where
  "reads_as ds c \<longleftrightarrow> list_all part_ok ds \<and> ds \<noteq> [] \<and>
     (if plain_condition c then map tryParseRequestCondition ds = [Inr (Some c)]
      else (\<exists>x. map tryParseRequestCondition ds = [Inr (Some x), Inr None]))"

lemma condition_parts:
  assumes "editor_condition c" and "e = buildRequestConditionExpr c"
  shows "e \<noteq> []" and "\<exists>ds. e = join '' && '' ds \<and> reads_as ds c" and "\<exists>ds. guarded e = join '' && '' ds \<and> reads_as ds c"
proof -
  have plain: "reads_as [e] c \<and> reads_as [guarded e] c \<and> e \<noteq> []" if "plain_condition c"
    using condition_reads_back [OF that assms(2)] that by (auto simp: reads_as_def part_ok_def)
  have g: "e \<noteq> [] \<and> guarded e = e \<and> (\<exists>ds. e = join '' && '' ds \<and> reads_as ds c)" if n: "\<not> plain_condition c"
  proof -
    obtain f where f: "c = FieldRule f" "guarded_field f"
      using assms(1) n by (auto simp: editor_condition_def plain_condition_def split: RequestCondition.splits)
    define ds where "ds = [''param'' @ CHR ''('' # quote (ph_path f) @ '') != nil'', guarded_test f]"
    have e: "e = join '' && '' ds" using guarded_text [OF f(2)] by (simp add: assms(2) f(1) buildRequestConditionExpr_def ds_def)
    have name: "name_ok (ph_path f)" and q: "flat (quote (ph_path f))"
      using f(2) by (auto simp: guarded_field_def name_ok_def flat_quote)
    have parts: "list_all part_ok ds"
      using guarded_part [OF f(2)] flat_no_separators [OF q] flat_paren_sum [OF q]
      by (simp add: ds_def part_ok_def paren_depth_def is_ws_def)
    have "CHR ''|'' \<notin> set e" using guarded_part [OF f(2)] flat_no_separators [OF q] by (simp add: e ds_def)
    then have "guarded e = e" using js_includes_set [of e "'' || ''"] by (auto simp: guarded_def)
    moreover have "reads_as ds c"
      using n parts param_text_read(1) [OF name] guarded_unread [OF f(2)] by (simp add: reads_as_def ds_def)
    moreover have "e \<noteq> []" by (simp add: e ds_def)
    ultimately show ?thesis using e by blast
  qed
  show "e \<noteq> []" using plain g by blast
  show "\<exists>ds. e = join '' && '' ds \<and> reads_as ds c" using plain g join.simps(2) by metis
  show "\<exists>ds. guarded e = join '' && '' ds \<and> reads_as ds c" using plain g join.simps(2) by metis
qed

lemma join_concat: "list_all (\<lambda>ds. ds \<noteq> []) dss \<Longrightarrow> join sep (map (join sep) dss) = join sep (concat dss)"
proof (induction dss)
  case (Cons ds dss)
  have app: "join sep (xs @ ys) = join sep xs @ sep @ join sep ys" if "xs \<noteq> []" "ys \<noteq> []" for xs ys :: "'a list list"
    using that
  proof (induction xs)
    case (Cons x xs)
    then show ?case by (cases xs; cases ys) auto
  qed simp
  show ?case
  proof (cases dss)
    case Nil
    then show ?thesis by simp
  next
    case (Cons ds' dss')
    then have "concat dss \<noteq> []" using Cons.prems by simp
    then show ?thesis using Cons Cons.IH Cons.prems app [of ds "concat dss"] by simp
  qed
qed simp

lemma combined_conditions:
  assumes "list_all editor_condition cs" "cs \<noteq> []" "es = map buildRequestConditionExpr cs"
  shows "\<exists>dss. combine_conditions es = join '' && '' (concat dss) \<and> list_all2 reads_as dss cs"
proof (cases "length es = 1")
  case True
  then obtain c where c: "cs = [c]" using assms(3) by (cases cs) auto
  then obtain ds where "buildRequestConditionExpr c = join '' && '' ds" "reads_as ds c"
    using condition_parts(2) [of c] assms(1) by auto
  then show ?thesis using assms(3) c by (intro exI [of _ "[ds]"]) (simp add: combine_conditions_def)
next
  case False
  have "\<exists>dss. map guarded es = map (join '' && '') dss \<and> list_all2 reads_as dss cs"
    using assms(1) unfolding assms(3)
  proof (induction cs)
    case (Cons c cs)
    then obtain dss where dss: "map guarded (map buildRequestConditionExpr cs) = map (join '' && '') dss" "list_all2 reads_as dss cs" by auto
    obtain ds where "guarded (buildRequestConditionExpr c) = join '' && '' ds" "reads_as ds c"
      using condition_parts(3) [of c] Cons.prems by auto
    then show ?case using dss by (intro exI [of _ "ds # dss"]) simp
  qed simp
  then obtain dss where dss: "map guarded es = map (join '' && '') dss" "list_all2 reads_as dss cs" by blast
  then have "list_all (\<lambda>ds. ds \<noteq> []) dss" by (auto simp: list_all2_conv_all_nth list_all_length reads_as_def)
  then show ?thesis using False dss join_concat [of dss "'' && ''"]
    by (intro exI [of _ dss]) (simp add: combine_conditions_def guarded_def [abs_def])
qed

lemma parse_read_conditions:
  "list_all2 reads_as dss cs \<Longrightarrow> parse_conditions (concat dss) = Inr (if list_all plain_condition cs then Some cs else None)"
proof (induction rule: list_all2_induct)
  case (Cons ds dss c cs)
  have "trim d = d" if "d \<in> set ds" for d
    using that Cons.hyps(1) part_solid by (auto simp: reads_as_def list_all_iff solid_def)
  then show ?case using Cons by (auto simp: reads_as_def split: if_splits)
qed simp

lemma paren_sum_join: "list_all part_ok es \<Longrightarrow> paren_sum sep = 0 \<Longrightarrow> paren_sum (join sep es) = 0"
  by (induction sep es rule: join.induct) (auto simp: part_ok_def)

lemma join_chars: "x \<in> set (join sep es) \<Longrightarrow> x \<in> set sep \<or> (\<exists>e \<in> set es. x \<in> set e)"
  by (induction sep es rule: join.induct) auto

lemma join_ends:
  "es \<noteq> [] \<Longrightarrow> list_all part_ok es \<Longrightarrow>
    join sep es \<noteq> [] \<and> hd (join sep es) = hd (hd es) \<and> last (join sep es) = last (last es)"
  by (induction sep es rule: join.induct) (auto simp: part_ok_def)

definition plain_group :: "RequestRuleGroup \<Rightarrow> bool" where
  "plain_group g \<longleftrightarrow> rg_conditions g \<noteq> [] \<and> list_all plain_condition (rg_conditions g) \<and> NUMERIC_LITERAL (rg_multiplier g)"

lemma match_built_factor:
  assumes "NUMERIC_LITERAL m" "C \<noteq> []"
  shows "match_factor (paren_open @ C @ '' ? '' @ m @ '' : 1)'') = Some (C, m)"
proof -
  have n: "rev m \<noteq> []" "list_all num_char (rev m)" using numeric_chars [OF assms(1)] by (auto simp: list_all_iff)
  have "strip_suffix '' : 1)'' (C @ '' ? '' @ m @ '' : 1)'') = Some (C @ '' ? '' @ m)"
    using strip_suffix_append [of "'' : 1)''" "C @ '' ? '' @ m"] by simp
  moreover have "take_num (rev (C @ '' ? '' @ m)) = Some (rev m, rev (C @ '' ? ''))"
    using take_num_stops [OF n, of "CHR '' '' # CHR ''?'' # CHR '' '' # rev C"]
    by (simp add: num_char_def is_digit_char_def char_digit_def)
  moreover have "strip_suffix '' ? '' (C @ '' ? '') = Some C" by (rule strip_suffix_append)
  ultimately show ?thesis using assms(2) by (simp add: match_factor_def paren_open_def)
qed

text \<open>A rule of well-shaped conditions is one factor, and its conditions and multiplier are found in it.\<close>

lemma factor_shape:
  assumes parts: "list_all part_ok ds" "ds \<noteq> []" and k: "NUMERIC_LITERAL k"
    and F: "F = paren_open @ join '' && '' ds @ '' ? '' @ k @ '' : 1)''"
  shows "solid (CHR ''*'') F" "match_factor F = Some (join '' && '' ds, k)" "splitTopLevelAnd (join '' && '' ds) = ds"
proof -
  have ne: "join '' && '' ds \<noteq> []" using join_ends [OF parts(2,1)] by simp
  then show "match_factor F = Some (join '' && '' ds, k)" unfolding F by (rule match_built_factor [OF k])
  show "splitTopLevelAnd (join '' && '' ds) = ds"
    using splitTopLevelAnd_join parts part_solid by (simp add: list_all_iff)
  have "CHR ''*'' \<notin> set (join '' && '' ds)" using join_chars [of "CHR ''*''" "'' && ''" ds] parts(1)
    by (auto simp: list_all_iff part_ok_def)
  moreover have "paren_sum (join '' && '' ds) = 0" using paren_sum_join [OF parts(1)] by (simp add: paren_depth_def)
  moreover have "trim F = F" by (simp add: F paren_open_def trim_def, rule trim_by_id) (simp add: is_ws_def)
  ultimately show "solid (CHR ''*'') F"
    using flat_no_separators [OF flat_numeric [OF k]] flat_paren_sum [OF flat_numeric [OF k]]
    by (simp add: solid_def F paren_open_def paren_depth_def)
qed

text \<open>A rule the editor can hold: conditions of any mode it offers, and a multiplier.\<close>

definition editor_group :: "RequestRuleGroup \<Rightarrow> bool" where
  "editor_group g \<longleftrightarrow> rg_conditions g \<noteq> [] \<and> list_all editor_condition (rg_conditions g) \<and> NUMERIC_LITERAL (rg_multiplier g)"

lemma plain_editor_group: "plain_group g \<longleftrightarrow> editor_group g \<and> list_all plain_condition (rg_conditions g)"
  by (auto simp: plain_group_def editor_group_def editor_condition_def plain_condition_def list_all_iff split: RequestCondition.splits)

lemma group_reads_back:
  assumes "editor_group g" and F: "F = buildRuleGroupFactor g"
  shows "solid (CHR ''*'') F \<and> hd F = CHR ''('' \<and> last F = CHR '')''
    \<and> tryParseRuleGroupFactor F = Inr (if plain_group g then Some g else None)"
proof -
  define m where "m = rg_multiplier g"
  define es where "es = map buildRequestConditionExpr (rg_conditions g)"
  have m: "NUMERIC_LITERAL m" and cs: "list_all editor_condition (rg_conditions g)" "rg_conditions g \<noteq> []"
    using assms(1) by (auto simp: editor_group_def m_def)
  obtain dss where C: "combine_conditions es = join '' && '' (concat dss)" and ds: "list_all2 reads_as dss (rg_conditions g)"
    using combined_conditions [OF cs es_def] by blast
  have r: "\<exists>c. reads_as d c" if "d \<in> set dss" for d using ds that by (auto simp: list_all2_conv_all_nth in_set_conv_nth)
  have "dss \<noteq> []" using ds cs(2) by auto
  then have parts: "list_all part_ok (concat dss)" "concat dss \<noteq> []"
    using r by (auto simp: list_all_iff reads_as_def)
  have "filter (\<lambda>e. e \<noteq> []) es = es" using cs(1) condition_parts(1) by (auto simp: es_def filter_id_conv list_all_iff)
  then have F': "F = paren_open @ join '' && '' (concat dss) @ '' ? '' @ m @ '' : 1)''"
    using m cs(2) C by (simp add: F buildRuleGroupFactor_def m_def [symmetric] es_def [symmetric] trim_numeric) (simp add: es_def)
  note shape = factor_shape [OF parts m F']
  then have "tryParseRuleGroupFactor F = Inr (if plain_group g then Some g else None)"
    using parse_read_conditions [OF ds] cs(2) assms(1) by (simp add: tryParseRuleGroupFactor_def m_def plain_editor_group)
  then show ?thesis using shape(1) by (simp add: F' paren_open_def)
qed

lemma built_rules:
  assumes "list_all editor_group gs" and Fs: "Fs = map buildRuleGroupFactor gs"
  shows "buildRequestRuleExpr gs = join '' * '' Fs" and "list_all (solid (CHR ''*'')) Fs"
    and "trim (join '' * '' Fs) = join '' * '' Fs"
proof -
  show s: "list_all (solid (CHR ''*'')) Fs" using assms group_reads_back by (auto simp: list_all_iff)
  then show "buildRequestRuleExpr gs = join '' * '' Fs" using solid_not_Nil [OF s] by (simp add: buildRequestRuleExpr_def Fs)
  have "Fs \<noteq> [] \<Longrightarrow> join '' * '' Fs \<noteq> [] \<and> hd (join '' * '' Fs) = hd (hd Fs) \<and> last (join '' * '' Fs) = last (last Fs)"
    using s by (induction "'' * ''" Fs rule: join.induct) (auto simp: solid_def)
  moreover have "hd F = CHR ''('' \<and> last F = CHR '')''" if "F \<in> set Fs" for F
    using that assms group_reads_back by (auto simp: list_all_iff)
  ultimately show "trim (join '' * '' Fs) = join '' * '' Fs"
    unfolding trim_def by (intro trim_by_id) (cases "Fs = []", auto simp: is_ws_def)
qed

lemma parse_built_groups:
  "list_all editor_group gs \<Longrightarrow>
    parse_groups (map buildRuleGroupFactor gs) = Inr (if list_all plain_group gs then Some gs else None)"
  by (induction gs) (auto simp: group_reads_back)


subsection \<open>Splitting a combined expression\<close>

text \<open>Parentheses that match, counting from a depth; like the code, parentheses inside quotation marks count.\<close>

fun well_nested :: "int \<Rightarrow> string \<Rightarrow> bool" where
  "well_nested d [] = (d = 0)"
| "well_nested d (c # cs) = (0 \<le> paren_depth c d \<and> well_nested (paren_depth c d) cs)"

lemma split_top_nested:
  "well_nested d s \<Longrightarrow> 0 \<le> d \<Longrightarrow> split_top sep (d + 1) part (s @ rest) = split_top sep 1 (rev s @ part) rest"
proof (induction s arbitrary: d part)
  case (Cons c s)
  have "paren_depth c (d + 1) = paren_depth c d + 1" using paren_depth_add [of c d] paren_depth_add [of c "d + 1"] by simp
  moreover have "0 \<le> paren_depth c d" using Cons.prems(1) by simp
  ultimately show ?case using Cons.IH [of "paren_depth c d" "c # part"] Cons.prems by (simp add: Let_def)
qed simp

lemma outer_parens_nested: "well_nested d s \<Longrightarrow> 0 \<le> d \<Longrightarrow> outer_parens (d + 1) (s @ '')'')"
proof (induction s arbitrary: d)
  case (Cons c s)
  have "paren_depth c (d + 1) = paren_depth c d + 1" using paren_depth_add [of c d] paren_depth_add [of c "d + 1"] by simp
  moreover have "0 \<le> paren_depth c d" using Cons.prems(1) by simp
  ultimately show ?case using Cons.IH [of "paren_depth c d"] Cons.prems by (simp add: Let_def)
qed (simp add: paren_depth_def)

lemma split_top_wrapped:
  assumes "well_nested 0 b" "sep = CHR '' '' # sep'"
  shows "split_top sep 0 [] (CHR ''('' # b @ CHR '')'' # rest) = split_top sep 0 (CHR '')'' # rev b @ ''('') rest"
  using split_top_nested [OF assms(1), of sep "''(''" "CHR '')'' # rest"] assms(2)
  by (simp add: Let_def paren_depth_def)

lemma trim_wrapped: "trim (CHR ''('' # b @ '')'') = CHR ''('' # b @ '')''"
  unfolding trim_def by (rule trim_by_id) (simp add: is_ws_def)

lemma unwrap_wrapped:
  assumes "well_nested 0 (trim b)"
  shows "unwrapOuterParens (CHR ''('' # trim b @ '')'') = unwrapOuterParens b"
proof -
  have "hasFullOuterParens (CHR ''('' # trim b @ '')'')"
    using outer_parens_nested [OF assms] by (simp add: hasFullOuterParens_def paren_open_def endsWith_def paren_depth_def Let_def)
  then show ?thesis
    by (simp add: unwrapOuterParens_def trim_wrapped unwrap_loop.simps [of "CHR ''('' # trim b @ '')''"] slice_def)
qed

lemma base_is_no_rule:
  assumes "well_nested 0 b" "\<not> endsWith b '' : 1''"
  shows "tryParseRequestRuleExpr (CHR ''('' # b @ '')'') = Inr None"
proof -
  have "strip_suffix '' : 1)'' (b @ '')'') = None"
    using assms(2) by (auto simp: strip_suffix_def strip_prefix_def startsWith_iff endsWith_def split: if_splits)
  then have "match_factor (CHR ''('' # b @ '')'') = None" by (simp add: match_factor_def paren_open_def)
  moreover have "splitTopLevelMultiply (CHR ''('' # b @ '')'') = [CHR ''('' # b @ '')'']"
    using split_top_wrapped [OF assms(1), of "'' * ''" _ "[]"] trim_wrapped [of b] by (simp add: splitTopLevelMultiply_def)
  ultimately show ?thesis by (simp add: tryParseRequestRuleExpr_def trim_wrapped tryParseRuleGroupFactor_def)
qed

text \<open>Of the factors built, those of plain rules are rule parts, the others count as base parts.\<close>

lemma split_rule_parts:
  assumes "list_all editor_group gs"
  shows "split_parts rs bs (map buildRuleGroupFactor gs) =
    Inr (rs @ map buildRuleGroupFactor (filter plain_group gs), bs @ map buildRuleGroupFactor (filter (\<lambda>g. \<not> plain_group g) gs))"
  using assms
proof (induction gs arbitrary: rs bs)
  case (Cons g gs)
  define F where "F = buildRuleGroupFactor g"
  have g: "solid (CHR ''*'') F" "tryParseRuleGroupFactor F = Inr (if plain_group g then Some g else None)"
    using group_reads_back [of g] Cons.prems by (auto simp: F_def)
  then have "tryParseRequestRuleExpr F = Inr (if plain_group g then Some [g] else None)"
    using splitTopLevelMultiply_join [of "[F]"] by (simp add: tryParseRequestRuleExpr_def solid_def)
  then show ?case using Cons by (simp add: F_def [symmetric])
qed simp


subsection \<open>Concrete rules\<close>

definition sample_header_rule :: RequestRuleGroup where
  "sample_header_rule =
     \<lparr>rg_conditions = [FieldRule \<lparr>ph_source = Header, ph_path = ''x-tier'', ph_mode = MATCH_CONTAINS, ph_value = ''pro''\<rparr>,
        TimeRule \<lparr>tc_timeFunc = ''hour'', tc_timezone = ''UTC'', tc_mode = MATCH_RANGE, tc_value = [], tc_rangeStart = ''21'',
          tc_rangeEnd = ''6''\<rparr>],
      rg_multiplier = ''0.5''\<rparr>"

definition sample_limit_rule :: RequestRuleGroup where
  "sample_limit_rule =
     \<lparr>rg_conditions = [FieldRule \<lparr>ph_source = Param, ph_path = ''n'', ph_mode = MATCH_GT, ph_value = ''5''\<rparr>], rg_multiplier = ''2''\<rparr>"

lemmas number_eval = NUMERIC_LITERAL_def span_digits_def is_digit_char_def char_digit_def numeric_exponent_def num_char_def

lemma sample_header_plain: "plain_group sample_header_rule"
  by (simp add: sample_header_rule_def plain_group_def plain_condition_def plain_field_def plain_time_def name_ok_def
      value_ok_def special_def trim_def trim_by_def is_ws_def match_modes TIME_FUNCS_def number_eval)

lemma sample_limit_editor: "editor_group sample_limit_rule" "\<not> plain_group sample_limit_rule"
  by (simp_all add: sample_limit_rule_def editor_group_def plain_group_def editor_condition_def plain_condition_def plain_field_def
      guarded_field_def guarded_modes_def name_ok_def value_ok_def special_def trim_def trim_by_def is_ws_def match_modes number_eval)



end
