(* ===== verification/Tallies.thy ===== *)
theory Tallies
  imports Complex_Main Prelude
begin

text \<open>
  Grouping in a map: the loops that look up the entry of a key, create it when it is missing, and change it.  The map
  keeps the order of insertion.  \<open>tally_lookup\<close> says what an entry is in terms of the elements of its group alone; the
  locale \<open>accumulator\<close> is the contract of those groupings that add an amount to a number in the entry.
\<close>

subsection \<open>Accumulating in a map\<close>

text \<open>\<open>map.get(k) ?? initial\<close>, updated, \<open>map.set(k, ...)\<close>\<close>

definition upsert :: "'k \<Rightarrow> 'v \<Rightarrow> ('v \<Rightarrow> 'v) \<Rightarrow> ('k \<times> 'v) list \<Rightarrow> ('k \<times> 'v) list" where
  "upsert k initial f m = AList.update k (f (opt_or (map_of m k) initial)) m"

definition tally :: "('x \<Rightarrow> 'k) \<Rightarrow> ('x \<Rightarrow> 'v) \<Rightarrow> ('x \<Rightarrow> 'v \<Rightarrow> 'v) \<Rightarrow> 'x list \<Rightarrow> ('k \<times> 'v) list \<Rightarrow> ('k \<times> 'v) list" where
  "tally key initial add xs m = foldl (\<lambda>m x. upsert (key x) (initial x) (add x) m) m xs"

lemma tally_simps [simp]:
  "tally key initial add [] m = m"
  "tally key initial add (x # xs) m = tally key initial add xs (upsert (key x) (initial x) (add x) m)"
  "tally key initial add (xs @ ys) m = tally key initial add ys (tally key initial add xs m)"
  by (simp_all add: tally_def)

lemma upsert_keys: "distinct (map fst m) \<Longrightarrow> distinct (map fst (upsert k i f m))"
  "fst ` set (upsert k i f m) = insert k (fst ` set m)"
  by (simp_all add: upsert_def distinct_update dom_update)

lemma tally_distinct: "distinct (map fst m) \<Longrightarrow> distinct (map fst (tally key initial add xs m))"
  by (induction xs arbitrary: m) (simp_all add: upsert_keys)

lemma tally_keys: "fst ` set (tally key initial add xs m) = fst ` set m \<union> key ` set xs"
  by (induction xs arbitrary: m) (auto simp: upsert_keys)

lemma upsert_members:
  "distinct (map fst m) \<Longrightarrow> (k', v) \<in> set (upsert k i f m) \<Longrightarrow>
    (k' = k \<and> v = f (opt_or (map_of m k) i)) \<or> (k' \<noteq> k \<and> (k', v) \<in> set m)"
proof -
  assume d: "distinct (map fst m)" and v: "(k', v) \<in> set (upsert k i f m)"
  have "map_of (upsert k i f m) k' = Some v" using v upsert_keys(1) [OF d] by (simp add: map_of_is_SomeI)
  then show ?thesis by (auto simp: upsert_def update_conv' split: if_splits dest: map_of_SomeD)
qed

text \<open>An entry is made of the elements of its group, and the keys stand in the order of their first elements.\<close>

lemma tally_lookup_from:
  "map_of (tally key initial add xs m) k =
    (case filter (\<lambda>x. key x = k) xs of
       [] \<Rightarrow> map_of m k
     | x # ys \<Rightarrow> Some (foldl (\<lambda>v y. add y v) (opt_or (map_of m k) (initial x)) (x # ys)))"
proof (induction xs arbitrary: m)
  case (Cons x xs)
  show ?case
  proof (cases "key x = k")
    case True
    then show ?thesis using Cons.IH by (simp add: upsert_def update_conv' opt_or_def split: list.splits option.splits)
  next
    case False
    then have e: "map_of (upsert (key x) (initial x) (add x) m) k = map_of m k" by (simp add: upsert_def update_conv')
    show ?thesis using Cons.IH [of "upsert (key x) (initial x) (add x) m", unfolded e] False by simp
  qed
qed simp

lemma tally_lookup:
  "map_of (tally key initial add xs []) k =
    (case filter (\<lambda>x. key x = k) xs of [] \<Rightarrow> None | x # ys \<Rightarrow> Some (foldl (\<lambda>v y. add y v) (initial x) (x # ys)))"
  by (simp add: tally_lookup_from opt_or_def split: list.splits)

lemma nub_snoc: "nub (xs @ [x]) = (if x \<in> set xs then nub xs else nub xs @ [x])"
  by (simp add: nub_def)

lemma update_key_order: "map fst (AList.update k v m) = (if k \<in> fst ` set m then map fst m else map fst m @ [k])"
  by (induction m) auto

lemma tally_order: "map fst (tally key initial add xs []) = nub (map key xs)"
proof (induction xs rule: rev_induct)
  case (snoc x xs)
  then show ?case using tally_keys [of key initial add xs "[]"] by (simp add: upsert_def nub_snoc update_key_order)
qed simp

text \<open>The sum of a map, over the keys with a property.\<close>

definition map_sum :: "('v \<Rightarrow> rat) \<Rightarrow> ('k \<Rightarrow> bool) \<Rightarrow> ('k \<times> 'v) list \<Rightarrow> rat" where
  "map_sum val Q m = sum_list (map (\<lambda>(k, v). if Q k then val v else 0) m)"

lemma map_sum_update:
  "distinct (map fst m) \<Longrightarrow> map_sum val Q (AList.update k v m) =
    map_sum val Q m + (if Q k then val v - (case map_of m k of None \<Rightarrow> 0 | Some w \<Rightarrow> val w) else 0)"
proof (induction m)
  case (Cons e m)
  obtain k' w where e: "e = (k', w)" by fastforce
  show ?case
  proof (cases "k' = k")
    case True
    then show ?thesis by (simp add: e map_sum_def)
  next
    case False
    then show ?thesis using Cons by (simp add: e map_sum_def)
  qed
qed (simp add: map_sum_def)

locale accumulator =
  fixes key :: "'x \<Rightarrow> 'k" and initial :: "'x \<Rightarrow> 'v" and add :: "'x \<Rightarrow> 'v \<Rightarrow> 'v" and val :: "'v \<Rightarrow> rat"
    and amount :: "'x \<Rightarrow> rat" and tag :: "'v \<Rightarrow> 't"
  assumes val_initial: "val (initial x) = 0"
    and val_add: "val (add x v) = val v + amount x"
    and tag_add: "tag (add x v) = tag v"
begin

lemma upsert_sum:
  "distinct (map fst m) \<Longrightarrow>
    map_sum val Q (upsert (key x) (initial x) (add x) m) = map_sum val Q m + (if Q (key x) then amount x else 0)"
  by (simp add: upsert_def map_sum_update val_add opt_or_def val_initial split: option.split)

lemma tally_sum:
  "distinct (map fst m) \<Longrightarrow> map_sum val Q (tally key initial add xs m) =
    map_sum val Q m + sum_list (map (\<lambda>x. if Q (key x) then amount x else 0) xs)"
  by (induction xs arbitrary: m) (simp_all add: upsert_sum upsert_keys)

lemma tally_tag:
  assumes "distinct (map fst m)" "\<And>k v. (k, v) \<in> set m \<Longrightarrow> \<exists>x \<in> X. key x = k \<and> tag v = tag (initial x)" "set xs \<subseteq> X"
    and "(k, v) \<in> set (tally key initial add xs m)"
  shows "\<exists>x \<in> X. key x = k \<and> tag v = tag (initial x)"
  using assms
proof (induction xs arbitrary: m)
  case (Cons y ys)
  define m' where "m' = upsert (key y) (initial y) (add y) m"
  have "\<exists>x \<in> X. key x = k \<and> tag v = tag (initial x)" if kv: "(k, v) \<in> set m'" for k v
  proof (cases "k = key y")
    case True
    then have v: "v = add y (opt_or (map_of m k) (initial y))"
      using upsert_members [OF Cons.prems(1) kv [unfolded m'_def]] by auto
    show ?thesis
    proof (cases "map_of m k")
      case None
      then show ?thesis using True v Cons.prems(3) by (auto simp: opt_or_def tag_add)
    next
      case (Some w)
      then show ?thesis using Cons.prems(2) [OF map_of_SomeD [OF Some]] v by (auto simp: opt_or_def tag_add)
    qed
  next
    case False
    then show ?thesis using upsert_members [OF Cons.prems(1) kv [unfolded m'_def]] Cons.prems(2) by auto
  qed
  then show ?case using Cons.IH [of m'] Cons.prems(1,3,4) by (simp add: m'_def upsert_keys)
qed simp

lemma tally_origin: "(k, v) \<in> set (tally key initial add xs []) \<Longrightarrow> \<exists>x \<in> set xs. key x = k \<and> tag v = tag (initial x)"
  by (rule tally_tag [of "[]" "set xs" xs]) simp_all

text \<open>The sum of the entries whose tag has a property that the keys determine.\<close>

lemma tally_sum_by_tag:
  assumes "\<And>x y. x \<in> set xs \<Longrightarrow> y \<in> set xs \<Longrightarrow> key x = key y \<Longrightarrow> Q (tag (initial x)) = Q (tag (initial y))"
  shows "sum_list (map (\<lambda>(k, v). if Q (tag v) then val v else 0) (tally key initial add xs [])) =
    sum_list (map (\<lambda>x. if Q (tag (initial x)) then amount x else 0) xs)"
proof -
  define K where "K = (\<lambda>k. \<exists>x \<in> set xs. key x = k \<and> Q (tag (initial x)))"
  have k: "K (key x) = Q (tag (initial x))" if "x \<in> set xs" for x unfolding K_def using assms that by blast
  have e: "(if Q (tag v) then val v else 0) = (if K k' then val v else 0)" if kv: "(k', v) \<in> set (tally key initial add xs [])" for k' v
  proof -
    obtain x where "x \<in> set xs" "key x = k'" "tag v = tag (initial x)" using tally_origin [OF kv] by blast
    then show ?thesis using k [of x] by simp
  qed
  have a: "map (\<lambda>(k, v). if Q (tag v) then val v else 0) (tally key initial add xs []) =
      map (\<lambda>(k, v). if K k then val v else 0) (tally key initial add xs [])"
    by (rule map_cong [OF refl]) (clarify, rule e)
  have b: "map (\<lambda>x. if Q (tag (initial x)) then amount x else 0) xs = map (\<lambda>x. if K (key x) then amount x else 0) xs"
    by (rule map_cong [OF refl]) (simp add: k)
  show ?thesis unfolding a b using tally_sum [of "[]" K xs] by (simp add: map_sum_def)
qed

end

end
