(* ===== verification/FlowGraph.thy ===== *)
theory FlowGraph
  imports JsonPrint Tallies
begin

text \<open>
  The flow graph of the dashboard, \<open>features/dashboard/lib/flow.ts\<close>: usage rows become paths through stages
  (user, node, token, group, model, channel, as far as the role may see them), the paths are summed into nodes and
  links, and what does not fit the limit of nodes is aggregated or hidden.  The options of the filters, masking of
  names and highlighting of a selection are part of it.

  Maps and sets of the language keep the order of insertion: they are association lists and lists without repetition.
  Numbers are exact rationals.  \<open>localeCompare\<close>, the printing of numbers by \<open>Intl\<close> and the colour schemes of the chart
  library depend on the environment and are parameters, as are the labels the caller passes as functions.
\<close>

subsection \<open>Rows and nodes\<close>

datatype FlowNodeKind = UserKind | NodeKind | TokenKind | GroupKind | ModelKind | ChannelKind

datatype FlowMetric = QuotaMetric | TokensMetric | RequestsMetric

datatype FlowOverflowMode = AggregateMode | HideMode

datatype FlowRole = UserRole | AdminRole | RootRole

record FlowQuotaDataItem =
  fq_user_id :: "rat option"
  fq_username :: "units option"
  fq_node_name :: "units option"
  fq_use_group :: "units option"
  fq_token_id :: "rat option"
  fq_token_name :: "units option"
  fq_channel_id :: "rat option"
  fq_channel_name :: "units option"
  fq_model_name :: "units option"
  fq_token_used :: "rat option"
  fq_count :: "rat option"
  fq_quota :: "rat option"

record FlowMetrics =
  fm_quota :: rat
  fm_tokens :: rat
  fm_requests :: rat

record FlowPathNode =
  pn_id :: units
  pn_label :: units
  pn_kind :: FlowNodeKind

record PreparedFlowPath =
  pp_path :: "FlowPathNode list"
  pp_metrics :: FlowMetrics

record FlowNodeFilter =
  nf_kind :: FlowNodeKind
  nf_id :: units

record FlowLinkSelection =
  ls_source :: units
  ls_target :: units

definition kind_prefix :: "FlowNodeKind \<Rightarrow> units" where
  "kind_prefix k = code_units (case k of UserKind \<Rightarrow> ''user:'' | NodeKind \<Rightarrow> ''node:'' | TokenKind \<Rightarrow> ''token:''
     | GroupKind \<Rightarrow> ''group:'' | ModelKind \<Rightarrow> ''model:'' | ChannelKind \<Rightarrow> ''channel:'')"

definition OTHER_FLOW_NODE_IDS :: "FlowNodeKind \<Rightarrow> units" where
  "OTHER_FLOW_NODE_IDS k = kind_prefix k @ code_units ''__other__''"

definition FLOW_NODE_KINDS :: "FlowNodeKind list" where
  "FLOW_NODE_KINDS = [UserKind, NodeKind, TokenKind, GroupKind, ModelKind, ChannelKind]"

definition DEFAULT_OTHER_FLOW_NODE_LABELS :: "FlowNodeKind \<Rightarrow> units" where
  "DEFAULT_OTHER_FLOW_NODE_LABELS k = code_units (case k of UserKind \<Rightarrow> ''Other users'' | NodeKind \<Rightarrow> ''Other nodes''
     | TokenKind \<Rightarrow> ''Other tokens'' | GroupKind \<Rightarrow> ''Other groups'' | ModelKind \<Rightarrow> ''Other models'' | ChannelKind \<Rightarrow> ''Other channels'')"

definition SENSITIVE_FLOW_KINDS :: "FlowNodeKind list" where
  "SENSITIVE_FLOW_KINDS = [UserKind, NodeKind, TokenKind, GroupKind, ChannelKind]"

text \<open>\<open>value || fallback\<close> of a text that may be missing.\<close>

definition text_or :: "units option \<Rightarrow> units \<Rightarrow> units" where
  "text_or x d = (case x of Some s \<Rightarrow> if s = [] then d else s | None \<Rightarrow> d)"

definition numberValue :: "rat option \<Rightarrow> rat" where
  "numberValue x = opt_or x 0"

definition number_text :: "rat \<Rightarrow> units" where
  "number_text q = code_units (number_str q)"

definition rowMetrics :: "FlowQuotaDataItem \<Rightarrow> FlowMetrics" where
  "rowMetrics row = \<lparr>fm_quota = numberValue (fq_quota row), fm_tokens = numberValue (fq_token_used row),
     fm_requests = numberValue (fq_count row)\<rparr>"

definition metricValue :: "FlowMetrics \<Rightarrow> FlowMetric \<Rightarrow> rat" where
  "metricValue m metric =
     (case metric of RequestsMetric \<Rightarrow> fm_requests m | TokensMetric \<Rightarrow> fm_tokens m | QuotaMetric \<Rightarrow> fm_quota m)"

text \<open>The id of a record with a number, or of its name when it has none.\<close>

definition id_or_name :: "FlowNodeKind \<Rightarrow> rat \<Rightarrow> units option \<Rightarrow> units" where
  "id_or_name k n name = kind_prefix k @ (if n > 0 then number_text n else text_or name (code_units ''unknown''))"

definition userNode :: "FlowQuotaDataItem \<Rightarrow> FlowPathNode" where
  "userNode row =
     (let userID = numberValue (fq_user_id row) in
      \<lparr>pn_id = id_or_name UserKind userID (fq_username row),
       pn_label = text_or (fq_username row)
         (if userID > 0 then code_units ''user-'' @ number_text userID else code_units ''Unknown User''),
       pn_kind = UserKind\<rparr>)"

definition nodeNameNode :: "FlowQuotaDataItem \<Rightarrow> FlowPathNode" where
  "nodeNameNode row =
     (let nodeName = text_or (fq_node_name row) (code_units ''default-node'') in
      \<lparr>pn_id = kind_prefix NodeKind @ nodeName, pn_label = nodeName, pn_kind = NodeKind\<rparr>)"

type_synonym token_labeler = "(rat \<Rightarrow> units) option"

definition deletedTokenLabel :: "rat \<Rightarrow> token_labeler \<Rightarrow> units" where
  "deletedTokenLabel tokenID ctx =
     (if tokenID \<le> 0 then code_units ''Unknown Token''
      else case ctx of Some f \<Rightarrow> f tokenID | None \<Rightarrow> code_units ''token-'' @ number_text tokenID)"

definition tokenNode :: "FlowQuotaDataItem \<Rightarrow> token_labeler \<Rightarrow> FlowPathNode" where
  "tokenNode row ctx =
     (let tokenID = numberValue (fq_token_id row) in
      \<lparr>pn_id = id_or_name TokenKind tokenID (fq_token_name row),
       pn_label = text_or (fq_token_name row) (deletedTokenLabel tokenID ctx), pn_kind = TokenKind\<rparr>)"

definition groupNode :: "FlowQuotaDataItem \<Rightarrow> FlowPathNode" where
  "groupNode row =
     (let useGroup = text_or (fq_use_group row) (code_units ''unknown'') in
      \<lparr>pn_id = kind_prefix GroupKind @ useGroup, pn_label = useGroup, pn_kind = GroupKind\<rparr>)"

definition modelNode :: "FlowQuotaDataItem \<Rightarrow> FlowPathNode" where
  "modelNode row =
     \<lparr>pn_id = kind_prefix ModelKind @ text_or (fq_model_name row) (code_units ''unknown''),
      pn_label = text_or (fq_model_name row) (code_units ''Unknown Model''), pn_kind = ModelKind\<rparr>"

definition channelNode :: "FlowQuotaDataItem \<Rightarrow> FlowPathNode" where
  "channelNode row =
     (let channelID = numberValue (fq_channel_id row) in
      \<lparr>pn_id = id_or_name ChannelKind channelID (fq_channel_name row),
       pn_label = text_or (fq_channel_name row)
         (if channelID > 0 then code_units ''channel-'' @ number_text channelID else code_units ''Unknown''),
       pn_kind = ChannelKind\<rparr>)"

definition NODE_BUILDERS :: "FlowNodeKind \<Rightarrow> FlowQuotaDataItem \<Rightarrow> token_labeler \<Rightarrow> FlowPathNode" where
  "NODE_BUILDERS k row ctx =
     (case k of UserKind \<Rightarrow> userNode row | NodeKind \<Rightarrow> nodeNameNode row | TokenKind \<Rightarrow> tokenNode row ctx
      | GroupKind \<Rightarrow> groupNode row | ModelKind \<Rightarrow> modelNode row | ChannelKind \<Rightarrow> channelNode row)"

subsection \<open>Stages\<close>

definition getFlowStages :: "FlowRole \<Rightarrow> FlowNodeKind list" where
  "getFlowStages role =
     (case role of
        RootRole \<Rightarrow> [UserKind, NodeKind, TokenKind, GroupKind, ModelKind, ChannelKind]
      | AdminRole \<Rightarrow> [UserKind, GroupKind, ModelKind, ChannelKind]
      | UserRole \<Rightarrow> [TokenKind, GroupKind, ModelKind])"

definition MIN_FLOW_STAGES :: nat where "MIN_FLOW_STAGES = 2"

definition resolveVisibleStages :: "FlowRole \<Rightarrow> FlowNodeKind list option \<Rightarrow> FlowNodeKind list" where
  "resolveVisibleStages role visibleStages =
     (let stages = getFlowStages role in
      case visibleStages of
        None \<Rightarrow> stages
      | Some visible \<Rightarrow>
          (let filtered = filter (\<lambda>stage. stage \<in> set visible) stages in
           if length filtered \<ge> MIN_FLOW_STAGES then filtered else stages))"

definition flowPathForStages :: "FlowQuotaDataItem \<Rightarrow> FlowNodeKind list \<Rightarrow> token_labeler \<Rightarrow> FlowPathNode list" where
  "flowPathForStages row stages ctx = map (\<lambda>stage. NODE_BUILDERS stage row ctx) stages"

subsection \<open>Colours\<close>

type_synonym chart_colors = "nat \<Rightarrow> units list"

definition DEFAULT_FLOW_CHART_COLOR :: units where
  "DEFAULT_FLOW_CHART_COLOR = code_units ''#1664FF''"

definition colorAt :: "chart_colors \<Rightarrow> nat \<Rightarrow> units list option \<Rightarrow> units" where
  "colorAt getDashboardChartColors index palette =
     (let colors = (case palette of Some p \<Rightarrow> if p = [] then getDashboardChartColors (index + 1) else p
                    | None \<Rightarrow> getDashboardChartColors (index + 1)) in
      if colors = [] then DEFAULT_FLOW_CHART_COLOR else colors ! (index mod length colors))"

definition colorPalette :: "chart_colors \<Rightarrow> nat \<Rightarrow> units list option \<Rightarrow> units list" where
  "colorPalette getDashboardChartColors colorCount palette =
     (let colors = getDashboardChartColors colorCount;
          dflt = (if colors = [] then [DEFAULT_FLOW_CHART_COLOR] else colors) in
      case palette of Some p \<Rightarrow> if p = [] then dflt else p | None \<Rightarrow> dflt)"

text \<open>White space among all code units, a digit of a hexadecimal numeral, and \<open>toFixed\<close>.\<close>

definition unit_space :: "nat \<Rightarrow> bool" where
  "unit_space u \<longleftrightarrow> u \<in> {9, 10, 11, 12, 13, 32, 160, 5760, 8232, 8233, 8239, 8287, 12288, 65279} \<or> 8192 \<le> u \<and> u \<le> 8202"

definition hex_digit :: "nat \<Rightarrow> nat option" where
  "hex_digit u =
     (if 48 \<le> u \<and> u \<le> 57 then Some (u - 48)
      else if 97 \<le> u \<and> u \<le> 102 then Some (u - 87)
      else if 65 \<le> u \<and> u \<le> 70 then Some (u - 55)
      else None)"

definition toFixed :: "nat \<Rightarrow> rat \<Rightarrow> string" where
  "toFixed d q =
     (let n = \<lfloor>\<bar>q\<bar> * 10 ^ d + 1 / 2\<rfloor>;
          ds = pad_zeros (d + 1) (decimal (nat n));
          k = length ds - d in
      (if q < 0 then ''-'' else []) @ take k ds @ (if d = 0 then [] else ''.'' @ drop k ds))"

definition alphaColor :: "units \<Rightarrow> rat \<Rightarrow> units \<times> rat" where
  "alphaColor color alpha =
     (let normalized = trim_by unit_space color;
          hex = (if startsWith normalized (code_units ''#'') then drop 1 normalized else normalized);
          ds = List.map_filter hex_digit hex in
      if length hex \<noteq> 6 \<or> length ds \<noteq> 6 then (normalized, alpha)
      else
        (let value = foldl (\<lambda>a d. 16 * a + d) 0 ds;
             red = (value div 65536) mod 256;
             green = (value div 256) mod 256;
             blue = value mod 256 in
         (code_units (''rgba('' @ decimal red @ '', '' @ decimal green @ '', '' @ decimal blue @ '', '' @ toFixed 2 alpha @ '')''), 1)))"

definition stableColorMap :: "chart_colors \<Rightarrow> units list \<Rightarrow> units list option \<Rightarrow> (units \<times> units) list" where
  "stableColorMap getDashboardChartColors keys palette =
     (let uniqueKeys = nub keys;
          colors = colorPalette getDashboardChartColors (length uniqueKeys) palette in
      map (\<lambda>(index, key). (key, colorAt getDashboardChartColors index (Some colors))) (enumerate 0 uniqueKeys))"

subsection \<open>Filters\<close>

definition filterRows :: "FlowQuotaDataItem list \<Rightarrow> units list option \<Rightarrow> FlowQuotaDataItem list" where
  "filterRows rows selectedUsers =
     (let users = opt_or selectedUsers [] in
      if users = [] then rows else filter (\<lambda>row. pn_id (userNode row) \<in> set users) rows)"

definition add_id :: "units \<Rightarrow> units list \<Rightarrow> units list" where
  "add_id i ids = (if i \<in> set ids then ids else ids @ [i])"

definition normalizeSelectedNodeFilters ::
  "FlowNodeFilter list option \<Rightarrow> FlowNodeKind list \<Rightarrow> (FlowNodeKind \<times> units list) list" where
  "normalizeSelectedNodeFilters selectedNodes stages =
     foldl (\<lambda>filters f. if nf_kind f \<in> set stages then upsert (nf_kind f) [] (add_id (nf_id f)) filters else filters)
       [] (opt_or selectedNodes [])"

definition path_ids :: "FlowPathNode list \<Rightarrow> (FlowNodeKind \<times> units list) list" where
  "path_ids path = foldl (\<lambda>m node. upsert (pn_kind node) [] (add_id (pn_id node)) m) [] path"

definition pathMatchesNodeFilters :: "FlowPathNode list \<Rightarrow> (FlowNodeKind \<times> units list) list \<Rightarrow> bool" where
  "pathMatchesNodeFilters path filters =
     (filters = [] \<or>
      list_all (\<lambda>(kind, selectedIds).
        case map_of (path_ids path) kind of
          None \<Rightarrow> False
        | Some pathIds \<Rightarrow> list_ex (\<lambda>i. i \<in> set pathIds) selectedIds) filters)"

definition filterRowsByNodes ::
  "FlowQuotaDataItem list \<Rightarrow> FlowNodeFilter list option \<Rightarrow> FlowNodeKind list \<Rightarrow> token_labeler \<Rightarrow> FlowQuotaDataItem list" where
  "filterRowsByNodes rows selectedNodes stages ctx =
     (let filters = normalizeSelectedNodeFilters selectedNodes stages in
      if filters = [] then rows
      else filter (\<lambda>row. pathMatchesNodeFilters (flowPathForStages row stages ctx) filters) rows)"

definition selectedNodeFiltersExceptKind ::
  "FlowNodeFilter list option \<Rightarrow> FlowNodeKind \<Rightarrow> FlowNodeFilter list option" where
  "selectedNodeFiltersExceptKind selectedNodes kind =
     (let filtered = filter (\<lambda>f. nf_kind f \<noteq> kind) (opt_or selectedNodes []) in
      if filtered = [] then None else Some filtered)"

subsection \<open>Nodes and links\<close>

record DashboardFlowNode =
  fn_id :: units
  fn_label :: units
  fn_kind :: FlowNodeKind
  fn_value :: rat
  fn_requests :: rat
  fn_quota :: rat
  fn_tokens :: rat
  fn_color :: units
  fn_colorKey :: units
  fn_highlighted :: "bool option"
  fn_dimmed :: "bool option"

record DashboardFlowLink =
  fl_source :: units
  fl_target :: units
  fl_value :: rat
  fl_requests :: rat
  fl_quota :: rat
  fl_tokens :: rat
  fl_sourceLabel :: units
  fl_targetLabel :: units
  fl_color :: units
  fl_linkColor :: units
  fl_linkAlpha :: rat
  fl_hoverColor :: units
  fl_colorKey :: units
  fl_share :: rat
  fl_highlighted :: "bool option"
  fl_dimmed :: "bool option"

record DashboardFlowGraph =
  fg_nodes :: "DashboardFlowNode list"
  fg_links :: "DashboardFlowLink list"

type_synonym node_map = "(units \<times> DashboardFlowNode) list"
type_synonym link_map = "(units \<times> DashboardFlowLink) list"

definition new_node :: "FlowPathNode \<Rightarrow> units \<Rightarrow> units \<Rightarrow> DashboardFlowNode" where
  "new_node pathNode color colorKey =
     \<lparr>fn_id = pn_id pathNode, fn_label = pn_label pathNode, fn_kind = pn_kind pathNode, fn_value = 0, fn_requests = 0,
      fn_quota = 0, fn_tokens = 0, fn_color = color, fn_colorKey = colorKey, fn_highlighted = None, fn_dimmed = None\<rparr>"

definition count_node :: "FlowMetrics \<Rightarrow> FlowMetric \<Rightarrow> DashboardFlowNode \<Rightarrow> DashboardFlowNode" where
  "count_node m metric previous =
     previous\<lparr>fn_value := fn_value previous + metricValue m metric, fn_requests := fn_requests previous + fm_requests m,
       fn_quota := fn_quota previous + fm_quota m, fn_tokens := fn_tokens previous + fm_tokens m\<rparr>"

definition addNode :: "FlowMetrics \<Rightarrow> FlowMetric \<Rightarrow> units \<Rightarrow> units \<Rightarrow> FlowPathNode \<Rightarrow> node_map \<Rightarrow> node_map" where
  "addNode m metric color colorKey pathNode nodes =
     upsert (pn_id pathNode) (new_node pathNode color colorKey) (count_node m metric) nodes"

definition pathLinkKey :: "FlowPathNode \<Rightarrow> FlowPathNode \<Rightarrow> units" where
  "pathLinkKey source target = pn_id source @ [0] @ pn_id target"

definition linkStableKey :: "DashboardFlowLink \<Rightarrow> units" where
  "linkStableKey link = fl_source link @ [0] @ fl_target link"

definition new_link :: "FlowPathNode \<Rightarrow> FlowPathNode \<Rightarrow> units \<Rightarrow> units \<Rightarrow> DashboardFlowLink" where
  "new_link source target color colorKey =
     \<lparr>fl_source = pn_id source, fl_target = pn_id target, fl_value = 0, fl_requests = 0, fl_quota = 0, fl_tokens = 0,
      fl_sourceLabel = pn_label source, fl_targetLabel = pn_label target, fl_color = color, fl_linkColor = color,
      fl_linkAlpha = 1, fl_hoverColor = color, fl_colorKey = colorKey, fl_share = 0, fl_highlighted = None, fl_dimmed = None\<rparr>"

definition count_link :: "FlowMetrics \<Rightarrow> FlowMetric \<Rightarrow> DashboardFlowLink \<Rightarrow> DashboardFlowLink" where
  "count_link m metric previous =
     previous\<lparr>fl_value := fl_value previous + metricValue m metric, fl_requests := fl_requests previous + fm_requests m,
       fl_quota := fl_quota previous + fm_quota m, fl_tokens := fl_tokens previous + fm_tokens m\<rparr>"

definition addLink ::
  "FlowMetrics \<Rightarrow> FlowMetric \<Rightarrow> units \<Rightarrow> units \<Rightarrow> FlowPathNode \<times> FlowPathNode \<Rightarrow> link_map \<Rightarrow> link_map" where
  "addLink m metric color colorKey st links =
     upsert (pathLinkKey (fst st) (snd st)) (new_link (fst st) (snd st) color colorKey) (count_link m metric) links"

text \<open>\<open>a || b\<close> on numbers, and the comparators.\<close>

definition num_or :: "rat \<Rightarrow> rat \<Rightarrow> rat" where
  "num_or a b = (if a = 0 then b else a)"

type_synonym locale_compare = "units \<Rightarrow> units \<Rightarrow> rat"

definition byValueThenLabel :: "locale_compare \<Rightarrow> DashboardFlowNode \<Rightarrow> DashboardFlowNode \<Rightarrow> rat" where
  "byValueThenLabel localeCompare a b = num_or (fn_value b - fn_value a) (localeCompare (fn_label a) (fn_label b))"

definition by_link_value :: "locale_compare \<Rightarrow> DashboardFlowLink \<Rightarrow> DashboardFlowLink \<Rightarrow> rat" where
  "by_link_value localeCompare a b = num_or (fl_value b - fl_value a) (localeCompare (linkStableKey a) (linkStableKey b))"

text \<open>\<open>Number(flag)\<close> of a flag that may be \<open>undefined\<close>: then the difference is not a number, and \<open>||\<close> goes on.\<close>

definition flag_difference :: "bool option \<Rightarrow> bool option \<Rightarrow> rat" where
  "flag_difference a b = (case (a, b) of (Some x, Some y) \<Rightarrow> of_bool x - of_bool y | _ \<Rightarrow> 0)"

definition byLinkDrawPriority :: "locale_compare \<Rightarrow> DashboardFlowLink \<Rightarrow> DashboardFlowLink \<Rightarrow> rat" where
  "byLinkDrawPriority localeCompare a b =
     num_or (flag_difference (fl_dimmed a) (fl_dimmed b))
       (num_or (flag_difference (fl_highlighted b) (fl_highlighted a)) (by_link_value localeCompare a b))"

text \<open>The links of one source, in the order of their values, get rising opacities.\<close>

definition display_color :: "locale_compare \<Rightarrow> DashboardFlowLink list \<Rightarrow> DashboardFlowLink \<Rightarrow> DashboardFlowLink" where
  "display_color localeCompare links link =
     (let sortedLinks = js_sort (by_link_value localeCompare) (filter (\<lambda>l. fl_source l = fl_source link) links);
          denominator = max (length sortedLinks - 1) 1;
          index = length (takeWhile (\<lambda>l. linkStableKey l \<noteq> linkStableKey link) sortedLinks);
          alpha = (if length sortedLinks = 1 then 34 / 100 else 24 / 100 + of_nat index / of_nat denominator * (2 / 10));
          shown = alphaColor (fl_color link) alpha in
      link\<lparr>fl_linkColor := fst shown, fl_linkAlpha := snd shown, fl_hoverColor := fl_color link\<rparr>)"

definition assignLinkDisplayColors :: "locale_compare \<Rightarrow> DashboardFlowLink list \<Rightarrow> DashboardFlowLink list" where
  "assignLinkDisplayColors localeCompare links = map (display_color localeCompare links) links"

record FlowSummary =
  fs_quota :: rat
  fs_tokens :: rat
  fs_requests :: rat

definition buildSummary :: "FlowQuotaDataItem list \<Rightarrow> FlowSummary" where
  "buildSummary rows =
     foldl (\<lambda>s row. let m = rowMetrics row in
         \<lparr>fs_quota = fs_quota s + fm_quota m, fs_tokens = fs_tokens s + fm_tokens m, fs_requests = fs_requests s + fm_requests m\<rparr>)
       \<lparr>fs_quota = 0, fs_tokens = 0, fs_requests = 0\<rparr> rows"

subsection \<open>The limit of nodes\<close>

definition normalizeTopNodeLimit :: "rat option \<Rightarrow> nat option" where
  "normalizeTopNodeLimit limit =
     (case limit of None \<Rightarrow> None | Some l \<Rightarrow> if \<lfloor>l\<rfloor> > 0 then Some (nat \<lfloor>l\<rfloor>) else None)"

definition otherFlowNode :: "FlowNodeKind \<Rightarrow> (FlowNodeKind \<Rightarrow> units) option \<Rightarrow> FlowPathNode" where
  "otherFlowNode kind labeler =
     \<lparr>pn_id = OTHER_FLOW_NODE_IDS kind,
      pn_label = (case labeler of Some f \<Rightarrow> f kind | None \<Rightarrow> DEFAULT_OTHER_FLOW_NODE_LABELS kind), pn_kind = kind\<rparr>"

record FlowNodeRank =
  nr_node :: FlowPathNode
  nr_value :: rat

definition add_rank :: "rat \<Rightarrow> FlowPathNode \<Rightarrow> (units \<times> FlowNodeRank) list \<Rightarrow> (units \<times> FlowNodeRank) list" where
  "add_rank value node stageTotals =
     upsert (pn_id node) \<lparr>nr_node = node, nr_value = 0\<rparr> (\<lambda>current. current\<lparr>nr_value := nr_value current + value\<rparr>) stageTotals"

text \<open>The totals of one stage over all rows.  A path has one node of every stage, so the source's map of maps, filled row by
  row, holds for every stage what this fold gives.\<close>

definition stage_totals ::
  "FlowQuotaDataItem list \<Rightarrow> FlowMetric \<Rightarrow> FlowNodeKind \<Rightarrow> token_labeler \<Rightarrow> (units \<times> FlowNodeRank) list" where
  "stage_totals rows metric stage ctx =
     foldl (\<lambda>totals row. add_rank (metricValue (rowMetrics row) metric) (NODE_BUILDERS stage row ctx) totals) [] rows"

definition by_rank :: "locale_compare \<Rightarrow> FlowNodeRank \<Rightarrow> FlowNodeRank \<Rightarrow> rat" where
  "by_rank localeCompare a b =
     num_or (nr_value b - nr_value a)
       (num_or (localeCompare (pn_label (nr_node a)) (pn_label (nr_node b)))
         (localeCompare (pn_id (nr_node a)) (pn_id (nr_node b))))"

definition buildTopNodeSets ::
  "locale_compare \<Rightarrow> FlowQuotaDataItem list \<Rightarrow> FlowMetric \<Rightarrow> FlowNodeKind list \<Rightarrow> nat option \<Rightarrow> token_labeler
   \<Rightarrow> (FlowNodeKind \<times> units list) list option" where
  "buildTopNodeSets localeCompare rows metric stages limit ctx =
     (case limit of
        None \<Rightarrow> None
      | Some n \<Rightarrow>
          Some (map (\<lambda>kind. (kind,
            map (\<lambda>rank. pn_id (nr_node rank))
              (take n (js_sort (by_rank localeCompare) (map snd (stage_totals rows metric kind ctx)))))) stages))"

definition isTopFlowNode :: "FlowPathNode \<Rightarrow> (FlowNodeKind \<times> units list) list option \<Rightarrow> bool" where
  "isTopFlowNode node topNodeSets =
     (case topNodeSets of
        None \<Rightarrow> True
      | Some sets \<Rightarrow> (case map_of sets (pn_kind node) of None \<Rightarrow> True | Some topNodes \<Rightarrow> pn_id node \<in> set topNodes))"

definition applyTopNodeLimit ::
  "FlowPathNode list \<Rightarrow> (FlowNodeKind \<times> units list) list option \<Rightarrow> FlowOverflowMode \<Rightarrow> (FlowNodeKind \<Rightarrow> units) option
   \<Rightarrow> FlowPathNode list option" where
  "applyTopNodeLimit path topNodeSets mode labeler =
     (if topNodeSets = None then Some path
      else if \<not> list_ex (\<lambda>node. \<not> isTopFlowNode node topNodeSets) path then Some path
      else if mode = HideMode then None
      else Some (map (\<lambda>node. if isTopFlowNode node topNodeSets then node else otherFlowNode (pn_kind node) labeler) path))"

subsection \<open>Highlighting and masking\<close>

definition path_links :: "FlowPathNode list \<Rightarrow> (FlowPathNode \<times> FlowPathNode) list" where
  "path_links path = zip path (tl path)"

definition pathContainsFlowNode :: "FlowPathNode list \<Rightarrow> FlowNodeFilter \<Rightarrow> bool" where
  "pathContainsFlowNode path f = list_ex (\<lambda>node. pn_kind node = nf_kind f \<and> pn_id node = nf_id f) path"

definition pathContainsFlowLink :: "FlowPathNode list \<Rightarrow> FlowLinkSelection \<Rightarrow> bool" where
  "pathContainsFlowLink path link =
     list_ex (\<lambda>(s, t). pn_id s = ls_source link \<and> pn_id t = ls_target link) (path_links path)"

record FlowHighlightSets =
  hs_nodes :: "units list"
  hs_links :: "units list"

definition buildFlowHighlightSets ::
  "PreparedFlowPath list \<Rightarrow> FlowNodeFilter option \<Rightarrow> FlowLinkSelection option \<Rightarrow> FlowNodeKind list \<Rightarrow> FlowHighlightSets option" where
  "buildFlowHighlightSets preparedPaths activeNode activeLink stages =
     (let nodeActive = (case activeNode of Some n \<Rightarrow> nf_kind n \<in> set stages | None \<Rightarrow> False);
          matchesPath = (\<lambda>path. case activeLink of
              Some l \<Rightarrow> pathContainsFlowLink path l
            | None \<Rightarrow> (case activeNode of Some n \<Rightarrow> pathContainsFlowNode path n | None \<Rightarrow> False));
          paths = filter matchesPath (map pp_path preparedPaths);
          nodes = nub (concat (map (map pn_id) paths));
          links = nub (concat (map (\<lambda>path. map (\<lambda>(s, t). pathLinkKey s t) (path_links path)) paths)) in
      if \<not> nodeActive \<and> activeLink = None then None
      else if nodes = [] then None
      else Some \<lparr>hs_nodes = nodes, hs_links = links\<rparr>)"

definition FLOW_MASK_TEXT :: units where
  "FLOW_MASK_TEXT = [8226, 8226, 8226, 8226]"

definition maskFlowLabel :: "units \<Rightarrow> units" where
  "maskFlowLabel label = (if label = [] then label else FLOW_MASK_TEXT)"

definition is_masked :: "DashboardFlowNode \<Rightarrow> bool" where
  "is_masked node \<longleftrightarrow> fn_kind node \<in> set SENSITIVE_FLOW_KINDS \<and> fn_id node \<notin> OTHER_FLOW_NODE_IDS ` set FLOW_NODE_KINDS"

definition mask_node :: "DashboardFlowNode \<Rightarrow> DashboardFlowNode" where
  "mask_node node = (if is_masked node then node\<lparr>fn_label := maskFlowLabel (fn_label node)\<rparr> else node)"

definition mask_link :: "(units \<times> units) list \<Rightarrow> DashboardFlowLink \<Rightarrow> DashboardFlowLink" where
  "mask_link maskedById link =
     link\<lparr>fl_sourceLabel := opt_or (map_of maskedById (fl_source link)) (fl_sourceLabel link),
       fl_targetLabel := opt_or (map_of maskedById (fl_target link)) (fl_targetLabel link)\<rparr>"

definition maskFlowGraphLabels :: "node_map \<Rightarrow> link_map \<Rightarrow> node_map \<times> link_map" where
  "maskFlowGraphLabels nodes links =
     (let masked = map (\<lambda>(k, node). (k, mask_node node)) nodes;
          maskedById = map (\<lambda>node. (fn_id node, maskFlowLabel (fn_label node))) (filter is_masked (map snd nodes)) in
      (masked, map (\<lambda>(k, link). (k, mask_link maskedById link)) links))"

definition highlight_node :: "FlowHighlightSets \<Rightarrow> DashboardFlowNode \<Rightarrow> DashboardFlowNode" where
  "highlight_node hs node =
     (let highlighted = fn_id node \<in> set (hs_nodes hs) in node\<lparr>fn_highlighted := Some highlighted, fn_dimmed := Some (\<not> highlighted)\<rparr>)"

definition highlight_link :: "FlowHighlightSets \<Rightarrow> DashboardFlowLink \<Rightarrow> DashboardFlowLink" where
  "highlight_link hs link =
     (let highlighted = linkStableKey link \<in> set (hs_links hs) in
      link\<lparr>fl_highlighted := Some highlighted, fl_dimmed := Some (\<not> highlighted)\<rparr>)"

definition applyFlowHighlights ::
  "DashboardFlowNode list \<Rightarrow> DashboardFlowLink list \<Rightarrow> FlowHighlightSets option \<Rightarrow> DashboardFlowNode list \<times> DashboardFlowLink list" where
  "applyFlowHighlights nodes links highlightSets =
     (case highlightSets of
        None \<Rightarrow> (nodes, links)
      | Some hs \<Rightarrow> (map (highlight_node hs) nodes, map (highlight_link hs) links))"

subsection \<open>The graph\<close>

record FlowGraphOptions =
  go_topNodeLimit :: "rat option"
  go_overflowMode :: "FlowOverflowMode option"
  go_otherNodeLabel :: "(FlowNodeKind \<Rightarrow> units) option"
  go_activeNode :: "FlowNodeFilter option"
  go_activeLink :: "FlowLinkSelection option"
  go_maskSensitive :: bool

text \<open>What a row becomes: its path within the limit, or nothing.\<close>

definition prepare_row ::
  "(FlowNodeKind \<times> units list) list option \<Rightarrow> FlowOverflowMode \<Rightarrow> (FlowNodeKind \<Rightarrow> units) option \<Rightarrow> FlowNodeKind list \<Rightarrow>
   token_labeler \<Rightarrow> FlowQuotaDataItem \<Rightarrow> PreparedFlowPath option" where
  "prepare_row topNodeSets mode labeler stages ctx row =
     map_option (\<lambda>path. \<lparr>pp_path = path, pp_metrics = rowMetrics row\<rparr>)
       (applyTopNodeLimit (flowPathForStages row stages ctx) topNodeSets mode labeler)"

definition preparedPaths ::
  "locale_compare \<Rightarrow> FlowQuotaDataItem list \<Rightarrow> FlowMetric \<Rightarrow> FlowNodeKind list \<Rightarrow> token_labeler \<Rightarrow> FlowGraphOptions
   \<Rightarrow> PreparedFlowPath list" where
  "preparedPaths localeCompare rows metric stages ctx options =
     (let topNodeSets = buildTopNodeSets localeCompare rows metric stages (normalizeTopNodeLimit (go_topNodeLimit options)) ctx;
          overflowMode = opt_or (go_overflowMode options) AggregateMode in
      List.map_filter (prepare_row topNodeSets overflowMode (go_otherNodeLabel options) stages ctx) rows)"

definition add_path ::
  "chart_colors \<Rightarrow> (units \<times> units) list \<Rightarrow> units list option \<Rightarrow> FlowMetric \<Rightarrow> node_map \<times> link_map \<Rightarrow> PreparedFlowPath \<Rightarrow> node_map \<times> link_map" where
  "add_path getDashboardChartColors colors palette metric graph prepared =
     (case pp_path prepared of
        [] \<Rightarrow> graph
      | first # _ \<Rightarrow>
          (let color = opt_or (map_of colors (pn_id first)) (colorAt getDashboardChartColors 0 palette) in
           (fold (addNode (pp_metrics prepared) metric color (pn_id first)) (pp_path prepared) (fst graph),
            fold (addLink (pp_metrics prepared) metric color (pn_id first)) (path_links (pp_path prepared)) (snd graph))))"

definition root_ids :: "PreparedFlowPath list \<Rightarrow> units list" where
  "root_ids prepared = List.map_filter (\<lambda>p. case pp_path p of [] \<Rightarrow> None | n # _ \<Rightarrow> if pn_id n = [] then None else Some (pn_id n)) prepared"

definition by_source_target :: "locale_compare \<Rightarrow> DashboardFlowLink \<Rightarrow> DashboardFlowLink \<Rightarrow> rat" where
  "by_source_target localeCompare a b =
     num_or (localeCompare (fl_source a) (fl_source b)) (localeCompare (fl_target a) (fl_target b))"

definition buildFlowGraph ::
  "locale_compare \<Rightarrow> chart_colors \<Rightarrow> FlowQuotaDataItem list \<Rightarrow> FlowMetric \<Rightarrow> FlowRole \<Rightarrow> units list option \<Rightarrow>
   FlowNodeKind list option \<Rightarrow> token_labeler \<Rightarrow> FlowGraphOptions \<Rightarrow> DashboardFlowGraph" where
  "buildFlowGraph localeCompare getDashboardChartColors rows metric role palette visibleStages ctx options =
     (let stages = resolveVisibleStages role visibleStages;
          prepared = preparedPaths localeCompare rows metric stages ctx options;
          colors = stableColorMap getDashboardChartColors (js_sort localeCompare (root_ids prepared)) palette;
          (nodes, links) = foldl (add_path getDashboardChartColors colors palette metric) ([], []) prepared;
          (nodes, links) = (if go_maskSensitive options then maskFlowGraphLabels nodes links else (nodes, links));
          (nodes, links) = applyFlowHighlights (map snd nodes) (map snd links)
            (buildFlowHighlightSets prepared (go_activeNode options) (go_activeLink options) stages);
          flowLinks = js_sort (by_source_target localeCompare) links;
          total = sum_list (map fl_value (filter (\<lambda>link. fl_source link \<in> set (root_ids prepared)) flowLinks));
          shared = map (\<lambda>link. link\<lparr>fl_share := (if total > 0 then fl_value link / total else 0)\<rparr>) flowLinks in
      \<lparr>fg_nodes = js_sort (byValueThenLabel localeCompare) nodes, fg_links = assignLinkDisplayColors localeCompare shared\<rparr>)"

subsection \<open>Filter options\<close>

record FlowUserFilterOption =
  uo_value :: units
  uo_label :: units
  uo_valueLabel :: units
  uo_valueRaw :: rat
  uo_color :: units

record FlowNodeFilterOption =
  no_kind :: FlowNodeKind
  no_value :: units
  no_label :: units
  no_valueLabel :: units
  no_valueRaw :: rat
  no_color :: units

record FlowFilterOptions =
  fo_users :: "FlowUserFilterOption list"
  fo_nodes :: "FlowNodeFilterOption list"

record user_total =
  ut_label :: units
  ut_value :: rat
  ut_color :: units

definition add_user ::
  "chart_colors \<Rightarrow> (units \<times> units) list \<Rightarrow> units list option \<Rightarrow> FlowMetric \<Rightarrow> (units \<times> user_total) list \<Rightarrow> FlowQuotaDataItem
   \<Rightarrow> (units \<times> user_total) list" where
  "add_user getDashboardChartColors colors palette metric users row =
     (let user = userNode row in
      if numberValue (fq_user_id row) = 0 \<and> text_or (fq_username row) [] = [] then users
      else upsert (pn_id user)
        \<lparr>ut_label = pn_label user, ut_value = 0, ut_color = opt_or (map_of colors (pn_id user)) (colorAt getDashboardChartColors 0 palette)\<rparr>
        (\<lambda>current. current\<lparr>ut_value := ut_value current + metricValue (rowMetrics row) metric\<rparr>) users)"

definition buildUserFilterOptions ::
  "locale_compare \<Rightarrow> chart_colors \<Rightarrow> (rat \<Rightarrow> units) \<Rightarrow> FlowQuotaDataItem list \<Rightarrow> FlowMetric \<Rightarrow> units list option \<Rightarrow> FlowUserFilterOption list" where
  "buildUserFilterOptions localeCompare getDashboardChartColors formatNumber rows metric palette =
     (let colors = stableColorMap getDashboardChartColors (js_sort localeCompare (map (\<lambda>row. pn_id (userNode row)) rows)) palette;
          users = foldl (add_user getDashboardChartColors colors palette metric) [] rows in
      js_sort (\<lambda>a b. num_or (uo_valueRaw b - uo_valueRaw a) (localeCompare (uo_label a) (uo_label b)))
        (map (\<lambda>(value, user). \<lparr>uo_value = value, uo_label = ut_label user, uo_valueLabel = formatNumber (ut_value user),
            uo_valueRaw = ut_value user, uo_color = ut_color user\<rparr>) users))"

definition nodeFilterKey :: "FlowNodeKind \<Rightarrow> units \<Rightarrow> units" where
  "nodeFilterKey kind i = take (length (kind_prefix kind) - 1) (kind_prefix kind) @ [0] @ i"

definition option_totals ::
  "FlowQuotaDataItem list \<Rightarrow> FlowMetric \<Rightarrow> FlowNodeKind \<Rightarrow> token_labeler \<Rightarrow> (units \<times> FlowNodeRank) list" where
  "option_totals candidateRows metric stage ctx =
     foldl (\<lambda>totals row.
         let node = NODE_BUILDERS stage row ctx in
         upsert (nodeFilterKey (pn_kind node) (pn_id node)) \<lparr>nr_node = node, nr_value = 0\<rparr>
           (\<lambda>current. current\<lparr>nr_value := nr_value current + metricValue (rowMetrics row) metric\<rparr>) totals)
       [] candidateRows"

definition stage_position :: "FlowNodeKind list \<Rightarrow> FlowNodeKind \<Rightarrow> rat" where
  "stage_position stages k = of_nat (length (takeWhile (\<lambda>s. s \<noteq> k) stages))"

definition by_stage_value :: "locale_compare \<Rightarrow> FlowNodeKind list \<Rightarrow> FlowNodeFilterOption \<Rightarrow> FlowNodeFilterOption \<Rightarrow> rat" where
  "by_stage_value localeCompare stages a b =
     num_or (stage_position stages (no_kind a) - stage_position stages (no_kind b))
       (num_or (no_valueRaw b - no_valueRaw a)
         (num_or (localeCompare (no_label a) (no_label b)) (localeCompare (no_value a) (no_value b))))"

definition buildNodeFilterOptions ::
  "locale_compare \<Rightarrow> chart_colors \<Rightarrow> (rat \<Rightarrow> units) \<Rightarrow> FlowQuotaDataItem list \<Rightarrow> FlowMetric \<Rightarrow> FlowRole \<Rightarrow> FlowNodeKind list option \<Rightarrow>
   units list option \<Rightarrow> token_labeler \<Rightarrow> FlowNodeFilter list option \<Rightarrow> FlowNodeFilterOption list" where
  "buildNodeFilterOptions localeCompare getDashboardChartColors formatNumber rows metric role visibleStages palette ctx selectedNodes =
     (let stages = resolveVisibleStages role visibleStages;
          colorIds = nub (concat (map (\<lambda>row. map pn_id (flowPathForStages row stages ctx)) rows));
          colors = stableColorMap getDashboardChartColors (js_sort localeCompare colorIds) palette;
          stage_options = (\<lambda>stage.
            map (\<lambda>(_, rank). \<lparr>no_kind = pn_kind (nr_node rank), no_value = pn_id (nr_node rank), no_label = pn_label (nr_node rank),
                no_valueLabel = formatNumber (nr_value rank), no_valueRaw = nr_value rank,
                no_color = opt_or (map_of colors (pn_id (nr_node rank))) (colorAt getDashboardChartColors 0 palette)\<rparr>)
              (option_totals (filterRowsByNodes rows (selectedNodeFiltersExceptKind selectedNodes stage) stages ctx) metric stage ctx)) in
      js_sort (by_stage_value localeCompare stages) (concat (map stage_options stages)))"

definition buildFlowFilterOptions ::
  "locale_compare \<Rightarrow> chart_colors \<Rightarrow> (rat \<Rightarrow> units) \<Rightarrow> FlowQuotaDataItem list \<Rightarrow> FlowMetric \<Rightarrow> units list option \<Rightarrow> FlowRole \<Rightarrow>
   FlowNodeKind list option \<Rightarrow> FlowNodeFilter list option \<Rightarrow> FlowFilterOptions" where
  "buildFlowFilterOptions localeCompare getDashboardChartColors formatNumber rows metric palette role visibleStages selectedNodes =
     \<lparr>fo_users = buildUserFilterOptions localeCompare getDashboardChartColors formatNumber rows metric palette,
      fo_nodes = buildNodeFilterOptions localeCompare getDashboardChartColors formatNumber rows metric role visibleStages palette None
        selectedNodes\<rparr>"

record FlowBuildOptions =
  bo_role :: "FlowRole option"
  bo_selectedUsers :: "units list option"
  bo_selectedNodes :: "FlowNodeFilter list option"
  bo_colorPalette :: "units list option"
  bo_visibleStages :: "FlowNodeKind list option"
  bo_deletedTokenLabel :: token_labeler
  bo_graph :: FlowGraphOptions

record ProcessedFlowData =
  fd_summary :: FlowSummary
  fd_flow :: DashboardFlowGraph
  fd_filterOptions :: FlowFilterOptions

definition buildDashboardFlowData ::
  "locale_compare \<Rightarrow> chart_colors \<Rightarrow> (rat \<Rightarrow> units) \<Rightarrow> FlowQuotaDataItem list \<Rightarrow> FlowMetric \<Rightarrow> FlowBuildOptions \<Rightarrow> ProcessedFlowData" where
  "buildDashboardFlowData localeCompare getDashboardChartColors formatNumber rows metric options =
     (let role = opt_or (bo_role options) UserRole;
          palette = bo_colorPalette options;
          ctx = bo_deletedTokenLabel options;
          stages = resolveVisibleStages role (bo_visibleStages options);
          userFilteredRows = filterRows rows (bo_selectedUsers options);
          filteredRows = filterRowsByNodes userFilteredRows (bo_selectedNodes options) stages ctx in
      \<lparr>fd_summary = buildSummary filteredRows,
       fd_flow = buildFlowGraph localeCompare getDashboardChartColors filteredRows metric role palette (bo_visibleStages options) ctx
         (bo_graph options),
       fd_filterOptions =
         \<lparr>fo_users = buildUserFilterOptions localeCompare getDashboardChartColors formatNumber rows metric palette,
          fo_nodes = buildNodeFilterOptions localeCompare getDashboardChartColors formatNumber userFilteredRows metric role
            (bo_visibleStages options) palette ctx (bo_selectedNodes options)\<rparr>\<rparr>)"

subsection \<open>The links that are drawn\<close>

text \<open>The data of \<open>buildFlowSankeySpec\<close>: the links with a positive value, each with the layer it is drawn on.\<close>

definition link_layer :: "nat \<Rightarrow> DashboardFlowLink \<Rightarrow> nat" where
  "link_layer index link =
     (if fl_highlighted link = Some True then 1000000 + index
      else if fl_dimmed link = Some True then index
      else 100000 + index)"

definition sankey_links :: "locale_compare \<Rightarrow> DashboardFlowGraph \<Rightarrow> (DashboardFlowLink \<times> nat) list" where
  "sankey_links localeCompare flow =
     map (\<lambda>(index, link). (link, link_layer index link))
       (enumerate 0 (js_sort (byLinkDrawPriority localeCompare) (filter (\<lambda>link. fl_value link > 0) (fg_links flow))))"

end
