(* ===== verification/FlowProperties.thy ===== *)
theory FlowProperties
  imports FlowGraph
begin

text \<open>
  Properties of the flow graph.  Nodes, links, ranks and options are all sums kept in a map, entry by entry: the
  locale \<open>accumulator\<close> states what such a map promises, and its interpretations give what the nodes and
  links hold.  On top of it: the flow is conserved at every node, the stages add up to the summary, the shares of the
  links add up, the limit of nodes is kept, masking leaves no name of a sensitive kind, and the options of the
  filters lead to rows.
\<close>

subsection \<open>Nodes and links as sums over the paths\<close>

text \<open>The colour and the colour key of a path.\<close>

definition path_color :: "chart_colors \<Rightarrow> (units \<times> units) list \<Rightarrow> units list option \<Rightarrow> PreparedFlowPath \<Rightarrow> units \<times> units" where
  "path_color cc colors palette p =
     (let i = pn_id (hd (pp_path p)) in (opt_or (map_of colors i) (colorAt cc 0 palette), i))"

definition node_entries :: "PreparedFlowPath list \<Rightarrow> (PreparedFlowPath \<times> FlowPathNode) list" where
  "node_entries ps = concat (map (\<lambda>p. map (Pair p) (pp_path p)) ps)"

definition link_entries :: "PreparedFlowPath list \<Rightarrow> (PreparedFlowPath \<times> FlowPathNode \<times> FlowPathNode) list" where
  "link_entries ps = concat (map (\<lambda>p. map (Pair p) (path_links (pp_path p))) ps)"

definition node_tally :: "(PreparedFlowPath \<Rightarrow> units \<times> units) \<Rightarrow> FlowMetric \<Rightarrow> PreparedFlowPath list \<Rightarrow> node_map" where
  "node_tally col metric ps =
     tally (\<lambda>(p, n). pn_id n) (\<lambda>(p, n). new_node n (fst (col p)) (snd (col p))) (\<lambda>(p, n). count_node (pp_metrics p) metric)
       (node_entries ps) []"

definition link_tally :: "(PreparedFlowPath \<Rightarrow> units \<times> units) \<Rightarrow> FlowMetric \<Rightarrow> PreparedFlowPath list \<Rightarrow> link_map" where
  "link_tally col metric ps =
     tally (\<lambda>(p, s, t). pathLinkKey s t) (\<lambda>(p, s, t). new_link s t (fst (col p)) (snd (col p)))
       (\<lambda>(p, s, t). count_link (pp_metrics p) metric) (link_entries ps) []"

interpretation node_sums: accumulator "\<lambda>(p, n). pn_id n" "\<lambda>(p, n). new_node n (fst (col p)) (snd (col p))"
  "\<lambda>(p, n). count_node (pp_metrics p) metric" fn_value "\<lambda>(p, n). metricValue (pp_metrics p) metric"
  "\<lambda>v. (fn_id v, fn_kind v)" for col metric
  by unfold_locales (auto simp: new_node_def count_node_def)

interpretation link_sums: accumulator "\<lambda>(p, s, t). pathLinkKey s t" "\<lambda>(p, s, t). new_link s t (fst (col p)) (snd (col p))"
  "\<lambda>(p, s, t). count_link (pp_metrics p) metric" fl_value "\<lambda>(p, s, t). metricValue (pp_metrics p) metric"
  "\<lambda>v. (fl_source v, fl_target v)" for col metric
  by unfold_locales (auto simp: new_link_def count_link_def)

interpretation option_sums: accumulator
  "\<lambda>row. nodeFilterKey (pn_kind (NODE_BUILDERS stage row ctx)) (pn_id (NODE_BUILDERS stage row ctx))"
  "\<lambda>row. \<lparr>nr_node = NODE_BUILDERS stage row ctx, nr_value = 0\<rparr>"
  "\<lambda>row current. current\<lparr>nr_value := nr_value current + metricValue (rowMetrics row) metric\<rparr>" nr_value
  "\<lambda>row. metricValue (rowMetrics row) metric" nr_node for stage ctx metric
  by unfold_locales simp_all

lemma entries_simps [simp]:
  "node_entries [] = []" "node_entries (p # ps) = map (Pair p) (pp_path p) @ node_entries ps"
  "link_entries [] = []" "link_entries (p # ps) = map (Pair p) (path_links (pp_path p)) @ link_entries ps"
  by (simp_all add: node_entries_def link_entries_def)

lemma foldl_add_path:
  assumes c: "c = path_color cc colors palette"
    and N: "N = tally (\<lambda>(p, n). pn_id n) (\<lambda>(p, n). new_node n (fst (c p)) (snd (c p))) (\<lambda>(p, n). count_node (pp_metrics p) metric)"
    and L: "L = tally (\<lambda>(p, s, t). pathLinkKey s t) (\<lambda>(p, s, t). new_link s t (fst (c p)) (snd (c p)))
      (\<lambda>(p, s, t). count_link (pp_metrics p) metric)"
  shows "foldl (add_path cc colors palette metric) (ns, ls) ps = (N (node_entries ps) ns, L (link_entries ps) ls)"
proof (induction ps arbitrary: ns ls)
  case (Cons p ps)
  have n: "fold (addNode (pp_metrics p) metric (fst (c p)) (snd (c p))) xs m = N (map (Pair p) xs) m" for xs m
    by (induction xs arbitrary: m) (simp_all add: addNode_def N)
  have l: "fold (addLink (pp_metrics p) metric (fst (c p)) (snd (c p))) xs m = L (map (Pair p) xs) m" for xs m
    by (induction xs arbitrary: m) (auto simp: addLink_def L split: prod.splits)
  have "add_path cc colors palette metric (ns, ls) p = (N (map (Pair p) (pp_path p)) ns, L (map (Pair p) (path_links (pp_path p))) ls)"
    using n [of "pp_path p" ns] l [of "path_links (pp_path p)" ls]
    by (cases "pp_path p") (simp_all add: add_path_def c path_color_def Let_def path_links_def N L)
  then show ?case using Cons.IH by (simp add: N L)
qed (simp add: N L)

lemma base_graph:
  "foldl (add_path cc colors palette metric) ([], []) ps =
     (node_tally (path_color cc colors palette) metric ps, link_tally (path_color cc colors palette) metric ps)"
  unfolding node_tally_def link_tally_def by (rule foldl_add_path [OF refl refl refl])

subsection \<open>The shape of paths\<close>

text \<open>The id of a node tells its kind.\<close>

definition node_ok :: "FlowPathNode \<Rightarrow> bool" where
  "node_ok n \<longleftrightarrow> startsWith (pn_id n) (kind_prefix (pn_kind n))"

lemma kind_prefix_inj: "startsWith i (kind_prefix k) \<Longrightarrow> startsWith i (kind_prefix k') \<Longrightarrow> k = k'"
  by (cases k; cases k'; cases i) (auto simp: kind_prefix_def code_units_def startsWith_def)

lemma node_ok_kind: "node_ok a \<Longrightarrow> node_ok b \<Longrightarrow> pn_id a = pn_id b \<Longrightarrow> pn_kind a = pn_kind b"
  by (simp add: node_ok_def kind_prefix_inj)

lemma node_builders_ok: "node_ok (NODE_BUILDERS k row ctx)" "pn_kind (NODE_BUILDERS k row ctx) = k"
  by (cases k; simp add: node_ok_def NODE_BUILDERS_def userNode_def nodeNameNode_def tokenNode_def groupNode_def modelNode_def
      channelNode_def id_or_name_def Let_def)+

definition path_ok :: "FlowNodeKind list \<Rightarrow> FlowPathNode list \<Rightarrow> bool" where
  "path_ok stages path \<longleftrightarrow> map pn_kind path = stages \<and> list_all node_ok path"

lemma stages_distinct: "distinct (resolveVisibleStages role visible)" "2 \<le> length (resolveVisibleStages role visible)"
proof -
  have "distinct (getFlowStages role)" "2 \<le> length (getFlowStages role)" by (cases role; simp add: getFlowStages_def)+
  then show "distinct (resolveVisibleStages role visible)" "2 \<le> length (resolveVisibleStages role visible)"
    by (auto simp: resolveVisibleStages_def Let_def MIN_FLOW_STAGES_def split: option.splits)
qed

lemma flow_path_ok: "path_ok stages (flowPathForStages row stages ctx)"
  by (simp add: path_ok_def flowPathForStages_def node_builders_ok list_all_iff comp_def)

lemma limited_path_ok:
  assumes "path_ok stages path" and "applyTopNodeLimit path sets mode labeler = Some path'"
  shows "path_ok stages path'"
proof -
  have o: "node_ok (otherFlowNode k labeler)" "pn_kind (otherFlowNode k labeler) = k" for k
    by (simp_all add: node_ok_def otherFlowNode_def OTHER_FLOW_NODE_IDS_def)
  show ?thesis using assms o
    by (auto simp: applyTopNodeLimit_def path_ok_def list_all_iff split: if_splits)
qed

lemma prepared_ok: "p \<in> set (preparedPaths lc rows metric stages ctx options) \<Longrightarrow> path_ok stages (pp_path p)"
  using limited_path_ok [OF flow_path_ok]
  by (auto simp: preparedPaths_def prepare_row_def Let_def List.map_filter_def)

text \<open>How often an id occurs in a path, as a node and as an end of a link.\<close>

lemma link_ends:
  "map fst (path_links path) = butlast path" "map snd (path_links path) = tl path"
  by (cases path; simp add: path_links_def map_fst_zip_take map_snd_zip_take butlast_conv_take)+

lemma outgoing_like_node:
  assumes "path_ok stages path" "path \<noteq> []" "node_ok n" "pn_kind n \<noteq> last stages"
  shows "sum_list (map (\<lambda>(s, t). if pn_id s = pn_id n then a else 0) (path_links path)) =
    sum_list (map (\<lambda>m. if pn_id m = pn_id n then a else (0::rat)) path)"
proof -
  have "pn_kind (last path) = last stages" "node_ok (last path)"
    using assms(1,2) by (auto simp: path_ok_def last_map list_all_iff)
  then have l: "pn_id (last path) \<noteq> pn_id n" using node_ok_kind [OF _ assms(3)] assms(4) by metis
  have "map (\<lambda>(s, t). if pn_id s = pn_id n then a else 0) (path_links path) =
      map (\<lambda>m. if pn_id m = pn_id n then a else 0) (map fst (path_links path))" by (simp add: split_beta comp_def)
  moreover have "map (\<lambda>m. if pn_id m = pn_id n then a else 0) path =
      map (\<lambda>m. if pn_id m = pn_id n then a else 0) (butlast path) @ [0]"
    using l assms(2) by (cases path rule: rev_cases) simp_all
  ultimately show ?thesis by (simp add: link_ends)
qed

lemma incoming_like_node:
  assumes "path_ok stages path" "path \<noteq> []" "node_ok n" "pn_kind n \<noteq> hd stages"
  shows "sum_list (map (\<lambda>(s, t). if pn_id t = pn_id n then a else 0) (path_links path)) =
    sum_list (map (\<lambda>m. if pn_id m = pn_id n then a else (0::rat)) path)"
proof -
  have "pn_kind (hd path) = hd stages" "node_ok (hd path)"
    using assms(1,2) by (auto simp: path_ok_def hd_map list_all_iff)
  then have l: "pn_id (hd path) \<noteq> pn_id n" using node_ok_kind [OF _ assms(3)] assms(4) by metis
  have "map (\<lambda>(s, t). if pn_id t = pn_id n then a else 0) (path_links path) =
      map (\<lambda>m. if pn_id m = pn_id n then a else 0) (map snd (path_links path))" by (simp add: split_beta comp_def)
  moreover have "sum_list (map (\<lambda>m. if pn_id m = pn_id n then a else 0) path) =
      sum_list (map (\<lambda>m. if pn_id m = pn_id n then a else 0) (tl path))"
    using l assms(2) by (cases path) simp_all
  ultimately show ?thesis by (simp add: link_ends)
qed

text \<open>A path has one node of every stage.\<close>

lemma one_node_per_stage:
  assumes "path_ok stages path" "distinct stages" "k \<in> set stages"
  shows "sum_list (map (\<lambda>m. if pn_kind m = k then a else (0::rat)) path) = a"
proof -
  have z: "k \<notin> set xs \<Longrightarrow> sum_list (map (\<lambda>x. if x = k then a else 0) xs) = 0" for xs by (induction xs) auto
  have "sum_list (map (\<lambda>x. if x = k then a else 0) stages) = a" using assms(2,3)
    by (induction stages) (auto simp: z)
  moreover have "map (\<lambda>m. if pn_kind m = k then a else 0) path = map (\<lambda>x. if x = k then a else 0) stages"
    using assms(1) by (auto simp: path_ok_def)
  ultimately show ?thesis by simp
qed

subsection \<open>Conservation\<close>

text \<open>The key of a link separates its ends with the code unit 0, which no id may contain.\<close>

definition no_nul :: "PreparedFlowPath list \<Rightarrow> bool" where
  "no_nul ps \<longleftrightarrow> (\<forall>p \<in> set ps. \<forall>n \<in> set (pp_path p). 0 \<notin> set (pn_id n))"

lemma append_nul_inj: "0 \<notin> set a \<Longrightarrow> 0 \<notin> set a' \<Longrightarrow> a @ [0] @ b = a' @ [0] @ b' \<Longrightarrow> a = a' \<and> b = (b' :: nat list)"
proof (induction a arbitrary: a')
  case Nil
  then show ?case by (cases a') auto
next
  case (Cons x a)
  then show ?case by (cases a') auto
qed

lemma path_links_members: "(s, t) \<in> set (path_links path) \<Longrightarrow> s \<in> set path \<and> t \<in> set path"
  by (auto simp: path_links_def dest: set_zip_leftD set_zip_rightD list.set_sel(2) [rotated])
    (metis list.set_sel(2) list.sel(2) empty_iff empty_set set_zip_rightD)

lemma link_key_inj:
  assumes "no_nul ps" "x \<in> set (link_entries ps)" "y \<in> set (link_entries ps)"
    and "(\<lambda>(p, s, t). pathLinkKey s t) x = (\<lambda>(p, s, t). pathLinkKey s t) y"
  shows "(\<lambda>(p, s, t). (pn_id s, pn_id t)) x = (\<lambda>(p, s, t). (pn_id s, pn_id t)) y"
proof -
  obtain p s t where x: "x = (p, s, t)" by (cases x) auto
  obtain q u v where y: "y = (q, u, v)" by (cases y) auto
  have m: "p \<in> set ps" "(s, t) \<in> set (path_links (pp_path p))" "q \<in> set ps" "(u, v) \<in> set (path_links (pp_path q))"
    using assms(2,3) by (auto simp: x y link_entries_def)
  have "s \<in> set (pp_path p)" "u \<in> set (pp_path q)" using path_links_members [OF m(2)] path_links_members [OF m(4)] by simp_all
  then have n: "0 \<notin> set (pn_id s)" "0 \<notin> set (pn_id u)" using assms(1) m(1,3) unfolding no_nul_def by blast+
  have "pn_id s @ [0] @ pn_id t = pn_id u @ [0] @ pn_id v" using assms(4) unfolding x y pathLinkKey_def by simp
  then show ?thesis using append_nul_inj [OF n] unfolding x y by simp
qed

definition amount_of :: "FlowMetric \<Rightarrow> PreparedFlowPath \<Rightarrow> rat" where
  "amount_of metric p = metricValue (pp_metrics p) metric"

text \<open>Sums over all entries, path by path.\<close>

lemma sum_node_entries:
  "sum_list (map (\<lambda>(p, n). if Q n then amount_of metric p else 0) (node_entries ps)) =
    sum_list (map (\<lambda>p. sum_list (map (\<lambda>n. if Q n then amount_of metric p else 0) (pp_path p))) ps)"
  by (induction ps) (simp_all add: comp_def)

lemma sum_link_entries:
  "sum_list (map (\<lambda>(p, s, t). if Q s t then amount_of metric p else 0) (link_entries ps)) =
    sum_list (map (\<lambda>p. sum_list (map (\<lambda>(s, t). if Q s t then amount_of metric p else 0) (path_links (pp_path p)))) ps)"
  by (induction ps) (simp_all add: comp_def case_prod_unfold cong: if_cong)

lemma node_tally_sum:
  assumes ok: "\<And>p. p \<in> set ps \<Longrightarrow> path_ok stages (pp_path p)"
  shows "sum_list (map (\<lambda>(k, v). if Q (fn_id v) (fn_kind v) then fn_value v else 0) (node_tally col metric ps)) =
    sum_list (map (\<lambda>p. sum_list (map (\<lambda>n. if Q (pn_id n) (pn_kind n) then amount_of metric p else 0) (pp_path p))) ps)"
proof -
  have kind: "pn_kind n = pn_kind m" if "(p, n) \<in> set (node_entries ps)" "(q, m) \<in> set (node_entries ps)" "pn_id n = pn_id m" for p q n m
  proof (rule node_ok_kind)
    show "node_ok n" "node_ok m" using that(1,2) ok by (auto simp: node_entries_def path_ok_def list_all_iff)
  qed (rule that(3))
  have a: "sum_list (map (\<lambda>(k, v). if (\<lambda>(i, k). Q i k) (fn_id v, fn_kind v) then fn_value v else 0) (node_tally col metric ps)) =
      sum_list (map (\<lambda>x. if (\<lambda>(i, k). Q i k) ((\<lambda>v. (fn_id v, fn_kind v)) ((\<lambda>(p, n). new_node n (fst (col p)) (snd (col p))) x))
        then (\<lambda>(p, n). metricValue (pp_metrics p) metric) x else 0) (node_entries ps))"
    unfolding node_tally_def by (rule node_sums.tally_sum_by_tag) (auto simp: new_node_def dest: kind)
  have b: "map (\<lambda>x. if (\<lambda>(i, k). Q i k) ((\<lambda>v. (fn_id v, fn_kind v)) ((\<lambda>(p, n). new_node n (fst (col p)) (snd (col p))) x))
        then (\<lambda>(p, n). metricValue (pp_metrics p) metric) x else 0) (node_entries ps) =
      map (\<lambda>(p, n). if Q (pn_id n) (pn_kind n) then amount_of metric p else 0) (node_entries ps)"
    by (rule map_cong [OF refl]) (simp add: new_node_def amount_of_def split_beta)
  show ?thesis using a [unfolded b] sum_node_entries [of "\<lambda>n. Q (pn_id n) (pn_kind n)" metric ps] by simp
qed

lemma link_tally_sum:
  assumes "no_nul ps"
  shows "sum_list (map (\<lambda>(k, v). if Q (fl_source v) (fl_target v) then fl_value v else 0) (link_tally col metric ps)) =
    sum_list (map (\<lambda>p. sum_list (map (\<lambda>(s, t). if Q (pn_id s) (pn_id t) then amount_of metric p else 0) (path_links (pp_path p)))) ps)"
proof -
  have a: "sum_list (map (\<lambda>(k, v). if (\<lambda>(i, k). Q i k) (fl_source v, fl_target v) then fl_value v else 0) (link_tally col metric ps)) =
      sum_list (map (\<lambda>x. if (\<lambda>(i, k). Q i k) ((\<lambda>v. (fl_source v, fl_target v)) ((\<lambda>(p, s, t). new_link s t (fst (col p)) (snd (col p))) x))
        then (\<lambda>(p, s, t). metricValue (pp_metrics p) metric) x else 0) (link_entries ps))"
    unfolding link_tally_def by (rule link_sums.tally_sum_by_tag) (drule (2) link_key_inj [OF assms], auto simp: new_link_def)
  have b: "map (\<lambda>x. if (\<lambda>(i, k). Q i k) ((\<lambda>v. (fl_source v, fl_target v)) ((\<lambda>(p, s, t). new_link s t (fst (col p)) (snd (col p))) x))
        then (\<lambda>(p, s, t). metricValue (pp_metrics p) metric) x else 0) (link_entries ps) =
      map (\<lambda>(p, s, t). if Q (pn_id s) (pn_id t) then amount_of metric p else 0) (link_entries ps)"
    by (rule map_cong [OF refl]) (simp add: new_link_def amount_of_def split_beta)
  show ?thesis using a [unfolded b] sum_link_entries [of "\<lambda>s t. Q (pn_id s) (pn_id t)" metric ps] by simp
qed

text \<open>What masking and highlighting make of a node and a link.\<close>

definition shown_node :: "bool \<Rightarrow> FlowHighlightSets option \<Rightarrow> DashboardFlowNode \<Rightarrow> DashboardFlowNode" where
  "shown_node hide hs n =
     (let n' = (if hide then mask_node n else n) in case hs of None \<Rightarrow> n' | Some h \<Rightarrow> highlight_node h n')"

definition masked_names :: "node_map \<Rightarrow> (units \<times> units) list" where
  "masked_names nodes = map (\<lambda>node. (fn_id node, maskFlowLabel (fn_label node))) (filter is_masked (map snd nodes))"

definition shown_link :: "bool \<Rightarrow> (units \<times> units) list \<Rightarrow> FlowHighlightSets option \<Rightarrow> DashboardFlowLink \<Rightarrow> DashboardFlowLink" where
  "shown_link hide names hs l =
     (let l' = (if hide then mask_link names l else l) in case hs of None \<Rightarrow> l' | Some h \<Rightarrow> highlight_link h l')"

definition total_share :: "PreparedFlowPath list \<Rightarrow> DashboardFlowLink list \<Rightarrow> rat" where
  "total_share ps links = sum_list (map fl_value (filter (\<lambda>link. fl_source link \<in> set (root_ids ps)) links))"

definition with_share :: "rat \<Rightarrow> DashboardFlowLink \<Rightarrow> DashboardFlowLink" where
  "with_share whole link = link\<lparr>fl_share := (if whole > 0 then fl_value link / whole else 0)\<rparr>"

lemma graph_parts:
  assumes g: "g = buildFlowGraph lc cc rows metric role palette visible ctx options"
    and stages: "stages = resolveVisibleStages role visible"
    and ps: "ps = preparedPaths lc rows metric stages ctx options"
    and hs: "hs = buildFlowHighlightSets ps (go_activeNode options) (go_activeLink options) stages"
  shows "\<exists>col links. links = js_sort (by_source_target lc)
        (map (shown_link (go_maskSensitive options) (masked_names (node_tally col metric ps)) hs) (map snd (link_tally col metric ps)))
    \<and> fg_nodes g = js_sort (byValueThenLabel lc) (map (shown_node (go_maskSensitive options) hs) (map snd (node_tally col metric ps)))
    \<and> fg_links g = assignLinkDisplayColors lc (map (with_share (total_share ps links)) links)"
proof -
  define colors where "colors = stableColorMap cc (js_sort lc (root_ids ps)) palette"
  define N where "N = node_tally (path_color cc colors palette) metric ps"
  define L where "L = link_tally (path_color cc colors palette) metric ps"
  have b: "foldl (add_path cc colors palette metric) ([], []) ps = (N, L)" by (simp add: base_graph N_def L_def)
  define M where "M = (if go_maskSensitive options then maskFlowGraphLabels N L else (N, L))"
  define H where "H = applyFlowHighlights (map snd (fst M)) (map snd (snd M)) hs"
  have H: "H = (map (shown_node (go_maskSensitive options) hs) (map snd N),
      map (shown_link (go_maskSensitive options) (masked_names N) hs) (map snd L))"
    by (cases hs) (simp_all add: H_def M_def applyFlowHighlights_def shown_node_def shown_link_def maskFlowGraphLabels_def Let_def
        masked_names_def comp_def split_beta)
  define links where "links = js_sort (by_source_target lc) (snd H)"
  have "g = \<lparr>fg_nodes = js_sort (byValueThenLabel lc) (fst H),
      fg_links = assignLinkDisplayColors lc (map (with_share (total_share ps links)) links)\<rparr>"
    by (simp add: g buildFlowGraph_def Let_def stages [symmetric] ps [symmetric] colors_def [symmetric] b M_def H_def hs links_def
        total_share_def with_share_def [abs_def] split_beta cong: if_cong)
  then show ?thesis
    by (intro exI [of _ "path_color cc colors palette"] exI [of _ links]) (simp add: links_def H N_def L_def)
qed

text \<open>What counts of a node and a link.\<close>

definition node_core :: "DashboardFlowNode \<Rightarrow> units \<times> FlowNodeKind \<times> rat" where
  "node_core n = (fn_id n, fn_kind n, fn_value n)"

definition link_core :: "DashboardFlowLink \<Rightarrow> units \<times> units \<times> rat" where
  "link_core l = (fl_source l, fl_target l, fl_value l)"

lemma shown_cores [simp]:
  "node_core (shown_node hide hs n) = node_core n" "link_core (shown_link hide names hs l) = link_core l"
  "link_core (with_share r l) = link_core l" "link_core (display_color lc ls l) = link_core l"
  by (simp_all add: node_core_def link_core_def shown_node_def shown_link_def mask_node_def mask_link_def highlight_node_def
      highlight_link_def with_share_def display_color_def Let_def split: option.split)

lemma graph_cores:
  assumes "g = buildFlowGraph lc cc rows metric role palette visible ctx options"
    and "ps = preparedPaths lc rows metric (resolveVisibleStages role visible) ctx options"
  shows "\<exists>col. mset (map node_core (fg_nodes g)) = mset (map (\<lambda>(k, v). node_core v) (node_tally col metric ps))
    \<and> mset (map link_core (fg_links g)) = mset (map (\<lambda>(k, v). link_core v) (link_tally col metric ps))"
proof -
  obtain col links where l: "links = js_sort (by_source_target lc)
        (map (shown_link (go_maskSensitive options) (masked_names (node_tally col metric ps))
          (buildFlowHighlightSets ps (go_activeNode options) (go_activeLink options) (resolveVisibleStages role visible)))
          (map snd (link_tally col metric ps)))"
    and n: "fg_nodes g = js_sort (byValueThenLabel lc) (map (shown_node (go_maskSensitive options)
          (buildFlowHighlightSets ps (go_activeNode options) (go_activeLink options) (resolveVisibleStages role visible)))
          (map snd (node_tally col metric ps)))"
    and f: "fg_links g = assignLinkDisplayColors lc (map (with_share (total_share ps links)) links)"
    using graph_parts [OF assms(1) refl assms(2) refl] by blast
  have "map link_core (fg_links g) = map link_core links"
    by (simp add: f assignLinkDisplayColors_def comp_def)
  moreover have "mset (map link_core links) = mset (map (\<lambda>(k, v). link_core v) (link_tally col metric ps))"
    by (simp add: l comp_def case_prod_unfold image_mset.compositionality)
  moreover have "mset (map node_core (fg_nodes g)) = mset (map (\<lambda>(k, v). node_core v) (node_tally col metric ps))"
    by (simp add: n comp_def case_prod_unfold image_mset.compositionality)
  ultimately show ?thesis by metis
qed

text \<open>In the map of nodes every node stands under its id.\<close>

lemma node_tally_ids:
  "(k, v) \<in> set (node_tally col metric ps) \<Longrightarrow> fn_id v = k \<and> (\<exists>p \<in> set ps. \<exists>n \<in> set (pp_path p). pn_id n = k \<and> pn_kind n = fn_kind v)"
  "distinct (map fst (node_tally col metric ps))"
proof -
  assume "(k, v) \<in> set (node_tally col metric ps)"
  from node_sums.tally_origin [OF this [unfolded node_tally_def]]
  obtain p n where "(p, n) \<in> set (node_entries ps)" "pn_id n = k" "fn_id v = pn_id n" "fn_kind v = pn_kind n"
    by (auto simp: new_node_def)
  then show "fn_id v = k \<and> (\<exists>p \<in> set ps. \<exists>n \<in> set (pp_path p). pn_id n = k \<and> pn_kind n = fn_kind v)"
    by (auto simp: node_entries_def)
next
  show "distinct (map fst (node_tally col metric ps))" unfolding node_tally_def by (rule tally_distinct) simp
qed

lemma sum_list_zero: "(\<And>x. x \<in> set xs \<Longrightarrow> f x = 0) \<Longrightarrow> sum_list (map f xs) = (0 :: rat)"
  by (induction xs) simp_all

lemma sum_list_congr: "(\<And>x. x \<in> set xs \<Longrightarrow> f x = g x) \<Longrightarrow> sum_list (map f xs) = sum_list (map g xs)"
  by (rule arg_cong [of _ _ sum_list], rule map_cong [OF refl])

lemma sum_at_key:
  "distinct (map fst m) \<Longrightarrow> (i, w) \<in> set m \<Longrightarrow> sum_list (map (\<lambda>(k, v). if k = i then f v else 0) m) = (f w :: rat)"
proof (induction m)
  case (Cons e m)
  show ?case
  proof (cases "fst e = i")
    case True
    then have "sum_list (map (\<lambda>(k, v). if k = i then f v else 0) m) = 0"
      using Cons.prems(1) by (intro sum_list_zero) (auto simp: rev_image_eqI)
    moreover have "e = (i, w)" using Cons.prems True by (auto simp: rev_image_eqI)
    ultimately show ?thesis by simp
  next
    case False
    then show ?thesis using Cons by (cases e) auto
  qed
qed simp

lemma sum_at_id:
  assumes "distinct (map fst m)" "\<And>k v. (k, v) \<in> set m \<Longrightarrow> fn_id v = k" "(i, w) \<in> set m"
  shows "sum_list (map (\<lambda>(k, v). if fn_id v = i then fn_value v else 0) m) = fn_value w"
proof -
  have "(if fn_id v = i then fn_value v else 0) = (if k = i then fn_value v else 0)" if "(k, v) \<in> set m" for k v
    unfolding assms(2) [OF that] ..
  then have "map (\<lambda>(k, v). if fn_id v = i then fn_value v else 0) m = map (\<lambda>(k, v). if k = i then fn_value v else 0) m"
    by (intro map_cong refl) (clarify, blast)
  then show ?thesis using sum_at_key [OF assms(1,3), of fn_value] by metis
qed

lemma other_nodes_plain: "0 \<notin> set (OTHER_FLOW_NODE_IDS k)"
  by (cases k) (simp_all add: OTHER_FLOW_NODE_IDS_def kind_prefix_def code_units_def)

definition plain_ids :: "FlowQuotaDataItem list \<Rightarrow> token_labeler \<Rightarrow> bool" where
  "plain_ids rows ctx \<longleftrightarrow> list_all (\<lambda>row. list_all (\<lambda>k. 0 \<notin> set (pn_id (NODE_BUILDERS k row ctx))) FLOW_NODE_KINDS) rows"

lemma all_kinds: "k \<in> set FLOW_NODE_KINDS"
  by (cases k) (simp_all add: FLOW_NODE_KINDS_def)

lemma prepared_path_cases:
  assumes "p \<in> set (preparedPaths lc rows metric stages ctx options)" "n \<in> set (pp_path p)"
  shows "(\<exists>row \<in> set rows. \<exists>k \<in> set stages. n = NODE_BUILDERS k row ctx) \<or> (\<exists>k. n = otherFlowNode k (go_otherNodeLabel options))"
proof -
  define sets where "sets = buildTopNodeSets lc rows metric stages (normalizeTopNodeLimit (go_topNodeLimit options)) ctx"
  define mode where "mode = opt_or (go_overflowMode options) AggregateMode"
  obtain row path where row: "row \<in> set rows"
    and a: "applyTopNodeLimit (flowPathForStages row stages ctx) sets mode (go_otherNodeLabel options) = Some path" and p: "pp_path p = path"
    using assms(1) by (auto simp: preparedPaths_def prepare_row_def Let_def List.map_filter_def sets_def mode_def)
  have "n \<in> set (flowPathForStages row stages ctx) \<or> (\<exists>k. n = otherFlowNode k (go_otherNodeLabel options))"
    using a assms(2) by (auto simp: applyTopNodeLimit_def p split: if_splits)
  then show ?thesis using row by (auto simp: flowPathForStages_def)
qed

lemma prepared_no_nul: "plain_ids rows ctx \<Longrightarrow> no_nul (preparedPaths lc rows metric stages ctx options)"
  unfolding no_nul_def
proof (intro ballI)
  fix p n
  assume plain: "plain_ids rows ctx" and "p \<in> set (preparedPaths lc rows metric stages ctx options)" "n \<in> set (pp_path p)"
  then consider row k where "row \<in> set rows" "n = NODE_BUILDERS k row ctx" | k where "n = otherFlowNode k (go_otherNodeLabel options)"
    using prepared_path_cases by blast
  then show "0 \<notin> set (pn_id n)"
  proof cases
    case 1
    then show ?thesis using plain all_kinds by (auto simp: plain_ids_def list_all_iff)
  next
    case 2
    then show ?thesis using other_nodes_plain by (simp add: otherFlowNode_def)
  qed
qed

lemma sum_link_cores: "sum_list (map fl_value (filter (\<lambda>l. Q (fl_source l) (fl_target l)) links)) =
    sum_mset (image_mset (\<lambda>(s, t, v). if Q s t then v else 0) (mset (map link_core links)))"
  by (induction links) (simp_all add: link_core_def)

lemma sum_node_cores: "sum_list (map fn_value (filter (\<lambda>n. Q (fn_id n) (fn_kind n)) nodes)) =
    sum_mset (image_mset (\<lambda>(i, k, v). if Q i k then v else 0) (mset (map node_core nodes)))"
  by (induction nodes) (simp_all add: node_core_def)

text \<open>Sums over the links and nodes of the graph, path by path.\<close>

lemma graph_link_sum:
  assumes "g = buildFlowGraph lc cc rows metric role palette visible ctx options" "plain_ids rows ctx"
    and "ps = preparedPaths lc rows metric (resolveVisibleStages role visible) ctx options"
  shows "sum_list (map fl_value (filter (\<lambda>l. Q (fl_source l) (fl_target l)) (fg_links g))) =
    sum_list (map (\<lambda>p. sum_list (map (\<lambda>(s, t). if Q (pn_id s) (pn_id t) then amount_of metric p else 0) (path_links (pp_path p)))) ps)"
proof -
  obtain col where "mset (map link_core (fg_links g)) = mset (map (\<lambda>(k, v). link_core v) (link_tally col metric ps))"
    using graph_cores [OF assms(1,3)] by blast
  then have "sum_list (map fl_value (filter (\<lambda>l. Q (fl_source l) (fl_target l)) (fg_links g))) =
      sum_list (map (\<lambda>(k, v). if Q (fl_source v) (fl_target v) then fl_value v else 0) (link_tally col metric ps))"
    unfolding sum_link_cores
    by (simp add: image_mset.compositionality comp_def case_prod_unfold link_core_def cong: if_cong flip: sum_mset_sum_list mset_map)
  then show ?thesis using link_tally_sum [of ps] prepared_no_nul [OF assms(2)] assms(3) by simp
qed

lemma graph_node_sum:
  assumes "g = buildFlowGraph lc cc rows metric role palette visible ctx options"
    and "ps = preparedPaths lc rows metric (resolveVisibleStages role visible) ctx options"
  shows "sum_list (map fn_value (filter (\<lambda>n. Q (fn_id n) (fn_kind n)) (fg_nodes g))) =
    sum_list (map (\<lambda>p. sum_list (map (\<lambda>n. if Q (pn_id n) (pn_kind n) then amount_of metric p else 0) (pp_path p))) ps)"
proof -
  obtain col where "mset (map node_core (fg_nodes g)) = mset (map (\<lambda>(k, v). node_core v) (node_tally col metric ps))"
    using graph_cores [OF assms] by blast
  then have "sum_list (map fn_value (filter (\<lambda>n. Q (fn_id n) (fn_kind n)) (fg_nodes g))) =
      sum_list (map (\<lambda>(k, v). if Q (fn_id v) (fn_kind v) then fn_value v else 0) (node_tally col metric ps))"
    unfolding sum_node_cores
    by (simp add: image_mset.compositionality comp_def case_prod_unfold node_core_def cong: if_cong flip: sum_mset_sum_list mset_map)
  then show ?thesis using node_tally_sum [of ps "resolveVisibleStages role visible"] prepared_ok assms(2) by simp
qed

lemma graph_node_value:
  assumes "g = buildFlowGraph lc cc rows metric role palette visible ctx options"
    and "ps = preparedPaths lc rows metric (resolveVisibleStages role visible) ctx options" and "n \<in> set (fg_nodes g)"
  shows "fn_value n = sum_list (map (\<lambda>p. sum_list (map (\<lambda>m. if pn_id m = fn_id n then amount_of metric p else 0) (pp_path p))) ps)"
    and "\<exists>p \<in> set ps. \<exists>m \<in> set (pp_path p). pn_id m = fn_id n \<and> pn_kind m = fn_kind n"
proof -
  obtain col where c: "mset (map node_core (fg_nodes g)) = mset (map (\<lambda>(k, v). node_core v) (node_tally col metric ps))"
    using graph_cores [OF assms(1,2)] by blast
  have "node_core n \<in> set (map (\<lambda>(k, v). node_core v) (node_tally col metric ps))"
    using assms(3) mset_eq_setD [OF c] by auto
  then obtain k v where kv: "(k, v) \<in> set (node_tally col metric ps)" and v: "node_core v = node_core n" by auto
  have k: "k = fn_id n" using node_tally_ids(1) [OF kv] v by (simp add: node_core_def)
  have "fn_value v = sum_list (map (\<lambda>(k, v). if fn_id v = fn_id n then fn_value v else 0) (node_tally col metric ps))"
    using sum_at_id [OF node_tally_ids(2) _ kv [unfolded k]] node_tally_ids(1) by metis
  also have "\<dots> = sum_list (map (\<lambda>p. sum_list (map (\<lambda>m. if pn_id m = fn_id n then amount_of metric p else 0) (pp_path p))) ps)"
    using node_tally_sum [of ps "resolveVisibleStages role visible" "\<lambda>i _. i = fn_id n"] prepared_ok assms(2) by simp
  finally show "fn_value n = sum_list (map (\<lambda>p. sum_list (map (\<lambda>m. if pn_id m = fn_id n then amount_of metric p else 0) (pp_path p))) ps)"
    using v by (simp add: node_core_def)
  show "\<exists>p \<in> set ps. \<exists>m \<in> set (pp_path p). pn_id m = fn_id n \<and> pn_kind m = fn_kind n"
    using node_tally_ids(1) [OF kv] v k by (simp add: node_core_def)
qed

text \<open>
  C5: The flow is conserved.  At every node, what flows out along its links is the node's value, unless it stands in the
  last column, and what flows in is the node's value, unless it stands in the first; whatever the rows, the visible
  stages, the limit of nodes and the way its overflow is treated.  No name may contain the code unit 0, which
  separates the ends in the key of a link.
\<close>

theorem flow_conserved:
  assumes "g = buildFlowGraph lc cc rows metric role palette visible ctx options"
    and "stages = resolveVisibleStages role visible" and "plain_ids rows ctx" and "n \<in> set (fg_nodes g)"
  shows "(fn_kind n \<noteq> last stages \<longrightarrow>
      sum_list (map fl_value (filter (\<lambda>l. fl_source l = fn_id n) (fg_links g))) = fn_value n)
    \<and> (fn_kind n \<noteq> hd stages \<longrightarrow>
      sum_list (map fl_value (filter (\<lambda>l. fl_target l = fn_id n) (fg_links g))) = fn_value n)"
proof -
  define ps where "ps = preparedPaths lc rows metric (resolveVisibleStages role visible) ctx options"
  have ok: "path_ok stages (pp_path p)" "pp_path p \<noteq> []" if "p \<in> set ps" for p
    using that prepared_ok stages_distinct(2) [of role visible] by (fastforce simp: ps_def assms(2) path_ok_def)+
  obtain p m where m: "p \<in> set ps" "m \<in> set (pp_path p)" "pn_id m = fn_id n" "pn_kind m = fn_kind n"
    using graph_node_value(2) [OF assms(1) ps_def assms(4)] by blast
  then have nm: "node_ok m" using ok(1) by (auto simp: path_ok_def list_all_iff)
  note v = graph_node_value(1) [OF assms(1) ps_def assms(4)]
  have "sum_list (map fl_value (filter (\<lambda>l. fl_source l = fn_id n) (fg_links g))) = fn_value n" if "fn_kind n \<noteq> last stages"
    unfolding v graph_link_sum [OF assms(1,3) ps_def, of "\<lambda>s t. s = fn_id n"]
    using outgoing_like_node [OF ok nm] that m(3,4) by (intro sum_list_congr) simp
  moreover have "sum_list (map fl_value (filter (\<lambda>l. fl_target l = fn_id n) (fg_links g))) = fn_value n" if "fn_kind n \<noteq> hd stages"
    unfolding v graph_link_sum [OF assms(1,3) ps_def, of "\<lambda>s t. t = fn_id n"]
    using incoming_like_node [OF ok nm] that m(3,4) by (intro sum_list_congr) simp
  ultimately show ?thesis by blast
qed

definition summary_value :: "FlowSummary \<Rightarrow> FlowMetric \<Rightarrow> rat" where
  "summary_value s metric = (case metric of QuotaMetric \<Rightarrow> fs_quota s | TokensMetric \<Rightarrow> fs_tokens s | RequestsMetric \<Rightarrow> fs_requests s)"

lemma summary_sum: "summary_value (buildSummary rows) metric = sum_list (map (\<lambda>row. metricValue (rowMetrics row) metric) rows)"
proof -
  have "summary_value (foldl (\<lambda>s row. let m = rowMetrics row in
         \<lparr>fs_quota = fs_quota s + fm_quota m, fs_tokens = fs_tokens s + fm_tokens m, fs_requests = fs_requests s + fm_requests m\<rparr>) s rows) metric =
      summary_value s metric + sum_list (map (\<lambda>row. metricValue (rowMetrics row) metric) rows)" for s
    by (induction rows arbitrary: s) (simp_all add: summary_value_def metricValue_def Let_def split: FlowMetric.splits)
  then show ?thesis by (simp add: buildSummary_def) (simp add: summary_value_def split: FlowMetric.split)
qed

definition hides_rows :: "FlowGraphOptions \<Rightarrow> bool" where
  "hides_rows options \<longleftrightarrow> normalizeTopNodeLimit (go_topNodeLimit options) \<noteq> None \<and> go_overflowMode options = Some HideMode"

lemma prepared_sum:
  assumes "\<not> hides_rows options"
  shows "sum_list (map (amount_of metric) (preparedPaths lc rows metric stages ctx options)) = summary_value (buildSummary rows) metric"
proof -
  define sets where "sets = buildTopNodeSets lc rows metric stages (normalizeTopNodeLimit (go_topNodeLimit options)) ctx"
  define f where "f = prepare_row sets (opt_or (go_overflowMode options) AggregateMode) (go_otherNodeLabel options) stages ctx"
  have f: "\<exists>path. f row = Some \<lparr>pp_path = path, pp_metrics = rowMetrics row\<rparr>" for row
    using assms by (auto simp: f_def sets_def prepare_row_def applyTopNodeLimit_def hides_rows_def buildTopNodeSets_def opt_or_def
        split: option.splits)
  have "map (amount_of metric) (List.map_filter f rs) = map (\<lambda>row. metricValue (rowMetrics row) metric) rs" for rs
  proof (induction rs)
    case (Cons r rs)
    obtain path where "f r = Some \<lparr>pp_path = path, pp_metrics = rowMetrics r\<rparr>" using f by blast
    then show ?case using Cons.IH by (simp add: map_filter_simps amount_of_def)
  qed (simp add: map_filter_simps)
  then show ?thesis by (simp add: preparedPaths_def Let_def summary_sum f_def sets_def)
qed

text \<open>
  C12: Every column shows the whole: the values of the nodes of any visible stage add up to the summary above the chart,
  unless a limit of nodes is set and rows beyond it are hidden.
\<close>

theorem flow_columns_add_up:
  assumes "g = buildFlowGraph lc cc rows metric role palette visible ctx options"
    and "k \<in> set (resolveVisibleStages role visible)" and "\<not> hides_rows options"
  shows "sum_list (map fn_value (filter (\<lambda>n. fn_kind n = k) (fg_nodes g))) = summary_value (buildSummary rows) metric"
proof -
  define ps where "ps = preparedPaths lc rows metric (resolveVisibleStages role visible) ctx options"
  have "sum_list (map (\<lambda>n. if pn_kind n = k then amount_of metric p else 0) (pp_path p)) = amount_of metric p" if "p \<in> set ps" for p
    using one_node_per_stage [OF _ stages_distinct(1) assms(2)] prepared_ok that by (auto simp: ps_def)
  then have "sum_list (map (\<lambda>p. sum_list (map (\<lambda>n. if pn_kind n = k then amount_of metric p else 0) (pp_path p))) ps) =
      sum_list (map (amount_of metric) ps)" by (rule sum_list_congr)
  then show ?thesis using graph_node_sum [OF assms(1) ps_def, of "\<lambda>_ k'. k' = k"] prepared_sum [OF assms(3)] by (simp add: ps_def)
qed

subsection \<open>Masking\<close>

lemma masked_label: "maskFlowLabel s \<in> {[], FLOW_MASK_TEXT}"
  by (simp add: maskFlowLabel_def)

lemma masked_names_label: "map_of (masked_names nodes) i = Some s \<Longrightarrow> s \<in> {[], FLOW_MASK_TEXT}"
  using masked_label [of "fn_label n" for n] by (force simp: masked_names_def dest!: map_of_SomeD)

lemma masked_names_lookup:
  assumes "v \<in> snd ` set nodes" "is_masked v"
  shows "\<exists>s. map_of (masked_names nodes) (fn_id v) = Some s"
proof -
  have "v \<in> set (filter is_masked (map snd nodes))" using assms by simp
  then have "(fn_id v, maskFlowLabel (fn_label v)) \<in> set (masked_names nodes)"
    unfolding masked_names_def set_map by (rule imageI)
  then have "fn_id v \<in> fst ` set (masked_names nodes)" by (metis fst_conv imageI)
  then show ?thesis using map_of_eq_None_iff [of "masked_names nodes" "fn_id v"] by (cases "map_of (masked_names nodes) (fn_id v)") auto
qed

lemma display_color_keeps [simp]:
  "fl_source (display_color lc ls l) = fl_source l" "fl_target (display_color lc ls l) = fl_target l"
  "fl_sourceLabel (display_color lc ls l) = fl_sourceLabel l" "fl_targetLabel (display_color lc ls l) = fl_targetLabel l"
  "fl_highlighted (display_color lc ls l) = fl_highlighted l" "fl_dimmed (display_color lc ls l) = fl_dimmed l"
  by (simp_all add: display_color_def Let_def)

lemma with_share_keeps [simp]:
  "fl_source (with_share r l) = fl_source l" "fl_target (with_share r l) = fl_target l"
  "fl_sourceLabel (with_share r l) = fl_sourceLabel l" "fl_targetLabel (with_share r l) = fl_targetLabel l"
  "fl_highlighted (with_share r l) = fl_highlighted l" "fl_dimmed (with_share r l) = fl_dimmed l"
  by (simp_all add: with_share_def)

lemma shown_link_masked:
  "fl_source (shown_link True names hs l) = fl_source l" "fl_target (shown_link True names hs l) = fl_target l"
  "fl_sourceLabel (shown_link True names hs l) = opt_or (map_of names (fl_source l)) (fl_sourceLabel l)"
  "fl_targetLabel (shown_link True names hs l) = opt_or (map_of names (fl_target l)) (fl_targetLabel l)"
  by (simp_all add: shown_link_def mask_link_def highlight_link_def Let_def split: option.split)

lemma shown_node_masked:
  "is_masked (shown_node True hs n) = is_masked n" "fn_id (shown_node True hs n) = fn_id n"
  "fn_label (shown_node True hs n) = (if is_masked n then maskFlowLabel (fn_label n) else fn_label n)"
  by (auto simp: shown_node_def mask_node_def highlight_node_def is_masked_def Let_def split: option.split)

text \<open>
  C13: With masking on, no name of a person, key, machine, group or channel is left in the graph: the label of every such
  node is the mask (or was empty), and so is the label of it at either end of a link.  Only the nodes that stand for
  all others keep their label.
\<close>

theorem flow_mask_hides_names:
  assumes "g = buildFlowGraph lc cc rows metric role palette visible ctx options" and "go_maskSensitive options"
    and "n \<in> set (fg_nodes g)" and "fn_kind n \<in> set SENSITIVE_FLOW_KINDS" and "fn_id n \<notin> OTHER_FLOW_NODE_IDS ` set FLOW_NODE_KINDS"
    and "l \<in> set (fg_links g)"
  shows "fn_label n \<in> {[], FLOW_MASK_TEXT}
    \<and> (fl_source l = fn_id n \<longrightarrow> fl_sourceLabel l \<in> {[], FLOW_MASK_TEXT})
    \<and> (fl_target l = fn_id n \<longrightarrow> fl_targetLabel l \<in> {[], FLOW_MASK_TEXT})"
proof -
  define ps where "ps = preparedPaths lc rows metric (resolveVisibleStages role visible) ctx options"
  define hs where "hs = buildFlowHighlightSets ps (go_activeNode options) (go_activeLink options) (resolveVisibleStages role visible)"
  obtain col links where links: "links = js_sort (by_source_target lc)
        (map (shown_link True (masked_names (node_tally col metric ps)) hs) (map snd (link_tally col metric ps)))"
    and nodes: "fg_nodes g = js_sort (byValueThenLabel lc) (map (shown_node True hs) (map snd (node_tally col metric ps)))"
    and f: "fg_links g = assignLinkDisplayColors lc (map (with_share (total_share ps links)) links)"
    using graph_parts [OF assms(1) refl ps_def hs_def] assms(2) by auto
  define N where "N = node_tally col metric ps"
  obtain v where v: "v \<in> snd ` set N" "n = shown_node True hs v" using assms(3) nodes by (auto simp: N_def)
  have m: "is_masked v" using assms(4,5) v(2) shown_node_masked(1) [of hs v] by (simp add: is_masked_def)
  obtain s where s: "map_of (masked_names N) (fn_id n) = Some s"
    using masked_names_lookup [OF v(1) m] v(2) by (auto simp: shown_node_masked)
  obtain l' where "l = display_color lc (map (with_share (total_share ps links)) links)
      (with_share (total_share ps links) (shown_link True (masked_names N) hs l'))"
    using assms(6) links by (auto simp: f assignLinkDisplayColors_def N_def)
  then have l': "fl_source l = fl_source l'" "fl_target l = fl_target l'"
    "fl_sourceLabel l = opt_or (map_of (masked_names N) (fl_source l')) (fl_sourceLabel l')"
    "fl_targetLabel l = opt_or (map_of (masked_names N) (fl_target l')) (fl_targetLabel l')"
    by (simp_all add: shown_link_masked)
  have "fn_label n \<in> {[], FLOW_MASK_TEXT}" using masked_label m v(2) by (simp add: shown_node_masked)
  then show ?thesis using l' s masked_names_label [OF s] by (auto simp: opt_or_def)
qed

subsection \<open>The limit\<close>

lemma graph_ids_distinct:
  assumes "g = buildFlowGraph lc cc rows metric role palette visible ctx options"
  shows "distinct (map fn_id (fg_nodes g))"
proof -
  define ps where "ps = preparedPaths lc rows metric (resolveVisibleStages role visible) ctx options"
  obtain col where c: "mset (map node_core (fg_nodes g)) = mset (map (\<lambda>(k, v). node_core v) (node_tally col metric ps))"
    using graph_cores [OF assms ps_def] by blast
  have "map (\<lambda>(k, v). fn_id v) (node_tally col metric ps) = map fst (node_tally col metric ps)"
    by (rule map_cong [OF refl]) (use node_tally_ids(1) in \<open>auto split: prod.split\<close>)
  moreover have "mset (map fst (map node_core (fg_nodes g))) = mset (map fst (map (\<lambda>(k, v). node_core v) (node_tally col metric ps)))"
    using c by (metis mset_map)
  then have "mset (map fn_id (fg_nodes g)) = mset (map (\<lambda>(k, v). fn_id v) (node_tally col metric ps))"
    by (simp add: comp_def case_prod_unfold node_core_def)
  ultimately show ?thesis using node_tally_ids(2) [of col metric ps] mset_eq_imp_distinct_iff by metis
qed

lemma prepared_top:
  assumes "p \<in> set (preparedPaths lc rows metric stages ctx options)" "m \<in> set (pp_path p)"
    and "sets = buildTopNodeSets lc rows metric stages (normalizeTopNodeLimit (go_topNodeLimit options)) ctx"
  shows "isTopFlowNode m sets \<or> (go_overflowMode options \<noteq> Some HideMode \<and> m = otherFlowNode (pn_kind m) (go_otherNodeLabel options))"
proof -
  obtain row path where "applyTopNodeLimit (flowPathForStages row stages ctx) sets (opt_or (go_overflowMode options) AggregateMode)
      (go_otherNodeLabel options) = Some path" "pp_path p = path"
    using assms(1) by (auto simp: preparedPaths_def prepare_row_def Let_def List.map_filter_def assms(3))
  moreover have "pn_kind (otherFlowNode k lab) = k" for k lab by (simp add: otherFlowNode_def)
  ultimately show ?thesis using assms(2)
    by (auto simp: applyTopNodeLimit_def opt_or_def isTopFlowNode_def list_ex_iff split: if_splits option.splits)
qed

lemma top_set_size:
  assumes "k \<in> set stages"
  shows "\<exists>ids. length ids \<le> L \<and> (\<forall>m. pn_kind m = k \<and> isTopFlowNode m (buildTopNodeSets lc rows metric stages (Some L) ctx) \<longrightarrow> pn_id m \<in> set ids)"
proof -
  define top where "top = (\<lambda>kind. map (\<lambda>rank. pn_id (nr_node rank))
      (take L (js_sort (by_rank lc) (map snd (stage_totals rows metric kind ctx)))))"
  have "map_of (map (\<lambda>kind. (kind, top kind)) stages) k = Some (top k)" using assms by (induction stages) auto
  then show ?thesis by (intro exI [of _ "top k"]) (auto simp: buildTopNodeSets_def isTopFlowNode_def top_def)
qed

text \<open>
  C33: The limit of nodes holds in every column: at most that many nodes are shown, and one more for all others unless they
  are hidden.
\<close>

theorem flow_node_limit:
  assumes "g = buildFlowGraph lc cc rows metric role palette visible ctx options"
    and "normalizeTopNodeLimit (go_topNodeLimit options) = Some L"
  shows "length (filter (\<lambda>n. fn_kind n = k) (fg_nodes g)) \<le> (if go_overflowMode options = Some HideMode then L else L + 1)"
proof -
  define stages where "stages = resolveVisibleStages role visible"
  define ps where "ps = preparedPaths lc rows metric stages ctx options"
  define I where "I = set (map fn_id (filter (\<lambda>n. fn_kind n = k) (fg_nodes g)))"
  have "distinct (map fn_id (filter (\<lambda>n. fn_kind n = k) (fg_nodes g)))"
    using graph_ids_distinct [OF assms(1)] by (rule distinct_map_filter)
  then have card: "length (filter (\<lambda>n. fn_kind n = k) (fg_nodes g)) = card I"
    using distinct_card by (fastforce simp: I_def)
  have path: "\<exists>p \<in> set ps. \<exists>m \<in> set (pp_path p). pn_id m = i \<and> pn_kind m = k" if "i \<in> I" for i
    using that graph_node_value(2) [OF assms(1)] by (auto simp: I_def ps_def stages_def)
  show ?thesis
  proof (cases "k \<in> set stages")
    case True
    then obtain ids where ids: "length ids \<le> L"
      "\<And>m. pn_kind m = k \<Longrightarrow> isTopFlowNode m (buildTopNodeSets lc rows metric stages (Some L) ctx) \<Longrightarrow> pn_id m \<in> set ids"
      using top_set_size by blast
    have "i \<in> set ids \<or> (go_overflowMode options \<noteq> Some HideMode \<and> i = OTHER_FLOW_NODE_IDS k)" if "i \<in> I" for i
    proof -
      obtain p m where m: "p \<in> set ps" "m \<in> set (pp_path p)" "pn_id m = i" "pn_kind m = k" using path [OF \<open>i \<in> I\<close>] by blast
      from prepared_top [OF m(1) [unfolded ps_def] m(2) refl] show ?thesis
        using ids(2) [of m] m(3,4) by (auto simp: assms(2) otherFlowNode_def) (metis FlowPathNode.select_convs(1))
    qed
    then have "I \<subseteq> set ids \<union> (if go_overflowMode options = Some HideMode then {} else {OTHER_FLOW_NODE_IDS k})" by auto
    then have "card I \<le> card (set ids \<union> (if go_overflowMode options = Some HideMode then {} else {OTHER_FLOW_NODE_IDS k}))"
      by (rule card_mono [rotated]) simp
    also have "\<dots> \<le> (if go_overflowMode options = Some HideMode then L else L + 1)"
      using card_Un_le [of "set ids" "{OTHER_FLOW_NODE_IDS k}"] card_length [of ids] ids(1) by auto
    finally show ?thesis using card by simp
  next
    case False
    have "I = {}"
    proof (rule ccontr)
      assume "I \<noteq> {}"
      then obtain p m where "p \<in> set ps" "m \<in> set (pp_path p)" "pn_kind m = k" using path by blast
      moreover from this have "map pn_kind (pp_path p) = stages" using prepared_ok by (simp add: ps_def path_ok_def)
      ultimately have "k \<in> set stages" by auto
      then show False using False by simp
    qed
    then show ?thesis using card by simp
  qed
qed

subsection \<open>Filters\<close>

lemma foldl_filter: "foldl (\<lambda>a x. if P x then f a x else a) a xs = foldl f a (filter P xs)"
  by (induction xs arbitrary: a) simp_all

lemma set_add_id [simp]: "set (add_id i ids) = insert i (set ids)"
  by (auto simp: add_id_def)

text \<open>Ids collected by kind.\<close>

lemma tally_groups:
  "(map_of (tally key (\<lambda>_. []) (\<lambda>x. add_id (ident x)) xs m) k = None) = (map_of m k = None \<and> k \<notin> key ` set xs)"
  "set (opt_or (map_of (tally key (\<lambda>_. []) (\<lambda>x. add_id (ident x)) xs m) k) []) =
    set (opt_or (map_of m k) []) \<union> ident ` {x \<in> set xs. key x = k}"
proof -
  show "(map_of (tally key (\<lambda>_. []) (\<lambda>x. add_id (ident x)) xs m) k = None) = (map_of m k = None \<and> k \<notin> key ` set xs)"
    by (induction xs arbitrary: m) (auto simp: upsert_def update_conv')
  show "set (opt_or (map_of (tally key (\<lambda>_. []) (\<lambda>x. add_id (ident x)) xs m) k) []) =
      set (opt_or (map_of m k) []) \<union> ident ` {x \<in> set xs. key x = k}"
  proof (induction xs arbitrary: m)
    case (Cons x xs)
    have "set (opt_or (map_of (upsert (key x) [] (add_id (ident x)) m) k) []) =
        set (opt_or (map_of m k) []) \<union> (if key x = k then {ident x} else {})"
      by (auto simp: upsert_def update_conv' opt_or_def)
    then show ?case using Cons.IH by auto
  qed simp
qed

lemma tally_group_found:
  assumes "map_of (tally key (\<lambda>_. []) (\<lambda>x. add_id (ident x)) xs []) k = Some ids"
  shows "set ids = ident ` {x \<in> set xs. key x = k}" "k \<in> key ` set xs"
  using tally_groups(2) [of key ident xs "[]" k] tally_groups(1) [of key ident xs "[]" k] assms by (auto simp: opt_or_def)

lemma path_ids_tally: "path_ids path = tally pn_kind (\<lambda>_. []) (\<lambda>n. add_id (pn_id n)) path []"
  by (simp add: path_ids_def tally_def)

lemma normalized_tally:
  "normalizeSelectedNodeFilters selected stages =
    tally nf_kind (\<lambda>_. []) (\<lambda>f. add_id (nf_id f)) (filter (\<lambda>f. nf_kind f \<in> set stages) (opt_or selected [])) []"
  by (simp add: normalizeSelectedNodeFilters_def tally_def foldl_filter)

text \<open>A row passes when, for every kind that is filtered, its node of that kind is among those selected.\<close>

definition passes :: "FlowNodeFilter list \<Rightarrow> FlowNodeKind list \<Rightarrow> FlowPathNode list \<Rightarrow> bool" where
  "passes sel stages path \<longleftrightarrow> (\<forall>f \<in> set sel. nf_kind f \<in> set stages \<longrightarrow>
     (\<exists>f' \<in> set sel. nf_kind f' = nf_kind f \<and> (\<exists>n \<in> set path. pn_kind n = nf_kind f \<and> pn_id n = nf_id f')))"

lemma list_all_keys: "(\<And>k v. (k, v) \<in> set m \<Longrightarrow> P k v \<longleftrightarrow> Q k) \<Longrightarrow> list_all (\<lambda>(k, v). P k v) m \<longleftrightarrow> (\<forall>k \<in> fst ` set m. Q k)"
  by (induction m) auto

lemma filters_pass:
  "pathMatchesNodeFilters path (normalizeSelectedNodeFilters selected stages) = passes (opt_or selected []) stages path"
proof -
  define sel where "sel = filter (\<lambda>f. nf_kind f \<in> set stages) (opt_or selected [])"
  define F where "F = tally nf_kind (\<lambda>_. []) (\<lambda>f. add_id (nf_id f)) sel []"
  have d: "distinct (map fst F)" unfolding F_def by (rule tally_distinct) simp
  have one: "(case map_of (path_ids path) k of None \<Rightarrow> False | Some pids \<Rightarrow> list_ex (\<lambda>i. i \<in> set pids) ids) \<longleftrightarrow>
      (\<exists>f \<in> set sel. nf_kind f = k \<and> (\<exists>n \<in> set path. pn_kind n = k \<and> pn_id n = nf_id f))" if "(k, ids) \<in> set F" for k ids
  proof -
    have "map_of F k = Some ids" using that d by simp
    then have i: "set ids = nf_id ` {f \<in> set sel. nf_kind f = k}" using tally_group_found(1) by (simp add: F_def)
    show ?thesis
    proof (cases "map_of (path_ids path) k")
      case None
      then have "k \<notin> pn_kind ` set path" using tally_groups(1) [of pn_kind pn_id path "[]" k] by (simp add: path_ids_tally)
      then have "pn_kind n \<noteq> k" if "n \<in> set path" for n using that by (metis imageI)
      then show ?thesis using None by auto
    next
      case (Some pids)
      then have "set pids = pn_id ` {n \<in> set path. pn_kind n = k}" using tally_group_found(1) by (simp add: path_ids_tally)
      then show ?thesis using Some i by (simp add: list_ex_iff image_iff) metis
    qed
  qed
  have "fst ` set F = nf_kind ` set sel" unfolding F_def tally_keys by simp
  then have "list_all (\<lambda>(k, ids). case map_of (path_ids path) k of None \<Rightarrow> False | Some pids \<Rightarrow> list_ex (\<lambda>i. i \<in> set pids) ids) F \<longleftrightarrow>
      (\<forall>k \<in> nf_kind ` set sel. \<exists>f \<in> set sel. nf_kind f = k \<and> (\<exists>n \<in> set path. pn_kind n = k \<and> pn_id n = nf_id f))"
    unfolding \<open>fst ` set F = nf_kind ` set sel\<close> [symmetric] using one by (intro list_all_keys) simp
  also have "\<dots> \<longleftrightarrow> passes (opt_or selected []) stages path"
    unfolding passes_def sel_def by (simp add: Bex_def) metis
  finally show ?thesis unfolding pathMatchesNodeFilters_def normalized_tally sel_def [symmetric] F_def [symmetric] by auto
qed

lemma filterRowsByNodes_iff:
  "row \<in> set (filterRowsByNodes rows selected stages ctx) \<longleftrightarrow>
    row \<in> set rows \<and> passes (opt_or selected []) stages (flowPathForStages row stages ctx)"
proof -
  have "passes (opt_or selected []) stages path" if "normalizeSelectedNodeFilters selected stages = []" for path
    using filters_pass [of path selected stages] that by (simp add: pathMatchesNodeFilters_def)
  then show ?thesis by (auto simp: filterRowsByNodes_def filters_pass Let_def)
qed

lemma option_totals_origin:
  assumes "(k, rank) \<in> set (option_totals rows metric stage ctx)"
  shows "\<exists>row \<in> set rows. nr_node rank = NODE_BUILDERS stage row ctx"
proof -
  have "option_totals rows metric stage ctx = tally (\<lambda>row. nodeFilterKey (pn_kind (NODE_BUILDERS stage row ctx)) (pn_id (NODE_BUILDERS stage row ctx)))
      (\<lambda>row. \<lparr>nr_node = NODE_BUILDERS stage row ctx, nr_value = 0\<rparr>)
      (\<lambda>row current. current\<lparr>nr_value := nr_value current + metricValue (rowMetrics row) metric\<rparr>) rows []"
    by (simp add: option_totals_def tally_def Let_def)
  then show ?thesis using assms option_sums.tally_origin by fastforce
qed

text \<open>
  The options of a filter lead somewhere: whatever is selected so far, choosing an option that is offered, in place of
  the earlier choice of its kind, leaves at least one row.
\<close>

theorem flow_options_lead_to_rows:
  assumes "opt \<in> set (buildNodeFilterOptions lc cc fmt rows metric role visible palette ctx selected)"
  shows "filterRowsByNodes rows
      (Some (filter (\<lambda>f. nf_kind f \<noteq> no_kind opt) (opt_or selected []) @ [\<lparr>nf_kind = no_kind opt, nf_id = no_value opt\<rparr>]))
      (resolveVisibleStages role visible) ctx \<noteq> []"
proof -
  define stages where "stages = resolveVisibleStages role visible"
  define others where "others = filter (\<lambda>f. nf_kind f \<noteq> no_kind opt) (opt_or selected [])"
  obtain stage k rank where st: "stage \<in> set stages"
    and r: "(k, rank) \<in> set (option_totals (filterRowsByNodes rows (selectedNodeFiltersExceptKind selected stage) stages ctx) metric stage ctx)"
    and o: "no_kind opt = pn_kind (nr_node rank)" "no_value opt = pn_id (nr_node rank)"
    using assms by (auto simp: buildNodeFilterOptions_def Let_def stages_def)
  obtain row where row: "row \<in> set (filterRowsByNodes rows (selectedNodeFiltersExceptKind selected stage) stages ctx)"
    and n: "nr_node rank = NODE_BUILDERS stage row ctx"
    using option_totals_origin [OF r] by blast
  have kind: "no_kind opt = stage" using o(1) n node_builders_ok(2) by simp
  have "opt_or (selectedNodeFiltersExceptKind selected stage) [] = others"
    by (simp add: selectedNodeFiltersExceptKind_def Let_def opt_or_def others_def kind)
  then have p: "row \<in> set rows" "passes others stages (flowPathForStages row stages ctx)"
    using row by (auto simp: filterRowsByNodes_iff)
  have node: "NODE_BUILDERS stage row ctx \<in> set (flowPathForStages row stages ctx)" using st by (simp add: flowPathForStages_def)
  have "passes (others @ [\<lparr>nf_kind = no_kind opt, nf_id = no_value opt\<rparr>]) stages (flowPathForStages row stages ctx)"
    unfolding passes_def
  proof (intro ballI impI)
    fix f
    assume f: "f \<in> set (others @ [\<lparr>nf_kind = no_kind opt, nf_id = no_value opt\<rparr>])" "nf_kind f \<in> set stages"
    show "\<exists>f' \<in> set (others @ [\<lparr>nf_kind = no_kind opt, nf_id = no_value opt\<rparr>]). nf_kind f' = nf_kind f \<and>
        (\<exists>n \<in> set (flowPathForStages row stages ctx). pn_kind n = nf_kind f \<and> pn_id n = nf_id f')"
    proof (cases "f \<in> set others")
      case True
      then show ?thesis using p(2) f(2) by (auto simp: passes_def)
    next
      case False
      then have "f = \<lparr>nf_kind = no_kind opt, nf_id = no_value opt\<rparr>" using f(1) by simp
      then show ?thesis using node o n kind node_builders_ok(2) [of stage row ctx] by auto
    qed
  qed
  then have "row \<in> set (filterRowsByNodes rows (Some (others @ [\<lparr>nf_kind = no_kind opt, nf_id = no_value opt\<rparr>])) stages ctx)"
    using p(1) by (simp add: filterRowsByNodes_iff opt_or_def)
  then show ?thesis by (auto simp: others_def stages_def)
qed

subsection \<open>A concrete graph\<close>

text \<open>Two requests of one user's token, in different groups and for different models.\<close>

definition sample_row :: "string \<Rightarrow> string \<Rightarrow> rat \<Rightarrow> FlowQuotaDataItem" where
  "sample_row grp model quota = \<lparr>fq_user_id = None, fq_username = Some (code_units ''ann''), fq_node_name = None,
      fq_use_group = Some (code_units grp), fq_token_id = None, fq_token_name = Some (code_units ''key''), fq_channel_id = None,
      fq_channel_name = None, fq_model_name = Some (code_units model), fq_token_used = None, fq_count = Some 1, fq_quota = Some quota\<rparr>"

definition sample_rows :: "FlowQuotaDataItem list" where
  "sample_rows = [sample_row ''vip'' ''a'' 5, sample_row ''free'' ''b'' 2]"

definition sample_options :: "rat option \<Rightarrow> FlowGraphOptions" where
  "sample_options limit = \<lparr>go_topNodeLimit = limit, go_overflowMode = None, go_otherNodeLabel = None, go_activeNode = None,
     go_activeLink = None, go_maskSensitive = True\<rparr>"

definition sample_compare :: locale_compare where
  "sample_compare a b = of_int (int (length a) - int (length b))"

definition sample_graph :: "rat option \<Rightarrow> DashboardFlowGraph" where
  "sample_graph limit = buildFlowGraph sample_compare (\<lambda>_. []) sample_rows QuotaMetric UserRole None None None (sample_options limit)"

lemmas sample_defs = sample_row_def sample_rows_def sample_options_def

lemmas node_builder_defs = NODE_BUILDERS_def userNode_def nodeNameNode_def tokenNode_def groupNode_def modelNode_def
  channelNode_def id_or_name_def

lemma sample_stages: "resolveVisibleStages UserRole None = [TokenKind, GroupKind, ModelKind]"
  by (simp add: resolveVisibleStages_def getFlowStages_def)

lemma sample_plain: "plain_ids sample_rows None"
  by (simp add: plain_ids_def FLOW_NODE_KINDS_def sample_defs node_builder_defs code_units_def kind_prefix_def text_or_def
      numberValue_def opt_or_def Let_def)

lemma sample_paths:
  "preparedPaths sample_compare sample_rows QuotaMetric [TokenKind, GroupKind, ModelKind] None (sample_options None) =
    map (\<lambda>row. \<lparr>pp_path = flowPathForStages row [TokenKind, GroupKind, ModelKind] None, pp_metrics = rowMetrics row\<rparr>) sample_rows"
  by (simp add: preparedPaths_def prepare_row_def applyTopNodeLimit_def buildTopNodeSets_def normalizeTopNodeLimit_def sample_defs
      map_filter_simps)

text \<open>The token is a node of the graph, and it starts a link.\<close>

definition sample_token :: units where
  "sample_token = code_units ''token:key''"

lemma sample_node: "\<exists>n \<in> set (fg_nodes (sample_graph None)). fn_id n = sample_token \<and> fn_kind n = TokenKind"
proof -
  have "sum_list (map fn_value (filter (\<lambda>n. fn_id n = sample_token \<and> fn_kind n = TokenKind) (fg_nodes (sample_graph None)))) = 7"
    using graph_node_sum [OF sample_graph_def refl, of "\<lambda>i k. i = sample_token \<and> k = TokenKind" None]
    unfolding sample_stages sample_paths
    by (simp add: flowPathForStages_def amount_of_def metricValue_def rowMetrics_def sample_defs
        node_builder_defs numberValue_def opt_or_def text_or_def kind_prefix_def code_units_def sample_token_def Let_def)
  then have "filter (\<lambda>n. fn_id n = sample_token \<and> fn_kind n = TokenKind) (fg_nodes (sample_graph None)) \<noteq> []" by auto
  then show ?thesis by (auto simp: filter_empty_conv)
qed

lemma sample_link: "\<exists>l \<in> set (fg_links (sample_graph None)). fl_source l = sample_token"
proof -
  have "sum_list (map fl_value (filter (\<lambda>l. fl_source l = sample_token) (fg_links (sample_graph None)))) = 7"
    using graph_link_sum [OF sample_graph_def sample_plain refl, of "\<lambda>i k. i = sample_token" None]
    unfolding sample_stages sample_paths
    by (simp add: flowPathForStages_def path_links_def amount_of_def metricValue_def rowMetrics_def sample_defs
        node_builder_defs numberValue_def opt_or_def text_or_def kind_prefix_def code_units_def sample_token_def Let_def)
  then have "filter (\<lambda>l. fl_source l = sample_token) (fg_links (sample_graph None)) \<noteq> []" by auto
  then show ?thesis by (auto simp: filter_empty_conv)
qed

lemma sample_option:
  "\<exists>opt \<in> set (buildNodeFilterOptions sample_compare (\<lambda>_. []) (\<lambda>_. []) sample_rows QuotaMetric UserRole None None None None).
     no_value opt = sample_token"
  by (simp add: buildNodeFilterOptions_def sample_stages option_totals_def filterRowsByNodes_def selectedNodeFiltersExceptKind_def
      normalizeSelectedNodeFilters_def upsert_def sample_defs node_builder_defs numberValue_def opt_or_def text_or_def kind_prefix_def
      code_units_def sample_token_def Let_def)

theorem flow_conserved_witness:
  "\<exists>n. n \<in> set (fg_nodes (sample_graph None)) \<and> fn_id n = sample_token
    \<and> sum_list (map fl_value (filter (\<lambda>l. fl_source l = sample_token) (fg_links (sample_graph None)))) = fn_value n"
proof -
  obtain n where n: "n \<in> set (fg_nodes (sample_graph None))" "fn_id n = sample_token" "fn_kind n = TokenKind" using sample_node by blast
  then show ?thesis using flow_conserved [OF sample_graph_def refl sample_plain n(1)] by (auto simp: sample_stages)
qed

theorem flow_columns_add_up_witness:
  "sum_list (map fn_value (filter (\<lambda>n. fn_kind n = ModelKind) (fg_nodes (sample_graph (Some 1))))) = 7"
  using flow_columns_add_up [OF sample_graph_def, of ModelKind "Some 1"]
  by (simp add: sample_stages hides_rows_def sample_defs summary_sum metricValue_def rowMetrics_def numberValue_def opt_or_def)

theorem flow_mask_hides_names_witness:
  "\<exists>n l. n \<in> set (fg_nodes (sample_graph None)) \<and> fn_id n = sample_token \<and> fn_label n \<in> {[], FLOW_MASK_TEXT}
    \<and> l \<in> set (fg_links (sample_graph None)) \<and> fl_source l = sample_token \<and> fl_sourceLabel l \<in> {[], FLOW_MASK_TEXT}"
proof -
  obtain n where n: "n \<in> set (fg_nodes (sample_graph None))" "fn_id n = sample_token" "fn_kind n = TokenKind" using sample_node by blast
  obtain l where l: "l \<in> set (fg_links (sample_graph None))" "fl_source l = sample_token" using sample_link by blast
  have "fn_id n \<notin> OTHER_FLOW_NODE_IDS ` set FLOW_NODE_KINDS"
    by (simp add: n sample_token_def OTHER_FLOW_NODE_IDS_def FLOW_NODE_KINDS_def kind_prefix_def code_units_def)
  then show ?thesis using flow_mask_hides_names [OF sample_graph_def _ n(1) _ _ l(1)] n l
    by (auto simp: sample_defs SENSITIVE_FLOW_KINDS_def)
qed

theorem flow_node_limit_witness:
  "length (filter (\<lambda>n. fn_kind n = ModelKind) (fg_nodes (sample_graph (Some 1)))) \<le> 2"
  using flow_node_limit [OF sample_graph_def, of "Some 1" 1 ModelKind] by (simp add: normalizeTopNodeLimit_def sample_defs)

theorem flow_options_lead_to_rows_witness:
  "\<exists>opt :: FlowNodeFilterOption. no_value opt = sample_token \<and>
    filterRowsByNodes sample_rows (Some [\<lparr>nf_kind = no_kind opt, nf_id = no_value opt\<rparr>]) (resolveVisibleStages UserRole None) None \<noteq> []"
proof -
  obtain opt where opt: "no_value opt = sample_token"
    "opt \<in> set (buildNodeFilterOptions sample_compare (\<lambda>_. []) (\<lambda>_. []) sample_rows QuotaMetric UserRole None None None None)"
    using sample_option by blast
  then show ?thesis using flow_options_lead_to_rows [OF opt(2)] unfolding opt_or_def option.case filter.simps append_Nil by blast
qed

end
