(* ===== verification/Difficulty.thy ===== *)
theory Difficulty
  imports JsonPrint "HOL-Library.Word"
begin

unbundle bit_operations_syntax

text \<open>
  The difficulty and quality shown on the work timeline of the usage logs, \<open>features/usage-logs/lib/explicit-difficulty.ts\<close>,
  with the item and catalogue types of \<open>features/usage-logs/api.ts\<close>.  A request whose model the user chose has no judged
  difficulty: an estimate is made from a base value of the model and two offsets hashed from the session, or a difficulty
  known for the same segment or session is used again; a quality follows from the curve of the model.

  Items and catalogues come from JSON, whose numbers are finite, so that the tests with \<open>Number.isFinite\<close> hold.  The hash
  works on 32-bit integers.  Text is below code unit 256; members that an object inherits (\<open>constructor\<close>) are not
  part of the tables.  The records have the members that the modelled functions read.  \<open>localeCompare\<close> is a parameter.
\<close>

subsection \<open>Items and catalogues, api.ts\<close>

datatype PointType = JudgePoint | ExecutionPoint

datatype BillingStatus = Finalized | Unsettled | Pending

datatype DifficultySource = RecordedSource | ReusedJudge | ReusedSegment | ReusedSession | ExplicitEstimate

record ACUTimelineQualityReference =
  qr_modelId :: string
  qr_displayName :: string
  qr_estimatedQuality :: rat
  qr_officialCostCny :: rat

record ACUTimelineQualityComparison =
  qc_estimatedQuality :: "rat option"
  qc_qualityDifficulty :: "rat option"
  qc_modelChargeCny :: "rat option"
  qc_officialModelCostCny :: "rat option"
  qc_sameBudget :: "ACUTimelineQualityReference option"
  qc_mostExpensive :: "ACUTimelineQualityReference option"
  qc_qualitySource :: "string option"
  qc_referenceCatalogVersion :: "string option"

record ACUWorkTimelineItem =
  ti_pointId :: string
  ti_pointType :: PointType
  ti_timestamp :: rat
  ti_userId :: "rat option"
  ti_logicalRequestId :: string
  ti_sessionId :: string
  ti_taskId :: string
  ti_segmentId :: string
  ti_judgeCalled :: bool
  ti_judgeReused :: bool
  ti_judgeModel :: string
  ti_difficulty :: rat
  ti_difficultyRecorded :: bool
  ti_difficultySource :: "DifficultySource option"
  ti_requestedModel :: string
  ti_actualModel :: string
  ti_provider :: string
  ti_channel :: string
  ti_protocol :: "string option"
  ti_status :: string
  ti_billingStatus :: BillingStatus
  ti_firstModelEventLatencyMs :: rat
  ti_userChargeCny :: "rat option"
  ti_judgeProtocol :: "string option"
  ti_judgeReasoningEffort :: "string option"
  ti_workPhase :: string
  ti_qualityComparison :: "ACUTimelineQualityComparison option"
  ti_judgeStatus :: string
  ti_judgeResultSource :: string
  ti_judgeFirstAttemptSucceeded :: bool
  ti_judgeFirstAttemptRecorded :: bool
  ti_judgeFallbackRecorded :: bool
  ti_judgeSameModelFailoverUsed :: bool
  ti_selectedDisplayName :: string
  ti_selectedExecutionPresetId :: "string option"
  ti_clientRequestedReasoningEffort :: "string option"
  ti_presetReasoningEffort :: "string option"
  ti_resolvedReasoningEffort :: "string option"
  ti_inputTokens :: rat
  ti_cachedInputTokens :: rat
  ti_outputTokens :: rat

record ACUTokenReferencePrices =
  tp_inputUsdPerMillion :: rat
  tp_outputUsdPerMillion :: rat
  tp_cachedInputUsdPerMillion :: "rat option"

record ContextTiers =
  ct_thresholdTokens :: rat
  ct_standard :: ACUTokenReferencePrices
  ct_longContext :: ACUTokenReferencePrices

record ReferencePricing =
  rp_inputUsdPerMillion :: "rat option"
  rp_outputUsdPerMillion :: "rat option"
  rp_cachedInputUsdPerMillion :: "rat option"
  rp_contextTiers :: "ContextTiers option"

datatype CapabilityTier = LUNA | TERRA | SOL | FRONTIER

record CurvePoint =
  cp_difficultyScore :: rat
  cp_estimatedQuality :: rat

record CatalogModel =
  cm_modelId :: string
  cm_displayName :: "string option"
  cm_capabilityTier :: CapabilityTier
  cm_protocols :: "string list"
  cm_curve :: "CurvePoint list option"
  cm_referencePricing :: "ReferencePricing option"

record ACURoutingCatalog =
  rc_catalogVersion :: "string option"
  rc_models :: "CatalogModel list"

text \<open>An item with what is added for display.\<close>

record ACUWorkTimelineDisplayItem = ACUWorkTimelineItem +
  di_displayDifficulty :: "rat option"
  di_displayDifficultyInferred :: bool
  di_displayDifficultySource :: "DifficultySource option"
  di_displayDifficultyWindow :: "int option"
  di_displayQuality :: "rat option"
  di_displayQualityInferred :: bool
  di_displayQualityComparison :: "ACUTimelineQualityComparison option"

text \<open>An item seen as one for display: nothing is added yet.\<close>

definition as_display :: "ACUWorkTimelineItem \<Rightarrow> ACUWorkTimelineDisplayItem" where
  "as_display item = ACUWorkTimelineItem.extend item
     (ACUWorkTimelineDisplayItem.fields None False None None None False None)"

subsection \<open>Base difficulty of a model\<close>

definition EXPLICIT_DIFFICULTY_WINDOW_SIZE :: int where
  "EXPLICIT_DIFFICULTY_WINDOW_SIZE = 16"

definition EXPLICIT_DIFFICULTY_OFFSET_LIMIT :: int where
  "EXPLICIT_DIFFICULTY_OFFSET_LIMIT = 10"

definition EXPLICIT_DIFFICULTY_MIN :: rat where
  "EXPLICIT_DIFFICULTY_MIN = 5"

definition EXPLICIT_DIFFICULTY_MAX :: rat where
  "EXPLICIT_DIFFICULTY_MAX = 95"

definition EXPLICIT_QUALITY_TARGET :: rat where
  "EXPLICIT_QUALITY_TARGET = 8 / 10"

definition MODEL_DEFAULT_DIFFICULTY :: "(string \<times> rat) list" where
  "MODEL_DEFAULT_DIFFICULTY =
    [(''claude-fable-5-1'', 94), (''fable-5-1'', 94), (''claude-fable-5'', 92), (''fable-5'', 92), (''claude-opus-5'', 88),
     (''opus-5'', 88), (''claude-opus-5-5'', 90), (''opus-5-5'', 90), (''claude-opus-4-8'', 84), (''claude-opus-4.8'', 84),
     (''opus-4-8'', 84), (''opus-4.8'', 84), (''claude-opus-4-7'', 82), (''claude-opus-4.7'', 82),
     (''claude-opus-4-6'', 80), (''claude-opus-4.6'', 80), (''claude-sonnet-5'', 74), (''sonnet-5'', 74),
     (''claude-sonnet-4-6'', 66), (''claude-sonnet-4.6'', 66), (''claude-haiku-4-5'', 34), (''claude-haiku-4.5'', 34),
     (''gpt-5.4-mini'', 25), (''gpt-5.5'', 34), (''gpt-5.6-luna'', 42), (''gpt-6-luna'', 50), (''gpt-5.6-terra'', 58),
     (''gpt-5.6-sol'', 74), (''gpt-6-astra'', 86), (''gpt-6-sol'', 72), (''gpt-6.1-sol'', 72), (''deepseek-v4-flash'', 38),
     (''deepseek-v4-pro'', 50), (''deepseek-v4-flash-vision-exp'', 38), (''glm-5.1'', 40), (''glm-5.2'', 42),
     (''glm-5.3-flash'', 36), (''glm-5.3'', 44), (''kimi-k3'', 46), (''kimi-k2.6'', 44), (''kimi-k2.7-code'', 50),
     (''grok-4.6'', 48), (''hy3'', 35), (''hy4-preview'', 42), (''longcat-2.0'', 38), (''mimo-v2.5'', 42),
     (''mimo-v2.5-pro'', 50), (''mimo-v2.6-flash'', 36), (''mimo-v2.6-pro'', 48), (''minimax-m2.7'', 45),
     (''minimax-m3'', 50), (''muse-spark-1.2-contributor'', 44), (''qwen3.6-plus'', 50), (''qwen3.7-max'', 54),
     (''qwen3.7-plus'', 50), (''qwen3.8-flash'', 38), (''qwen3.8-max'', 54), (''gemini-2.5-flash'', 35),
     (''gemini-3.5-flash'', 42)]"

text \<open>\<open>MODEL_TIER_DIFFICULTY.mid\<close>, the only entry that is read.\<close>

definition MODEL_TIER_DIFFICULTY_mid :: rat where
  "MODEL_TIER_DIFFICULTY_mid = 42"

definition WORK_PHASE_DIFFICULTY_OFFSET :: "(string \<times> rat) list" where
  "WORK_PHASE_DIFFICULTY_OFFSET =
    [(''inspection'', - 8), (''general'', 0), (''planning'', 8), (''implementation'', 3), (''verification'', 0), (''recovery'', 10)]"

definition normalize_text :: "string option \<Rightarrow> string" where
  "normalize_text value = to_lower (trim (opt_or value []))"

definition stableHash :: "string \<Rightarrow> 32 word" where
  "stableHash value = foldl (\<lambda>hash c. (hash XOR of_nat (of_char c)) * 16777619) 2166136261 value"

definition deterministicOffset :: "string \<Rightarrow> int" where
  "deterministicOffset seed =
     (let span = EXPLICIT_DIFFICULTY_OFFSET_LIMIT * 2 + 1 in uint (stableHash seed) mod span - EXPLICIT_DIFFICULTY_OFFSET_LIMIT)"

definition math_round :: "rat \<Rightarrow> int" where
  "math_round x = \<lfloor>x + 1 / 2\<rfloor>"

definition clampDifficulty :: "rat \<Rightarrow> rat" where
  "clampDifficulty value = min EXPLICIT_DIFFICULTY_MAX (max EXPLICIT_DIFFICULTY_MIN (of_int (math_round value)))"

definition modelIdentifiers :: "('a) ACUWorkTimelineItem_scheme \<Rightarrow> string list" where
  "modelIdentifiers item =
     filter (\<lambda>s. s \<noteq> [])
       (map normalize_text
         [Some (ti_requestedModel item), Some (ti_actualModel item), Some (ti_selectedDisplayName item),
          ti_selectedExecutionPresetId item, ti_presetReasoningEffort item, ti_resolvedReasoningEffort item])"

definition hasModelIdentifier :: "string \<Rightarrow> string \<Rightarrow> bool" where
  "hasModelIdentifier identifier modelId \<longleftrightarrow>
     identifier = modelId \<or> startsWith identifier (modelId @ ''-'') \<or> startsWith identifier (modelId @ ''@'')
     \<or> startsWith identifier (modelId @ '':'') \<or> js_includes identifier (''/'' @ modelId)"

definition catalogModelForItem :: "('a) ACUWorkTimelineItem_scheme \<Rightarrow> ACURoutingCatalog \<Rightarrow> CatalogModel option" where
  "catalogModelForItem item catalog =
     List.find (\<lambda>model. list_ex (\<lambda>identifier. hasModelIdentifier identifier (cm_modelId model)) (modelIdentifiers item)) (rc_models catalog)"

definition tier_difficulty :: "CapabilityTier \<Rightarrow> rat" where
  "tier_difficulty tier = (case tier of LUNA \<Rightarrow> 42 | TERRA \<Rightarrow> 58 | SOL \<Rightarrow> 74 | FRONTIER \<Rightarrow> 84)"

definition catalogTierDifficulty :: "('a) ACUWorkTimelineItem_scheme \<Rightarrow> ACURoutingCatalog option \<Rightarrow> rat option" where
  "catalogTierDifficulty item catalog =
     (case catalog of None \<Rightarrow> None
      | Some c \<Rightarrow> map_option (\<lambda>model. tier_difficulty (cm_capabilityTier model)) (catalogModelForItem item c))"

subsection \<open>Curves\<close>

definition curve_points :: "CurvePoint list \<Rightarrow> CurvePoint list" where
  "curve_points curve = js_sort (\<lambda>left right. cp_difficultyScore left - cp_difficultyScore right) curve"

text \<open>The loop over neighbouring points of \<open>difficultyAtQualityTarget\<close>.\<close>

fun target_between :: "CurvePoint list \<Rightarrow> rat option" where
  "target_between (left # right # points) =
     (if cp_estimatedQuality left < EXPLICIT_QUALITY_TARGET \<or> cp_estimatedQuality right > EXPLICIT_QUALITY_TARGET
      then target_between (right # points)
      else
        (let qualitySpan = cp_estimatedQuality left - cp_estimatedQuality right;
             difficultySpan = cp_difficultyScore right - cp_difficultyScore left in
         if qualitySpan \<le> 0 \<or> difficultySpan \<le> 0 then None
         else Some (cp_difficultyScore left + (cp_estimatedQuality left - EXPLICIT_QUALITY_TARGET) / qualitySpan * difficultySpan)))"
| "target_between _ = None"

definition difficultyAtQualityTarget :: "CurvePoint list \<Rightarrow> rat option" where
  "difficultyAtQualityTarget curve =
     (let points = curve_points curve in
      if points = [] then None
      else if cp_estimatedQuality (hd points) \<le> EXPLICIT_QUALITY_TARGET then Some (cp_difficultyScore (hd points))
      else if cp_estimatedQuality (last points) \<ge> EXPLICIT_QUALITY_TARGET then Some (cp_difficultyScore (last points))
      else target_between points)"

definition modelDefaultDifficulty :: "('a) ACUWorkTimelineItem_scheme \<Rightarrow> ACURoutingCatalog option \<Rightarrow> rat" where
  "modelDefaultDifficulty item catalog =
     (let identifiers = modelIdentifiers item;
          model = Option.bind catalog (catalogModelForItem item);
          curveDifficulty = Option.bind (Option.bind model cm_curve) difficultyAtQualityTarget in
      case curveDifficulty of
        Some d \<Rightarrow> d
      | None \<Rightarrow>
          (case List.find (\<lambda>(modelId, _). list_ex (\<lambda>identifier. hasModelIdentifier identifier modelId) identifiers)
                  MODEL_DEFAULT_DIFFICULTY of
             Some (_, difficulty) \<Rightarrow> difficulty
           | None \<Rightarrow> opt_or (catalogTierDifficulty item catalog) MODEL_TIER_DIFFICULTY_mid))"

definition workPhaseDifficultyOffset :: "string option \<Rightarrow> rat" where
  "workPhaseDifficultyOffset workPhase = opt_or (map_of WORK_PHASE_DIFFICULTY_OFFSET (normalize_text workPhase)) 0"

text \<open>The loop over neighbouring points of \<open>interpolateCurveQuality\<close>.\<close>

fun quality_between :: "rat \<Rightarrow> CurvePoint list \<Rightarrow> rat option" where
  "quality_between difficulty (left # right # points) =
     (if difficulty > cp_difficultyScore right then quality_between difficulty (right # points)
      else
        (let span = cp_difficultyScore right - cp_difficultyScore left in
         if span \<le> 0 then None
         else
           (let fraction = (difficulty - cp_difficultyScore left) / span in
            Some ((cp_estimatedQuality left + fraction * (cp_estimatedQuality right - cp_estimatedQuality left)) * 100))))"
| "quality_between difficulty _ = None"

definition interpolateCurveQuality :: "rat \<Rightarrow> CurvePoint list \<Rightarrow> rat option" where
  "interpolateCurveQuality difficulty curve =
     (let points = curve_points curve in
      if points = [] then None
      else if difficulty \<le> cp_difficultyScore (hd points) then Some (cp_estimatedQuality (hd points) * 100)
      else if difficulty \<ge> cp_difficultyScore (last points) then Some (cp_estimatedQuality (last points) * 100)
      else quality_between difficulty points)"

definition officialModelCostUsd :: "('a) ACUWorkTimelineItem_scheme \<Rightarrow> CatalogModel \<Rightarrow> rat option" where
  "officialModelCostUsd item model =
     (case cm_referencePricing model of
        None \<Rightarrow> None
      | Some pricing \<Rightarrow>
          (case (rp_inputUsdPerMillion pricing, rp_outputUsdPerMillion pricing) of
             (Some pricing_input, Some pricing_output) \<Rightarrow>
               (let inputTokens = max 0 (ti_inputTokens item);
                    cachedTokens = min inputTokens (max 0 (ti_cachedInputTokens item));
                    outputTokens = max 0 (ti_outputTokens item);
                    contextPrices = map_option (\<lambda>tiers.
                      if inputTokens > ct_thresholdTokens tiers then ct_longContext tiers else ct_standard tiers) (rp_contextTiers pricing);
                    inputPrice = opt_or (map_option tp_inputUsdPerMillion contextPrices) pricing_input;
                    outputPrice = opt_or (map_option tp_outputUsdPerMillion contextPrices) pricing_output;
                    cachedPrice = opt_or (Option.bind contextPrices tp_cachedInputUsdPerMillion)
                      (opt_or (rp_cachedInputUsdPerMillion pricing) inputPrice) in
                Some (((inputTokens - cachedTokens) * inputPrice + cachedTokens * cachedPrice + outputTokens * outputPrice) / 1000000))
           | _ \<Rightarrow> None))"

subsection \<open>Estimated difficulty\<close>

definition timelineOrder ::
  "(string \<Rightarrow> string \<Rightarrow> rat) \<Rightarrow> ('a) ACUWorkTimelineItem_scheme \<Rightarrow> ('a) ACUWorkTimelineItem_scheme \<Rightarrow> rat" where
  "timelineOrder localeCompare left right =
     (if ti_timestamp left \<noteq> ti_timestamp right then ti_timestamp left - ti_timestamp right
      else if ti_logicalRequestId left \<noteq> ti_logicalRequestId right
      then localeCompare (ti_logicalRequestId left) (ti_logicalRequestId right)
      else localeCompare (ti_pointId left) (ti_pointId right))"

definition sessionKey :: "('a) ACUWorkTimelineItem_scheme \<Rightarrow> string" where
  "sessionKey item =
     (case ti_userId item of None \<Rightarrow> ''self'' | Some n \<Rightarrow> number_str n) @ '':'' @
     str_or (ti_sessionId item) (str_or (ti_taskId item) ''sessionless'')"

definition segmentKey :: "('a) ACUWorkTimelineItem_scheme \<Rightarrow> string" where
  "segmentKey item = sessionKey item @ '':'' @ str_or (ti_segmentId item) ''segmentless''"

definition isExplicitModel :: "string option \<Rightarrow> bool" where
  "isExplicitModel requestedModel =
     (let normalized = normalize_text requestedModel in
      normalized \<noteq> [] \<and> normalized \<noteq> ''acu-auto'' \<and> normalized \<noteq> ''acu-high'')"

definition isExplicitTimelineItem :: "('a) ACUWorkTimelineItem_scheme \<Rightarrow> bool" where
  "isExplicitTimelineItem item \<longleftrightarrow> ti_pointType item = ExecutionPoint \<and> isExplicitModel (Some (ti_requestedModel item))"

record ExplicitDifficultyEstimate =
  ed_difficulty :: rat
  ed_modelBase :: rat
  ed_sessionOffset :: int
  ed_windowOffset :: int
  ed_workPhaseOffset :: rat
  ed_windowIndex :: int

definition estimateExplicitDifficulty ::
  "('a) ACUWorkTimelineItem_scheme \<Rightarrow> rat \<Rightarrow> ACURoutingCatalog option \<Rightarrow> ExplicitDifficultyEstimate option" where
  "estimateExplicitDifficulty item explicitOrdinal catalog =
     (if \<not> isExplicitTimelineItem item \<or> explicitOrdinal \<noteq> of_int \<lfloor>explicitOrdinal\<rfloor> then None
      else
        (let safeOrdinal = max 0 explicitOrdinal;
             windowIndex = \<lfloor>safeOrdinal / of_int EXPLICIT_DIFFICULTY_WINDOW_SIZE\<rfloor>;
             key = sessionKey item;
             sessionOffset = deterministicOffset (''acu-explicit:v1:session:'' @ key);
             windowOffset = deterministicOffset (''acu-explicit:v1:window:'' @ key @ '':'' @ number_str (of_int windowIndex));
             workPhaseOffset = workPhaseDifficultyOffset (Some (ti_workPhase item));
             modelBase = modelDefaultDifficulty item catalog in
         Some \<lparr>ed_difficulty = clampDifficulty (modelBase + of_int sessionOffset + of_int windowOffset + workPhaseOffset),
               ed_modelBase = modelBase, ed_sessionOffset = sessionOffset, ed_windowOffset = windowOffset,
               ed_workPhaseOffset = workPhaseOffset, ed_windowIndex = windowIndex\<rparr>))"

text \<open>The maps that \<open>addExplicitDifficulty\<close> fills in the order of the timeline: the last known difficulty of a segment and
  of a session, and the position of an explicit request among those of its session.\<close>

definition known_difficulty :: "(ACUWorkTimelineItem \<Rightarrow> string) \<Rightarrow> ACUWorkTimelineItem list \<Rightarrow> string \<rightharpoonup> rat" where
  "known_difficulty key orderedItems =
     foldl (\<lambda>m item. if \<not> ti_difficultyRecorded item then m else m(key item \<mapsto> ti_difficulty item)) Map.empty orderedItems"

definition next_ordinal ::
  "(string \<rightharpoonup> nat) \<times> (string \<rightharpoonup> nat) \<Rightarrow> ACUWorkTimelineItem \<Rightarrow> (string \<rightharpoonup> nat) \<times> (string \<rightharpoonup> nat)" where
  "next_ordinal maps item =
     (case maps of (ordinalByPoint, nextOrdinalBySession) \<Rightarrow>
        if \<not> isExplicitTimelineItem item then maps
        else
          (let key = sessionKey item; ordinal = opt_or (nextOrdinalBySession key) 0 in
           (ordinalByPoint(ti_pointId item \<mapsto> ordinal), nextOrdinalBySession(key \<mapsto> ordinal + 1))))"

definition ordinals :: "ACUWorkTimelineItem list \<Rightarrow> string \<rightharpoonup> nat" where
  "ordinals orderedItems = fst (foldl next_ordinal (Map.empty, Map.empty) orderedItems)"

definition reuse_difficulty :: "(string \<rightharpoonup> rat) \<Rightarrow> (string \<rightharpoonup> rat) \<Rightarrow> ACUWorkTimelineItem \<Rightarrow> ACUWorkTimelineDisplayItem" where
  "reuse_difficulty knownDifficultyBySegment knownDifficultyBySession item =
     (if ti_pointType item \<noteq> ExecutionPoint then as_display item
      else
        (case (case knownDifficultyBySegment (segmentKey item) of Some d \<Rightarrow> Some d | None \<Rightarrow> knownDifficultyBySession (sessionKey item)) of
           None \<Rightarrow> as_display item
         | Some d \<Rightarrow> (as_display item)
             \<lparr>di_displayDifficulty := Some d, di_displayDifficultyInferred := True,
              di_displayDifficultySource :=
                Some (if knownDifficultyBySegment (segmentKey item) \<noteq> None then ReusedSegment else ReusedSession)\<rparr>))"

definition display_difficulty ::
  "ACURoutingCatalog option \<Rightarrow> ACUWorkTimelineItem list \<Rightarrow> ACUWorkTimelineItem \<Rightarrow> ACUWorkTimelineDisplayItem" where
  "display_difficulty catalog orderedItems item =
     (if ti_difficultyRecorded item then
        (if ti_difficultySource item = Some ReusedJudge \<or> ti_difficultySource item = Some ReusedSegment
         then (as_display item)\<lparr>di_displayDifficulty := Some (ti_difficulty item), di_displayDifficultyInferred := True,
                di_displayDifficultySource := ti_difficultySource item\<rparr>
         else as_display item)
      else
        (case Option.bind (ordinals orderedItems (ti_pointId item)) (\<lambda>n. estimateExplicitDifficulty item (of_nat n) catalog) of
           Some estimate \<Rightarrow> (as_display item)
             \<lparr>di_displayDifficulty := Some (ed_difficulty estimate), di_displayDifficultyInferred := True,
              di_displayDifficultySource := Some ExplicitEstimate, di_displayDifficultyWindow := Some (ed_windowIndex estimate)\<rparr>
         | None \<Rightarrow> reuse_difficulty (known_difficulty segmentKey orderedItems) (known_difficulty sessionKey orderedItems) item))"

definition addExplicitDifficulty ::
  "(string \<Rightarrow> string \<Rightarrow> rat) \<Rightarrow> ACUWorkTimelineItem list \<Rightarrow> bool \<Rightarrow> ACURoutingCatalog option \<Rightarrow> ACUWorkTimelineDisplayItem list" where
  "addExplicitDifficulty localeCompare items isAdmin catalog =
     (if \<not> isAdmin \<or> items = [] then map as_display items
      else map (display_difficulty catalog (js_sort (timelineOrder localeCompare) items)) items)"

subsection \<open>Estimated quality\<close>

definition reference_of ::
  "('a) ACUWorkTimelineItem_scheme \<Rightarrow> rat \<Rightarrow> rat \<Rightarrow> CatalogModel \<Rightarrow> ACUTimelineQualityReference option" where
  "reference_of item difficulty fx candidate =
     (case (interpolateCurveQuality difficulty (opt_or (cm_curve candidate) []), officialModelCostUsd item candidate) of
        (Some quality, Some costUsd) \<Rightarrow>
          Some \<lparr>qr_modelId = cm_modelId candidate, qr_displayName = opt_or (cm_displayName candidate) (cm_modelId candidate),
                qr_estimatedQuality = quality, qr_officialCostCny = costUsd * fx\<rparr>
      | _ \<Rightarrow> None)"

definition references ::
  "('a) ACUWorkTimelineItem_scheme \<Rightarrow> rat \<Rightarrow> rat \<Rightarrow> ACURoutingCatalog \<Rightarrow> ACUTimelineQualityReference list" where
  "references item difficulty fx catalog =
     List.map_filter (reference_of item difficulty fx)
       (filter (\<lambda>candidate. opt_or (ti_protocol item) [] \<in> set (cm_protocols candidate) \<and> cm_curve candidate \<noteq> None
          \<and> cm_referencePricing candidate \<noteq> None) (rc_models catalog))"

text \<open>\<open>a || b\<close> on numbers, and the first element of an array.\<close>

definition number_or :: "rat \<Rightarrow> rat \<Rightarrow> rat" where
  "number_or a b = (if a = 0 then b else a)"

definition first_of :: "'a list \<Rightarrow> 'a option" where
  "first_of xs = (case xs of [] \<Rightarrow> None | x # _ \<Rightarrow> Some x)"

definition option_first :: "'a option \<Rightarrow> 'a option \<Rightarrow> 'a option" where
  "option_first a b = (case a of Some x \<Rightarrow> Some x | None \<Rightarrow> b)"

definition best_quality_first :: "ACUTimelineQualityReference \<Rightarrow> ACUTimelineQualityReference \<Rightarrow> rat" where
  "best_quality_first left right =
     number_or (qr_estimatedQuality right - qr_estimatedQuality left) (qr_officialCostCny left - qr_officialCostCny right)"

definition cheapest_first :: "ACUTimelineQualityReference \<Rightarrow> ACUTimelineQualityReference \<Rightarrow> rat" where
  "cheapest_first left right =
     number_or (qr_officialCostCny left - qr_officialCostCny right) (qr_estimatedQuality right - qr_estimatedQuality left)"

definition dearest_first :: "ACUTimelineQualityReference \<Rightarrow> ACUTimelineQualityReference \<Rightarrow> rat" where
  "dearest_first left right =
     number_or (qr_officialCostCny right - qr_officialCostCny left) (qr_estimatedQuality right - qr_estimatedQuality left)"

definition same_budget :: "rat \<Rightarrow> ACUTimelineQualityReference list \<Rightarrow> ACUTimelineQualityReference option" where
  "same_budget modelCharge refs =
     (let pricedReferences = filter (\<lambda>reference. qr_officialCostCny reference > 0) refs in
      option_first
        (first_of (js_sort best_quality_first
          (filter (\<lambda>reference. qr_officialCostCny reference \<le> modelCharge + 1 / 10 ^ 10) pricedReferences)))
        (first_of (js_sort cheapest_first pricedReferences)))"

definition most_expensive :: "ACUTimelineQualityReference list \<Rightarrow> ACUTimelineQualityReference option" where
  "most_expensive refs =
     option_first (List.find (\<lambda>reference. qr_modelId reference = ''gpt-6-astra'') refs) (first_of (js_sort dearest_first refs))"

definition empty_comparison :: ACUTimelineQualityComparison where
  "empty_comparison = \<lparr>qc_estimatedQuality = None, qc_qualityDifficulty = None, qc_modelChargeCny = None, qc_officialModelCostCny = None,
     qc_sameBudget = None, qc_mostExpensive = None, qc_qualitySource = None, qc_referenceCatalogVersion = None\<rparr>"

text \<open>The exchange rate that the recorded official cost of the model implies.\<close>

definition implied_fx :: "rat option \<Rightarrow> rat option \<Rightarrow> rat option" where
  "implied_fx actualOfficialCostUsd actualOfficialCostCny =
     (case (actualOfficialCostUsd, actualOfficialCostCny) of
        (Some usd, Some cny) \<Rightarrow> if usd > 0 then Some (cny / usd) else None
      | _ \<Rightarrow> None)"

definition with_references ::
  "ACUWorkTimelineDisplayItem \<Rightarrow> rat \<Rightarrow> CatalogModel \<Rightarrow> ACURoutingCatalog \<Rightarrow> ACUTimelineQualityComparison \<Rightarrow> ACUTimelineQualityComparison" where
  "with_references item difficulty model catalog comparison =
     (case (qc_modelChargeCny comparison, implied_fx (officialModelCostUsd item model) (qc_officialModelCostCny comparison)) of
        (Some modelCharge, Some fx) \<Rightarrow>
          if fx > 0 then
            (let refs = references item difficulty fx catalog in
             comparison\<lparr>qc_sameBudget := option_first (same_budget modelCharge refs) (qc_sameBudget comparison),
               qc_mostExpensive := option_first (most_expensive refs) (qc_mostExpensive comparison)\<rparr>)
          else comparison
      | _ \<Rightarrow> comparison)"

definition display_quality :: "ACURoutingCatalog \<Rightarrow> ACUWorkTimelineDisplayItem \<Rightarrow> ACUWorkTimelineDisplayItem" where
  "display_quality catalog item =
     (case di_displayDifficulty item of
        None \<Rightarrow> item
      | Some difficulty \<Rightarrow>
          if \<not> di_displayDifficultyInferred item \<or> Option.bind (ti_qualityComparison item) qc_estimatedQuality \<noteq> None then item
          else
            (case catalogModelForItem item catalog of
               None \<Rightarrow> item
             | Some model \<Rightarrow>
                 (case Option.bind (cm_curve model) (interpolateCurveQuality difficulty) of
                    None \<Rightarrow> item
                  | Some estimatedQuality \<Rightarrow>
                      (let comparison = with_references item difficulty model catalog
                         ((opt_or (ti_qualityComparison item) empty_comparison)
                           \<lparr>qc_estimatedQuality := Some (min 100 (max 0 estimatedQuality)),
                            qc_qualitySource := Some (if di_displayDifficultySource item = Some ExplicitEstimate
                              then ''explicit_difficulty_model_curve'' else ''reused_difficulty_model_curve''),
                            qc_referenceCatalogVersion := rc_catalogVersion catalog\<rparr>) in
                       item\<lparr>di_displayQuality := qc_estimatedQuality comparison, di_displayQualityInferred := True,
                         di_displayQualityComparison := Some comparison\<rparr>))))"

definition addExplicitQuality ::
  "ACUWorkTimelineDisplayItem list \<Rightarrow> ACURoutingCatalog option \<Rightarrow> ACUWorkTimelineDisplayItem list" where
  "addExplicitQuality items catalog = (case catalog of None \<Rightarrow> items | Some c \<Rightarrow> map (display_quality c) items)"

subsection \<open>What is displayed\<close>

definition timelineDisplayDifficulty :: "ACUWorkTimelineDisplayItem \<Rightarrow> rat option" where
  "timelineDisplayDifficulty item =
     (if di_displayDifficultyInferred item \<and> di_displayDifficulty item \<noteq> None then di_displayDifficulty item
      else if ti_difficultyRecorded item then Some (ti_difficulty item)
      else None)"

definition timelineDisplayDifficultySource :: "ACUWorkTimelineDisplayItem \<Rightarrow> DifficultySource option" where
  "timelineDisplayDifficultySource item =
     option_first (di_displayDifficultySource item)
       (option_first (ti_difficultySource item) (if di_displayDifficultyInferred item then Some ExplicitEstimate else None))"

definition hasTimelineDisplayDifficulty :: "ACUWorkTimelineDisplayItem \<Rightarrow> bool" where
  "hasTimelineDisplayDifficulty item \<longleftrightarrow> timelineDisplayDifficulty item \<noteq> None"

end
