(* ===== verification/DifficultyProperties.thy ===== *)
theory DifficultyProperties
  imports Difficulty
begin

text \<open>
  Properties of the displayed difficulty and quality: the bounds of an estimate, the curve of a model as a falling
  function and its inverse at the quality target, the windows of a session, independence of the order in which items
  arrive, and the choice of the reference for the same budget.
\<close>

subsection \<open>Bounds\<close>

lemma offset_bounds: "\<bar>deterministicOffset seed\<bar> \<le> 10"
proof -
  have "0 \<le> uint (stableHash seed) mod 21" "uint (stableHash seed) mod 21 < 21" by simp_all
  then show ?thesis by (simp add: deterministicOffset_def EXPLICIT_DIFFICULTY_OFFSET_LIMIT_def abs_le_iff)
qed

lemma phase_offset_bounds: "- 8 \<le> workPhaseDifficultyOffset p" "workPhaseDifficultyOffset p \<le> 10"
  by (auto simp: workPhaseDifficultyOffset_def WORK_PHASE_DIFFICULTY_OFFSET_def opt_or_def split: option.splits if_splits)

lemma clamp_bounds:
  "clampDifficulty x \<in> \<int>" "5 \<le> clampDifficulty x" "clampDifficulty x \<le> 95"
  "5 \<le> b \<Longrightarrow> b \<le> 95 \<Longrightarrow> \<bar>x - b\<bar> \<le> e \<Longrightarrow> \<bar>clampDifficulty x - b\<bar> \<le> e + 1 / 2"
proof -
  have r: "of_int (math_round x) \<le> x + 1 / 2" "x - 1 / 2 < of_int (math_round x)"
    unfolding math_round_def by linarith+
  show "clampDifficulty x \<in> \<int>" "5 \<le> clampDifficulty x" "clampDifficulty x \<le> 95"
    by (simp_all add: clampDifficulty_def EXPLICIT_DIFFICULTY_MIN_def EXPLICIT_DIFFICULTY_MAX_def min_def max_def)
  assume "5 \<le> b" "b \<le> 95" "\<bar>x - b\<bar> \<le> e"
  then show "\<bar>clampDifficulty x - b\<bar> \<le> e + 1 / 2" using r
    by (auto simp: clampDifficulty_def EXPLICIT_DIFFICULTY_MIN_def EXPLICIT_DIFFICULTY_MAX_def min_def max_def abs_le_iff)
qed

text \<open>
  An estimated difficulty is an integer between 5 and 95, its two hashed offsets are at most 10, and from the base of the
  model, where that is within the bounds, it differs by at most 30 and a rounding.
\<close>

theorem difficulty_estimate_bounds:
  assumes "estimateExplicitDifficulty item ordinal catalog = Some e"
  shows "ed_difficulty e \<in> \<int> \<and> 5 \<le> ed_difficulty e \<and> ed_difficulty e \<le> 95
    \<and> \<bar>ed_sessionOffset e\<bar> \<le> 10 \<and> \<bar>ed_windowOffset e\<bar> \<le> 10 \<and> 0 \<le> ed_windowIndex e
    \<and> (5 \<le> ed_modelBase e \<and> ed_modelBase e \<le> 95 \<longrightarrow> \<bar>ed_difficulty e - ed_modelBase e\<bar> \<le> 30 + 1 / 2)"
proof -
  define s w p where "s = ed_sessionOffset e" and "w = ed_windowOffset e" and "p = ed_workPhaseOffset e"
  have d: "ed_difficulty e = clampDifficulty (ed_modelBase e + of_int s + of_int w + p)"
    and i: "0 \<le> ed_windowIndex e" "\<bar>s\<bar> \<le> 10" "\<bar>w\<bar> \<le> 10" "- 8 \<le> p" "p \<le> 10"
    using assms offset_bounds phase_offset_bounds
    by (auto simp: estimateExplicitDifficulty_def Let_def s_def w_def p_def EXPLICIT_DIFFICULTY_WINDOW_SIZE_def split: if_splits)
  have "(of_int \<bar>s\<bar> :: rat) \<le> 10" "(of_int \<bar>w\<bar> :: rat) \<le> 10" using i(2,3) by linarith+
  then have "\<bar>(ed_modelBase e + of_int s + of_int w + p) - ed_modelBase e\<bar> \<le> 30" using i(4,5) by (simp add: abs_le_iff)
  from clamp_bounds(4) [OF _ _ this] show ?thesis using clamp_bounds(1-3) i unfolding d s_def [symmetric] w_def [symmetric] by blast
qed

subsection \<open>Curves\<close>

interpretation curve_order: comparator "\<lambda>left right. cp_difficultyScore left - cp_difficultyScore right"
  by unfold_locales auto

text \<open>A curve falls when its points have different difficulties and a higher difficulty has a lower quality.\<close>

definition falling :: "CurvePoint list \<Rightarrow> bool" where
  "falling curve \<longleftrightarrow> distinct (map cp_difficultyScore curve)
     \<and> (\<forall>a \<in> set curve. \<forall>b \<in> set curve. cp_difficultyScore a < cp_difficultyScore b \<longrightarrow> cp_estimatedQuality b < cp_estimatedQuality a)"

abbreviation below :: "CurvePoint \<Rightarrow> CurvePoint \<Rightarrow> bool" where
  "below a b \<equiv> cp_difficultyScore a < cp_difficultyScore b \<and> cp_estimatedQuality b < cp_estimatedQuality a"

lemma sorted_below:
  assumes "\<forall>a \<in> set curve. \<forall>b \<in> set curve. cp_difficultyScore a < cp_difficultyScore b \<longrightarrow> cp_estimatedQuality b < cp_estimatedQuality a"
    and "sorted_wrt (\<lambda>a b. cp_difficultyScore a \<le> cp_difficultyScore b) pts" "distinct (map cp_difficultyScore pts)" "set pts \<subseteq> set curve"
  shows "sorted_wrt below pts"
  using assms(2-)
proof (induction pts)
  case (Cons a pts)
  have "below a x" if x: "x \<in> set pts" for x
  proof -
    have "cp_difficultyScore a \<noteq> cp_difficultyScore x" using Cons.prems(2) x by auto
    then have "cp_difficultyScore a < cp_difficultyScore x" using Cons.prems(1) x by (simp add: less_le)
    then show ?thesis using assms(1) Cons.prems(3) x by auto
  qed
  then show ?case using Cons by simp
qed simp

lemma falling_points:
  assumes "falling curve"
  shows "sorted_wrt below (curve_points curve)"
proof (rule sorted_below)
  show "sorted_wrt (\<lambda>a b. cp_difficultyScore a \<le> cp_difficultyScore b) (curve_points curve)"
    using curve_order.sorted_js_sort [of curve] by (simp add: curve_points_def)
  show "distinct (map cp_difficultyScore (curve_points curve))"
    using assms mset_eq_imp_distinct_iff [of "map cp_difficultyScore (curve_points curve)" "map cp_difficultyScore curve"]
    by (simp add: falling_def curve_points_def)
qed (use assms in \<open>auto simp: falling_def curve_points_def\<close>)

lemma below_last: "sorted_wrt below (p # pts) \<Longrightarrow> cp_estimatedQuality (last (p # pts)) \<le> cp_estimatedQuality p"
  by (induction pts arbitrary: p rule: rev_induct) auto

lemma segment_falls:
  fixes a b :: rat
  assumes "a < b" "y < x" "a \<le> d" "d \<le> d'" "d' \<le> b"
  shows "y \<le> x + (d' - a) / (b - a) * (y - x)" "x + (d' - a) / (b - a) * (y - x) \<le> x + (d - a) / (b - a) * (y - x)"
    "x + (d - a) / (b - a) * (y - x) \<le> x"
proof -
  define s t where "s = (d - a) / (b - a)" and "t = (d' - a) / (b - a)"
  have "0 \<le> s" "s \<le> t" "t \<le> 1" using assms by (simp_all add: s_def t_def divide_right_mono)
  then have "s * (x - y) \<le> t * (x - y)" "t * (x - y) \<le> 1 * (x - y)" "0 \<le> s * (x - y)"
    using assms(2) mult_right_mono [of s t "x - y"] mult_right_mono [of t 1 "x - y"] mult_nonneg_nonneg [of s "x - y"] by simp_all
  then show "y \<le> x + (d' - a) / (b - a) * (y - x)" "x + (d' - a) / (b - a) * (y - x) \<le> x + (d - a) / (b - a) * (y - x)"
    "x + (d - a) / (b - a) * (y - x) \<le> x"
    unfolding s_def [symmetric] t_def [symmetric] by (simp_all add: algebra_simps)
qed

definition on_segment :: "CurvePoint \<Rightarrow> CurvePoint \<Rightarrow> rat \<Rightarrow> rat" where
  "on_segment l r d = cp_estimatedQuality l
     + (d - cp_difficultyScore l) / (cp_difficultyScore r - cp_difficultyScore l) * (cp_estimatedQuality r - cp_estimatedQuality l)"

lemma quality_on_segment:
  "below l r \<Longrightarrow> d \<le> cp_difficultyScore r \<Longrightarrow> quality_between d (l # r # rest) = Some (on_segment l r d * 100)"
  by (simp add: on_segment_def Let_def)

lemma on_segment_falls:
  assumes "below l r" "cp_difficultyScore l \<le> d" "d \<le> d'" "d' \<le> cp_difficultyScore r"
  shows "cp_estimatedQuality r \<le> on_segment l r d'" "on_segment l r d' \<le> on_segment l r d" "on_segment l r d \<le> cp_estimatedQuality l"
  using segment_falls [of "cp_difficultyScore l" "cp_difficultyScore r" "cp_estimatedQuality r" "cp_estimatedQuality l" d d'] assms
  unfolding on_segment_def by blast+

text \<open>Between the first and the last point of a falling curve there is a quality, between those of the ends, and it falls.\<close>

lemma quality_between_range:
  assumes "sorted_wrt below pts" "2 \<le> length pts" "cp_difficultyScore (hd pts) \<le> d" "d \<le> cp_difficultyScore (last pts)"
  shows "\<exists>v. quality_between d pts = Some v \<and> cp_estimatedQuality (last pts) * 100 \<le> v \<and> v \<le> cp_estimatedQuality (hd pts) * 100"
  using assms
proof (induction d pts rule: quality_between.induct)
  case (1 d l r rest)
  have lr: "below l r" using "1.prems"(1) by simp
  have last: "cp_estimatedQuality (last (r # rest)) \<le> cp_estimatedQuality r" using "1.prems"(1) by (intro below_last) simp
  show ?case
  proof (cases "d > cp_difficultyScore r")
    case True
    then have "rest \<noteq> []" using "1.prems"(4) by auto
    then have "2 \<le> length (r # rest)" by (cases rest) auto
    then show ?thesis using "1.IH" [OF True] "1.prems" True lr by auto
  next
    case False
    then show ?thesis using quality_on_segment [OF lr, of d rest] on_segment_falls [OF lr, of d d] "1.prems"(3) last by auto
  qed
qed auto

lemma quality_between_antitone:
  assumes "sorted_wrt below pts" "cp_difficultyScore (hd pts) \<le> d" "d \<le> d'" "d' \<le> cp_difficultyScore (last pts)"
    and "quality_between d pts = Some v" "quality_between d' pts = Some v'"
  shows "v' \<le> v"
  using assms
proof (induction d pts rule: quality_between.induct)
  case (1 d l r rest)
  have lr: "below l r" using "1.prems"(1) by simp
  have l: "cp_difficultyScore l \<le> d" "d \<le> d'" using "1.prems"(2,3) by simp_all
  consider (left) "d' \<le> cp_difficultyScore r" | (right) "d > cp_difficultyScore r"
    | (across) "d \<le> cp_difficultyScore r" "d' > cp_difficultyScore r" by linarith
  then show ?case
  proof cases
    case left
    then show ?thesis using quality_on_segment [OF lr, of d rest] quality_on_segment [OF lr, of d' rest] on_segment_falls(2) [OF lr l]
        "1.prems"(5,6) l by simp
  next
    case right
    then show ?thesis using "1.IH" [OF right] "1.prems" by simp
  next
    case across
    then have ne: "rest \<noteq> []" using "1.prems"(4) by auto
    then have "2 \<le> length (r # rest)" by (cases rest) auto
    then have "v' \<le> cp_estimatedQuality r * 100"
      using quality_between_range [of "r # rest" d'] across "1.prems" by auto
    moreover have "cp_estimatedQuality r * 100 \<le> v"
      using quality_on_segment [OF lr across(1), of rest] on_segment_falls(1) [OF lr l(1) order_refl across(1)] "1.prems"(5) by simp
    ultimately show ?thesis by simp
  qed
qed auto

lemma curve_ends:
  assumes "falling curve" "curve \<noteq> []"
  shows "curve_points curve \<noteq> []" "hd (curve_points curve) \<in> set curve" "last (curve_points curve) \<in> set curve"
    "p \<in> set curve \<Longrightarrow> cp_estimatedQuality p \<le> cp_estimatedQuality (hd (curve_points curve))"
    "p \<in> set curve \<Longrightarrow> cp_estimatedQuality (last (curve_points curve)) \<le> cp_estimatedQuality p"
proof -
  have s: "set (curve_points curve) = set curve" by (simp add: curve_points_def)
  then show ne: "curve_points curve \<noteq> []" using assms(2) by auto
  show "hd (curve_points curve) \<in> set curve" "last (curve_points curve) \<in> set curve" using ne s hd_in_set last_in_set by blast+
  assume p: "p \<in> set curve"
  obtain xs ys where e: "curve_points curve = xs @ p # ys" using p s by (metis split_list)
  have w: "sorted_wrt below (xs @ p # ys)" using falling_points [OF assms(1)] by (simp add: e)
  show "cp_estimatedQuality p \<le> cp_estimatedQuality (hd (curve_points curve))" using w by (cases xs) (auto simp: e)
  have "cp_estimatedQuality (last (p # ys)) \<le> cp_estimatedQuality p" using w by (intro below_last) (simp add: sorted_wrt_append)
  then show "cp_estimatedQuality (last (curve_points curve)) \<le> cp_estimatedQuality p" by (simp add: e)
qed

lemma two_points: "pts \<noteq> [] \<Longrightarrow> cp_difficultyScore (hd pts) < cp_difficultyScore (last pts) \<Longrightarrow> 2 \<le> length pts"
  by (cases pts rule: list.exhaust [case_product list.exhaust]) (auto simp: Suc_le_eq)

text \<open>
  On a falling curve every difficulty has a quality, which lies between the qualities of the curve and does not rise with
  the difficulty.
\<close>

theorem curve_quality_falls:
  assumes "falling curve" "curve \<noteq> []" "d \<le> d'"
  shows "\<exists>v v'. interpolateCurveQuality d curve = Some v \<and> interpolateCurveQuality d' curve = Some v' \<and> v' \<le> v
    \<and> (\<exists>p \<in> set curve. v \<le> cp_estimatedQuality p * 100) \<and> (\<exists>p \<in> set curve. cp_estimatedQuality p * 100 \<le> v')"
proof -
  define pts where "pts = curve_points curve"
  define H L where "H = cp_estimatedQuality (hd pts) * 100" and "L = cp_estimatedQuality (last pts) * 100"
  have ne: "pts \<noteq> []" and w: "sorted_wrt below pts" using curve_ends(1) falling_points assms(1,2) by (simp_all add: pts_def)
  have LH: "L \<le> H" using curve_ends(3,4) assms by (auto simp: L_def H_def pts_def)
  have mid: "\<exists>v. interpolateCurveQuality x curve = Some v \<and> quality_between x pts = Some v \<and> L \<le> v \<and> v \<le> H"
    if "cp_difficultyScore (hd pts) < x" "x < cp_difficultyScore (last pts)" for x
    using quality_between_range [OF w two_points [OF ne], of x] that ne
    by (auto simp: interpolateCurveQuality_def pts_def L_def H_def Let_def)
  have lo: "interpolateCurveQuality x curve = Some H" if "x \<le> cp_difficultyScore (hd pts)" for x
    using that ne by (simp add: interpolateCurveQuality_def pts_def H_def Let_def)
  have hi: "interpolateCurveQuality x curve = Some L" if "cp_difficultyScore (last pts) \<le> x" "cp_difficultyScore (hd pts) < x" for x
    using that ne by (simp add: interpolateCurveQuality_def pts_def L_def Let_def)
  have all: "\<exists>v. interpolateCurveQuality x curve = Some v \<and> L \<le> v \<and> v \<le> H" for x
    using mid [of x] lo [of x] hi [of x] LH by (metis not_le order_refl)
  obtain v v' where v: "interpolateCurveQuality d curve = Some v" "L \<le> v" "v \<le> H"
    "interpolateCurveQuality d' curve = Some v'" "L \<le> v'" "v' \<le> H" using all by meson
  have "v' \<le> v"
  proof (cases "cp_difficultyScore (hd pts) < d \<and> d' < cp_difficultyScore (last pts)")
    case True
    then have "quality_between d pts = Some v" "quality_between d' pts = Some v'"
      using mid [of d] mid [of d'] v assms(3) by auto
    then show ?thesis using quality_between_antitone [OF w _ assms(3)] True by auto
  next
    case False
    then consider "d \<le> cp_difficultyScore (hd pts)" | "cp_difficultyScore (hd pts) < d'" "cp_difficultyScore (last pts) \<le> d'"
      using assms(3) by linarith
    then show ?thesis using lo [of d] hi [of d'] v by cases auto
  qed
  then show ?thesis using v curve_ends(2,3) [OF assms(1,2)] by (auto simp: L_def H_def pts_def)
qed

text \<open>The difficulty found for the target quality is one where the curve has that quality.\<close>

lemma target_on_segment:
  assumes "below l r" "T < cp_estimatedQuality l" "cp_estimatedQuality r \<le> T"
    and d: "d = cp_difficultyScore l + (cp_estimatedQuality l - T) / (cp_estimatedQuality l - cp_estimatedQuality r)
      * (cp_difficultyScore r - cp_difficultyScore l)"
  shows "cp_difficultyScore l < d" "d \<le> cp_difficultyScore r" "on_segment l r d = T"
    "cp_estimatedQuality r < T \<Longrightarrow> d < cp_difficultyScore r"
proof -
  define f where "f = (cp_estimatedQuality l - T) / (cp_estimatedQuality l - cp_estimatedQuality r)"
  define w where "w = cp_difficultyScore r - cp_difficultyScore l"
  have w: "0 < w" using assms(1) by (simp add: w_def)
  have f: "0 < f" "f \<le> 1" "f * (cp_estimatedQuality l - cp_estimatedQuality r) = cp_estimatedQuality l - T"
    using assms(1-3) by (auto simp: f_def)
  have dl: "d = cp_difficultyScore l + f * w" by (simp add: d f_def w_def)
  show "cp_difficultyScore l < d" using w f(1) by (simp add: dl)
  have r: "cp_difficultyScore r = cp_difficultyScore l + w" by (simp add: w_def)
  have "f * w \<le> 1 * w" using mult_right_mono [OF f(2), of w] w by simp
  then show "d \<le> cp_difficultyScore r" unfolding dl r by simp
  have "on_segment l r d = cp_estimatedQuality l + f * (cp_estimatedQuality r - cp_estimatedQuality l)"
    using w by (simp add: on_segment_def dl flip: w_def)
  also have "\<dots> = cp_estimatedQuality l - f * (cp_estimatedQuality l - cp_estimatedQuality r)" by (simp add: right_diff_distrib)
  finally show "on_segment l r d = T" by (simp add: f(3))
  assume "cp_estimatedQuality r < T"
  then have "f < 1" using assms(1) by (simp add: f_def divide_less_eq)
  then have "f * w < 1 * w" using w by (rule mult_strict_right_mono)
  then show "d < cp_difficultyScore r" unfolding dl r by simp
qed

lemma target_between_on_curve:
  assumes "sorted_wrt below pts" "EXPLICIT_QUALITY_TARGET < cp_estimatedQuality (hd pts)"
    and "cp_estimatedQuality (last pts) < EXPLICIT_QUALITY_TARGET" "pts \<noteq> []"
  shows "\<exists>d. target_between pts = Some d \<and> cp_difficultyScore (hd pts) < d \<and> d < cp_difficultyScore (last pts)
    \<and> quality_between d pts = Some (EXPLICIT_QUALITY_TARGET * 100)"
  using assms
proof (induction pts rule: target_between.induct)
  case (1 l r rest)
  have lr: "below l r" using "1.prems"(1) by simp
  have hl: "EXPLICIT_QUALITY_TARGET < cp_estimatedQuality l" using "1.prems"(2) by simp
  show ?case
  proof (cases "cp_estimatedQuality r > EXPLICIT_QUALITY_TARGET")
    case True
    have "\<exists>d. target_between (r # rest) = Some d \<and> cp_difficultyScore (hd (r # rest)) < d \<and> d < cp_difficultyScore (last (r # rest))
        \<and> quality_between d (r # rest) = Some (EXPLICIT_QUALITY_TARGET * 100)"
      by (rule "1.IH") (use True "1.prems" in simp_all)
    then obtain d where "target_between (r # rest) = Some d" "cp_difficultyScore r < d" "d < cp_difficultyScore (last (r # rest))"
      "quality_between d (r # rest) = Some (EXPLICIT_QUALITY_TARGET * 100)" by auto
    then show ?thesis using True lr by (intro exI [of _ d]) simp
  next
    case False
    define d where "d = cp_difficultyScore l + (cp_estimatedQuality l - EXPLICIT_QUALITY_TARGET) / (cp_estimatedQuality l - cp_estimatedQuality r)
      * (cp_difficultyScore r - cp_difficultyScore l)"
    have t: "cp_difficultyScore l < d" "d \<le> cp_difficultyScore r" "on_segment l r d = EXPLICIT_QUALITY_TARGET"
      using target_on_segment(1-3) [OF lr hl _ d_def] False by simp_all
    have last: "d < cp_difficultyScore (last (r # rest))"
    proof (cases rest rule: rev_cases)
      case Nil
      then show ?thesis using target_on_segment(4) [OF lr hl _ d_def] "1.prems"(3) by simp
    next
      case (snoc ys y)
      then have "cp_difficultyScore r < cp_difficultyScore y" using "1.prems"(1) by (simp add: sorted_wrt_append)
      then show ?thesis using t(2) snoc by simp
    qed
    have "target_between (l # r # rest) = Some d" using False hl lr by (simp add: d_def Let_def)
    then show ?thesis using quality_on_segment [OF lr t(2), of rest] t last by (intro exI [of _ d]) (simp del: quality_between.simps target_between.simps)
  qed
qed auto

text \<open>
  C15: The base difficulty taken from a falling curve that reaches the target quality of 0.8 is the difficulty at which the
  curve has exactly that quality: reading the quality there gives 80 percent.
\<close>

theorem curve_target_roundtrip:
  assumes "falling curve" and "a \<in> set curve" "EXPLICIT_QUALITY_TARGET \<le> cp_estimatedQuality a"
    and "b \<in> set curve" "cp_estimatedQuality b \<le> EXPLICIT_QUALITY_TARGET"
  shows "\<exists>d. difficultyAtQualityTarget curve = Some d \<and> interpolateCurveQuality d curve = Some 80"
proof -
  define T where "T = EXPLICIT_QUALITY_TARGET"
  define pts where "pts = curve_points curve"
  have T: "T * 100 = 80" by (simp add: T_def EXPLICIT_QUALITY_TARGET_def)
  have nc: "curve \<noteq> []" using assms(2) by auto
  have ne: "pts \<noteq> []" and hd: "T \<le> cp_estimatedQuality (hd pts)" and last: "cp_estimatedQuality (last pts) \<le> T"
    using curve_ends(1) [OF assms(1) nc] curve_ends(4) [OF assms(1) nc assms(2)] curve_ends(5) [OF assms(1) nc assms(4)] assms(3,5)
    by (auto simp: pts_def T_def)
  have w: "sorted_wrt below pts" using falling_points [OF assms(1)] by (simp add: pts_def)
  have dq: "difficultyAtQualityTarget curve =
      (if cp_estimatedQuality (hd pts) \<le> T then Some (cp_difficultyScore (hd pts))
       else if cp_estimatedQuality (last pts) \<ge> T then Some (cp_difficultyScore (last pts)) else target_between pts)"
    using ne by (simp add: difficultyAtQualityTarget_def pts_def T_def Let_def)
  have iq: "interpolateCurveQuality d curve =
      (if d \<le> cp_difficultyScore (hd pts) then Some (cp_estimatedQuality (hd pts) * 100)
       else if d \<ge> cp_difficultyScore (last pts) then Some (cp_estimatedQuality (last pts) * 100) else quality_between d pts)" for d
    using ne by (simp add: interpolateCurveQuality_def pts_def Let_def)
  consider (first) "cp_estimatedQuality (hd pts) = T" | (final) "cp_estimatedQuality (hd pts) > T" "cp_estimatedQuality (last pts) = T"
    | (inner) "T < cp_estimatedQuality (hd pts)" "cp_estimatedQuality (last pts) < T" using hd last by linarith
  then show ?thesis
  proof cases
    case first
    then show ?thesis using T by (simp add: dq iq)
  next
    case final
    then obtain p q ys where "pts = p # ys @ [q]" using ne by (cases pts; cases "tl pts" rule: rev_cases) auto
    then have "cp_difficultyScore (hd pts) < cp_difficultyScore (last pts)" using w by simp
    then show ?thesis using final T by (simp add: dq iq)
  next
    case inner
    then obtain d where d: "target_between pts = Some d" "cp_difficultyScore (hd pts) < d" "d < cp_difficultyScore (last pts)"
      "quality_between d pts = Some 80" using target_between_on_curve [OF w, folded T_def] ne T by auto
    then have "difficultyAtQualityTarget curve = Some d" "interpolateCurveQuality d curve = Some 80" using inner by (simp_all add: dq iq)
    then show ?thesis by blast
  qed
qed

subsection \<open>Order of the items\<close>

text \<open>A comparison of texts that orders them and tells them apart.\<close>

definition separating :: "(string \<Rightarrow> string \<Rightarrow> rat) \<Rightarrow> bool" where
  "separating lc \<longleftrightarrow> comparator lc \<and> (\<forall>a b. lc a b \<le> 0 \<and> lc b a \<le> 0 \<longrightarrow> a = b)"

lemma timeline_comparator:
  assumes "separating lc"
  shows "comparator (timelineOrder lc)"
proof
  note t = comparator.cmp_total [of lc] and tr = comparator.cmp_trans [of lc]
  have c: "comparator lc" and a: "\<And>a b. lc a b \<le> 0 \<Longrightarrow> lc b a \<le> 0 \<Longrightarrow> a = b" using assms by (auto simp: separating_def)
  show "timelineOrder lc x y \<le> 0 \<or> timelineOrder lc y x \<le> 0" for x y :: "'a ACUWorkTimelineItem_scheme"
    using t [OF c] by (auto simp: timelineOrder_def)
  show "timelineOrder lc x z \<le> 0" if xy: "timelineOrder lc x y \<le> 0" and yz: "timelineOrder lc y z \<le> 0"
    for x y z :: "'a ACUWorkTimelineItem_scheme"
  proof (cases "ti_timestamp x = ti_timestamp y \<and> ti_timestamp y = ti_timestamp z")
    case False
    have "ti_timestamp x \<le> ti_timestamp y" "ti_timestamp y \<le> ti_timestamp z"
      using xy yz by (auto simp: timelineOrder_def split: if_splits)
    then show ?thesis using False by (auto simp: timelineOrder_def)
  next
    case True
    have r: "lc u u \<le> 0" for u using t [OF c, of u u] by blast
    have le: "lc (ti_logicalRequestId x) (ti_logicalRequestId y) \<le> 0" "lc (ti_logicalRequestId y) (ti_logicalRequestId z) \<le> 0"
      using xy yz True r by (auto simp: timelineOrder_def split: if_splits)
    show ?thesis
    proof (cases "ti_logicalRequestId x = ti_logicalRequestId z")
      case eq: True
      then have "ti_logicalRequestId x = ti_logicalRequestId y" using a le by simp
      then show ?thesis using xy yz True eq tr [OF c, of "ti_pointId x" "ti_pointId y" "ti_pointId z"] by (simp add: timelineOrder_def)
    next
      case False
      then show ?thesis using True tr [OF c le] by (simp add: timelineOrder_def)
    qed
  qed
qed

lemma timeline_sort_canonical:
  assumes "separating lc" "mset items = mset items'" "distinct (map ti_pointId items)"
  shows "js_sort (timelineOrder lc) items = js_sort (timelineOrder lc) items'"
proof (rule comparator.js_sort_canonical [OF timeline_comparator [OF assms(1)] assms(2)])
  have a: "\<And>a b. lc a b \<le> 0 \<Longrightarrow> lc b a \<le> 0 \<Longrightarrow> a = b" using assms(1) by (auto simp: separating_def)
  fix x y assume xy: "x \<in> set items" "y \<in> set items" "timelineOrder lc x y \<le> 0" "timelineOrder lc y x \<le> 0"
  then have "ti_pointId x = ti_pointId y" using a by (auto simp: timelineOrder_def split: if_splits)
  then show "x = y" using assms(3) xy(1,2) by (auto simp: distinct_map dest: inj_onD)
qed

text \<open>
  C27: What is displayed for an item does not depend on the order in which the items arrive, when point identifiers are
  unique and the comparison of texts is a linear order.
\<close>

theorem difficulty_order_independent:
  assumes "separating lc" "mset items = mset items'" "distinct (map ti_pointId items)"
  shows "mset (addExplicitDifficulty lc items isAdmin catalog) = mset (addExplicitDifficulty lc items' isAdmin catalog)"
proof -
  have "items = [] \<longleftrightarrow> items' = []" using arg_cong [OF assms(2), of size] by auto
  then show ?thesis using timeline_sort_canonical [OF assms] assms(2) by (simp add: addExplicitDifficulty_def)
qed

subsection \<open>Windows of a session\<close>

text \<open>How many explicit requests of a session are in a list.\<close>

definition explicit_count :: "string \<Rightarrow> ACUWorkTimelineItem list \<Rightarrow> nat" where
  "explicit_count s xs = length (filter (\<lambda>x. isExplicitTimelineItem x \<and> sessionKey x = s) xs)"

lemma explicit_count_simps [simp]:
  "explicit_count s [] = 0"
  "explicit_count s (x # xs) = (if isExplicitTimelineItem x \<and> sessionKey x = s then 1 else 0) + explicit_count s xs"
  "explicit_count s (xs @ ys) = explicit_count s xs + explicit_count s ys"
  by (simp_all add: explicit_count_def)

lemma ordinals_fold:
  "opt_or (snd (foldl next_ordinal (o', n) xs) s) 0 = opt_or (n s) 0 + explicit_count s xs"
  "pid \<notin> ti_pointId ` set xs \<Longrightarrow> fst (foldl next_ordinal (o', n) xs) pid = o' pid"
  by (induction xs arbitrary: o' n) (auto simp: next_ordinal_def Let_def opt_or_def)

lemma ordinal_is_position:
  assumes "isExplicitTimelineItem x" "ti_pointId x \<notin> ti_pointId ` set post"
  shows "ordinals (pre @ x # post) (ti_pointId x) = Some (explicit_count (sessionKey x) pre)"
proof -
  obtain o' n where f: "foldl next_ordinal (Map.empty, Map.empty) pre = (o', n)" by fastforce
  then have "opt_or (n (sessionKey x)) 0 = explicit_count (sessionKey x) pre"
    using ordinals_fold(1) [of Map.empty Map.empty pre "sessionKey x"] by (simp add: opt_or_def)
  then show ?thesis using assms ordinals_fold(2) [OF assms(2)] by (simp add: ordinals_def f next_ordinal_def [of _ x] Let_def)
qed

lemma ordinal_found:
  assumes "x \<in> set xs" "isExplicitTimelineItem x"
  shows "ordinals xs (ti_pointId x) \<noteq> None"
proof -
  obtain pre y post where e: "xs = pre @ y # post" "ti_pointId y = ti_pointId x \<and> isExplicitTimelineItem y"
    "\<forall>z \<in> set post. \<not> (ti_pointId z = ti_pointId x \<and> isExplicitTimelineItem z)"
    using split_list_last_prop [of xs "\<lambda>y. ti_pointId y = ti_pointId x \<and> isExplicitTimelineItem y"] assms by blast
  have keep: "fst (foldl next_ordinal m zs) pid = fst m pid" if "\<forall>z \<in> set zs. \<not> (ti_pointId z = pid \<and> isExplicitTimelineItem z)" for m zs pid
    using that by (induction zs arbitrary: m) (auto simp: next_ordinal_def Let_def split: prod.splits)
  show ?thesis using keep [OF e(3)] e(1,2) by (auto simp: ordinals_def next_ordinal_def [of _ y] Let_def split: prod.splits)
qed

lemma ordinal_later:
  assumes "distinct (map ti_pointId (pre @ x # mid @ y # post))" "isExplicitTimelineItem x" "isExplicitTimelineItem y" "sessionKey x = sessionKey y"
  shows "ordinals (pre @ x # mid @ y # post) (ti_pointId x) \<noteq> ordinals (pre @ x # mid @ y # post) (ti_pointId y)"
proof -
  have "ti_pointId x \<notin> ti_pointId ` set (mid @ y # post)" "ti_pointId y \<notin> ti_pointId ` set post" using assms(1) by auto
  then show ?thesis using ordinal_is_position [of x "mid @ y # post" pre] ordinal_is_position [of y post "pre @ x # mid"] assms(2-) by simp
qed

lemma ordinals_differ:
  assumes "distinct (map ti_pointId xs)" "x \<in> set xs" "y \<in> set xs" "isExplicitTimelineItem x" "isExplicitTimelineItem y"
    and "sessionKey x = sessionKey y" "x \<noteq> y"
  shows "ordinals xs (ti_pointId x) \<noteq> ordinals xs (ti_pointId y)"
proof -
  obtain pre post where e: "xs = pre @ x # post" using assms(2) by (meson split_list)
  then consider "y \<in> set post" | "y \<in> set pre" using assms(3,7) by auto
  then show ?thesis
  proof cases
    case 1
    then obtain a b where "post = a @ y # b" by (meson split_list)
    then show ?thesis using ordinal_later [of pre x a y b] assms e by simp
  next
    case 2
    then obtain a b where "pre = a @ y # b" by (meson split_list)
    then show ?thesis using ordinal_later [of a y b x post] assms e by simp
  qed
qed

lemma as_display_sel [simp]:
  "ti_pointId (as_display x) = ti_pointId x" "ti_userId (as_display x) = ti_userId x" "ti_sessionId (as_display x) = ti_sessionId x"
  "ti_taskId (as_display x) = ti_taskId x" "ti_difficultyRecorded (as_display x) = ti_difficultyRecorded x"
  "ti_difficulty (as_display x) = ti_difficulty x" "di_displayDifficulty (as_display x) = None"
  "di_displayDifficultyInferred (as_display x) = False" "di_displayDifficultyWindow (as_display x) = None"
  by (simp_all add: as_display_def ACUWorkTimelineItem.defs ACUWorkTimelineDisplayItem.defs)

lemma display_session: "sessionKey (display_difficulty catalog xs x) = sessionKey x"
  by (auto simp: sessionKey_def display_difficulty_def reuse_difficulty_def split: option.splits)

lemma display_window:
  assumes "di_displayDifficultyWindow (display_difficulty catalog xs x) = Some w"
  shows "isExplicitTimelineItem x" "\<exists>n. ordinals xs (ti_pointId x) = Some n \<and> w = int n div 16"
proof -
  obtain n e where n: "ordinals xs (ti_pointId x) = Some n" "estimateExplicitDifficulty x (of_nat n) catalog = Some e" "w = ed_windowIndex e"
    using assms by (auto simp: display_difficulty_def reuse_difficulty_def bind_eq_Some_conv split: if_splits option.splits)
  then show "isExplicitTimelineItem x" by (simp add: estimateExplicitDifficulty_def split: if_splits)
  have "w = \<lfloor>(of_nat n :: rat) / 16\<rfloor>"
    using n(2,3) by (auto simp: estimateExplicitDifficulty_def EXPLICIT_DIFFICULTY_WINDOW_SIZE_def Let_def split: if_splits)
  also have "\<dots> = int n div 16" using floor_divide_of_int_eq [of "int n" 16, where ?'a = rat] by simp
  finally show "\<exists>n. ordinals xs (ti_pointId x) = Some n \<and> w = int n div 16" using n(1) by blast
qed

text \<open>
  C16: A window of a session holds at most 16 requests: among items with distinct point identifiers, at most that many of one session
  are displayed with the same window, and so with the same window offset.
\<close>

theorem difficulty_windows:
  assumes "distinct (map ti_pointId items)"
  shows "length (filter (\<lambda>d. sessionKey d = s \<and> di_displayDifficultyWindow d = Some w) (addExplicitDifficulty lc items isAdmin catalog)) \<le> 16"
proof (cases "isAdmin \<and> items \<noteq> []")
  case False
  have "filter (\<lambda>d. sessionKey d = s \<and> di_displayDifficultyWindow d = Some w) (map as_display items) = []" by (auto simp: filter_empty_conv)
  then show ?thesis using False by (auto simp: addExplicitDifficulty_def)
next
  case True
  define xs where "xs = js_sort (timelineOrder lc) items"
  define X where "X = filter (\<lambda>x. sessionKey x = s \<and> di_displayDifficultyWindow (display_difficulty catalog xs x) = Some w) items"
  define f where "f = (\<lambda>x :: ACUWorkTimelineItem. int (the (ordinals xs (ti_pointId x))))"
  have dx: "distinct (map ti_pointId xs)"
    using assms mset_eq_imp_distinct_iff [of "map ti_pointId xs" "map ti_pointId items"] by (simp add: xs_def)
  have x: "x \<in> set xs \<and> sessionKey x = s \<and> isExplicitTimelineItem x \<and> (\<exists>n. ordinals xs (ti_pointId x) = Some n \<and> w = int n div 16)"
    if "x \<in> set X" for x
    using that display_window [of catalog xs x w] by (auto simp: X_def xs_def)
  have "inj_on f (set X)"
  proof (rule inj_onI)
    fix a b assume ab: "a \<in> set X" "b \<in> set X" "f a = f b"
    obtain m n where "ordinals xs (ti_pointId a) = Some m" "ordinals xs (ti_pointId b) = Some n" using x [OF ab(1)] x [OF ab(2)] by blast
    then have "ordinals xs (ti_pointId a) = ordinals xs (ti_pointId b)" using ab(3) by (simp add: f_def)
    then show "a = b" using ordinals_differ [OF dx, of a b] x [OF ab(1)] x [OF ab(2)] by metis
  qed
  moreover have "f ` set X \<subseteq> {16 * w ..< 16 * w + 16}" using x by (fastforce simp: f_def)
  ultimately have "card (set X) \<le> 16" using card_inj_on_le [of f "set X" "{16 * w ..< 16 * w + 16}"] by simp
  moreover have "distinct X" using assms by (simp add: X_def distinct_map)
  ultimately have "length X \<le> 16" by (simp add: distinct_card)
  then show ?thesis using True by (simp add: addExplicitDifficulty_def X_def xs_def filter_map comp_def display_session)
qed

text \<open>
  A recorded difficulty is displayed as it is, whoever looks; and to an administrator every request with an explicit
  model is shown with some difficulty.
\<close>

theorem difficulty_displayed:
  assumes "i < length items"
  shows "(ti_difficultyRecorded (items ! i) \<longrightarrow>
      timelineDisplayDifficulty (addExplicitDifficulty lc items isAdmin catalog ! i) = Some (ti_difficulty (items ! i)))
    \<and> (isAdmin \<and> isExplicitTimelineItem (items ! i) \<longrightarrow>
      timelineDisplayDifficulty (addExplicitDifficulty lc items isAdmin catalog ! i) \<noteq> None)"
proof -
  define xs where "xs = js_sort (timelineOrder lc) items"
  have e: "addExplicitDifficulty lc items isAdmin catalog ! i =
      (if isAdmin then display_difficulty catalog xs (items ! i) else as_display (items ! i))"
    using assms by (auto simp: addExplicitDifficulty_def xs_def)
  have rec: "timelineDisplayDifficulty (display_difficulty catalog xs x) = Some (ti_difficulty x)" if "ti_difficultyRecorded x" for x
    using that by (simp add: display_difficulty_def timelineDisplayDifficulty_def)
  have "timelineDisplayDifficulty (display_difficulty catalog xs x) \<noteq> None" if x: "x \<in> set xs" "isExplicitTimelineItem x" for x
  proof (cases "ti_difficultyRecorded x")
    case False
    obtain n where n: "ordinals xs (ti_pointId x) = Some n" using ordinal_found [OF x] by blast
    have "estimateExplicitDifficulty x (of_nat n) catalog \<noteq> None" using x(2) by (simp add: estimateExplicitDifficulty_def Let_def)
    then show ?thesis using False n by (auto simp: display_difficulty_def timelineDisplayDifficulty_def)
  qed (simp add: rec)
  moreover have "items ! i \<in> set xs" using assms by (simp add: xs_def)
  moreover have "timelineDisplayDifficulty (as_display x) = (if ti_difficultyRecorded x then Some (ti_difficulty x) else None)" for x
    by (simp add: timelineDisplayDifficulty_def)
  ultimately show ?thesis using rec unfolding e by (simp split: if_split)
qed

subsection \<open>References\<close>

interpretation best_quality: comparator best_quality_first
  by unfold_locales (auto simp: best_quality_first_def number_or_def split: if_splits)

interpretation cheapest: comparator cheapest_first
  by unfold_locales (auto simp: cheapest_first_def number_or_def split: if_splits)

interpretation dearest: comparator dearest_first
  by unfold_locales (auto simp: dearest_first_def number_or_def split: if_splits)

lemma best_quality_le: "best_quality_first a b \<le> 0 \<Longrightarrow> qr_estimatedQuality b \<le> qr_estimatedQuality a"
  by (auto simp: best_quality_first_def number_or_def split: if_splits)

lemma cheapest_le: "cheapest_first a b \<le> 0 \<Longrightarrow> qr_officialCostCny a \<le> qr_officialCostCny b"
  by (auto simp: cheapest_first_def number_or_def split: if_splits)

context comparator
begin

lemma first_of_sorted:
  "first_of (js_sort cmp xs) = None \<longleftrightarrow> xs = []"
  "first_of (js_sort cmp xs) = Some x \<Longrightarrow> x \<in> set xs \<and> (\<forall>y \<in> set xs. cmp x y \<le> 0)"
proof -
  show "first_of (js_sort cmp xs) = None \<longleftrightarrow> xs = []"
    using length_js_sort [of cmp xs] by (cases "js_sort cmp xs") (auto simp: first_of_def)
  assume "first_of (js_sort cmp xs) = Some x"
  then obtain ys where "js_sort cmp xs = x # ys" by (cases "js_sort cmp xs") (auto simp: first_of_def)
  then show "x \<in> set xs \<and> (\<forall>y \<in> set xs. cmp x y \<le> 0)" using least_first by blast
qed

end

definition affordable :: "rat \<Rightarrow> ACUTimelineQualityReference \<Rightarrow> bool" where
  "affordable charge r \<longleftrightarrow> 0 < qr_officialCostCny r \<and> qr_officialCostCny r \<le> charge + 1 / 10 ^ 10"

lemma same_budget_paid:
  assumes "\<exists>r \<in> set refs. affordable charge r"
  obtains c where "same_budget charge refs = Some c" "c \<in> set refs" "affordable charge c"
    "\<And>r. r \<in> set refs \<Longrightarrow> affordable charge r \<Longrightarrow> qr_estimatedQuality r \<le> qr_estimatedQuality c"
proof -
  define A where "A = filter (\<lambda>r. qr_officialCostCny r \<le> charge + 1 / 10 ^ 10) (filter (\<lambda>r. 0 < qr_officialCostCny r) refs)"
  have A: "set A = {r \<in> set refs. affordable charge r}" by (auto simp: A_def affordable_def)
  then have "A \<noteq> []" using assms by auto
  then obtain c where c: "first_of (js_sort best_quality_first A) = Some c" using best_quality.first_of_sorted(1) [of A] by auto
  have "same_budget charge refs = Some c" using c by (simp add: same_budget_def A_def Let_def option_first_def)
  moreover have "c \<in> {r \<in> set refs. affordable charge r}"
    "\<And>r. r \<in> {r \<in> set refs. affordable charge r} \<Longrightarrow> qr_estimatedQuality r \<le> qr_estimatedQuality c"
    using best_quality.first_of_sorted(2) [OF c] best_quality_le unfolding A by blast+
  ultimately show thesis using that by simp
qed

lemma same_budget_unpaid:
  assumes "\<not> (\<exists>r \<in> set refs. affordable charge r)"
  shows "same_budget charge refs = first_of (js_sort cheapest_first (filter (\<lambda>r. 0 < qr_officialCostCny r) refs))"
proof -
  have "filter (\<lambda>r. qr_officialCostCny r \<le> charge + 1 / 10 ^ 10) (filter (\<lambda>r. 0 < qr_officialCostCny r) refs) = []"
    using assms by (auto simp: affordable_def filter_empty_conv)
  then show ?thesis by (simp add: same_budget_def Let_def option_first_def first_of_def js_sort_def)
qed

text \<open>
  C28: The reference for the same budget: among the models with a price it is one of the best quality that the charge would
  have paid for (up to the tolerance of \<open>10\<^sup>-\<^sup>1\<^sup>0\<close>); if the charge would have paid for none, it is a cheapest one; there is none
  only if no model has a price.
\<close>

theorem quality_same_budget:
  "case same_budget charge refs of
     None \<Rightarrow> (\<forall>r \<in> set refs. qr_officialCostCny r \<le> 0)
   | Some b \<Rightarrow> b \<in> set refs \<and> 0 < qr_officialCostCny b
       \<and> (if \<exists>r \<in> set refs. affordable charge r
          then affordable charge b \<and> (\<forall>r \<in> set refs. affordable charge r \<longrightarrow> qr_estimatedQuality r \<le> qr_estimatedQuality b)
          else (\<forall>r \<in> set refs. 0 < qr_officialCostCny r \<longrightarrow> qr_officialCostCny b \<le> qr_officialCostCny r))"
proof (cases "\<exists>r \<in> set refs. affordable charge r")
  case True
  obtain c where c: "same_budget charge refs = Some c" "c \<in> set refs" "affordable charge c"
    "\<And>r. r \<in> set refs \<Longrightarrow> affordable charge r \<Longrightarrow> qr_estimatedQuality r \<le> qr_estimatedQuality c"
    using same_budget_paid [OF True] by blast
  have "0 < qr_officialCostCny c" using c(3) by (simp add: affordable_def)
  then show ?thesis unfolding c(1) option.case if_P [OF True] using c(2-4) by blast
next
  case False
  define P where "P = filter (\<lambda>r. 0 < qr_officialCostCny r) refs"
  have e: "same_budget charge refs = first_of (js_sort cheapest_first P)" using same_budget_unpaid [OF False] by (simp add: P_def)
  show ?thesis
  proof (cases "same_budget charge refs")
    case None
    then have "P = []" using e cheapest.first_of_sorted(1) [of P] by simp
    then show ?thesis unfolding None option.case by (simp add: P_def filter_empty_conv not_less)
  next
    case (Some b)
    then have b: "b \<in> set P" "\<And>r. r \<in> set P \<Longrightarrow> qr_officialCostCny b \<le> qr_officialCostCny r"
      using cheapest.first_of_sorted(2) [of P b] cheapest_le unfolding e by blast+
    show ?thesis unfolding Some option.case if_not_P [OF False] using b by (simp add: P_def)
  qed
qed

subsection \<open>Concrete items\<close>

definition sample_item :: "string \<Rightarrow> rat \<Rightarrow> ACUWorkTimelineItem" where
  "sample_item pid time = \<lparr>ti_pointId = pid, ti_pointType = ExecutionPoint, ti_timestamp = time, ti_userId = None,
     ti_logicalRequestId = pid, ti_sessionId = ''s'', ti_taskId = [], ti_segmentId = [], ti_judgeCalled = False, ti_judgeReused = False, ti_judgeModel = [],
     ti_difficulty = 0, ti_difficultyRecorded = False, ti_difficultySource = None, ti_requestedModel = ''hy3'', ti_actualModel = ''hy3'',
     ti_provider = [], ti_channel = [], ti_protocol = None, ti_status = ''success'', ti_billingStatus = Finalized,
     ti_firstModelEventLatencyMs = 0, ti_userChargeCny = None, ti_judgeProtocol = None, ti_judgeReasoningEffort = None,
     ti_workPhase = ''general'', ti_qualityComparison = None, ti_judgeStatus = [], ti_judgeResultSource = [],
     ti_judgeFirstAttemptSucceeded = False, ti_judgeFirstAttemptRecorded = False, ti_judgeFallbackRecorded = False,
     ti_judgeSameModelFailoverUsed = False, ti_selectedDisplayName = [], ti_selectedExecutionPresetId = None, ti_clientRequestedReasoningEffort = None,
     ti_presetReasoningEffort = None, ti_resolvedReasoningEffort = None, ti_inputTokens = 0, ti_cachedInputTokens = 0, ti_outputTokens = 0\<rparr>"

definition sample_curve :: "CurvePoint list" where
  "sample_curve = [\<lparr>cp_difficultyScore = 90, cp_estimatedQuality = 1 / 2\<rparr>, \<lparr>cp_difficultyScore = 10, cp_estimatedQuality = 9 / 10\<rparr>]"

definition sample_reference :: "string \<Rightarrow> rat \<Rightarrow> rat \<Rightarrow> ACUTimelineQualityReference" where
  "sample_reference m quality cost = \<lparr>qr_modelId = m, qr_displayName = m, qr_estimatedQuality = quality, qr_officialCostCny = cost\<rparr>"

lemma sample_explicit: "isExplicitTimelineItem (sample_item pid time)"
  by (simp add: isExplicitTimelineItem_def isExplicitModel_def sample_item_def normalize_text_def opt_or_def trim_def trim_by_def
      is_ws_def to_lower_def lower_char_def Let_def)

lemma sample_falling: "falling sample_curve"
  by (simp add: falling_def sample_curve_def)

definition by_code_units :: "string \<Rightarrow> string \<Rightarrow> rat" where
  "by_code_units a b = of_int (code_compare a b)"

lemma by_code_units_separates: "separating by_code_units"
proof -
  have "comparator by_code_units"
    by unfold_locales (use code_order.cmp_total code_order.cmp_trans in \<open>auto simp: by_code_units_def\<close>)
  then show ?thesis by (auto simp: separating_def by_code_units_def dest: code_compare_antisym)
qed

theorem difficulty_estimate_bounds_witness:
  "\<exists>e. estimateExplicitDifficulty (sample_item ''p'' 1) 20 None = Some e \<and> 5 \<le> ed_difficulty e \<and> ed_difficulty e \<le> 95 \<and> 0 \<le> ed_windowIndex e"
proof -
  have "estimateExplicitDifficulty (sample_item ''p'' 1) 20 None \<noteq> None"
    using sample_explicit [of "''p''" 1] by (simp add: estimateExplicitDifficulty_def Let_def)
  then obtain e where "estimateExplicitDifficulty (sample_item ''p'' 1) 20 None = Some e" by auto
  then show ?thesis using difficulty_estimate_bounds by blast
qed

theorem curve_quality_falls_witness:
  "\<exists>v v'. interpolateCurveQuality 20 sample_curve = Some v \<and> interpolateCurveQuality 40 sample_curve = Some v' \<and> v' \<le> v"
  using curve_quality_falls [OF sample_falling, of 20 40] by (auto simp: sample_curve_def)

theorem curve_target_roundtrip_witness:
  "\<exists>d. difficultyAtQualityTarget sample_curve = Some d \<and> interpolateCurveQuality d sample_curve = Some 80"
  by (rule curve_target_roundtrip [OF sample_falling, of "\<lparr>cp_difficultyScore = 10, cp_estimatedQuality = 9 / 10\<rparr>"
        "\<lparr>cp_difficultyScore = 90, cp_estimatedQuality = 1 / 2\<rparr>"]) (simp_all add: sample_curve_def EXPLICIT_QUALITY_TARGET_def)

theorem difficulty_order_independent_witness:
  "mset (addExplicitDifficulty by_code_units [sample_item ''p'' 1, sample_item ''q'' 2] True None) =
   mset (addExplicitDifficulty by_code_units [sample_item ''q'' 2, sample_item ''p'' 1] True None)"
  by (rule difficulty_order_independent [OF by_code_units_separates]) (simp_all add: sample_item_def)

theorem difficulty_windows_witness:
  "length (filter (\<lambda>d. sessionKey d = ''self:s'' \<and> di_displayDifficultyWindow d = Some 0)
     (addExplicitDifficulty by_code_units (map (\<lambda>n. sample_item (replicate n CHR ''p'') (of_nat n)) [0..<40]) True None)) \<le> 16"
proof (rule difficulty_windows)
  have "inj_on (\<lambda>n. replicate n CHR ''p'') X" for X by (auto intro!: inj_onI dest: arg_cong [of _ _ length])
  then show "distinct (map ti_pointId (map (\<lambda>n. sample_item (replicate n CHR ''p'') (of_nat n)) [0..<40]))"
    by (simp add: sample_item_def comp_def distinct_map)
qed

theorem difficulty_displayed_witness:
  "timelineDisplayDifficulty (addExplicitDifficulty by_code_units [sample_item ''p'' 1] True None ! 0) \<noteq> None"
  using difficulty_displayed [of 0 "[sample_item ''p'' 1]" by_code_units True None] sample_explicit [of "''p''" 1] by simp

theorem quality_same_budget_witness:
  "\<exists>b. same_budget 3 [sample_reference ''a'' 70 2, sample_reference ''b'' 90 5] = Some b \<and> affordable 3 b"
proof -
  have "\<exists>r \<in> set [sample_reference ''a'' 70 2, sample_reference ''b'' 90 5]. affordable 3 r"
    by (simp add: sample_reference_def affordable_def)
  moreover have "\<not> (\<forall>r \<in> set [sample_reference ''a'' 70 2, sample_reference ''b'' 90 5]. qr_officialCostCny r \<le> 0)"
    by (simp add: sample_reference_def)
  ultimately show ?thesis
    using quality_same_budget [where charge = 3 and refs = "[sample_reference ''a'' 70 2, sample_reference ''b'' 90 5]"]
    by (cases "same_budget 3 [sample_reference ''a'' 70 2, sample_reference ''b'' 90 5]") (simp_all del: list.set)
qed

end
