(* ===== verification/Channels.thy ===== *)
theory Channels
  imports JsonPrint Tallies Machines
begin

text \<open>
  Helpers of the channel administration, \<open>features/channels/lib\<close>: \<open>channel-utils.ts\<close> (keys, lists of models and groups,
  attention, grouping by tag), \<open>model-mapping-validation.ts\<close>, \<open>status-code-risk-guard.ts\<close>, \<open>upstream-update-utils.ts\<close>,
  \<open>multi-key-utils.ts\<close> and the delayed update of a number field in \<open>channel-field-update.ts\<close>.

  Text is below code unit 256.  Numbers are exact rationals.  \<open>localeCompare\<close> is a parameter.  A member that the schema
  declares nullish is \<open>nullish\<close>, since the code tells \<open>undefined\<close> and \<open>null\<close> apart; the records have the members that
  the modelled functions read or write.
\<close>

subsection \<open>Keys, channel-utils.ts\<close>

definition newline :: char where
  "newline = CHR 0x0A"

definition key_lines :: "string \<Rightarrow> string list" where
  "key_lines key = filter (\<lambda>k. trim k \<noteq> []) (split_on newline key)"

text \<open>\<open>s.slice(-n)\<close> for positive \<open>n\<close>.\<close>

definition slice_end :: "nat \<Rightarrow> string \<Rightarrow> string" where
  "slice_end n s = drop (length s - n) s"

definition formatChannelKey :: "string \<Rightarrow> bool \<Rightarrow> string" where
  "formatChannelKey key isMultiKey =
     (if key = [] then []
      else if isMultiKey then decimal (length (key_lines key)) @ '' keys''
      else if length key \<le> 16 then take 4 key @ ''...'' @ slice_end 4 key
      else take 8 key @ ''...'' @ slice_end 8 key)"

definition formatKeyPreview :: "string \<Rightarrow> nat \<Rightarrow> string" where
  "formatKeyPreview key maxLength =
     (if key = [] then [] else if length key \<le> maxLength then key else take maxLength key @ ''...'')"

definition countKeys :: "string \<Rightarrow> nat" where
  "countKeys key = (if key = [] then 0 else length (key_lines key))"

record DeduplicatedKeys =
  dk_deduplicatedText :: string
  dk_beforeCount :: int
  dk_afterCount :: int
  dk_removedCount :: int

definition keep_key :: "string list \<Rightarrow> string \<Rightarrow> string list" where
  "keep_key keys line = (let trimmedLine = trim line in if trimmedLine \<noteq> [] \<and> trimmedLine \<notin> set keys then keys @ [trimmedLine] else keys)"

definition deduplicateKeys :: "string \<Rightarrow> DeduplicatedKeys" where
  "deduplicateKeys keysText =
     (if keysText = [] \<or> trim keysText = []
      then \<lparr>dk_deduplicatedText = [], dk_beforeCount = 0, dk_afterCount = 0, dk_removedCount = 0\<rparr>
      else
        (let keyLines = split_on newline keysText; beforeCount = int (length keyLines);
             deduplicatedKeys = foldl keep_key [] keyLines; afterCount = int (length deduplicatedKeys) in
         \<lparr>dk_deduplicatedText = join [newline] deduplicatedKeys, dk_beforeCount = beforeCount, dk_afterCount = afterCount,
          dk_removedCount = beforeCount - afterCount\<rparr>))"

subsection \<open>Lists of models and groups, channel-utils.ts\<close>

definition comma :: char where
  "comma = CHR '',''"

definition trimmed_parts :: "string \<Rightarrow> string list" where
  "trimmed_parts s = filter (\<lambda>m. m \<noteq> []) (map trim (split_on comma s))"

definition parseModelsList :: "string \<Rightarrow> string list" where
  "parseModelsList models = (if models = [] then [] else trimmed_parts models)"

definition default_first :: "(string \<Rightarrow> string \<Rightarrow> rat) \<Rightarrow> string \<Rightarrow> string \<Rightarrow> rat" where
  "default_first localeCompare a b =
     (if a = ''default'' then - 1 else if b = ''default'' then 1 else localeCompare a b)"

definition parseGroupsList :: "(string \<Rightarrow> string \<Rightarrow> rat) \<Rightarrow> string \<Rightarrow> string list" where
  "parseGroupsList localeCompare groups =
     (if groups = [] then [] else js_sort (default_first localeCompare) (trimmed_parts groups))"

definition formatModelsString :: "string list \<Rightarrow> string" where
  "formatModelsString models = join [comma] models"

definition formatGroupsString :: "string list \<Rightarrow> string" where
  "formatGroupsString groups = join [comma] groups"

definition validateChannelSettings :: "string \<Rightarrow> bool" where
  "validateChannelSettings settings \<longleftrightarrow> settings = [] \<or> trim settings = [] \<or> JSON_parse settings \<noteq> None"

text \<open>The parsed value, an empty object when there is none; it is not checked against the type.\<close>

definition parseChannelSettings :: "string option \<Rightarrow> jsval" where
  "parseChannelSettings settingStr =
     (case settingStr of None \<Rightarrow> JObj [] | Some s \<Rightarrow> if s = [] then JObj [] else opt_or (JSON_parse s) (JObj []))"

definition parseChannelOtherSettings :: "string option \<Rightarrow> jsval" where
  "parseChannelOtherSettings settingsStr =
     (case settingsStr of None \<Rightarrow> JObj []
      | Some s \<Rightarrow> if s = [] \<or> s = ''{}'' then JObj [] else opt_or (JSON_parse s) (JObj []))"

datatype BalanceVariant = SuccessVariant | WarningVariant | DangerVariant | NeutralVariant

definition getBalanceVariant :: "rat \<Rightarrow> BalanceVariant" where
  "getBalanceVariant balance =
     (if balance = 0 then NeutralVariant else if balance < 1 then DangerVariant
      else if balance < 10 then WarningVariant else SuccessVariant)"

datatype ResponseTimeRating = EXCELLENT | GOOD | FAIR | POOR | UNKNOWN

definition getResponseTimeConfig :: "rat \<Rightarrow> ResponseTimeRating" where
  "getResponseTimeConfig timeMs =
     (if timeMs = 0 then UNKNOWN else if timeMs \<le> 500 then EXCELLENT else if timeMs \<le> 1000 then GOOD
      else if timeMs \<le> 2000 then FAIR else POOR)"

subsection \<open>Channels, types.ts and channel-utils.ts\<close>

record ChannelInfo =
  ci_is_multi_key :: bool
  ci_multi_key_size :: rat
  ci_multi_key_status_list :: "(string \<times> rat) list option"

record Channel =
  ch_id :: rat
  ch_type :: rat
  ch_key :: string
  ch_status :: rat
  ch_name :: string
  ch_weight :: "rat nullish"
  ch_created_time :: rat
  ch_test_time :: rat
  ch_response_time :: rat
  ch_balance :: rat
  ch_balance_updated_time :: rat
  ch_models :: string
  ch_group :: string
  ch_used_quota :: rat
  ch_priority :: "rat nullish"
  ch_tag :: "string nullish"
  ch_channel_info :: ChannelInfo

definition isChannelEnabled :: "Channel \<Rightarrow> bool" where
  "isChannelEnabled channel \<longleftrightarrow> ch_status channel = 1"

definition isMultiKeyChannel :: "Channel \<Rightarrow> bool" where
  "isMultiKeyChannel channel \<longleftrightarrow> ci_is_multi_key (ch_channel_info channel)"

definition all_keys_disabled :: "Channel \<Rightarrow> bool" where
  "all_keys_disabled channel \<longleftrightarrow>
     ci_is_multi_key (ch_channel_info channel) \<and>
     (case ci_multi_key_status_list (ch_channel_info channel) of
        None \<Rightarrow> False | Some l \<Rightarrow> of_nat (length l) \<ge> ci_multi_key_size (ch_channel_info channel))"

definition channelNeedsAttention :: "Channel \<Rightarrow> bool" where
  "channelNeedsAttention channel =
     (if ch_status channel = 3 then True
      else if ch_balance channel > 0 \<and> ch_balance channel < 1 then True
      else if all_keys_disabled channel then True else False)"

definition getAttentionReason :: "Channel \<Rightarrow> string option" where
  "getAttentionReason channel =
     (if ch_status channel = 3 then Some ''Auto-disabled''
      else if ch_balance channel > 0 \<and> ch_balance channel < 1 then Some ''Low balance''
      else if all_keys_disabled channel then Some ''All keys disabled'' else None)"

text \<open>
  A tag row is a channel with children.  Its id, key, tag and name are the tag; its status starts undefined.  The other
  members are those of the first channel of the tag.
\<close>

record TagRow =
  tr_first :: Channel
  tr_tag :: string
  tr_status :: "rat option"
  tr_group :: string
  tr_used_quota :: rat
  tr_response_time :: rat
  tr_priority :: "rat nullish"
  tr_weight :: "rat nullish"
  tr_children :: "Channel list"

definition channel_tag :: "Channel \<Rightarrow> string" where
  "channel_tag channel = (case ch_tag channel of Value t \<Rightarrow> t | _ \<Rightarrow> [])"

definition new_tag_row :: "Channel \<Rightarrow> TagRow" where
  "new_tag_row channel =
     \<lparr>tr_first = channel\<lparr>ch_key := channel_tag channel, ch_name := channel_tag channel, ch_type := 0, ch_balance := 0, ch_test_time := 0,
        ch_created_time := 0, ch_balance_updated_time := 0, ch_models := []\<rparr>,
      tr_tag = channel_tag channel, tr_status = None, tr_group = [], tr_used_quota = 0, tr_response_time = 0,
      tr_priority = Value (- 1), tr_weight = Value (- 1), tr_children = []\<rparr>"

text \<open>The shared value of the children, \<open>null\<close> when they differ; \<open>-1\<close> stands for no child yet.\<close>

definition merge_number :: "rat nullish \<Rightarrow> rat nullish \<Rightarrow> rat nullish" where
  "merge_number row child = (if row = Value (- 1) then child else if row \<noteq> child then Null else row)"

definition merge_group :: "string \<Rightarrow> string \<Rightarrow> string" where
  "merge_group row child =
     (if row = [] then child
      else
        (let existingGroups = filter (\<lambda>g. g \<noteq> []) (split_on comma row); newGroups = filter (\<lambda>g. g \<noteq> []) (split_on comma child) in
         foldl (\<lambda>group g. if g \<notin> set existingGroups then group @ [comma] @ g else group) row newGroups))"

definition add_channel :: "Channel \<Rightarrow> TagRow \<Rightarrow> TagRow" where
  "add_channel channel row =
     (let childCount = of_nat (length (tr_children row @ [channel])) in
      row\<lparr>tr_children := tr_children row @ [channel],
        tr_used_quota := tr_used_quota row + ch_used_quota channel,
        tr_response_time := (tr_response_time row * (childCount - 1) + ch_response_time channel) / childCount,
        tr_priority := merge_number (tr_priority row) (ch_priority channel),
        tr_weight := merge_number (tr_weight row) (ch_weight channel),
        tr_group := merge_group (tr_group row) (ch_group channel),
        tr_status := (if ch_status channel = 1 then Some 1
          else if tr_status row = None then Some (ch_status channel) else tr_status row)\<rparr>)"

definition aggregateChannelsByTag :: "Channel list \<Rightarrow> TagRow list" where
  "aggregateChannelsByTag channels =
     map snd (foldl (\<lambda>tagMap channel. upsert (channel_tag channel) (new_tag_row channel) (add_channel channel) tagMap) [] channels)"

text \<open>The id of a table row: of a tag row or of a channel.\<close>

datatype table_row = TagAggregate TagRow | SingleChannel Channel

definition getChannelTableRowId :: "table_row \<Rightarrow> string" where
  "getChannelTableRowId row =
     (case row of TagAggregate r \<Rightarrow> ''tag:'' @ tr_tag r | SingleChannel c \<Rightarrow> ''channel:'' @ number_str (ch_id c))"

subsection \<open>Model mappings, model-mapping-validation.ts\<close>

definition parseModelsString :: "string \<Rightarrow> string list" where
  "parseModelsString modelsStr = (if modelsStr \<noteq> [] then trimmed_parts modelsStr else [])"

definition formatModelsArray :: "string list \<Rightarrow> string" where
  "formatModelsArray models = join [comma] (nub models)"

definition normalizeModelName :: "string \<Rightarrow> string" where
  "normalizeModelName model = trim model"

text \<open>The members of a text that is parsed to a plain object.\<close>

definition parse_object :: "string \<Rightarrow> (string \<times> jsval) list option" where
  "parse_object s = Option.bind (JSON_parse s) plain_object"

definition extractMappingSourceModels :: "string \<Rightarrow> string list" where
  "extractMappingSourceModels modelMapping =
     (let trimmed = trim modelMapping in
      if trimmed = [] then []
      else (case parse_object trimmed of
              None \<Rightarrow> []
            | Some members \<Rightarrow> nub (filter (\<lambda>k. k \<noteq> []) (map (\<lambda>(k, v). trim k) members))))"

definition string_value :: "jsval \<Rightarrow> string option" where
  "string_value v = (case v of JStr s \<Rightarrow> if trim s = [] then None else Some (trim s) | _ \<Rightarrow> None)"

definition extractRedirectModels :: "string \<Rightarrow> string list" where
  "extractRedirectModels modelMapping =
     (let trimmed = trim modelMapping in
      if trimmed = [] then []
      else (case parse_object trimmed of
              None \<Rightarrow> []
            | Some members \<Rightarrow> nub (List.map_filter (\<lambda>(k, v). string_value v) members)))"

definition hasModelConfigChanged :: "string list \<Rightarrow> string \<Rightarrow> string list \<Rightarrow> string \<Rightarrow> bool" where
  "hasModelConfigChanged currentModels currentModelMapping initialModels initialModelMapping =
     (if initialModels = [] \<and> initialModelMapping = [] then True
      else if length currentModels \<noteq> length initialModels then True
      else if list_ex (\<lambda>i. currentModels ! i \<noteq> initialModels ! i) [0..<length currentModels] then True
      else trim currentModelMapping \<noteq> trim initialModelMapping)"

definition findMissingModelsInMapping :: "string \<Rightarrow> string list \<Rightarrow> string list" where
  "findMissingModelsInMapping modelMapping currentModels =
     (if modelMapping = [] \<or> trim modelMapping = [] then []
      else (case parse_object modelMapping of
              None \<Rightarrow> []
            | Some members \<Rightarrow>
                (let modelSet = set (map normalizeModelName currentModels) in
                 nub (filter (\<lambda>key. key \<noteq> [] \<and> key \<notin> modelSet) (map (\<lambda>(k, v). normalizeModelName k) members)))))"

datatype MappingError = NotAnObject | NotStrings | NotJson

definition validateModelMappingJson :: "string \<Rightarrow> MappingError option" where
  "validateModelMappingJson modelMapping =
     (if modelMapping = [] \<or> trim modelMapping = [] then None
      else (case JSON_parse modelMapping of
              None \<Rightarrow> Some NotJson
            | Some parsed \<Rightarrow>
                (case plain_object parsed of
                   None \<Rightarrow> Some NotAnObject
                 | Some members \<Rightarrow> if list_ex (\<lambda>(k, v). \<not> is_str (Some v)) members then Some NotStrings else None)))"

definition findExposedTargetModels :: "string \<Rightarrow> string list \<Rightarrow> string list" where
  "findExposedTargetModels modelMapping currentModels =
     (let redirectModels = extractRedirectModels modelMapping in
      if redirectModels = [] then []
      else filter (\<lambda>model. normalizeModelName model \<in> set (map normalizeModelName currentModels)) redirectModels)"

record ModelCategories =
  mc_normalizedCurrentModels :: "string list"
  mc_normalizedRedirectModels :: "string list"
  mc_classificationSet :: "string list"
  mc_redirectOnlySet :: "string list"

definition categorizeModelsWithRedirect :: "string list \<Rightarrow> string list \<Rightarrow> ModelCategories" where
  "categorizeModelsWithRedirect currentModels redirectModels =
     (let current = nub (filter (\<lambda>m. m \<noteq> []) (map normalizeModelName currentModels));
          redirect = nub (filter (\<lambda>m. m \<noteq> []) (map normalizeModelName redirectModels)) in
      \<lparr>mc_normalizedCurrentModels = current, mc_normalizedRedirectModels = redirect,
       mc_classificationSet = nub (current @ redirect), mc_redirectOnlySet = filter (\<lambda>m. m \<notin> set current) redirect\<rparr>)"

subsection \<open>Status code mappings, status-code-risk-guard.ts\<close>

text \<open>
  \<open>String(v)\<close> of a parsed value: \<open>None\<close> where it throws.  An object with a member \<open>toString\<close>, which parsed text never makes
  a function, has no primitive value; the elements of an array are joined, \<open>null\<close> as nothing.
\<close>

function js_String :: "jsval \<Rightarrow> string option" where
  "js_String JNull = Some ''null''"
| "js_String (JBool b) = Some (if b then ''true'' else ''false'')"
| "js_String (JNum q) = Some (number_str q)"
| "js_String (JStr s) = Some s"
| "js_String (JArr xs) =
     (let parts = map (\<lambda>x. if x = JNull then Some [] else js_String x) xs in
      if None \<in> set parts then None else Some (join [comma] (map the parts)))"
| "js_String (JObj ps) = (if map_of ps ''toString'' = None then Some ''[object Object]'' else None)"
  by pat_completeness auto
termination by (relation "measure size") (auto simp: size_list_estimation' less_Suc_eq_le)

definition NON_REDIRECTABLE_STATUS_CODES :: "nat set" where
  "NON_REDIRECTABLE_STATUS_CODES = {504, 524}"

text \<open>\<open>/^[1-5]\d{2}$/\<close>\<close>

definition is_status_text :: "string \<Rightarrow> bool" where
  "is_status_text s \<longleftrightarrow> length s = 3 \<and> list_all is_digit_char s \<and> hd s \<in> set ''12345''"

definition parseStatusCodeKey :: "string \<Rightarrow> nat option" where
  "parseStatusCodeKey rawKey = (let normalized = trim rawKey in if \<not> is_status_text normalized then None else Some (digits_value normalized))"

definition parseStatusCodeMappingTarget :: "jsval \<Rightarrow> nat option" where
  "parseStatusCodeMappingTarget rawValue =
     (case rawValue of
        JNum q \<Rightarrow> if is_integer q \<and> 100 \<le> q \<and> q \<le> 599 then Some (nat \<lfloor>q\<rfloor>) else None
      | JStr s \<Rightarrow>
          (let normalized = trim s in
           if \<not> is_status_text normalized then None
           else let code = digits_value normalized in if 100 \<le> code \<and> code \<le> 599 then Some code else None)
      | _ \<Rightarrow> None)"

definition status_members :: "string \<Rightarrow> (string \<times> jsval) list" where
  "status_members s = (if trim s = [] then [] else opt_or (parse_object s) [])"

text \<open>The arrow of the message is beyond the code units of the model and is written out as a pair of texts.\<close>

fun invalid_entries :: "(string \<times> jsval) list \<Rightarrow> (string \<times> string) list option" where
  "invalid_entries [] = Some []"
| "invalid_entries ((rawKey, rawValue) # entries) =
     (if parseStatusCodeKey rawKey = None \<or> parseStatusCodeMappingTarget rawValue = None then
        (case js_String rawValue of None \<Rightarrow> None | Some s \<Rightarrow> map_option (Cons (rawKey, s)) (invalid_entries entries))
      else invalid_entries entries)"

definition collectInvalidStatusCodeEntries :: "string \<Rightarrow> (string \<times> string) list option" where
  "collectInvalidStatusCodeEntries statusCodeMappingStr = invalid_entries (status_members statusCodeMappingStr)"

definition risky_mapping :: "string \<times> jsval \<Rightarrow> string option" where
  "risky_mapping entry =
     (case (parseStatusCodeKey (fst entry), parseStatusCodeMappingTarget (snd entry)) of
        (Some fromCode, Some toCode) \<Rightarrow>
          if fromCode \<notin> NON_REDIRECTABLE_STATUS_CODES then None
          else if fromCode = toCode then None
          else Some (decimal fromCode @ '' -> '' @ decimal toCode)
      | _ \<Rightarrow> None)"

definition collectDisallowedStatusCodeRedirects :: "string \<Rightarrow> string list" where
  "collectDisallowedStatusCodeRedirects statusCodeMappingStr =
     js_sort code_compare (nub (List.map_filter risky_mapping (status_members statusCodeMappingStr)))"

definition collectNewDisallowedStatusCodeRedirects :: "string \<Rightarrow> string \<Rightarrow> string list" where
  "collectNewDisallowedStatusCodeRedirects originalStr currentStr =
     (let currentRisky = collectDisallowedStatusCodeRedirects currentStr in
      if currentRisky = [] then []
      else filter (\<lambda>m. m \<notin> set (collectDisallowedStatusCodeRedirects originalStr)) currentRisky)"

subsection \<open>Pending upstream updates, upstream-update-utils.ts\<close>

text \<open>\<open>None\<close> where the code throws: the value has no \<open>map\<close>, or an element cannot be made a text.\<close>

definition model_text :: "jsval \<Rightarrow> string option" where
  "model_text model = map_option trim (if truthy (Some model) then js_String model else Some [])"

definition normalizeModelList :: "jsval option \<Rightarrow> string list option" where
  "normalizeModelList models =
     (if \<not> truthy models then Some []
      else (case models of
              Some (JArr xs) \<Rightarrow>
                (if None \<in> set (map model_text xs) then None
                 else Some (nub (filter (\<lambda>m. m \<noteq> []) (map the (map model_text xs)))))
            | _ \<Rightarrow> None))"

record UpstreamUpdateMeta =
  um_enabled :: bool
  um_pendingAddModels :: "string list"
  um_pendingRemoveModels :: "string list"

definition parseUpstreamUpdateMeta :: "jsval option \<Rightarrow> UpstreamUpdateMeta option" where
  "parseUpstreamUpdateMeta settings =
     (let parsed = (case settings of Some (JObj ps) \<Rightarrow> Some (JObj ps) | Some (JStr s) \<Rightarrow> JSON_parse s | _ \<Rightarrow> None) in
      if \<not> is_record parsed then Some \<lparr>um_enabled = False, um_pendingAddModels = [], um_pendingRemoveModels = []\<rparr>
      else
        (case (normalizeModelList (get_prop parsed ''upstream_model_update_last_detected_models''),
               normalizeModelList (get_prop parsed ''upstream_model_update_last_removed_models'')) of
           (Some added, Some removed) \<Rightarrow>
             Some \<lparr>um_enabled = (get_prop parsed ''upstream_model_update_check_enabled'' = Some (JBool True)),
                   um_pendingAddModels = added, um_pendingRemoveModels = removed\<rparr>
         | _ \<Rightarrow> None))"

subsection \<open>The delayed update of a field, channel-field-update.ts\<close>

text \<open>
  The two variables of the closure, and the timers of the browser: those set and neither cleared nor run, and the next
  id.  A value is scheduled, the field is left (\<open>flush\<close>), or a timer runs; the browser runs only a timer that is set.
\<close>

record field_scheduler =
  fs_timeoutId :: "nat option"
  fs_pendingValue :: "rat option"
  fs_timers :: "nat list"
  fs_next :: nat

definition new_scheduler :: field_scheduler where
  "new_scheduler = \<lparr>fs_timeoutId = None, fs_pendingValue = None, fs_timers = [], fs_next = 1\<rparr>"

definition clearPendingTimer :: "field_scheduler \<Rightarrow> field_scheduler" where
  "clearPendingTimer s =
     (case fs_timeoutId s of None \<Rightarrow> s | Some i \<Rightarrow> s\<lparr>fs_timers := filter (\<lambda>j. j \<noteq> i) (fs_timers s), fs_timeoutId := None\<rparr>)"

definition commitPendingValue :: "field_scheduler \<Rightarrow> field_scheduler \<times> rat list" where
  "commitPendingValue s =
     (let s1 = clearPendingTimer s in
      case fs_pendingValue s1 of None \<Rightarrow> (s1, []) | Some v \<Rightarrow> (s1\<lparr>fs_pendingValue := None\<rparr>, [v]))"

definition schedule_value :: "rat \<Rightarrow> field_scheduler \<Rightarrow> field_scheduler" where
  "schedule_value v s =
     (let s1 = (clearPendingTimer s)\<lparr>fs_pendingValue := Some v\<rparr> in
      s1\<lparr>fs_timeoutId := Some (fs_next s1), fs_timers := fs_timers s1 @ [fs_next s1], fs_next := fs_next s1 + 1\<rparr>)"

datatype field_event = ScheduleValue rat | FlushField | TimerRuns nat

fun field_step :: "field_event \<Rightarrow> field_scheduler \<Rightarrow> field_scheduler \<times> rat list" where
  "field_step (ScheduleValue v) s = (schedule_value v s, [])"
| "field_step FlushField s = commitPendingValue s"
| "field_step (TimerRuns i) s =
     (if i \<in> set (fs_timers s) then commitPendingValue (s\<lparr>fs_timers := filter (\<lambda>j. j \<noteq> i) (fs_timers s)\<rparr>) else (s, []))"

subsection \<open>Actions on keys, multi-key-utils.ts\<close>

datatype MultiKeyAction = DeleteKey | EnableKey | DisableKey | EnableAll | DisableAll | DeleteDisabled

definition isDestructiveAction :: "MultiKeyAction option \<Rightarrow> bool" where
  "isDestructiveAction action \<longleftrightarrow> action \<in> {Some DeleteKey, Some DeleteDisabled, Some DisableAll}"

definition getMultiKeyConfirmMessage :: "MultiKeyAction option \<Rightarrow> string" where
  "getMultiKeyConfirmMessage action =
     (case action of
        None \<Rightarrow> []
      | Some DeleteKey \<Rightarrow> ''Are you sure you want to delete this key? This action cannot be undone.''
      | Some EnableKey \<Rightarrow> ''Enable this key?''
      | Some DisableKey \<Rightarrow> ''Disable this key?''
      | Some EnableAll \<Rightarrow> ''Are you sure you want to enable all keys?''
      | Some DisableAll \<Rightarrow> ''Are you sure you want to disable all enabled keys?''
      | Some DeleteDisabled \<Rightarrow> ''Are you sure you want to delete all auto-disabled keys? This action cannot be undone.'')"

end
