(* ===== verification/ChannelRules.thy ===== *)
theory ChannelRules
  imports Channels "HOL-Library.Sublist"
begin

text \<open>
  Properties of the channel helpers: grouping by tag partitions the channels and adds them up, a delayed field update
  delivers the last value once, the guard of status code mappings reports exactly the risky redirects, lists of models and
  keys survive printing and parsing; and where the mask of a key hides nothing.
\<close>

subsection \<open>Grouping by tag\<close>

lemma aggregate_tally:
  "aggregateChannelsByTag channels = map snd (tally channel_tag new_tag_row add_channel channels [])"
  by (simp add: aggregateChannelsByTag_def tally_def)

text \<open>What a row is after the channels of its group.\<close>

lemma add_channel_sel [simp]:
  "tr_tag (add_channel c r) = tr_tag r" "tr_children (add_channel c r) = tr_children r @ [c]"
  "tr_used_quota (add_channel c r) = tr_used_quota r + ch_used_quota c"
  "tr_priority (add_channel c r) = merge_number (tr_priority r) (ch_priority c)"
  "tr_weight (add_channel c r) = merge_number (tr_weight r) (ch_weight c)"
  by (simp_all add: add_channel_def Let_def)

lemma add_channel_status:
  "tr_status (add_channel c r) = (if ch_status c = 1 then Some 1 else if tr_status r = None then Some (ch_status c) else tr_status r)"
  by (simp add: add_channel_def Let_def)

lemma add_channel_average:
  "tr_response_time (add_channel c r) * of_nat (length (tr_children (add_channel c r))) =
    tr_response_time r * of_nat (length (tr_children r)) + ch_response_time c"
  by (simp add: add_channel_def Let_def field_simps)

definition row_of :: "TagRow \<Rightarrow> Channel list \<Rightarrow> TagRow" where
  "row_of r cs = foldl (\<lambda>r c. add_channel c r) r cs"

lemma row_of_simps [simp]: "row_of r [] = r" "row_of r (c # cs) = row_of (add_channel c r) cs"
  by (simp_all add: row_of_def)

lemma row_of_sums:
  "tr_tag (row_of r cs) = tr_tag r" "tr_children (row_of r cs) = tr_children r @ cs"
  "tr_used_quota (row_of r cs) = tr_used_quota r + sum_list (map ch_used_quota cs)"
  by (induction cs arbitrary: r) simp_all

lemma row_of_average:
  "tr_response_time (row_of r cs) * of_nat (length (tr_children (row_of r cs))) =
    tr_response_time r * of_nat (length (tr_children r)) + sum_list (map ch_response_time cs)"
proof (induction cs arbitrary: r)
  case (Cons c cs)
  show ?case unfolding row_of_simps Cons.IH add_channel_average by simp
qed simp

lemma row_of_status:
  "tr_status (row_of r cs) = Some 1 \<longleftrightarrow> tr_status r = Some 1 \<or> (\<exists>c \<in> set cs. isChannelEnabled c)"
  by (induction cs arbitrary: r) (auto simp: add_channel_status isChannelEnabled_def)

text \<open>A number all children share is shown, and nothing otherwise, if no child has the value that marks an empty row.\<close>

lemma merge_all:
  "x \<noteq> Value (- 1) \<Longrightarrow> Value (- 1) \<notin> set ys \<Longrightarrow>
    foldl merge_number x ys = (if \<forall>y \<in> set ys. y = x then x else Null)"
proof (induction ys arbitrary: x)
  case (Cons y ys)
  have n: "foldl merge_number Null zs = Null" if "Value (- 1) \<notin> set zs" for zs
    using that by (induction zs) (auto simp: merge_number_def)
  show ?case
  proof (cases "y = x")
    case True
    then show ?thesis using Cons by (simp add: merge_number_def)
  next
    case False
    then have "merge_number x y = Null" using Cons.prems(1) by (simp add: merge_number_def)
    then show ?thesis using Cons.prems(2) n [of ys] False by simp
  qed
qed simp

lemma row_of_priority:
  "tr_priority (row_of r cs) = foldl merge_number (tr_priority r) (map ch_priority cs)"
  "tr_weight (row_of r cs) = foldl merge_number (tr_weight r) (map ch_weight cs)"
  by (induction cs arbitrary: r) simp_all

lemma tag_rows:
  assumes "r \<in> set (aggregateChannelsByTag channels)"
  obtains c cs where "filter (\<lambda>c. channel_tag c = tr_tag r) channels = c # cs" "r = row_of (new_tag_row c) (c # cs)" "channel_tag c = tr_tag r"
proof -
  define m where "m = tally channel_tag new_tag_row add_channel channels []"
  obtain k where k: "(k, r) \<in> set m" using assms by (auto simp: aggregate_tally m_def)
  have "distinct (map fst m)" unfolding m_def by (rule tally_distinct) simp
  then have "map_of m k = Some r" using k by simp
  then obtain c cs where c: "filter (\<lambda>c. channel_tag c = k) channels = c # cs" "r = row_of (new_tag_row c) (c # cs)"
    by (auto simp: m_def tally_lookup row_of_def split: list.splits)
  have "c \<in> set (filter (\<lambda>c. channel_tag c = k) channels)" unfolding c(1) by simp
  then have "channel_tag c = k" by simp
  then have "tr_tag r = k" unfolding c(2) row_of_sums(1) by (simp add: new_tag_row_def)
  then show thesis using that c \<open>channel_tag c = k\<close> by simp
qed

text \<open>
  C17: Grouping by tag: there is one row per tag, in the order of the first channels; the children of a row are the channels of
  its tag in their order; its quota is the sum and its response time the average of theirs, and it is enabled exactly if
  one of them is.
\<close>

theorem tag_rows_partition:
  assumes "r \<in> set (aggregateChannelsByTag channels)"
  shows "map tr_tag (aggregateChannelsByTag channels) = nub (map channel_tag channels)
    \<and> tr_children r = filter (\<lambda>c. channel_tag c = tr_tag r) channels \<and> tr_children r \<noteq> []
    \<and> tr_used_quota r = sum_list (map ch_used_quota (tr_children r))
    \<and> tr_response_time r = sum_list (map ch_response_time (tr_children r)) / of_nat (length (tr_children r))
    \<and> (tr_status r = Some 1 \<longleftrightarrow> (\<exists>c \<in> set (tr_children r). isChannelEnabled c))"
proof -
  define m where "m = tally channel_tag new_tag_row add_channel channels []"
  have d: "distinct (map fst m)" unfolding m_def by (rule tally_distinct) simp
  have "tr_tag v = k" if kv: "(k, v) \<in> set m" for k v
  proof -
    have "map_of m k = Some v" using kv d by simp
    then obtain c cs where c: "filter (\<lambda>c. channel_tag c = k) channels = c # cs" "v = row_of (new_tag_row c) (c # cs)"
      by (auto simp: m_def tally_lookup row_of_def split: list.splits)
    have "c \<in> set (filter (\<lambda>c. channel_tag c = k) channels)" unfolding c(1) by simp
    then show ?thesis unfolding c(2) row_of_sums(1) by (simp add: new_tag_row_def)
  qed
  then have "map (tr_tag \<circ> snd) m = map fst m" by (intro map_cong [OF refl]) auto
  then have tags: "map tr_tag (aggregateChannelsByTag channels) = nub (map channel_tag channels)"
    using tally_order [of channel_tag new_tag_row add_channel channels] by (simp add: aggregate_tally m_def)
  obtain c cs where c: "filter (\<lambda>c. channel_tag c = tr_tag r) channels = c # cs" "r = row_of (new_tag_row c) (c # cs)"
    using tag_rows [OF assms] by blast
  have ch: "tr_children r = c # cs" unfolding c(2) row_of_sums(2) by (simp add: new_tag_row_def)
  have q: "tr_used_quota r = sum_list (map ch_used_quota (c # cs))" unfolding c(2) row_of_sums(3) by (simp add: new_tag_row_def)
  have s: "tr_status r = Some 1 \<longleftrightarrow> (\<exists>c \<in> set (c # cs). isChannelEnabled c)" unfolding c(2) row_of_status by (simp add: new_tag_row_def)
  have "tr_response_time r * of_nat (length (tr_children r)) = sum_list (map ch_response_time (c # cs))"
    unfolding c(2) row_of_average by (simp add: new_tag_row_def)
  then have "tr_response_time r = sum_list (map ch_response_time (c # cs)) / of_nat (length (c # cs))" by (simp add: ch field_simps)
  then show ?thesis using tags q s unfolding ch c(1) by simp
qed

text \<open>
  The priority of a row is the one all its channels share and \<open>null\<close> if they differ, unless a channel has priority \<open>-1\<close>.
\<close>

theorem tag_row_priority:
  assumes "r \<in> set (aggregateChannelsByTag channels)" "\<forall>c \<in> set (tr_children r). ch_priority c \<noteq> Value (- 1)"
  shows "tr_priority r = (if \<forall>c \<in> set (tr_children r). ch_priority c = ch_priority (hd (tr_children r))
    then ch_priority (hd (tr_children r)) else Null)"
proof -
  obtain c cs where c: "r = row_of (new_tag_row c) (c # cs)" using tag_rows [OF assms(1)] by metis
  have ch: "tr_children r = c # cs" unfolding c row_of_sums(2) by (simp add: new_tag_row_def)
  have "tr_priority r = foldl merge_number (ch_priority c) (map ch_priority cs)"
    unfolding c row_of_priority(1) by (simp add: new_tag_row_def merge_number_def)
  also have "\<dots> = (if \<forall>y \<in> set (map ch_priority cs). y = ch_priority c then ch_priority c else Null)"
    using assms(2) by (intro merge_all) (auto simp: ch)
  finally show ?thesis by (simp add: ch)
qed

subsection \<open>Delayed updates\<close>

definition option_list :: "'a option \<Rightarrow> 'a list" where
  "option_list x = (case x of None \<Rightarrow> [] | Some a \<Rightarrow> [a])"

fun scheduled_value :: "field_event \<Rightarrow> rat option" where
  "scheduled_value (ScheduleValue v) = Some v"
| "scheduled_value _ = None"

text \<open>The timer of the closure is the only one set, and it is set exactly while a value waits.\<close>

definition scheduler_ok :: "field_scheduler \<Rightarrow> bool" where
  "scheduler_ok s \<longleftrightarrow> fs_timers s = option_list (fs_timeoutId s) \<and> (fs_timeoutId s = None \<longleftrightarrow> fs_pendingValue s = None)"

lemma clear_ok: "scheduler_ok s \<Longrightarrow> fs_timers (clearPendingTimer s) = [] \<and> fs_timeoutId (clearPendingTimer s) = None
    \<and> fs_pendingValue (clearPendingTimer s) = fs_pendingValue s"
  by (auto simp: clearPendingTimer_def scheduler_ok_def option_list_def split: option.splits)

text \<open>Every step keeps this, and what it delivers and leaves waiting is what was waiting, or the value just scheduled.\<close>

lemma field_step_effect:
  assumes "scheduler_ok s" "field_step e s = (s', os)"
  shows "scheduler_ok s'"
    and "os @ option_list (fs_pendingValue s') = (case scheduled_value e of Some v \<Rightarrow> [v] | None \<Rightarrow> option_list (fs_pendingValue s))"
proof -
  have commit: "scheduler_ok t \<and> vs @ option_list (fs_pendingValue t) = option_list (fs_pendingValue u)"
    if "fs_timers (clearPendingTimer u) = []" "commitPendingValue u = (t, vs)" for u t vs
    using that by (auto simp: commitPendingValue_def clearPendingTimer_def scheduler_ok_def option_list_def Let_def split: option.splits)
  have runs: "fs_timers (clearPendingTimer (s\<lparr>fs_timers := filter (\<lambda>j. j \<noteq> i) (fs_timers s)\<rparr>)) = []" if "i \<in> set (fs_timers s)" for i
    using assms(1) that by (auto simp: scheduler_ok_def clearPendingTimer_def option_list_def split: option.splits)
  show "scheduler_ok s'"
    and "os @ option_list (fs_pendingValue s') = (case scheduled_value e of Some v \<Rightarrow> [v] | None \<Rightarrow> option_list (fs_pendingValue s))"
    using assms clear_ok [OF assms(1)] commit [of s s' os] commit [OF runs]
    by (cases e; auto simp: schedule_value_def scheduler_ok_def option_list_def Let_def split: if_splits)+
qed

definition delivery_ok :: "rat list \<Rightarrow> field_scheduler \<Rightarrow> rat list \<Rightarrow> bool" where
  "delivery_ok vs s os \<longleftrightarrow> scheduler_ok s \<and> subseq (os @ option_list (fs_pendingValue s)) vs
     \<and> (vs \<noteq> [] \<longrightarrow> os @ option_list (fs_pendingValue s) \<noteq> [] \<and> last (os @ option_list (fs_pendingValue s)) = last vs)"

lemma delivery_step:
  assumes "delivery_ok vs s os" "field_step e s = (s', os')"
  shows "delivery_ok (vs @ option_list (scheduled_value e)) s' (os @ os')"
proof -
  have ok: "scheduler_ok s" using assms(1) by (simp add: delivery_ok_def)
  note step = field_step_effect [OF ok assms(2)]
  show ?thesis
  proof (cases "scheduled_value e")
    case None
    then show ?thesis using assms(1) step by (simp add: delivery_ok_def option_list_def)
  next
    case (Some v)
    have "subseq os (os @ option_list (fs_pendingValue s))" by (intro prefix_imp_subseq) simp
    then have "subseq os vs" using assms(1) subseq_order.trans by (auto simp: delivery_ok_def)
    then have "subseq (os @ [v]) (vs @ [v])" by simp
    then show ?thesis using Some step by (simp add: delivery_ok_def option_list_def)
  qed
qed

text \<open>
  C18: A delayed field update: in every run the values delivered, followed by the one still waiting, are some of the values
  entered, in their order and each at most once, and the last of them is the last value entered.  While a value waits
  exactly one timer is set, and none is set otherwise.  So after leaving the field the last value has been delivered.
\<close>

theorem field_update_last_wins:
  assumes "run_steps field_step es new_scheduler = (s, os)" "vs = List.map_filter scheduled_value es"
  shows "subseq (os @ option_list (fs_pendingValue s)) vs
    \<and> (vs \<noteq> [] \<longrightarrow> last (os @ option_list (fs_pendingValue s)) = last vs)
    \<and> length (fs_timers s) = length (option_list (fs_pendingValue s))
    \<and> (vs \<noteq> [] \<longrightarrow> last (os @ snd (field_step FlushField s)) = last vs)"
proof -
  have "delivery_ok (vs0 @ List.map_filter scheduled_value es) (fst (run_steps field_step es s0)) (os0 @ snd (run_steps field_step es s0))"
    if "delivery_ok vs0 s0 os0" for vs0 s0 os0
    using that
  proof (induction es arbitrary: vs0 s0 os0)
    case (Cons e es)
    obtain s1 os1 where e: "field_step e s0 = (s1, os1)" by fastforce
    have "option_list (scheduled_value e) @ List.map_filter scheduled_value es = List.map_filter scheduled_value (e # es)"
      by (simp add: option_list_def map_filter_simps split: option.splits)
    then show ?case using Cons.IH [OF delivery_step [OF Cons.prems e]] by (simp add: e split_beta)
  qed (simp add: map_filter_simps)
  moreover have "delivery_ok [] new_scheduler []"
    by (simp add: delivery_ok_def new_scheduler_def scheduler_ok_def option_list_def)
  ultimately have d: "delivery_ok vs s os" using assms by (metis append_Nil fst_conv snd_conv)
  obtain t ws where f: "field_step FlushField s = (t, ws)" by fastforce
  have ok: "scheduler_ok s" using d by (simp add: delivery_ok_def)
  have "fs_pendingValue t = None" using f by (auto simp: commitPendingValue_def Let_def split: option.splits)
  then have "ws = option_list (fs_pendingValue s)" using field_step_effect(2) [OF ok f] by (simp add: option_list_def)
  moreover have "length (fs_timers s) = length (option_list (fs_pendingValue s))"
    using ok by (auto simp: scheduler_ok_def option_list_def split: option.splits)
  ultimately show ?thesis using d f by (simp add: delivery_ok_def)
qed

subsection \<open>Risky redirects\<close>

lemma status_text_range: "is_status_text s \<Longrightarrow> 100 \<le> digits_value s \<and> digits_value s \<le> 599"
proof -
  assume s: "is_status_text s"
  then obtain a b c where e: "s = [a, b, c]" by (auto simp: is_status_text_def numeral_3_eq_3 length_Suc_conv)
  obtain x y z where d: "char_digit a = Some x" "char_digit b = Some y" "char_digit c = Some z"
    using s by (auto simp: is_status_text_def e is_digit_char_def)
  have "1 \<le> x" "x \<le> 5" using s d(1) by (auto simp: is_status_text_def e char_digit_def Let_def split: if_splits)
  moreover have "y \<le> 9" "z \<le> 9" using d(2,3) by (auto simp: char_digit_def Let_def split: if_splits)
  moreover have "digits_value s = 100 * x + 10 * y + z" by (simp add: e digits_value_def d map_filter_simps numeral_value_def)
  ultimately show ?thesis by simp
qed

lemma status_codes_range:
  "parseStatusCodeKey k = Some n \<Longrightarrow> 100 \<le> n \<and> n \<le> 599"
  "parseStatusCodeMappingTarget v = Some n \<Longrightarrow> 100 \<le> n \<and> n \<le> 599"
  using status_text_range
  by (auto simp: parseStatusCodeKey_def parseStatusCodeMappingTarget_def Let_def is_integer_def le_nat_iff nat_le_iff le_floor_iff floor_le_iff
      split: if_splits jsval.splits)

definition risky :: "(string \<times> jsval) list \<Rightarrow> nat \<Rightarrow> nat \<Rightarrow> bool" where
  "risky members from to \<longleftrightarrow> from \<in> {504, 524} \<and> to \<noteq> from \<and>
     (\<exists>(k, v) \<in> set members. parseStatusCodeKey k = Some from \<and> parseStatusCodeMappingTarget v = Some to)"

text \<open>
  C29: The guard reports exactly the redirects of 504 and 524 to another valid code, each once, in the order of their texts:
  mappings with the same risky redirects give the same report.
\<close>

theorem status_guard_exact:
  "set (collectDisallowedStatusCodeRedirects s) =
     {decimal from @ '' -> '' @ decimal to | from to. risky (status_members s) from to}
   \<and> distinct (collectDisallowedStatusCodeRedirects s)
   \<and> sorted_wrt (\<lambda>a b. code_compare a b \<le> 0) (collectDisallowedStatusCodeRedirects s)"
proof -
  have one: "risky_mapping (k, v) = Some t \<longleftrightarrow> (\<exists>from to. t = decimal from @ '' -> '' @ decimal to \<and> risky [(k, v)] from to)" for k v t
    by (auto simp: risky_mapping_def risky_def NON_REDIRECTABLE_STATUS_CODES_def split: option.splits)
  have "set (List.map_filter risky_mapping ms) = {decimal from @ '' -> '' @ decimal to | from to. risky ms from to}" for ms
  proof (induction ms)
    case (Cons e ms)
    obtain k v where e: "e = (k, v)" by fastforce
    have "set (List.map_filter risky_mapping (e # ms)) = {t. risky_mapping e = Some t} \<union> set (List.map_filter risky_mapping ms)"
      by (auto simp: map_filter_simps split: option.splits)
    moreover have "risky (e # ms) a b \<longleftrightarrow> risky [(k, v)] a b \<or> risky ms a b" for a b by (auto simp: risky_def e)
    ultimately show ?case unfolding Cons.IH e one by blast
  qed (simp add: map_filter_simps risky_def)
  then show ?thesis
    by (simp add: collectDisallowedStatusCodeRedirects_def code_order.sorted_js_sort)
qed

text \<open>Nothing new is reported exactly if every risky redirect was there before.\<close>

lemma status_guard_new:
  "set (collectNewDisallowedStatusCodeRedirects old new) =
     set (collectDisallowedStatusCodeRedirects new) - set (collectDisallowedStatusCodeRedirects old)"
  by (auto simp: collectNewDisallowedStatusCodeRedirects_def Let_def)

text \<open>
  The list of invalid entries is not always computed: an object among the values that has a member \<open>toString\<close> cannot be
  made a text, and the call throws.
\<close>

lemma status_guard_throws: "collectInvalidStatusCodeEntries s = None" if "status_members s = [(''400'', JObj [(''toString'', JNum 1)])]"
  by (simp add: that collectInvalidStatusCodeEntries_def parseStatusCodeMappingTarget_def)

subsection \<open>Lists of models\<close>

text \<open>Names as the editor keeps them: trimmed, not empty, without a comma.\<close>

definition clean_names :: "string list \<Rightarrow> bool" where
  "clean_names ms \<longleftrightarrow> list_all (\<lambda>m. m \<noteq> [] \<and> trim m = m \<and> comma \<notin> set m) ms"

lemma clean_parts: "clean_names ms \<Longrightarrow> ms \<noteq> [] \<Longrightarrow> trimmed_parts (join [comma] ms) = ms"
  using split_on_join [of ms comma]
  by (auto simp: trimmed_parts_def clean_names_def list_all_iff map_idI filter_id_conv)

text \<open>A list of clean names, written and read, is the list without repetitions.\<close>

theorem models_roundtrip:
  assumes "clean_names ms"
  shows "parseModelsString (formatModelsArray ms) = nub ms"
proof -
  have c: "clean_names (nub ms)" using assms by (simp add: clean_names_def list_all_iff)
  have "join [comma] (nub ms) \<noteq> []" if "nub ms \<noteq> []"
    using clean_parts [OF c that] that by (auto simp: trimmed_parts_def trim_def)
  then show ?thesis using clean_parts [OF c] by (cases "nub ms = []") (auto simp: parseModelsString_def formatModelsArray_def)
qed

text \<open>
  The models a mapping misses: those source models that the list does not have.  Adding what is reported leaves nothing to
  report, and nothing is reported exactly if every source model of the mapping is in the list.
\<close>

theorem mapping_missing_complete:
  assumes "trim mm = mm"
  shows "set (findMissingModelsInMapping mm models) = set (extractMappingSourceModels mm) - set (map normalizeModelName models)
    \<and> findMissingModelsInMapping mm (models @ findMissingModelsInMapping mm models) = []"
proof -
  have t: "trim (trim x) = trim x" for x by (simp add: trim_def trim_by_idem)
  have e: "set (findMissingModelsInMapping mm xs) = set (extractMappingSourceModels mm) - set (map normalizeModelName xs)" for xs
    using assms by (auto simp: findMissingModelsInMapping_def extractMappingSourceModels_def normalizeModelName_def Let_def split: option.splits)
  have s: "trim x = x" if "x \<in> set (findMissingModelsInMapping mm models)" for x
    using that t by (auto simp: findMissingModelsInMapping_def normalizeModelName_def Let_def split: option.splits if_splits)
  have "set (findMissingModelsInMapping mm models) \<subseteq> set (map normalizeModelName (findMissingModelsInMapping mm models))"
    using s by (force simp: normalizeModelName_def)
  then have "set (findMissingModelsInMapping mm (models @ findMissingModelsInMapping mm models)) = {}"
    unfolding e [of "models @ _"] using e [of models] by auto
  then show ?thesis using e [of models] by (metis set_empty)
qed

subsection \<open>Keys\<close>

lemma keep_keys: "foldl keep_key ks ls = ks @ filter (\<lambda>k. k \<notin> set ks) (nub (filter (\<lambda>k. k \<noteq> []) (map trim ls)))"
proof (induction ls rule: rev_induct)
  case (snoc l ls)
  then show ?case by (auto simp: keep_key_def Let_def nub_snoc)
qed simp

lemma trim_empty_iff: "trim s = [] \<longleftrightarrow> (\<forall>c \<in> set s. is_ws c)"
proof
  assume "trim s = []"
  then have a: "\<forall>c \<in> set (dropWhile is_ws s). is_ws c" by (auto simp: trim_def trim_by_def dropWhile_eq_Nil_conv)
  then have "dropWhile is_ws s = []" by (metis hd_dropWhile hd_in_set)
  then show "\<forall>c \<in> set s. is_ws c" by (simp add: dropWhile_eq_Nil_conv)
next
  assume "\<forall>c \<in> set s. is_ws c"
  then have e: "dropWhile is_ws s = []" unfolding dropWhile_eq_Nil_conv .
  show "trim s = []" unfolding trim_def trim_by_def e by simp
qed

lemma set_trim: "set (trim s) \<subseteq> set s"
  by (auto simp: trim_def trim_by_def dest!: set_dropWhileD)

lemma set_join: "x \<in> set xs \<Longrightarrow> set x \<subseteq> set (join sep xs)"
  by (induction sep xs rule: join.induct) auto

text \<open>The keys of a text: its trimmed lines that are not empty, each once.\<close>

definition text_keys :: "string \<Rightarrow> string list" where
  "text_keys s = nub (filter (\<lambda>k. k \<noteq> []) (map trim (split_on newline s)))"

lemma text_keys_clean: "k \<in> set (text_keys s) \<Longrightarrow> k \<noteq> [] \<and> trim k = k \<and> newline \<notin> set k \<and> set k \<subseteq> set s"
  using set_trim split_on_parts by (fastforce simp: text_keys_def)

lemma dedup_text: "dk_deduplicatedText (deduplicateKeys s) = join [newline] (text_keys s)"
proof (cases "trim s = []")
  case True
  have "text_keys s = []"
  proof (rule ccontr)
    assume "text_keys s \<noteq> []"
    then obtain k where k: "k \<in> set (text_keys s)" using hd_in_set by blast
    then have "trim k = []" using text_keys_clean [OF k] True unfolding trim_empty_iff by blast
    then show False using text_keys_clean [OF k] by simp
  qed
  then show ?thesis using True by (simp add: deduplicateKeys_def)
next
  case False
  then have "s \<noteq> []" by (auto simp: trim_def)
  then show ?thesis using False keep_keys [of "[]" "split_on newline s"] by (simp add: deduplicateKeys_def Let_def text_keys_def)
qed

text \<open>
  Deduplication keeps the first of every key, and doing it again changes nothing and removes nothing.
\<close>

theorem deduplicate_keys_stable:
  "dk_deduplicatedText (deduplicateKeys s) = join [newline] (text_keys s)
    \<and> text_keys (join [newline] (text_keys s)) = text_keys s
    \<and> dk_removedCount (deduplicateKeys (dk_deduplicatedText (deduplicateKeys s))) = 0"
proof (cases "text_keys s = []")
  case True
  then have "dk_deduplicatedText (deduplicateKeys s) = []" by (simp add: dedup_text)
  moreover have "text_keys [] = []" by (simp add: text_keys_def trim_def)
  ultimately show ?thesis using True dedup_text by (simp add: deduplicateKeys_def)
next
  case False
  define K where "K = text_keys s"
  have K: "k \<noteq> []" "trim k = k" "newline \<notin> set k" if "k \<in> set K" for k using that text_keys_clean by (auto simp: K_def)
  have sp: "split_on newline (join [newline] K) = K" using False K(3) by (intro split_on_join) (auto simp: K_def)
  have m: "map trim K = K" using K(2) by (simp add: map_idI)
  have f: "filter (\<lambda>k. k \<noteq> []) K = K" using K(1) by (simp add: filter_id_conv)
  have d: "distinct K" by (simp add: K_def text_keys_def)
  have t: "text_keys (join [newline] K) = K" by (simp add: text_keys_def sp m f nub_id [OF d])
  have ne: "trim (join [newline] K) \<noteq> []"
  proof
    assume "trim (join [newline] K) = []"
    then have ws: "\<forall>c \<in> set (join [newline] K). is_ws c" by (simp add: trim_empty_iff)
    obtain k where k: "k \<in> set K" using False hd_in_set unfolding K_def by blast
    then have "trim k = []" using ws set_join [OF k] by (auto simp: trim_empty_iff)
    then show False using K [OF k] by simp
  qed
  then have "join [newline] K \<noteq> []" by (auto simp: trim_def)
  then have "dk_removedCount (deduplicateKeys (join [newline] K)) = 0"
    using ne keep_keys [of "[]" K] by (simp add: deduplicateKeys_def Let_def sp m f nub_id [OF d])
  then show ?thesis using t dedup_text [of s] by (simp add: K_def)
qed

text \<open>
  The mask of a short key hides nothing: two keys of the same length of at most eight characters that are shown alike are
  equal, and a key of at least four characters begins with the first four.
\<close>

theorem short_key_not_masked:
  assumes "length key \<le> 8" "length key' = length key" "formatChannelKey key False = formatChannelKey key' False"
  shows "key = key'"
proof (cases "key = []")
  case False
  then have n: "key' \<noteq> []" using assms(2) by auto
  define p q where "p = take 4 key" and "q = take 4 key'"
  have e: "take 4 key @ ''...'' @ slice_end 4 key = take 4 key' @ ''...'' @ slice_end 4 key'"
    using assms False n by (simp add: formatChannelKey_def)
  have l: "length (take 4 key) = length (take 4 key')" using assms(2) by simp
  have "take 4 key = take 4 key'" "drop (length key - 4) key = drop (length key - 4) key'"
    using e l assms(2) by (simp_all add: slice_end_def)
  then have "take 4 key = take 4 key'" "drop 4 key = drop 4 key'"
    using assms(1) by (simp, metis drop_drop le_add_diff_inverse2 le_diff_conv numeral_Bit0 trans_le_add1 diff_le_mono2)
  then show ?thesis by (metis append_take_drop_id)
qed (use assms(2) in simp)

subsection \<open>Concrete channels\<close>

definition sample_channel :: "string nullish \<Rightarrow> rat \<Rightarrow> rat \<Rightarrow> rat nullish \<Rightarrow> Channel" where
  "sample_channel tag status quota priority = \<lparr>ch_id = 1, ch_type = 1, ch_key = [], ch_status = status, ch_name = ''c'', ch_weight = Null,
     ch_created_time = 0, ch_test_time = 0, ch_response_time = 100, ch_balance = 0, ch_balance_updated_time = 0, ch_models = [],
     ch_group = ''default'', ch_used_quota = quota, ch_priority = priority, ch_tag = tag,
     ch_channel_info = \<lparr>ci_is_multi_key = False, ci_multi_key_size = 0, ci_multi_key_status_list = None\<rparr>\<rparr>"

definition sample_channels :: "Channel list" where
  "sample_channels = [sample_channel (Value ''a'') 2 5 (Value 1), sample_channel Null 1 7 (Value 1), sample_channel (Value ''a'') 1 2 (Value 3)]"

lemma sample_tag_row: "\<exists>r \<in> set (aggregateChannelsByTag sample_channels). tr_tag r = ''a'' \<and> tr_children r = [sample_channels ! 0, sample_channels ! 2]"
  by (simp add: aggregateChannelsByTag_def sample_channels_def upsert_def channel_tag_def sample_channel_def new_tag_row_def opt_or_def)

theorem tag_rows_partition_witness:
  "\<exists>r \<in> set (aggregateChannelsByTag sample_channels). tr_tag r = ''a'' \<and> tr_used_quota r = 7 \<and> tr_status r = Some 1"
proof -
  obtain r where r: "r \<in> set (aggregateChannelsByTag sample_channels)" "tr_tag r = ''a''" "tr_children r = [sample_channels ! 0, sample_channels ! 2]"
    using sample_tag_row by blast
  have "tr_used_quota r = 7" "tr_status r = Some 1"
    using tag_rows_partition [OF r(1)] by (simp_all add: r(3) sample_channels_def sample_channel_def isChannelEnabled_def)
  then show ?thesis using r by blast
qed

theorem tag_row_priority_witness:
  "\<exists>r \<in> set (aggregateChannelsByTag sample_channels). tr_tag r = ''a'' \<and> tr_priority r = Null"
proof -
  obtain r where r: "r \<in> set (aggregateChannelsByTag sample_channels)" "tr_tag r = ''a''" "tr_children r = [sample_channels ! 0, sample_channels ! 2]"
    using sample_tag_row by blast
  have "tr_priority r = Null"
    using tag_row_priority [OF r(1)] by (simp add: r(3) sample_channels_def sample_channel_def)
  then show ?thesis using r by blast
qed

text \<open>The value \<open>-1\<close> is overwritten: of channels with priorities \<open>-1\<close> and 5 the row shows 5.\<close>

lemma tag_row_priority_sentinel:
  "map tr_priority (aggregateChannelsByTag [sample_channel Null 1 0 (Value (- 1)), sample_channel Null 1 0 (Value 5)]) = [Value 5]"
  by (simp add: aggregateChannelsByTag_def upsert_def channel_tag_def sample_channel_def new_tag_row_def opt_or_def merge_number_def)

theorem field_update_last_wins_witness:
  "let (s, os) = run_steps field_step [ScheduleValue 1, ScheduleValue 2, TimerRuns 1, TimerRuns 2, ScheduleValue 3] new_scheduler in
   last (os @ snd (field_step FlushField s)) = 3"
proof -
  obtain s os where r: "run_steps field_step [ScheduleValue 1, ScheduleValue 2, TimerRuns 1, TimerRuns 2, ScheduleValue 3] new_scheduler = (s, os)"
    by fastforce
  have "last (os @ snd (field_step FlushField s)) = 3" using field_update_last_wins [OF r refl] by (simp add: map_filter_simps)
  then show ?thesis unfolding r by simp
qed

theorem models_roundtrip_witness: "parseModelsString (formatModelsArray [''a'', ''b'', ''a'']) = [''a'', ''b'']"
  using models_roundtrip [of "[''a'', ''b'', ''a'']"]
  by (simp add: clean_names_def trim_def trim_by_def is_ws_def comma_def nub_def)

definition sample_mapping :: string where
  "sample_mapping = ''{'' @ quote ''a'' @ '':'' @ quote ''b'' @ ''}''"

theorem mapping_missing_complete_witness:
  "findMissingModelsInMapping sample_mapping ([''c''] @ findMissingModelsInMapping sample_mapping [''c'']) = []"
proof -
  have "trim sample_mapping = sample_mapping"
    by (simp add: trim_def trim_by_def is_ws_def sample_mapping_def quote_def escape_char_def short_escape_def)
  then show ?thesis using mapping_missing_complete by blast
qed

theorem short_key_not_masked_witness: "formatChannelKey ''abcdefgh'' False \<noteq> formatChannelKey ''abcdefgx'' False"
  using short_key_not_masked [of "''abcdefgh''" "''abcdefgx''"] by auto

end
