(* ===== verification/Timeline.thy ===== *)
theory Timeline
  imports Difficulty
begin

text \<open>
  The model of the work timeline, \<open>features/usage-logs/components/acu-work-timeline-model.ts\<close>: filters, colours and labels of
  points, the range of requests that a zoom of the chart selects, and the summary of the items; from
  \<open>acu-work-timeline-quality-model.ts\<close> and \<open>lib/curve-smoothing.ts\<close> the trend lines of the quality chart.

  The translation function \<open>t\<close>, \<open>localeCompare\<close>, \<open>toLocaleLowerCase\<close> and \<open>Math.exp\<close> are parameters; of the last the proofs use
  that it is positive.  A number of a chart event that is missing or not finite is \<open>None\<close>, as is a value that is not a
  number in a series.  The styling of the charts is not part of the model.
\<close>

subsection \<open>Options and filters\<close>

definition timelineItemProtocol :: "('a) ACUWorkTimelineItem_scheme \<Rightarrow> string option" where
  "timelineItemProtocol item =
     (if ti_pointType item = JudgePoint
      then (case ti_judgeProtocol item of Some p \<Rightarrow> if p = [] then None else Some p | None \<Rightarrow> None)
      else ti_protocol item)"

record TimelineChannelOption =
  tc_value :: string
  tc_provider :: string

definition channel_provider :: "(string \<times> string) list \<Rightarrow> ('a) ACUWorkTimelineItem_scheme \<Rightarrow> (string \<times> string) list" where
  "channel_provider providerByChannel item =
     (if ti_channel item = [] \<or> map_of providerByChannel (ti_channel item) \<noteq> None then providerByChannel
      else AList.update (ti_channel item) (ti_provider item) providerByChannel)"

definition buildTimelineChannelOptions ::
  "(string \<Rightarrow> string \<Rightarrow> rat) \<Rightarrow> ('a) ACUWorkTimelineItem_scheme list \<Rightarrow> TimelineChannelOption list" where
  "buildTimelineChannelOptions localeCompare items =
     js_sort (\<lambda>left right. localeCompare (tc_value left) (tc_value right))
       (map (\<lambda>(v, p). \<lparr>tc_value = v, tc_provider = p\<rparr>) (foldl channel_provider [] items))"

definition isCompletedStatus :: "string \<Rightarrow> bool" where
  "isCompletedStatus status \<longleftrightarrow> status \<in> set [''success'', ''completed'', ''completed_with_recovery'']"

definition isTimelineError :: "('a) ACUWorkTimelineItem_scheme \<Rightarrow> bool" where
  "isTimelineError item \<longleftrightarrow>
     ti_billingStatus item = Unsettled \<or> ti_status item = ''completed_with_recovery''
     \<or> (\<not> isCompletedStatus (ti_status item) \<and> ti_status item \<noteq> ''cancelled'')"

datatype TimelineProtocolFilter = AllProtocols | OnlyProtocol string

datatype PointFilter = AllPoints | OnlyPoints PointType

datatype ResultFilter = AllResults | Success | Issues

definition filterTimelineBySupply ::
  "ACUWorkTimelineDisplayItem list \<Rightarrow> TimelineProtocolFilter \<Rightarrow> string \<Rightarrow> PointFilter \<Rightarrow> ResultFilter \<Rightarrow> ACUWorkTimelineDisplayItem list" where
  "filterTimelineBySupply items protocol channel pointType result =
     filter (\<lambda>item.
       if (case protocol of AllProtocols \<Rightarrow> False | OnlyProtocol p \<Rightarrow> timelineItemProtocol item \<noteq> Some p) then False
       else if channel \<noteq> [] \<and> channel \<notin> set [ti_provider item, ti_channel item] then False
       else if (case pointType of AllPoints \<Rightarrow> False | OnlyPoints p \<Rightarrow> ti_pointType item \<noteq> p) then False
       else if result = Success \<and> \<not> isCompletedStatus (ti_status item) then False
       else if result = Issues \<and> \<not> isTimelineError item then False
       else True) items"

definition filterTimelineItems ::
  "(string \<Rightarrow> string) \<Rightarrow> ACUWorkTimelineDisplayItem list \<Rightarrow> string \<Rightarrow> bool \<Rightarrow> ACUWorkTimelineDisplayItem list" where
  "filterTimelineItems toLocaleLowerCase items search errorsOnly =
     (let query = toLocaleLowerCase (trim search) in
      filter (\<lambda>item.
        if errorsOnly \<and> \<not> isTimelineError item then False
        else if query = [] then True
        else list_ex (\<lambda>value. js_includes (toLocaleLowerCase value) query)
          [ti_taskId item, ti_logicalRequestId item, ti_actualModel item, ti_requestedModel item, ti_channel item, ti_provider item,
           ti_workPhase item]) items)"

definition rollingTimelineRange :: "rat \<Rightarrow> rat \<Rightarrow> rat \<times> rat" where
  "rollingTimelineRange hours nowMs = (let to_time = of_int \<lfloor>nowMs / 1000\<rfloor> in (to_time - hours * 3600, to_time))"

subsection \<open>Points\<close>

definition MODEL_COLORS :: "(string \<times> string) list" where
  "MODEL_COLORS =
    [(''gpt-5.4-mini'', ''#0f766e''), (''gpt-5.6-luna'', ''#2563eb''), (''gpt-5.6-terra'', ''#c2410c''),
     (''gpt-5.6-sol'', ''#a21caf''), (''gpt-5.5'', ''#ca8a04'')]"

definition modelColor :: "('a) ACUWorkTimelineItem_scheme \<Rightarrow> string" where
  "modelColor item =
     opt_or (map_of MODEL_COLORS (if ti_pointType item = JudgePoint then ti_judgeModel item else ti_actualModel item)) ''#64748b''"

definition pointStroke :: "('a) ACUWorkTimelineItem_scheme \<Rightarrow> string" where
  "pointStroke item =
     (if ti_billingStatus item = Unsettled then ''#f97316''
      else if ti_status item = ''failed'' then ''#e11d48''
      else if ti_status item = ''completed_with_recovery'' then ''#f97316''
      else modelColor item)"

definition timelineUserCharge :: "('a) ACUWorkTimelineItem_scheme \<Rightarrow> rat option" where
  "timelineUserCharge item = ti_userChargeCny item"

definition WORK_PHASE_LABELS :: "(string \<times> string) list" where
  "WORK_PHASE_LABELS =
    [(''planning'', ''Planning''), (''inspection'', ''Inspection''), (''implementation'', ''Implementation''),
     (''verification'', ''Verification''), (''recovery'', ''Recovery''), (''general'', ''General'')]"

definition workPhaseLabel :: "(string \<Rightarrow> string) \<Rightarrow> string option \<Rightarrow> string" where
  "workPhaseLabel t phase =
     (let fallback = opt_or (map_of WORK_PHASE_LABELS (normalize_text phase)) ''General'' in str_or (t fallback) fallback)"

definition timelinePhaseAdjustment :: "rat option \<Rightarrow> string" where
  "timelinePhaseAdjustment offset = (let value = opt_or offset 0 in (if value > 0 then ''+'' else []) @ number_str value)"

definition optional_text :: "string option \<Rightarrow> string \<Rightarrow> string" where
  "optional_text x d = str_or (opt_or x []) d"

definition thinkingEffort :: "('a) ACUWorkTimelineItem_scheme \<Rightarrow> string" where
  "thinkingEffort item =
     (if ti_pointType item = JudgePoint then optional_text (ti_judgeReasoningEffort item) ''default''
      else optional_text (ti_resolvedReasoningEffort item) (optional_text (ti_presetReasoningEffort item)
        (optional_text (ti_clientRequestedReasoningEffort item) ''default'')))"

text \<open>The separator of the labels is code unit 183.\<close>

definition judgeLabel :: "('a) ACUWorkTimelineItem_scheme \<Rightarrow> string" where
  "judgeLabel item =
     (if ti_judgeReused item then ''Judge Reused''
      else if ti_judgeStatus item = ''rules_fallback'' \<or> ti_judgeResultSource item = ''rules_strategy'' then ''Judge rules fallback''
      else if ti_judgeSameModelFailoverUsed item then ''Judge Profile failover '' @ [CHR 0xB7] @ '' '' @ ti_judgeModel item
      else if ti_judgeResultSource item = ''upstream_live'' then ''Judge Fresh''
      else if ti_judgeResultSource item = ''disk_cache'' then ''Judge Cache''
      else if ti_judgeResultSource item = ''recent_evaluation'' then ''Judge failed '' @ [CHR 0xB7] @ '' reused previous''
      else if ti_judgeResultSource item = ''rules_strategy'' then ''Rules fallback''
      else if \<not> ti_judgeCalled item then ''Judge not required''
      else if ti_judgeModel item \<noteq> [] then ''Judge '' @ [CHR 0xB7] @ '' '' @ ti_judgeModel item else ''Judge unavailable'')"

text \<open>\<open>replaceAll\<close> of a character.\<close>

definition replace_char :: "char \<Rightarrow> string \<Rightarrow> string \<Rightarrow> string" where
  "replace_char c r s = concat (map (\<lambda>x. if x = c then r else [x]) s)"

definition escapeHtml :: "string \<Rightarrow> string" where
  "escapeHtml value =
     replace_char CHR 0x27 ''&#039;'' (replace_char CHR 0x22 ''&quot;'' (replace_char CHR ''>'' ''&gt;''
       (replace_char CHR ''<'' ''&lt;'' (replace_char CHR ''&'' ''&amp;'' value))))"

text \<open>The data of a point: its place on the axis and its value.\<close>

record TimelineChartDatum =
  td_order :: nat
  td_value :: "rat option"

definition difficultyDatum :: "ACUWorkTimelineDisplayItem \<Rightarrow> nat \<Rightarrow> TimelineChartDatum" where
  "difficultyDatum item chartOrder = \<lparr>td_order = chartOrder, td_value = timelineDisplayDifficulty item\<rparr>"

definition costDatum :: "('a) ACUWorkTimelineItem_scheme \<Rightarrow> nat \<Rightarrow> TimelineChartDatum" where
  "costDatum item chartOrder = \<lparr>td_order = chartOrder, td_value = timelineUserCharge item\<rparr>"

definition orderedItems :: "'a list \<Rightarrow> ('a \<times> nat) list" where
  "orderedItems items = map (\<lambda>(i, item). (item, i + 1)) (enumerate 0 items)"

definition difficulty_points :: "ACUWorkTimelineDisplayItem list \<Rightarrow> TimelineChartDatum list" where
  "difficulty_points items =
     map (\<lambda>(item, chartOrder). difficultyDatum item chartOrder) (filter (\<lambda>(item, _). hasTimelineDisplayDifficulty item) (orderedItems items))"

definition difficulty_series :: "ACUWorkTimelineDisplayItem list \<Rightarrow> (string \<times> TimelineChartDatum list) list" where
  "difficulty_series items =
     map (\<lambda>segmentId. (segmentId, map (\<lambda>(item, chartOrder). difficultyDatum item chartOrder)
         (filter (\<lambda>(item, _). ti_segmentId item = segmentId) (orderedItems items)))) (nub (map ti_segmentId items))"

definition cost_series :: "ACUWorkTimelineDisplayItem list \<Rightarrow> TimelineChartDatum list" where
  "cost_series items = map (\<lambda>(item, chartOrder). costDatum item chartOrder) (orderedItems items)"

subsection \<open>Zoom\<close>

definition clampOrder :: "int \<Rightarrow> int \<Rightarrow> int" where
  "clampOrder value itemCount = min itemCount (max 1 value)"

record ZoomEvent =
  ze_start :: "rat option"
  ze_end :: "rat option"
  ze_startValue :: "rat option"
  ze_endValue :: "rat option"

text \<open>The event is the first of its batch, or the payload itself.\<close>

definition timelineOrderRangeFromZoom :: "ZoomEvent list option \<Rightarrow> ZoomEvent \<Rightarrow> int \<Rightarrow> (int \<times> int) option" where
  "timelineOrderRangeFromZoom batch payload itemCount =
     (if itemCount < 1 then None
      else
        (let zoom = (case batch of Some (z # _) \<Rightarrow> z | _ \<Rightarrow> payload) in
         case (ze_startValue zoom, ze_endValue zoom) of
           (Some startValue, Some endValue) \<Rightarrow>
             (let s = clampOrder \<lfloor>startValue\<rfloor> itemCount; e = clampOrder \<lceil>endValue\<rceil> itemCount in Some (min s e, max s e))
         | _ \<Rightarrow>
             (case (ze_start zoom, ze_end zoom) of
                (Some start, Some end') \<Rightarrow>
                  (let s = clampOrder \<lfloor>1 + of_int (itemCount - 1) * start / 100\<rfloor> itemCount;
                       e = clampOrder \<lceil>1 + of_int (itemCount - 1) * end' / 100\<rceil> itemCount in Some (min s e, max s e))
              | _ \<Rightarrow> None)))"

subsection \<open>Summary\<close>

definition percentile :: "rat list \<Rightarrow> rat \<Rightarrow> rat" where
  "percentile values ratio =
     (if values = [] then 0
      else
        (let sorted_values = js_sort (\<lambda>left right. left - right) values; n = int (length values) in
         sorted_values ! nat (min (n - 1) (\<lceil>of_int n * ratio\<rceil> - 1))))"

record TimelineSummary =
  ts_executionSteps :: nat
  ts_judgeEvaluations :: nat
  ts_judgeFirstAttemptSuccessSamples :: nat
  ts_judgeFirstAttemptSuccessRate :: rat
  ts_judgeRulesFallbackSamples :: nat
  ts_judgeRulesFallbackRate :: rat
  ts_completionRate :: rat
  ts_cacheHitRate :: rat
  ts_userChargeSamples :: nat
  ts_totalUserChargeCny :: rat
  ts_unsettledRequests :: nat
  ts_p50FirstModelEventLatencyMs :: rat
  ts_p95FirstModelEventLatencyMs :: rat

definition rate :: "nat \<Rightarrow> nat \<Rightarrow> rat" where
  "rate part whole = (if whole \<noteq> 0 then of_nat part / of_nat whole else 0)"

text \<open>Members that repeat another one (\<open>apiSteps\<close>, \<open>judgeCalledRequests\<close>, \<open>actualTotalCostCny\<close>) are left out.\<close>

definition summarizeTimelineItems :: "ACUWorkTimelineItem list \<Rightarrow> TimelineSummary" where
  "summarizeTimelineItems items =
     (let judged = filter (\<lambda>i. ti_pointType i = JudgePoint \<or> (optional_text (ti_judgeProtocol i) [] = [] \<and> ti_judgeCalled i)) items;
          firstAttemptSamples = filter ti_judgeFirstAttemptRecorded judged;
          fallbackSamples = filter ti_judgeFallbackRecorded judged;
          executions = filter (\<lambda>i. ti_pointType i = ExecutionPoint) items;
          completed = filter (\<lambda>i. isCompletedStatus (ti_status i)) executions;
          userChargeSamples = filter (\<lambda>i. ti_billingStatus i = Finalized \<and> timelineUserCharge i \<noteq> None) items;
          latencies = filter (\<lambda>v. v > 0) (map ti_firstModelEventLatencyMs items);
          inputTokens = sum_list (map ti_inputTokens executions) in
      \<lparr>ts_executionSteps = length executions, ts_judgeEvaluations = length judged,
       ts_judgeFirstAttemptSuccessSamples = length firstAttemptSamples,
       ts_judgeFirstAttemptSuccessRate = rate (length (filter ti_judgeFirstAttemptSucceeded firstAttemptSamples)) (length firstAttemptSamples),
       ts_judgeRulesFallbackSamples = length fallbackSamples,
       ts_judgeRulesFallbackRate = rate (length (filter (\<lambda>i. ti_judgeStatus i = ''rules_fallback'' \<or> ti_judgeResultSource i = ''rules_strategy'')
         fallbackSamples)) (length fallbackSamples),
       ts_completionRate = rate (length completed) (length executions),
       ts_cacheHitRate = (if inputTokens \<noteq> 0 then sum_list (map ti_cachedInputTokens executions) / inputTokens else 0),
       ts_userChargeSamples = length userChargeSamples,
       ts_totalUserChargeCny = sum_list (map (\<lambda>i. if ti_billingStatus i = Finalized then opt_or (timelineUserCharge i) 0 else 0) items),
       ts_unsettledRequests = length (filter (\<lambda>i. ti_billingStatus i = Unsettled) items),
       ts_p50FirstModelEventLatencyMs = percentile latencies (5 / 10),
       ts_p95FirstModelEventLatencyMs = percentile latencies (95 / 100)\<rparr>)"

subsection \<open>Trend lines\<close>

definition CURVE_DISPLAY_SMOOTH_RADIUS :: nat where
  "CURVE_DISPLAY_SMOOTH_RADIUS = 5"

definition CURVE_DISPLAY_SMOOTH_SIGMA :: rat where
  "CURVE_DISPLAY_SMOOTH_SIGMA = 25 / 10"

definition smooth_weight :: "(rat \<Rightarrow> rat) \<Rightarrow> nat \<Rightarrow> rat" where
  "smooth_weight math_exp index =
     (let offset = of_nat index - of_nat CURVE_DISPLAY_SMOOTH_RADIUS in
      math_exp (- (offset * offset) / (2 * CURVE_DISPLAY_SMOOTH_SIGMA * CURVE_DISPLAY_SMOOTH_SIGMA)))"

definition smooth_at :: "rat list \<Rightarrow> rat list \<Rightarrow> nat \<Rightarrow> rat" where
  "smooth_at weights values index =
     (let start = index - CURVE_DISPLAY_SMOOTH_RADIUS; end' = min (length values - 1) (index + CURVE_DISPLAY_SMOOTH_RADIUS);
          (weightedSum, weightTotal) = foldl (\<lambda>(weightedSum, weightTotal) neighbor.
            let weight = weights ! (neighbor + CURVE_DISPLAY_SMOOTH_RADIUS - index) in
            (weightedSum + values ! neighbor * weight, weightTotal + weight)) (0, 0) [start..<end' + 1] in
      weightedSum / weightTotal)"

definition gaussianSmooth :: "(rat \<Rightarrow> rat) \<Rightarrow> rat list \<Rightarrow> rat list" where
  "gaussianSmooth math_exp values =
     (let weights = map (smooth_weight math_exp) [0..<CURVE_DISPLAY_SMOOTH_RADIUS * 2 + 1] in
      map (smooth_at weights values) [0..<length values])"

definition known_values :: "rat option list \<Rightarrow> (nat \<times> rat) list" where
  "known_values data = List.map_filter (\<lambda>(i, v). map_option (Pair i) v) (enumerate 0 data)"

definition assign_all :: "(nat \<Rightarrow> rat) \<Rightarrow> rat option list \<Rightarrow> nat list \<Rightarrow> rat option list" where
  "assign_all f result is' = foldl (\<lambda>result index. result[index := Some (f index)]) result is'"

definition interpolate_gap :: "rat option list \<Rightarrow> (nat \<times> rat) \<times> (nat \<times> rat) \<Rightarrow> rat option list" where
  "interpolate_gap result pair =
     (case pair of ((li, lv), (ri, rv)) \<Rightarrow>
        assign_all (\<lambda>index. lv + (rv - lv) * ((of_nat index - of_nat li) / (of_nat ri - of_nat li))) result [li + 1..<ri])"

text \<open>The gaps of a series filled: before the first and after the last known value, and between neighbouring ones.\<close>

definition fill_gaps :: "rat option list \<Rightarrow> rat option list" where
  "fill_gaps data =
     (let known = known_values data in
      if known = [] then data
      else
        (let (first, first_value) = hd known; last_known = fst (last known);
             result1 = assign_all (\<lambda>_. first_value) data [0..<first];
             result2 = foldl interpolate_gap result1 (zip known (tl known)) in
         assign_all (\<lambda>_. opt_or (result2 ! last_known) 0) result2 [last_known + 1..<length data]))"

definition smoothTimelineData :: "(rat \<Rightarrow> rat) \<Rightarrow> rat option list \<Rightarrow> rat option list" where
  "smoothTimelineData math_exp data =
     (let known = known_values data in
      if known = [] then data
      else
        (let first = fst (hd known); last_known = fst (last known);
             result = map (\<lambda>v. opt_or v 0) (fill_gaps data);
             smoothed = gaussianSmooth math_exp result in
         map (\<lambda>index. Some (if index < first \<or> last_known < index then result ! index else smoothed ! index)) [0..<length data]))"

end
