(* ===== verification/TimelineProperties.thy ===== *)
theory TimelineProperties
  imports Timeline
begin

text \<open>
  Properties of the work timeline: the rank of a percentile, the range of a zoom, escaping of text in tooltips, the lines
  of the difficulty chart, and that a trend line stays within the values it was computed from.
\<close>

subsection \<open>Percentiles\<close>

interpretation numeric_order: comparator "\<lambda>left right :: rat. left - right"
  by unfold_locales auto

lemma rank_in_sorted:
  fixes s :: "rat list"
  assumes "sorted_wrt (\<le>) s" "i < length s"
  shows "i < length (filter (\<lambda>x. x \<le> s ! i) s)" "length (filter (\<lambda>x. x < s ! i) s) \<le> i"
proof -
  have "x \<le> s ! i" if x: "x \<in> set (take (Suc i) s)" for x
  proof -
    obtain j where j: "j < Suc i" "x = s ! j" using x assms(2) by (auto simp: in_set_conv_nth)
    then show ?thesis using sorted_wrt_nth_less [OF assms(1), of j i] assms(2) by (cases "j = i") auto
  qed
  then have "length (filter (\<lambda>x. x \<le> s ! i) (take (Suc i) s)) = Suc i" using assms(2) by (simp add: filter_True)
  moreover have "length (filter P s) = length (filter P (take k s)) + length (filter P (drop k s))" for P k
    by (metis append_take_drop_id filter_append length_append)
  ultimately show "i < length (filter (\<lambda>x. x \<le> s ! i) s)" by (metis less_add_Suc1 add_Suc)
  have "s ! i \<le> x" if x: "x \<in> set (drop i s)" for x
  proof -
    obtain j where "j < length s - i" "x = s ! (i + j)" using x by (auto simp: in_set_conv_nth)
    then have j: "i + j < length s" "x = s ! (i + j)" by simp_all
    then show ?thesis using sorted_wrt_nth_less [OF assms(1), of i "i + j"] by (cases "j = 0") auto
  qed
  then have "filter (\<lambda>x. x < s ! i) (drop i s) = []" by (auto simp: filter_empty_conv not_less)
  moreover have "length (filter (\<lambda>x. x < s ! i) (take i s)) \<le> i" by (metis length_filter_le length_take min.boundedE)
  ultimately show "length (filter (\<lambda>x. x < s ! i) s) \<le> i"
    using \<open>\<And>P k. length (filter P s) = length (filter P (take k s)) + length (filter P (drop k s))\<close> [of "\<lambda>x. x < s ! i" i] by simp
qed

text \<open>
  A percentile is one of the values; at least the given share of the values is at most it, and less than that share is
  smaller.
\<close>

theorem percentile_rank:
  assumes "values \<noteq> []" "0 < ratio" "ratio \<le> 1"
  shows "percentile values ratio \<in> set values
    \<and> of_nat (length values) * ratio \<le> of_nat (length (filter (\<lambda>x. x \<le> percentile values ratio) values))
    \<and> of_nat (length (filter (\<lambda>x. x < percentile values ratio) values)) < of_nat (length values) * ratio"
proof -
  define s where "s = js_sort (\<lambda>left right :: rat. left - right) values"
  define n where "n = int (length values)"
  define c where "c = \<lceil>of_int n * ratio\<rceil>"
  have n: "0 < n" using assms(1) by (simp add: n_def)
  have "0 < of_int n * ratio" using n assms(2) by simp
  then have c1: "1 \<le> c" by (simp add: c_def)
  have "of_int n * ratio \<le> of_int n * 1" using n assms(3) by (intro mult_left_mono) auto
  then have cn: "c \<le> n" by (simp add: c_def ceiling_le_iff)
  define i where "i = nat (c - 1)"
  have i: "i < length s" and ci: "c = int i + 1" using c1 cn by (auto simp: i_def s_def n_def)
  have "min (n - 1) (c - 1) = c - 1" using cn by simp
  then have p: "percentile values ratio = s ! i"
    using assms(1) by (simp add: percentile_def Let_def s_def i_def c_def n_def)
  have srt: "sorted_wrt (\<le>) s" using numeric_order.sorted_js_sort [of "values"] by (simp add: s_def)
  have "mset s = mset values" by (simp add: s_def)
  then have len: "length (filter P s) = length (filter P values)" for P by (metis mset_filter size_mset)
  have "s ! i \<in> set values" using nth_mem [OF i] by (simp add: s_def)
  moreover have "of_int n * ratio \<le> of_int c" "of_int c < of_int n * ratio + 1" unfolding c_def by linarith+
  moreover have "int i + 1 \<le> int (length (filter (\<lambda>x. x \<le> s ! i) values))" "int (length (filter (\<lambda>x. x < s ! i) values)) \<le> int i"
    using rank_in_sorted [OF srt i] by (simp_all add: len)
  then have "(of_int c :: rat) \<le> of_nat (length (filter (\<lambda>x. x \<le> s ! i) values))"
    "of_nat (length (filter (\<lambda>x. x < s ! i) values)) \<le> (of_int c - 1 :: rat)"
    unfolding ci by (simp_all flip: of_nat_Suc)
  ultimately show ?thesis unfolding p by (auto simp: n_def)
qed

subsection \<open>Zoom\<close>

text \<open>
  Whatever the chart reports, the range of requests is within the list and not empty, and the whole axis selects all.
\<close>

theorem zoom_range_within:
  assumes "timelineOrderRangeFromZoom batch payload itemCount = Some (s, e)"
  shows "1 \<le> s \<and> s \<le> e \<and> e \<le> itemCount"
proof -
  have "1 \<le> itemCount" using assms by (auto simp: timelineOrderRangeFromZoom_def split: if_splits)
  then have "1 \<le> clampOrder x itemCount" "clampOrder x itemCount \<le> itemCount" for x by (auto simp: clampOrder_def)
  then show ?thesis using assms by (auto simp: timelineOrderRangeFromZoom_def Let_def split: if_splits option.splits list.splits)
qed

lemma zoom_whole:
  assumes "1 \<le> itemCount"
  shows "timelineOrderRangeFromZoom None \<lparr>ze_start = Some 0, ze_end = Some 100, ze_startValue = None, ze_endValue = None\<rparr> itemCount =
    Some (1, itemCount)"
proof -
  have "1 + of_int (itemCount - 1) * 100 / 100 = (of_int itemCount :: rat)" by (simp add: field_simps)
  then have "\<lceil>1 + of_int (itemCount - 1) * 100 / 100 :: rat\<rceil> = itemCount" by (metis ceiling_of_int)
  then show ?thesis using assms by (simp add: timelineOrderRangeFromZoom_def Let_def clampOrder_def del: of_int_diff)
qed

subsection \<open>Escaping\<close>

definition escaped :: "char \<Rightarrow> string" where
  "escaped c = (if c = CHR ''&'' then ''&amp;'' else if c = CHR ''<'' then ''&lt;'' else if c = CHR ''>'' then ''&gt;''
     else if c = CHR 0x22 then ''&quot;'' else if c = CHR 0x27 then ''&#039;'' else [c])"

lemma replace_char_append [simp]: "replace_char c r (s @ t) = replace_char c r s @ replace_char c r t"
  "replace_char c r [] = []" "replace_char c r (x # s) = (if x = c then r else [x]) @ replace_char c r s"
  by (simp_all add: replace_char_def)

lemma escapeHtml_chars: "escapeHtml s = concat (map escaped s)"
proof (induction s)
  case (Cons c s)
  have "escapeHtml (c # s) = escaped c @ escapeHtml s" by (simp add: escapeHtml_def escaped_def)
  then show ?case using Cons by simp
qed (simp add: escapeHtml_def)

lemma escaped_decides: "escaped c @ s = escaped d @ t \<Longrightarrow> c = d \<and> s = t"
  by (auto simp: escaped_def split: if_splits)

text \<open>
  Text put into a tooltip cannot open a tag or leave an attribute: no angle bracket or quote is left, and different texts
  stay different.
\<close>

theorem escape_html_safe:
  "set (escapeHtml s) \<inter> {CHR ''<'', CHR ''>'', CHR 0x22, CHR 0x27} = {} \<and> inj escapeHtml"
proof -
  have "set (escaped c) \<inter> {CHR ''<'', CHR ''>'', CHR 0x22, CHR 0x27} = {}" for c by (simp add: escaped_def)
  then have "set (escapeHtml s) \<inter> {CHR ''<'', CHR ''>'', CHR 0x22, CHR 0x27} = {}" unfolding escapeHtml_chars by auto
  moreover have "concat (map escaped a) = concat (map escaped b) \<Longrightarrow> a = b" for a b
  proof (induction a arbitrary: b)
    case Nil
    have "escaped c \<noteq> []" for c by (simp add: escaped_def)
    then show ?case using Nil by (cases b) auto
  next
    case (Cons c a)
    have "escaped c \<noteq> []" by (simp add: escaped_def)
    then obtain d b' where b: "b = d # b'" using Cons.prems by (cases b) auto
    then show ?case using escaped_decides [of c "concat (map escaped a)" d "concat (map escaped b')"] Cons by simp
  qed
  ultimately show ?thesis by (auto simp: escapeHtml_chars intro!: injI)
qed

subsection \<open>Trend lines\<close>

text \<open>All numbers of a series within bounds.\<close>

definition ranged :: "rat \<Rightarrow> rat \<Rightarrow> rat option list \<Rightarrow> bool" where
  "ranged lo hi xs \<longleftrightarrow> (\<forall>v. Some v \<in> set xs \<longrightarrow> lo \<le> v \<and> v \<le> hi)"

lemma assign_all_nth:
  "length (assign_all f xs is') = length xs"
  "j < length xs \<Longrightarrow> assign_all f xs is' ! j = (if j \<in> set is' then Some (f j) else xs ! j)"
proof -
  have "length (assign_all f xs is') = length xs \<and> (j < length xs \<longrightarrow> assign_all f xs is' ! j = (if j \<in> set is' then Some (f j) else xs ! j))" for j
    unfolding assign_all_def by (induction is' arbitrary: xs) (auto simp: nth_list_update)
  then show "length (assign_all f xs is') = length xs"
    "j < length xs \<Longrightarrow> assign_all f xs is' ! j = (if j \<in> set is' then Some (f j) else xs ! j)" by auto
qed

lemma assign_all_ranged:
  assumes "ranged lo hi xs" "\<And>i. i \<in> set is' \<Longrightarrow> lo \<le> f i \<and> f i \<le> hi"
  shows "ranged lo hi (assign_all f xs is')"
  unfolding ranged_def
proof (intro allI impI)
  fix v assume "Some v \<in> set (assign_all f xs is')"
  then obtain j where "j < length xs" "assign_all f xs is' ! j = Some v" by (auto simp: in_set_conv_nth assign_all_nth(1))
  then show "lo \<le> v \<and> v \<le> hi" using assms(1) assms(2) [of j] nth_mem [of j xs]
    by (cases "j \<in> set is'") (auto simp: assign_all_nth(2) ranged_def)
qed

lemma between_bounds:
  fixes a b :: rat
  assumes "lo \<le> a" "a \<le> hi" "lo \<le> b" "b \<le> hi" "0 \<le> t" "t \<le> 1"
  shows "lo \<le> a + (b - a) * t \<and> a + (b - a) * t \<le> hi"
proof -
  have e: "a + (b - a) * t = (1 - t) * a + t * b" by (simp add: algebra_simps)
  have "(1 - t) * lo + t * lo \<le> (1 - t) * a + t * b" "(1 - t) * a + t * b \<le> (1 - t) * hi + t * hi"
    using assms by (intro add_mono mult_left_mono; simp)+
  then show ?thesis unfolding e by (simp add: algebra_simps)
qed

lemma gaps_ranged:
  assumes "ranged lo hi xs" "\<And>l r. (l, r) \<in> set ps \<Longrightarrow> fst l < fst r \<and> lo \<le> snd l \<and> snd l \<le> hi \<and> lo \<le> snd r \<and> snd r \<le> hi"
  shows "ranged lo hi (foldl interpolate_gap xs ps)"
  using assms
proof (induction ps arbitrary: xs)
  case (Cons p ps)
  obtain li lv ri rv where p: "p = ((li, lv), (ri, rv))" by (metis surj_pair)
  have b: "li < ri" "lo \<le> lv" "lv \<le> hi" "lo \<le> rv" "rv \<le> hi" using Cons.prems(2) [of "(li, lv)" "(ri, rv)"] by (auto simp: p)
  have "ranged lo hi (interpolate_gap xs p)"
    unfolding p interpolate_gap_def prod.case
  proof (rule assign_all_ranged [OF Cons.prems(1)])
    fix i assume "i \<in> set [li + 1..<ri]"
    then have "0 \<le> (of_nat i - of_nat li) / (of_nat ri - of_nat li :: rat)" "(of_nat i - of_nat li) / (of_nat ri - of_nat li :: rat) \<le> 1"
      using b(1) by (auto simp: divide_le_eq)
    then show "lo \<le> lv + (rv - lv) * ((of_nat i - of_nat li) / (of_nat ri - of_nat li))
        \<and> lv + (rv - lv) * ((of_nat i - of_nat li) / (of_nat ri - of_nat li)) \<le> hi" using b by (intro between_bounds)
  qed
  moreover have "fst l < fst r \<and> lo \<le> snd l \<and> snd l \<le> hi \<and> lo \<le> snd r \<and> snd r \<le> hi" if "(l, r) \<in> set ps" for l r
    using that by (intro Cons.prems(2)) simp
  ultimately show ?case unfolding foldl.simps by (rule Cons.IH)
qed simp

lemma gaps_nth:
  "length (foldl interpolate_gap xs ps) = length xs"
  "j < length xs \<Longrightarrow> xs ! j \<noteq> None \<or> (\<exists>(l, r) \<in> set ps. fst l < j \<and> j < fst r) \<Longrightarrow> foldl interpolate_gap xs ps ! j \<noteq> None"
proof -
  have l: "length (interpolate_gap xs p) = length xs" for xs p by (simp add: interpolate_gap_def assign_all_nth(1) split: prod.split)
  then show len: "length (foldl interpolate_gap xs ps) = length xs" by (induction ps arbitrary: xs) simp_all
  have one: "interpolate_gap xs ((li, lv), (ri, rv)) ! j = None \<longleftrightarrow> xs ! j = None \<and> \<not> (li < j \<and> j < ri)" if "j < length xs" for xs li lv ri rv
    using that by (auto simp: interpolate_gap_def assign_all_nth(2))
  show "foldl interpolate_gap xs ps ! j \<noteq> None" if "j < length xs" "xs ! j \<noteq> None \<or> (\<exists>(l, r) \<in> set ps. fst l < j \<and> j < fst r)"
    using that
  proof (induction ps arbitrary: xs)
    case (Cons p ps)
    obtain li lv ri rv where p: "p = ((li, lv), (ri, rv))" by (metis surj_pair)
    show ?case unfolding foldl.simps
      by (rule Cons.IH) (use Cons.prems one [of xs li lv ri rv] in \<open>auto simp: l p\<close>)
  qed simp
qed

lemma known_values_set: "(i, v) \<in> set (known_values data) \<longleftrightarrow> i < length data \<and> data ! i = Some v"
proof -
  have "(i, v) \<in> set (List.map_filter (\<lambda>(i, v). map_option (Pair i) v) ps) \<longleftrightarrow> (i, Some v) \<in> set ps" for ps :: "(nat \<times> rat option) list"
    by (induction ps) (auto simp: map_filter_simps split: option.splits)
  then show ?thesis by (auto simp: known_values_def in_set_enumerate_eq)
qed

lemma known_values_sorted: "sorted_wrt (<) (map fst (known_values data))"
proof -
  have "sorted_wrt (<) (map fst (List.map_filter (\<lambda>(i, v). map_option (Pair i) v) (enumerate n xs)))
      \<and> (\<forall>i \<in> set (map fst (List.map_filter (\<lambda>(i, v). map_option (Pair i) v) (enumerate n xs))). n \<le> i)" for n and xs :: "rat option list"
  proof (induction xs arbitrary: n)
    case (Cons x xs)
    have "\<forall>i \<in> set (map fst (List.map_filter (\<lambda>(i, v). map_option (Pair i) v) (enumerate (Suc n) xs))). n < i"
      using Cons.IH [of "Suc n"] by (meson Suc_le_lessD)
    then show ?case using Cons.IH [of "Suc n"] by (cases x) (auto simp: map_filter_simps)
  qed (simp add: map_filter_simps)
  then show ?thesis by (simp add: known_values_def)
qed

text \<open>A position between the first and the last of a rising list is in the list or between neighbours.\<close>

lemma between_neighbours:
  assumes "sorted_wrt (<) (map fst ks)" "ks \<noteq> []" "fst (hd ks) \<le> j" "j \<le> fst (last ks)"
  shows "j \<in> fst ` set ks \<or> (\<exists>(l, r) \<in> set (zip ks (tl ks)). fst l < j \<and> j < (fst r :: nat))"
  using assms
proof (induction ks)
  case (Cons k ks)
  show ?case
  proof (cases "ks = [] \<or> j = fst k")
    case False
    then obtain k2 ks' where ks: "ks = k2 # ks'" by (cases ks) auto
    show ?thesis
    proof (cases "fst k2 \<le> j")
      case True
      then show ?thesis using Cons.IH Cons.prems False by (auto simp: ks)
    next
      case g: False
      then show ?thesis using Cons.prems False by (auto simp: ks)
    qed
  qed (use Cons.prems in auto)
qed simp

lemma neighbours_rise: "sorted_wrt (<) (map fst ks) \<Longrightarrow> (l, r) \<in> set (zip ks (tl ks)) \<Longrightarrow> fst l < (fst r :: nat) \<and> l \<in> set ks \<and> r \<in> set ks"
proof (induction ks)
  case (Cons k ks)
  then show ?case by (cases ks) auto
qed simp

lemma fill_gaps_total:
  assumes "ranged lo hi data" "known_values data \<noteq> []"
  shows "length (fill_gaps data) = length data" "j < length data \<Longrightarrow> fill_gaps data ! j \<noteq> None" "ranged lo hi (fill_gaps data)"
proof -
  define ks where "ks = known_values data"
  define a where "a = fst (hd ks)"
  define b where "b = fst (last ks)"
  define r1 where "r1 = assign_all (\<lambda>_. snd (hd ks)) data [0..<a]"
  define r2 where "r2 = foldl interpolate_gap r1 (zip ks (tl ks))"
  have e: "fill_gaps data = assign_all (\<lambda>_. opt_or (r2 ! b) 0) r2 [b + 1..<length data]"
    using assms(2) by (simp add: fill_gaps_def Let_def ks_def a_def b_def r1_def r2_def split_beta)
  have srt: "sorted_wrt (<) (map fst ks)" and ne: "ks \<noteq> []" using known_values_sorted assms(2) by (simp_all add: ks_def)
  have mem: "i < length data \<and> data ! i = Some v \<and> lo \<le> v \<and> v \<le> hi" if "(i, v) \<in> set ks" for i v
    using that assms(1) nth_mem [of i data] by (auto simp: ks_def known_values_set ranged_def)
  have val: "lo \<le> snd k \<and> snd k \<le> hi" if "k \<in> set ks" for k using mem [of "fst k" "snd k"] that by simp
  have l: "length r1 = length data" "length r2 = length data" by (simp_all add: r1_def r2_def assign_all_nth(1) gaps_nth(1))
  show "length (fill_gaps data) = length data" by (simp add: e assign_all_nth(1) l)
  have "ranged lo hi r1" unfolding r1_def using val [of "hd ks"] ne by (intro assign_all_ranged [OF assms(1)]) auto
  then have g2: "ranged lo hi r2" unfolding r2_def
    by (rule gaps_ranged) (use neighbours_rise [OF srt] val in blast)
  have t: "r2 ! j \<noteq> None" if j: "j < length data" "j \<le> b" for j
  proof (cases "j < a")
    case True
    then have "r1 ! j \<noteq> None" using j by (simp add: r1_def assign_all_nth(2))
    then show ?thesis unfolding r2_def using gaps_nth(2) [of j r1] j l by simp
  next
    case False
    then have "j \<in> fst ` set ks \<or> (\<exists>(l, r) \<in> set (zip ks (tl ks)). fst l < j \<and> j < fst r)"
      using between_neighbours [OF srt ne, of j] j by (simp add: a_def b_def)
    moreover have "r1 ! j \<noteq> None" if "j \<in> fst ` set ks" using that mem j by (auto simp: r1_def assign_all_nth(2))
    ultimately have "r1 ! j \<noteq> None \<or> (\<exists>(l, r) \<in> set (zip ks (tl ks)). fst l < j \<and> j < fst r)" by blast
    then show ?thesis unfolding r2_def using j l by (intro gaps_nth(2)) simp_all
  qed
  have "last ks \<in> set ks" using ne by simp
  then have b: "b < length data" using mem [of "fst (last ks)" "snd (last ks)"] by (simp add: b_def)
  then obtain v where v: "r2 ! b = Some v" using t [of b] by auto
  then have vr: "lo \<le> v \<and> v \<le> hi" using g2 nth_mem [of b r2] b l by (simp add: ranged_def)
  show "fill_gaps data ! j \<noteq> None" if j: "j < length data" for j
    using t [of j] j l by (cases "j \<le> b") (auto simp: e assign_all_nth(2))
  show "ranged lo hi (fill_gaps data)" unfolding e by (rule assign_all_ranged [OF g2]) (use vr v in \<open>simp add: opt_or_def\<close>)
qed

text \<open>A weighted mean is between the bounds of the values.\<close>

lemma weighted_mean:
  assumes "\<And>i. i \<in> set is' \<Longrightarrow> 0 < w i \<and> lo \<le> f i \<and> f i \<le> (hi :: rat)" "is' \<noteq> []"
  shows "lo \<le> sum_list (map (\<lambda>i. f i * w i) is') / sum_list (map w is')" "sum_list (map (\<lambda>i. f i * w i) is') / sum_list (map w is') \<le> hi"
proof -
  have "0 < sum_list (map w is') \<and> lo * sum_list (map w is') \<le> sum_list (map (\<lambda>i. f i * w i) is')
      \<and> sum_list (map (\<lambda>i. f i * w i) is') \<le> hi * sum_list (map w is')"
    using assms(2,1)
  proof (induction is' rule: list_nonempty_induct)
    case (single i)
    then show ?case by (simp add: mult_right_mono)
  next
    case (cons i is')
    have "lo * w i \<le> f i * w i" "f i * w i \<le> hi * w i" using cons.prems [of i] by (simp_all add: mult_right_mono)
    then show ?case using cons.IH cons.prems [of i] cons.prems by (simp add: distrib_left add_mono add_pos_pos)
  qed
  then show "lo \<le> sum_list (map (\<lambda>i. f i * w i) is') / sum_list (map w is')" "sum_list (map (\<lambda>i. f i * w i) is') / sum_list (map w is') \<le> hi"
    by (simp_all add: le_divide_eq divide_le_eq)
qed

lemma smooth_sums:
  "foldl (\<lambda>(ws, wt) n. let weight = w n in (ws + f n * weight, wt + weight)) (p, q) is' =
    (p + sum_list (map (\<lambda>n. f n * w n) is'), q + (sum_list (map w is') :: rat))"
  by (induction is' arbitrary: p q) (simp_all add: Let_def)

lemma gaussian_between:
  assumes "\<And>x. 0 < math_exp x" "\<And>v. v \<in> set xs \<Longrightarrow> lo \<le> v \<and> v \<le> hi" "i < length xs"
  shows "lo \<le> gaussianSmooth math_exp xs ! i \<and> gaussianSmooth math_exp xs ! i \<le> hi"
proof -
  define R where "R = CURVE_DISPLAY_SMOOTH_RADIUS"
  define N where "N = [i - R..<min (length xs - 1) (i + R) + 1]"
  define w where "w = (\<lambda>n. map (smooth_weight math_exp) [0..<R * 2 + 1] ! (n + R - i))"
  have e: "gaussianSmooth math_exp xs ! i = sum_list (map (\<lambda>n. xs ! n * w n) N) / sum_list (map w N)"
  proof -
    have "gaussianSmooth math_exp xs ! i = smooth_at (map (smooth_weight math_exp) [0..<R * 2 + 1]) xs i"
      using assms(3) unfolding gaussianSmooth_def Let_def R_def by simp
    also have "\<dots> = sum_list (map (\<lambda>n. xs ! n * w n) N) / sum_list (map w N)"
      unfolding smooth_at_def Let_def smooth_sums [unfolded Let_def] prod.case add_0 N_def R_def w_def ..
    finally show ?thesis .
  qed
  have "i \<in> set N" using assms(3) by (auto simp: N_def)
  then have ne: "N \<noteq> []" by auto
  have "0 < w n \<and> lo \<le> xs ! n \<and> xs ! n \<le> hi" if n: "n \<in> set N" for n
  proof -
    have b: "n < length xs" "n + R - i < R * 2 + 1" using n assms(3) by (auto simp: N_def)
    then have "w n = smooth_weight math_exp (n + R - i)" by (simp add: w_def del: upt_Suc)
    then have "0 < w n" using assms(1) by (simp add: smooth_weight_def Let_def)
    then show ?thesis using assms(2) nth_mem [OF b(1)] by blast
  qed
  then show ?thesis unfolding e using weighted_mean [of N w lo "\<lambda>n. xs ! n" hi] ne by blast
qed

text \<open>
  C31: The trend line of a series with at least one value has a value at every request, and none of them leaves the range of
  the values known.
\<close>

theorem trend_within_observations:
  assumes "\<And>x. 0 < math_exp x" and "Some v0 \<in> set data" and "\<And>v. Some v \<in> set data \<Longrightarrow> lo \<le> v \<and> v \<le> hi"
  shows "length (smoothTimelineData math_exp data) = length data
    \<and> (\<forall>y \<in> set (smoothTimelineData math_exp data). \<exists>v. y = Some v \<and> lo \<le> v \<and> v \<le> hi)"
proof -
  have r: "ranged lo hi data" using assms(3) by (simp add: ranged_def)
  obtain i where "i < length data" "data ! i = Some v0" using assms(2) by (auto simp: in_set_conv_nth)
  then have k: "known_values data \<noteq> []" using known_values_set [of i v0 data] by auto
  define xs where "xs = map (\<lambda>v. opt_or v 0) (fill_gaps data)"
  note f = fill_gaps_total [OF r k]
  have len: "length xs = length data" by (simp add: xs_def f(1))
  have n: "lo \<le> xs ! j \<and> xs ! j \<le> hi" if j: "j < length data" for j
  proof -
    obtain v where v: "fill_gaps data ! j = Some v" using f(2) [OF j] by auto
    then have "Some v \<in> set (fill_gaps data)" using nth_mem [of j "fill_gaps data"] j f(1) by simp
    then show ?thesis using f(3) j v by (simp add: ranged_def xs_def f(1) opt_or_def)
  qed
  then have s: "lo \<le> v \<and> v \<le> hi" if "v \<in> set xs" for v using that by (auto simp: in_set_conv_nth len)
  have "lo \<le> gaussianSmooth math_exp xs ! j \<and> gaussianSmooth math_exp xs ! j \<le> hi" if "j < length data" for j
    using gaussian_between [OF assms(1) s] that by (simp add: len)
  then show ?thesis using n k by (auto simp: smoothTimelineData_def Let_def xs_def [symmetric])
qed

subsection \<open>Concrete series\<close>

theorem percentile_rank_witness: "percentile [30, 10, 20] (1 / 2) \<in> set [30, 10, 20 :: rat]"
  using percentile_rank [of "[30, 10, 20]" "1 / 2"] by simp

theorem zoom_range_within_witness:
  "\<exists>s e. timelineOrderRangeFromZoom None \<lparr>ze_start = None, ze_end = None, ze_startValue = Some (- 3), ze_endValue = Some (25 / 10)\<rparr> 7 =
    Some (s, e) \<and> 1 \<le> s \<and> s \<le> e \<and> e \<le> 7"
proof -
  obtain s e where z: "timelineOrderRangeFromZoom None \<lparr>ze_start = None, ze_end = None, ze_startValue = Some (- 3), ze_endValue = Some (25 / 10)\<rparr> 7
      = Some (s, e)" by (simp add: timelineOrderRangeFromZoom_def Let_def)
  then show ?thesis using zoom_range_within [OF z] by blast
qed

definition sample_exp :: "rat \<Rightarrow> rat" where
  "sample_exp x = 1 / (1 + x * x)"

theorem trend_within_observations_witness:
  "length (smoothTimelineData sample_exp [None, Some 40, None, Some 80]) = 4
    \<and> list_all (\<lambda>y. \<exists>v. y = Some v \<and> 40 \<le> v \<and> v \<le> 80) (smoothTimelineData sample_exp [None, Some 40, None, Some 80])"
proof -
  have p: "0 < sample_exp x" for x by (simp add: sample_exp_def add_pos_nonneg)
  have b: "40 \<le> v \<and> v \<le> 80" if "Some v \<in> set [None, Some 40, None, Some (80 :: rat)]" for v using that by auto
  have k: "Some 40 \<in> set [None, Some 40, None, Some (80 :: rat)]" by simp
  show ?thesis using trend_within_observations [of sample_exp, OF p k b] by (simp add: list_all_iff)
qed

end
