(* ===== verification/Corridor.thy ===== *)
theory Corridor
  imports Timeline
begin

text \<open>
  The selection corridor and the price comparison of the pricing page: \<open>features/pricing/lib/selection-corridor.ts\<close> and
  \<open>features/pricing/lib/pricing-comparison.ts\<close>.  Members of the types that neither file reads or writes are left out, and of a
  candidate only its model is kept.  The payable of a route differs from \<open>PricingPayable\<close> in the spelling of its members only
  and is given as one; an object used as a dictionary is the list of its own members.  The ids of eligible models are a set,
  of which the code tests membership.  A
  price that is missing is \<open>None\<close>; the cost \<open>Number.POSITIVE_INFINITY\<close> of a model without a price is \<open>None\<close> as well.
\<close>

subsection \<open>Types, types.ts\<close>

datatype PriceStatus = Verified | Estimated

datatype PricingProtocol = ChatCompletions | Responses | MessagesProtocol

datatype PricingDisplayMode = PayableOnly | ReferenceOnly | Comparison

record ContextTierTokenPrices =
  tp_input :: "rat option"
  tp_output :: "rat option"
  tp_cachedInput :: "rat option"
  tp_cacheWrite :: "rat option"

record ContextTierPrices =
  tt_thresholdTokens :: rat
  tt_standard :: ContextTierTokenPrices
  tt_longContext :: ContextTierTokenPrices

text \<open>The members that payable and reference prices share, the bound of \<open>contextPricingRates\<close>.\<close>

record context_rates =
  rt_input :: "rat option"
  rt_output :: "rat option"
  rt_cached_input :: "rat option"
  rt_cache_write :: "rat option"
  rt_context_tiers :: "ContextTierPrices option"

record PricingPayable = context_rates +
  pay_status :: PriceStatus
  pay_policy_version :: string

record ACURoute =
  ro_executionProfileId :: string
  ro_lineCode :: "string option"
  ro_publicNote :: "string option"
  ro_selected :: bool
  ro_firstTokenLatencyMs :: "rat option"
  ro_firstTokenLatencySource :: "string option"
  ro_firstTokenSampleCount :: "rat option"
  ro_payable :: PricingPayable

record ACURoutingPrice =
  rp_executionProfileId :: string
  rp_routes :: "ACURoute list"

record ACUSelectionCorridorPoint =
  sp_difficulty :: rat
  sp_selectedModelId :: string
  sp_selectedQuality :: rat
  sp_qualityLower :: rat
  sp_qualityUpper :: rat
  sp_candidates :: "string list"

datatype CorridorPreference = Economy | Balanced | Quality

record ACUExecutionPresetSeries =
  es_modelId :: string
  es_points :: "(rat \<times> rat \<times> rat) list"

record ACUSelectionCorridor =
  co_pricing :: "(string \<times> ACURoutingPrice) list option"
  co_defaultPreference :: CorridorPreference
  co_supplyStrategy :: "string option"
  co_generatedAt :: string
  co_inputTokens :: rat
  co_expectedOutputTokens :: rat
  co_executionPresetSeries :: "ACUExecutionPresetSeries list"
  co_series :: "CorridorPreference \<Rightarrow> ACUSelectionCorridorPoint list"
  co_effective :: "ACUSelectionCorridorPoint list option"

datatype QuoteStatus = QuoteLoading | QuoteError | QuoteReady

record QuoteRoute =
  qo_id :: string
  qo_display_name :: string
  qo_line_code :: "string option"
  qo_public_note :: "string option"
  qo_selected :: bool
  qo_first_token_latency_ms :: "rat option"
  qo_first_token_latency_source :: "string option"
  qo_first_token_sample_count :: "rat option"
  qo_payable :: PricingPayable

record ACUQuote =
  aq_status :: QuoteStatus
  aq_protocol :: PricingProtocol
  aq_supply_strategy :: "string option"
  aq_generated_at :: "string option"
  aq_input_tokens :: "rat option"
  aq_output_tokens :: "rat option"
  aq_routes :: "QuoteRoute list"

record PricingModel =
  pm_model_name :: string
  pm_description :: "string option"
  pm_tags :: "string option"
  pm_supported_endpoint_types :: "string list option"
  pm_model_ratio :: rat
  pm_completion_ratio :: rat
  pm_cache_ratio :: "rat option"
  pm_create_cache_ratio :: "rat option"
  pm_input_price_per_million :: "rat option"
  pm_output_price_per_million :: "rat option"
  pm_cached_input_price_per_million :: "rat option"
  pm_payable :: "PricingPayable option"
  pm_payable_by_protocol :: "(PricingProtocol \<times> PricingPayable) list option"
  pm_acu_quote :: "ACUQuote option"
  pm_acu_active :: "bool option"
  pm_acu_status :: "string option"
  pm_acu_currently_eligible :: "bool option"
  pm_price_currency :: "string option"
  pm_price_semantics :: "string option"
  pm_acu_curve :: "CurvePoint list option"

subsection \<open>The corridor, selection-corridor.ts\<close>

definition payable_for :: "PricingModel \<Rightarrow> PricingProtocol \<Rightarrow> PricingPayable option" where
  "payable_for model protocol = Option.bind (pm_payable_by_protocol model) (\<lambda>m. map_of m protocol)"

definition corridorVisibleModels :: "PricingModel list \<Rightarrow> PricingProtocol \<Rightarrow> string list option \<Rightarrow> PricingModel list" where
  "corridorVisibleModels models protocol eligibleModelIds =
     filter (\<lambda>model.
       if (case eligibleModelIds of None \<Rightarrow> False | Some ids \<Rightarrow> pm_model_name model \<notin> set ids) then False
       else
         pm_acu_active model = Some True \<and> pm_price_currency model = Some ''CNY'' \<and> opt_or (pm_acu_curve model) [] \<noteq> [] \<and>
         (case payable_for model protocol of None \<Rightarrow> False
          | Some payable \<Rightarrow> rt_input payable \<noteq> None \<and> rt_output payable \<noteq> None)) models"

definition clampQuality :: "rat \<Rightarrow> rat" where
  "clampQuality value = min 100 (max 0 value)"

record CorridorDisplayValue =
  dv_difficulty :: rat
  dv_selectedQuality :: rat
  dv_qualityLower :: rat
  dv_qualityUpper :: rat

definition display_value :: "rat \<Rightarrow> rat \<Rightarrow> rat \<Rightarrow> rat \<Rightarrow> CorridorDisplayValue" where
  "display_value difficulty center lowerWidth upperWidth =
     (let selectedQuality = clampQuality center;
          qualityLower = clampQuality (selectedQuality - lowerWidth);
          qualityUpper = clampQuality (selectedQuality + upperWidth) in
      \<lparr>dv_difficulty = difficulty, dv_selectedQuality = selectedQuality,
       dv_qualityLower = min qualityLower selectedQuality, dv_qualityUpper = max qualityUpper selectedQuality\<rparr>)"

definition buildSmoothedCorridorDisplayValues ::
  "(rat \<Rightarrow> rat) \<Rightarrow> ACUSelectionCorridorPoint list \<Rightarrow> CorridorDisplayValue list" where
  "buildSmoothedCorridorDisplayValues math_exp values =
     (if values = [] then []
      else
        (let sortedValues = js_sort (\<lambda>left right. sp_difficulty left - sp_difficulty right) values;
             centers = map sp_selectedQuality sortedValues;
             lowerWidths = map (\<lambda>point. max 0 (sp_selectedQuality point - sp_qualityLower point)) sortedValues;
             upperWidths = map (\<lambda>point. max 0 (sp_qualityUpper point - sp_selectedQuality point)) sortedValues;
             smoothedCenters = gaussianSmooth math_exp centers;
             smoothedLowerWidths = gaussianSmooth math_exp lowerWidths;
             smoothedUpperWidths = gaussianSmooth math_exp upperWidths in
         map (\<lambda>(index, point). display_value (sp_difficulty point) (smoothedCenters ! index)
           (smoothedLowerWidths ! index) (smoothedUpperWidths ! index)) (enumerate 0 sortedValues)))"

definition resolveEffectiveCorridorPreference ::
  "rat option \<Rightarrow> ACUSelectionCorridor option \<Rightarrow> CorridorPreference \<Rightarrow> CorridorPreference" where
  "resolveEffectiveCorridorPreference previewTokenId corridor manualPreference =
     (case (previewTokenId, corridor) of (Some _, Some c) \<Rightarrow> co_defaultPreference c | _ \<Rightarrow> manualPreference)"

definition point_models :: "ACUSelectionCorridorPoint \<Rightarrow> string list" where
  "point_models point = filter (\<lambda>i. i \<noteq> []) (sp_selectedModelId point # sp_candidates point)"

definition corridorEligibleModelIds :: "ACUSelectionCorridor option \<Rightarrow> string list" where
  "corridorEligibleModelIds corridor =
     (case corridor of None \<Rightarrow> []
      | Some c \<Rightarrow> nub (
          concat (map point_models (concat (map (co_series c) [Economy, Balanced, Quality]))) @
          concat (map point_models (opt_or (co_effective c) [])) @
          map es_modelId (filter (\<lambda>preset. es_modelId preset \<noteq> [] \<and> es_points preset \<noteq> []) (co_executionPresetSeries c))))"

definition nearest_step :: "rat \<Rightarrow> ACUSelectionCorridorPoint option \<Rightarrow> ACUSelectionCorridorPoint \<Rightarrow> ACUSelectionCorridorPoint option" where
  "nearest_step difficulty nearest point =
     (case nearest of None \<Rightarrow> Some point
      | Some n \<Rightarrow> Some (if \<bar>sp_difficulty point - difficulty\<bar> < \<bar>sp_difficulty n - difficulty\<bar> then point else n))"

definition corridorEffectivePointAtDifficulty :: "ACUSelectionCorridor option \<Rightarrow> rat \<Rightarrow> ACUSelectionCorridorPoint option" where
  "corridorEffectivePointAtDifficulty corridor difficulty =
     foldl (nearest_step difficulty) None (opt_or (Option.bind corridor co_effective) [])"

definition corridorPointAtDifficulty ::
  "ACUSelectionCorridor option \<Rightarrow> CorridorPreference \<Rightarrow> rat \<Rightarrow> ACUSelectionCorridorPoint option" where
  "corridorPointAtDifficulty corridor preference difficulty =
     foldl (nearest_step difficulty) None (case corridor of None \<Rightarrow> [] | Some c \<Rightarrow> co_series c preference)"

subsection \<open>Current prices, pricing-comparison.ts\<close>

definition protocol_endpoint :: "PricingProtocol \<Rightarrow> string" where
  "protocol_endpoint p =
     (case p of ChatCompletions \<Rightarrow> ''openai'' | Responses \<Rightarrow> ''openai-response'' | MessagesProtocol \<Rightarrow> ''anthropic'')"

definition modelPricingProtocol :: "PricingModel \<Rightarrow> PricingProtocol \<Rightarrow> PricingProtocol" where
  "modelPricingProtocol model preferred =
     (let supported = set (opt_or (pm_supported_endpoint_types model) []) in
      if protocol_endpoint preferred \<in> supported then preferred
      else opt_or (find (\<lambda>protocol. protocol_endpoint protocol \<in> supported) [ChatCompletions, Responses, MessagesProtocol]) preferred)"

text \<open>\<open>String.split\<close> with a separator of several characters.\<close>

function split_by :: "string \<Rightarrow> string \<Rightarrow> string list" where
  "split_by sep s =
     (case find_at sep s of
        None \<Rightarrow> [s]
      | Some i \<Rightarrow> if sep = [] then [s] else take i s # split_by sep (drop (i + length sep) s))"
  by pat_completeness auto

termination split_by
proof (relation "measure (length \<circ> snd)")
  fix sep s :: string and i
  assume "find_at sep s = Some i" "sep \<noteq> []"
  then have "s \<noteq> []" by (cases s) auto
  then show "((sep, drop (i + length sep) s), sep, s) \<in> measure (length \<circ> snd)" using \<open>sep \<noteq> []\<close> by simp
qed simp

declare split_by.simps [simp del]

definition middle_dot :: string where
  "middle_dot = [CHR '' '', CHR 0xB7, CHR '' '']"

definition route_display_name :: "string option \<Rightarrow> string" where
  "route_display_name lineCode =
     (let code = opt_or lineCode [] in
      if length code = 4 \<and> list_all is_digit_char code then ''Line '' @ code else ''Route'')"

definition quote_route :: "ACURoute \<Rightarrow> QuoteRoute" where
  "quote_route route =
     \<lparr>qo_id = ro_executionProfileId route, qo_display_name = route_display_name (ro_lineCode route),
      qo_line_code = ro_lineCode route, qo_public_note = ro_publicNote route, qo_selected = ro_selected route,
      qo_first_token_latency_ms = ro_firstTokenLatencyMs route,
      qo_first_token_latency_source = ro_firstTokenLatencySource route,
      qo_first_token_sample_count = ro_firstTokenSampleCount route, qo_payable = ro_payable route\<rparr>"

definition usable_payable :: "PricingPayable \<Rightarrow> bool" where
  "usable_payable p =
     (case (rt_input p, rt_output p) of (Some i, Some out) \<Rightarrow> 0 \<le> i \<and> 0 \<le> out | _ \<Rightarrow> False)"

definition status_label :: "PricingModel \<Rightarrow> string \<Rightarrow> bool" where
  "status_label model label \<longleftrightarrow>
     pm_acu_status model = Some label \<or> label \<in> {''routing_active'', ''temporarily_unavailable''}"

definition ratio_to_input :: "PricingPayable option \<Rightarrow> (PricingPayable \<Rightarrow> rat option) \<Rightarrow> rat option" where
  "ratio_to_input payable field =
     (case payable of None \<Rightarrow> None
      | Some p \<Rightarrow> (case (field p, rt_input p) of (Some v, Some i) \<Rightarrow> if 0 < i then Some (v / i) else None | _ \<Rightarrow> None))"

definition preview_price :: "PricingModel \<Rightarrow> ACUSelectionCorridor option \<Rightarrow> QuoteStatus \<Rightarrow> ACURoutingPrice option" where
  "preview_price model corridor status =
     (if status = QuoteReady then Option.bind (Option.bind corridor co_pricing) (\<lambda>pricing. map_of pricing (pm_model_name model))
      else None)"

definition preview_payable :: "ACURoutingPrice option \<Rightarrow> PricingPayable option" where
  "preview_payable price =
     (let routes = map quote_route (case price of None \<Rightarrow> [] | Some p \<Rightarrow> rp_routes p);
          selected = find (\<lambda>route. qo_selected route \<and> Some (qo_id route) = map_option rp_executionProfileId price) routes in
      case map_option qo_payable selected of None \<Rightarrow> None | Some p \<Rightarrow> if usable_payable p then Some p else None)"

definition is_previewed :: "PricingModel \<Rightarrow> bool" where
  "is_previewed model \<longleftrightarrow>
     pm_price_currency model = Some ''CNY'' \<and>
     (case pm_price_semantics model of None \<Rightarrow> False | Some s \<Rightarrow> startsWith s ''estimated_user_'')"

definition preview_model ::
  "ACUSelectionCorridor option \<Rightarrow> PricingProtocol \<Rightarrow> QuoteStatus \<Rightarrow> PricingModel \<Rightarrow> PricingModel" where
  "preview_model corridor protocol status model =
     (if \<not> is_previewed model then model
      else
        (let price = preview_price model corridor status; payable = preview_payable price in
         model\<lparr>
           pm_description := map_option (\<lambda>d. join middle_dot (filter (\<lambda>l. \<not> status_label model l) (split_by middle_dot d)))
             (pm_description model),
           pm_tags := map_option (\<lambda>s. join '','' (filter (\<lambda>l. \<not> status_label model l) (map trim (split_on (CHR '','') s))))
             (pm_tags model),
           pm_acu_status := Some (if payable \<noteq> None then ''routing_active'' else ''temporarily_unavailable''),
           pm_payable := payable,
           pm_payable_by_protocol := Some (case payable of None \<Rightarrow> [] | Some p \<Rightarrow> [(protocol, p)]),
           pm_input_price_per_million := Option.bind payable rt_input,
           pm_output_price_per_million := Option.bind payable rt_output,
           pm_cached_input_price_per_million := Option.bind payable rt_cached_input,
           pm_model_ratio := opt_or (Option.bind payable rt_input) 0 / 2,
           pm_completion_ratio := opt_or (ratio_to_input payable rt_output) 0,
           pm_cache_ratio := ratio_to_input payable rt_cached_input,
           pm_create_cache_ratio := ratio_to_input payable rt_cache_write,
           pm_acu_currently_eligible := Some (payable \<noteq> None),
           pm_acu_quote := Some
             \<lparr>aq_status = (if status = QuoteReady \<and> price \<noteq> None \<and> payable = None then QuoteError else status),
              aq_protocol = protocol, aq_supply_strategy = Option.bind corridor co_supplyStrategy,
              aq_generated_at = map_option co_generatedAt corridor, aq_input_tokens = map_option co_inputTokens corridor,
              aq_output_tokens = map_option co_expectedOutputTokens corridor,
              aq_routes = map quote_route (case price of None \<Rightarrow> [] | Some p \<Rightarrow> rp_routes p)\<rparr>\<rparr>))"

definition applyPricingPreview ::
  "PricingModel list \<Rightarrow> ACUSelectionCorridor option \<Rightarrow> PricingProtocol \<Rightarrow> QuoteStatus \<Rightarrow> PricingModel list" where
  "applyPricingPreview models corridor protocol status = map (preview_model corridor protocol status) models"

subsection \<open>Costs, pricing-comparison.ts\<close>

definition contextPricingRates :: "'a context_rates_scheme option \<Rightarrow> rat \<Rightarrow> 'a context_rates_scheme option" where
  "contextPricingRates price inputTokens =
     (case price of None \<Rightarrow> None
      | Some p \<Rightarrow>
          (case rt_context_tiers p of None \<Rightarrow> price
           | Some tiers \<Rightarrow>
               (let selected = (if inputTokens > tt_thresholdTokens tiers then tt_longContext tiers else tt_standard tiers) in
                Some (p\<lparr>rt_input := tp_input selected, rt_output := tp_output selected,
                  rt_cached_input := tp_cachedInput selected, rt_cache_write := tp_cacheWrite selected\<rparr>))))"

definition relativePricingMultiplier ::
  "'a context_rates_scheme option \<Rightarrow> 'b context_rates_scheme option \<Rightarrow> rat \<Rightarrow> rat \<Rightarrow> rat option" where
  "relativePricingMultiplier payable reference inputTokens outputTokens =
     (case (contextPricingRates payable inputTokens, contextPricingRates reference inputTokens) of
        (Some current, Some official) \<Rightarrow>
          (case (rt_input current, rt_output current, rt_input official, rt_output official) of
             (Some ci, Some cout, Some oi, Some oout) \<Rightarrow>
               if \<not> list_all (\<lambda>n. 0 \<le> n) [inputTokens, outputTokens, ci, cout, oi, oout] then None
               else
                 (let base = inputTokens * oi + outputTokens * oout in
                  if base \<le> 0 then None else Some ((inputTokens * ci + outputTokens * cout) / base))
           | _ \<Rightarrow> None)
      | _ \<Rightarrow> None)"

definition estimatedPricingCost :: "rat option \<Rightarrow> rat option \<Rightarrow> rat \<Rightarrow> rat \<Rightarrow> rat option" where
  "estimatedPricingCost inputPrice outputPrice inputTokens outputTokens =
     (case (inputPrice, outputPrice) of
        (Some i, Some out) \<Rightarrow> Some ((inputTokens * i + outputTokens * out) / 1000000)
      | _ \<Rightarrow> None)"

definition defaultACUPricingProtocol :: "(PricingProtocol \<times> PricingPayable) list option \<Rightarrow> PricingProtocol option" where
  "defaultACUPricingProtocol payableByProtocol =
     find (\<lambda>p. map_of (opt_or payableByProtocol []) p \<noteq> None) [Responses, MessagesProtocol, ChatCompletions]"

definition payable_or_default :: "PricingModel \<Rightarrow> PricingProtocol option \<Rightarrow> PricingPayable option" where
  "payable_or_default model protocol =
     (case protocol of None \<Rightarrow> pm_payable model
      | Some p \<Rightarrow> (case payable_for model p of None \<Rightarrow> pm_payable model | Some x \<Rightarrow> Some x))"

definition selectedACUPricingPayable :: "PricingModel \<Rightarrow> PricingPayable option" where
  "selectedACUPricingPayable model = payable_or_default model (defaultACUPricingProtocol (pm_payable_by_protocol model))"

text \<open>The protocol \<open>all\<close> is \<open>None\<close>.\<close>

definition displayedPricingCost :: "PricingModel \<Rightarrow> PricingDisplayMode \<Rightarrow> rat \<Rightarrow> rat \<Rightarrow> PricingProtocol option \<Rightarrow> rat option" where
  "displayedPricingCost model mode inputTokens outputTokens protocol =
     (let selectedProtocol = (case protocol of None \<Rightarrow> defaultACUPricingProtocol (pm_payable_by_protocol model) | Some p \<Rightarrow> Some p);
          protocolPrice = contextPricingRates (payable_or_default model selectedProtocol) inputTokens in
      estimatedPricingCost (Option.bind protocolPrice rt_input) (Option.bind protocolPrice rt_output) inputTokens outputTokens)"

definition compareDisplayedCostsDescending :: "rat option \<Rightarrow> rat option \<Rightarrow> rat" where
  "compareDisplayedCostsDescending left right =
     (case right of None \<Rightarrow> (if left \<noteq> None then - 1 else 0)
      | Some r \<Rightarrow> (case left of None \<Rightarrow> 1 | Some l \<Rightarrow> r - l))"

definition pricingCostRange :: "rat option list \<Rightarrow> rat \<times> rat" where
  "pricingCostRange costs =
     (let finite_costs = js_sort (\<lambda>left right. left - right) (List.map_filter id costs) in
      (case finite_costs of [] \<Rightarrow> 0 | x # _ \<Rightarrow> x, if finite_costs = [] then 0 else last finite_costs))"

end
