(* ===== verification/CorridorProperties.thy ===== *)
theory CorridorProperties
  imports Corridor TimelineProperties
begin

text \<open>
  What the corridor and the prices show: the smoothed band stays ordered, in range and no wider than the data; the point shown
  at a difficulty is the first nearest one; costs are sorted from the dearest, unknown ones last; a previewed model shows a
  cost exactly if the corridor has a usable selected route for it, and then that of this route.
\<close>

subsection \<open>The smoothed band\<close>

interpretation difficulty_order: comparator "\<lambda>left right. sp_difficulty left - sp_difficulty right"
  by unfold_locales auto

lemma clampQuality_mono: "x \<le> y \<Longrightarrow> clampQuality x \<le> clampQuality y"
  by (auto simp: clampQuality_def)

lemma clampQuality_bounds [simp]: "0 \<le> clampQuality x" "clampQuality x \<le> 100"
  by (auto simp: clampQuality_def)

lemma display_value_band:
  assumes "v = display_value d c lw uw" "0 \<le> lw" "lw \<le> w" "0 \<le> uw" "uw \<le> w" "lo \<le> c" "c \<le> hi"
  shows "0 \<le> dv_qualityLower v \<and> dv_qualityLower v \<le> dv_selectedQuality v \<and> dv_selectedQuality v \<le> dv_qualityUpper v
    \<and> dv_qualityUpper v \<le> 100 \<and> clampQuality lo \<le> dv_selectedQuality v \<and> dv_selectedQuality v \<le> clampQuality hi
    \<and> dv_selectedQuality v - w \<le> dv_qualityLower v \<and> dv_qualityUpper v \<le> dv_selectedQuality v + w"
proof -
  have s: "0 \<le> clampQuality c" "clampQuality c \<le> 100" by simp_all
  have "dv_selectedQuality v = clampQuality c" "dv_qualityLower v = max 0 (clampQuality c - lw)"
    "dv_qualityUpper v = min 100 (clampQuality c + uw)"
    using assms(1,2,4) s by (auto simp: display_value_def Let_def clampQuality_def [of "clampQuality c - lw"]
        clampQuality_def [of "clampQuality c + uw"])
  then show ?thesis using assms(2-5) s clampQuality_mono [OF assms(6)] clampQuality_mono [OF assms(7)] by auto
qed

lemma smoothed_values:
  "buildSmoothedCorridorDisplayValues math_exp vs =
     (let s = js_sort (\<lambda>left right. sp_difficulty left - sp_difficulty right) vs in
      map (\<lambda>i. display_value (sp_difficulty (s ! i)) (gaussianSmooth math_exp (map sp_selectedQuality s) ! i)
         (gaussianSmooth math_exp (map (\<lambda>p. max 0 (sp_selectedQuality p - sp_qualityLower p)) s) ! i)
         (gaussianSmooth math_exp (map (\<lambda>p. max 0 (sp_qualityUpper p - sp_selectedQuality p)) s) ! i)) [0..<length vs])"
  by (auto simp: buildSmoothedCorridorDisplayValues_def Let_def length_js_sort enumerate_eq_zip intro!: nth_equalityI)

lemma gaussian_of_map:
  assumes "\<And>x. 0 < math_exp x" "\<And>p. p \<in> set s \<Longrightarrow> lo \<le> f p \<and> f p \<le> hi" "i < length s"
  shows "lo \<le> gaussianSmooth math_exp (map f s) ! i \<and> gaussianSmooth math_exp (map f s) ! i \<le> hi"
proof (rule gaussian_between [OF assms(1)])
  show "lo \<le> v \<and> v \<le> hi" if "v \<in> set (map f s)" for v using that assms(2) by auto
qed (use assms(3) in simp)

definition band_within :: "rat \<Rightarrow> rat \<Rightarrow> rat \<Rightarrow> ACUSelectionCorridorPoint \<Rightarrow> bool" where
  "band_within lo hi w p \<longleftrightarrow>
     lo \<le> sp_selectedQuality p \<and> sp_selectedQuality p \<le> hi \<and> sp_selectedQuality p - sp_qualityLower p \<le> w \<and>
     sp_qualityUpper p - sp_selectedQuality p \<le> w"

text \<open>
  C30: The smoothed corridor has one value per point, in the order of difficulty, whatever the data, also for qualities below 0 or
  above 100.  The centre drawn lies within 0 and 100, the band contains it and stays within 0 and 100.  If the qualities
  selected lie between \<open>lo\<close> and \<open>hi\<close>, the centre lies between these bounds, clamped to 0 and 100; and if no band of the data reaches
  further than \<open>w\<close> from its centre, for a \<open>w\<close> that is not negative, neither does the one drawn.  Of \<open>Math.exp\<close> only positivity is used.
\<close>

theorem corridor_band_bounds:
  assumes "\<And>x. 0 < math_exp x" "list_all (band_within lo hi w) vs" "0 \<le> w"
  shows "map dv_difficulty (buildSmoothedCorridorDisplayValues math_exp vs) = sort (map sp_difficulty vs)
    \<and> (\<forall>v \<in> set (buildSmoothedCorridorDisplayValues math_exp vs).
         0 \<le> dv_qualityLower v \<and> dv_qualityLower v \<le> dv_selectedQuality v \<and> dv_selectedQuality v \<le> dv_qualityUpper v
       \<and> dv_qualityUpper v \<le> 100 \<and> clampQuality lo \<le> dv_selectedQuality v \<and> dv_selectedQuality v \<le> clampQuality hi
       \<and> dv_selectedQuality v - w \<le> dv_qualityLower v \<and> dv_qualityUpper v \<le> dv_selectedQuality v + w)"
proof -
  define s where "s = js_sort (\<lambda>left right. sp_difficulty left - sp_difficulty right) vs"
  have len: "length s = length vs" by (simp add: s_def length_js_sort)
  have "sorted (map sp_difficulty s)"
    using difficulty_order.sorted_js_sort [of vs] by (simp add: s_def [symmetric] sorted_wrt_map)
  moreover have "mset (map sp_difficulty s) = mset (map sp_difficulty vs)" by (simp add: s_def mset_js_sort)
  ultimately have o: "map sp_difficulty s = sort (map sp_difficulty vs)" by (metis properties_for_sort)
  have "map dv_difficulty (buildSmoothedCorridorDisplayValues math_exp vs) = map (\<lambda>i. sp_difficulty (s ! i)) [0..<length s]"
    by (simp add: smoothed_values Let_def s_def [symmetric] len display_value_def o_def)
  also have "\<dots> = map sp_difficulty s" by (rule nth_equalityI) auto
  finally have d: "map dv_difficulty (buildSmoothedCorridorDisplayValues math_exp vs) = sort (map sp_difficulty vs)" using o by simp
  have b: "band_within lo hi w p" if "p \<in> set s" for p using that assms(2) by (auto simp: s_def set_js_sort list_all_iff)
  have "0 \<le> dv_qualityLower v \<and> dv_qualityLower v \<le> dv_selectedQuality v \<and> dv_selectedQuality v \<le> dv_qualityUpper v
       \<and> dv_qualityUpper v \<le> 100 \<and> clampQuality lo \<le> dv_selectedQuality v \<and> dv_selectedQuality v \<le> clampQuality hi
       \<and> dv_selectedQuality v - w \<le> dv_qualityLower v \<and> dv_qualityUpper v \<le> dv_selectedQuality v + w"
    if v: "v \<in> set (buildSmoothedCorridorDisplayValues math_exp vs)" for v
  proof -
    obtain i where i: "i < length s" "v = display_value (sp_difficulty (s ! i)) (gaussianSmooth math_exp (map sp_selectedQuality s) ! i)
         (gaussianSmooth math_exp (map (\<lambda>p. max 0 (sp_selectedQuality p - sp_qualityLower p)) s) ! i)
         (gaussianSmooth math_exp (map (\<lambda>p. max 0 (sp_qualityUpper p - sp_selectedQuality p)) s) ! i)"
      using v by (auto simp: smoothed_values Let_def s_def [symmetric] len)
    note g = gaussian_of_map [OF assms(1) _ i(1)]
    show ?thesis
      by (rule display_value_band [OF i(2), of w lo hi])
        (use b g [of lo sp_selectedQuality hi] g [of 0 "\<lambda>p. max 0 (sp_selectedQuality p - sp_qualityLower p)" w]
           g [of 0 "\<lambda>p. max 0 (sp_qualityUpper p - sp_selectedQuality p)" w] assms(3) in \<open>auto simp: band_within_def\<close>)
  qed
  then show ?thesis using d by blast
qed

subsection \<open>The point at a difficulty\<close>

definition first_nearest :: "rat \<Rightarrow> ACUSelectionCorridorPoint list \<Rightarrow> ACUSelectionCorridorPoint \<Rightarrow> bool" where
  "first_nearest d points p \<longleftrightarrow>
     (\<exists>before after. points = before @ p # after
       \<and> (\<forall>q \<in> set before. \<bar>sp_difficulty p - d\<bar> < \<bar>sp_difficulty q - d\<bar>)
       \<and> (\<forall>q \<in> set after. \<bar>sp_difficulty p - d\<bar> \<le> \<bar>sp_difficulty q - d\<bar>))"

lemma nearest_step_simps [simp]:
  "nearest_step d None x = Some x"
  "nearest_step d (Some n) x = Some (if \<bar>sp_difficulty x - d\<bar> < \<bar>sp_difficulty n - d\<bar> then x else n)"
  by (simp_all add: nearest_step_def)

lemma nearest_fold:
  "(foldl (nearest_step d) None points = None \<longleftrightarrow> points = [])
   \<and> (\<forall>p. foldl (nearest_step d) None points = Some p \<longrightarrow> first_nearest d points p)"
proof (induction points rule: rev_induct)
  case (snoc x points)
  show ?case
  proof (cases "foldl (nearest_step d) None points")
    case None
    moreover have "first_nearest d [x] x" unfolding first_nearest_def by (intro exI [of _ "[]"]) simp
    ultimately show ?thesis using snoc by auto
  next
    case (Some n)
    then obtain b a where n: "points = b @ n # a" "\<forall>q \<in> set b. \<bar>sp_difficulty n - d\<bar> < \<bar>sp_difficulty q - d\<bar>"
      "\<forall>q \<in> set a. \<bar>sp_difficulty n - d\<bar> \<le> \<bar>sp_difficulty q - d\<bar>" using snoc by (auto simp: first_nearest_def)
    show ?thesis
    proof (cases "\<bar>sp_difficulty x - d\<bar> < \<bar>sp_difficulty n - d\<bar>")
      case True
      then have "first_nearest d (points @ [x]) x" unfolding first_nearest_def
        by (intro exI [of _ points] exI [of _ "[]"]) (use n in force)
      then show ?thesis using Some True by simp
    next
      case False
      then have "first_nearest d (points @ [x]) n" unfolding first_nearest_def
        by (intro exI [of _ b] exI [of _ "a @ [x]"]) (use n in auto)
      then show ?thesis using Some False by simp
    qed
  qed
qed simp

text \<open>
  The point a corridor shows at a difficulty is the first of those nearest to it, for a preference and for the effective
  series; there is none only if the series is empty.
\<close>

theorem corridor_nearest_point:
  "case corridorPointAtDifficulty (Some c) preference d of
     None \<Rightarrow> co_series c preference = []
   | Some p \<Rightarrow> first_nearest d (co_series c preference) p"
  using nearest_fold [of d "co_series c preference"] by (auto simp: corridorPointAtDifficulty_def split: option.split)

lemma effective_nearest_point:
  "case corridorEffectivePointAtDifficulty (Some c) d of
     None \<Rightarrow> opt_or (co_effective c) [] = []
   | Some p \<Rightarrow> first_nearest d (opt_or (co_effective c) []) p"
  using nearest_fold [of d "opt_or (co_effective c) []"]
  by (auto simp: corridorEffectivePointAtDifficulty_def split: option.split)

subsection \<open>Costs\<close>

interpretation cost_order: comparator compareDisplayedCostsDescending
  by unfold_locales (auto simp: compareDisplayedCostsDescending_def split: option.splits if_splits)

text \<open>Sorted costs: the known ones fall, and the unknown ones follow them.\<close>

theorem displayed_costs_sorted:
  assumes "js_sort compareDisplayedCostsDescending costs = xs @ c # ys" "y \<in> set ys"
  shows "(c = None \<longrightarrow> y = None) \<and> (\<forall>a b. c = Some a \<longrightarrow> y = Some b \<longrightarrow> b \<le> a)"
proof -
  have "compareDisplayedCostsDescending c y \<le> 0"
    using cost_order.sorted_js_sort [of costs] assms by (auto simp: sorted_wrt_append)
  then show ?thesis by (auto simp: compareDisplayedCostsDescending_def split: option.splits if_splits)
qed

lemma sorted_last: "sorted xs \<Longrightarrow> x \<in> set xs \<Longrightarrow> x \<le> last xs"
  by (induction xs) auto

text \<open>The range of costs is spanned by two of the known ones and contains all of them.\<close>

theorem cost_range_tight:
  assumes "Some c \<in> set costs" "pricingCostRange costs = (lo, hi)"
  shows "lo \<le> c \<and> c \<le> hi \<and> Some lo \<in> set costs \<and> Some hi \<in> set costs"
proof -
  define f where "f = js_sort (\<lambda>left right :: rat. left - right) (List.map_filter id costs)"
  have m: "x \<in> set f \<longleftrightarrow> Some x \<in> set costs" for x by (auto simp: f_def set_js_sort List.map_filter_def image_iff)
  have s: "sorted f" using numeric_order.sorted_js_sort by (simp add: f_def)
  have c: "c \<in> set f" using m assms(1) by blast
  obtain x xs where f: "f = x # xs" using c by (cases f) auto
  then have "lo = x" "hi = last f" using assms(2) by (auto simp: pricingCostRange_def f_def [symmetric] Let_def)
  moreover have "x \<in> set f" "last f \<in> set f" using f by auto
  moreover have "x \<le> c" using s c f by auto
  ultimately show ?thesis using m sorted_last [OF s c] by blast
qed

text \<open>
  A multiplier is given only for a positive official cost, and the official cost times it is the payable cost; the multiplier
  of a price to itself is 1.
\<close>

theorem multiplier_exact:
  assumes "relativePricingMultiplier payable reference i o' = Some m"
  shows "\<exists>cur off cost base. contextPricingRates payable i = Some cur \<and> contextPricingRates reference i = Some off
    \<and> estimatedPricingCost (rt_input cur) (rt_output cur) i o' = Some cost
    \<and> estimatedPricingCost (rt_input off) (rt_output off) i o' = Some base \<and> 0 < base \<and> 0 \<le> cost \<and> cost = m * base"
proof -
  obtain cur off ci cout oi oout where r: "contextPricingRates payable i = Some cur" "contextPricingRates reference i = Some off"
      "rt_input cur = Some ci" "rt_output cur = Some cout" "rt_input off = Some oi" "rt_output off = Some oout"
    and n: "0 \<le> i" "0 \<le> o'" "0 \<le> ci" "0 \<le> cout" and b: "0 < i * oi + o' * oout"
    and m: "m = (i * ci + o' * cout) / (i * oi + o' * oout)"
    using assms by (auto simp: relativePricingMultiplier_def Let_def not_le split: option.splits if_splits)
  have "(i * ci + o' * cout) / 1000000 = m * ((i * oi + o' * oout) / 1000000)" using b by (simp add: m)
  then show ?thesis
    by (intro exI [of _ cur] exI [of _ off] exI [of _ "(i * ci + o' * cout) / 1000000"] exI [of _ "(i * oi + o' * oout) / 1000000"])
      (use r n b in \<open>simp add: estimatedPricingCost_def\<close>)
qed

lemma multiplier_self: "relativePricingMultiplier p p i o' = Some m \<Longrightarrow> m = 1"
  by (auto simp: relativePricingMultiplier_def Let_def split: option.splits if_splits)

subsection \<open>Previewed prices\<close>

lemma preview_payable_iff:
  "preview_payable price = Some p \<longleftrightarrow>
     (\<exists>pr route. price = Some pr
        \<and> find (\<lambda>r. ro_selected r \<and> ro_executionProfileId r = rp_executionProfileId pr) (rp_routes pr) = Some route
        \<and> p = ro_payable route \<and> usable_payable p)"
proof -
  have f: "find P (map quote_route rs) = map_option quote_route (find (P \<circ> quote_route) rs)" for P rs by (induction rs) auto
  show ?thesis
  proof (cases price)
    case (Some pr)
    then show ?thesis
      by (cases "find (\<lambda>r. ro_selected r \<and> ro_executionProfileId r = rp_executionProfileId pr) (rp_routes pr)")
        (auto simp: preview_payable_def Let_def f quote_route_def o_def)
  qed (simp add: preview_payable_def)
qed

lemma preview_default_protocol:
  "defaultACUPricingProtocol (Some (case x of None \<Rightarrow> [] | Some p \<Rightarrow> [(protocol, p)])) = map_option (\<lambda>_. protocol) x"
  by (cases x; cases protocol) (auto simp: defaultACUPricingProtocol_def opt_or_def)

lemma preview_fields:
  assumes "is_previewed model"
  shows "pm_model_name (preview_model corridor protocol status model) = pm_model_name model"
    "pm_payable (preview_model corridor protocol status model) = preview_payable (preview_price model corridor status)"
    "pm_acu_currently_eligible (preview_model corridor protocol status model) =
       Some (preview_payable (preview_price model corridor status) \<noteq> None)"
    "pm_payable_by_protocol (preview_model corridor protocol status model) =
       Some (case preview_payable (preview_price model corridor status) of None \<Rightarrow> [] | Some p \<Rightarrow> [(protocol, p)])"
  using assms by (simp_all add: preview_model_def Let_def)

lemma preview_shown:
  assumes "is_previewed model" "q = None \<or> q = Some protocol"
  shows "displayedPricingCost (preview_model corridor protocol status model) mode i o' q =
    (let rates = contextPricingRates (preview_payable (preview_price model corridor status)) i in
     estimatedPricingCost (Option.bind rates rt_input) (Option.bind rates rt_output) i o')"
  using assms(2) preview_default_protocol [of protocol "preview_payable (preview_price model corridor status)"]
  by (cases "preview_payable (preview_price model corridor status)")
    (auto simp: displayedPricingCost_def Let_def payable_or_default_def payable_for_def preview_fields [OF assms(1)])

lemma ready_price:
  "preview_price model (Some c) QuoteReady = Some pr \<longleftrightarrow> (\<exists>ps. co_pricing c = Some ps \<and> map_of ps (pm_model_name model) = Some pr)"
  by (cases "co_pricing c") (auto simp: preview_price_def)

text \<open>
  C19: A previewed model: it keeps its name and its place.  It is eligible exactly if the quote is ready and the corridor has, for
  its name, a first selected route of the chosen profile with prices that are not negative.  The cost shown for it, for the
  protocol of the preview or for all, is then the cost of that route at the rates of its context tier; otherwise there is none.
\<close>

theorem preview_prices_sound:
  assumes "k < length models" "is_previewed (models ! k)" "m = applyPricingPreview models corridor protocol status ! k"
    "q = None \<or> q = Some protocol"
  shows "pm_model_name m = pm_model_name (models ! k)
    \<and> (pm_acu_currently_eligible m = Some True \<longleftrightarrow>
        (\<exists>c ps pr route. status = QuoteReady \<and> corridor = Some c \<and> co_pricing c = Some ps
           \<and> map_of ps (pm_model_name m) = Some pr
           \<and> find (\<lambda>r. ro_selected r \<and> ro_executionProfileId r = rp_executionProfileId pr) (rp_routes pr) = Some route
           \<and> usable_payable (ro_payable route) \<and> pm_payable m = Some (ro_payable route)))
    \<and> displayedPricingCost m mode i o' q =
        (let rates = contextPricingRates (pm_payable m) i in
         estimatedPricingCost (Option.bind rates rt_input) (Option.bind rates rt_output) i o')
    \<and> (pm_acu_currently_eligible m = Some True \<longleftrightarrow> pm_payable m \<noteq> None)"
proof -
  define x where "x = preview_payable (preview_price (models ! k) corridor status)"
  have m: "m = preview_model corridor protocol status (models ! k)" using assms by (simp add: applyPricingPreview_def)
  have f: "pm_model_name m = pm_model_name (models ! k)" "pm_payable m = x" "pm_acu_currently_eligible m = Some (x \<noteq> None)"
    unfolding m x_def by (simp_all add: preview_fields [OF assms(2)])
  have p: "preview_price (models ! k) corridor status = Some pr \<longleftrightarrow>
    (\<exists>c ps. status = QuoteReady \<and> corridor = Some c \<and> co_pricing c = Some ps \<and> map_of ps (pm_model_name m) = Some pr)" for pr
    by (cases corridor; cases status) (auto simp: ready_price f(1), auto simp: preview_price_def)
  have "x \<noteq> None \<longleftrightarrow> (\<exists>pr route. preview_price (models ! k) corridor status = Some pr
      \<and> find (\<lambda>r. ro_selected r \<and> ro_executionProfileId r = rp_executionProfileId pr) (rp_routes pr) = Some route
      \<and> usable_payable (ro_payable route) \<and> x = Some (ro_payable route))"
    using preview_payable_iff [of "preview_price (models ! k) corridor status"] unfolding x_def by (metis not_None_eq)
  then show ?thesis
    using f p preview_shown [OF assms(2,4), of corridor status mode i o'] unfolding m [symmetric] x_def [symmetric] by auto
qed

subsection \<open>A concrete corridor\<close>

definition sample_points :: "ACUSelectionCorridorPoint list" where
  "sample_points =
    [\<lparr>sp_difficulty = 50, sp_selectedModelId = ''a'', sp_selectedQuality = - 10, sp_qualityLower = - 15, sp_qualityUpper = 0, sp_candidates = []\<rparr>,
     \<lparr>sp_difficulty = 20, sp_selectedModelId = ''b'', sp_selectedQuality = 110, sp_qualityLower = 105, sp_qualityUpper = 112, sp_candidates = [''a'']\<rparr>]"

theorem corridor_band_bounds_witness:
  "map dv_difficulty (buildSmoothedCorridorDisplayValues sample_exp sample_points) = [20, 50]
    \<and> list_all (\<lambda>v. 0 \<le> dv_qualityLower v \<and> dv_qualityLower v \<le> dv_selectedQuality v \<and> dv_selectedQuality v \<le> dv_qualityUpper v
        \<and> dv_qualityUpper v \<le> 100
        \<and> dv_selectedQuality v - 10 \<le> dv_qualityLower v \<and> dv_qualityUpper v \<le> dv_selectedQuality v + 10)
      (buildSmoothedCorridorDisplayValues sample_exp sample_points)"
proof -
  have p: "0 < sample_exp x" for x by (simp add: sample_exp_def add_pos_nonneg)
  have b: "list_all (band_within (- 10) 110 10) sample_points" by (simp add: sample_points_def band_within_def)
  have s: "sort (map sp_difficulty sample_points) = [20, 50]" by (simp add: sample_points_def)
  show ?thesis using corridor_band_bounds [of sample_exp, OF p b] by (simp add: s list_all_iff)
qed

definition sample_payable :: PricingPayable where
  "sample_payable = \<lparr>rt_input = Some 2, rt_output = Some 8, rt_cached_input = None, rt_cache_write = None, rt_context_tiers = None,
     pay_status = Verified, pay_policy_version = ''v1''\<rparr>"

definition sample_corridor :: ACUSelectionCorridor where
  "sample_corridor = \<lparr>co_pricing = Some [(''m'', \<lparr>rp_executionProfileId = ''e'', rp_routes =
        [\<lparr>ro_executionProfileId = ''e'', ro_lineCode = Some ''0042'', ro_publicNote = None, ro_selected = True, ro_firstTokenLatencyMs = None,
          ro_firstTokenLatencySource = None, ro_firstTokenSampleCount = None, ro_payable = sample_payable\<rparr>]\<rparr>)],
     co_defaultPreference = Balanced, co_supplyStrategy = None, co_generatedAt = ''now'', co_inputTokens = 1000,
     co_expectedOutputTokens = 1000, co_executionPresetSeries = [], co_series = (\<lambda>_. sample_points), co_effective = None\<rparr>"

definition sample_model :: PricingModel where
  "sample_model = \<lparr>pm_model_name = ''m'', pm_description = None, pm_tags = None, pm_supported_endpoint_types = None, pm_model_ratio = 0,
     pm_completion_ratio = 0, pm_cache_ratio = None, pm_create_cache_ratio = None, pm_input_price_per_million = None,
     pm_output_price_per_million = None, pm_cached_input_price_per_million = None, pm_payable = None, pm_payable_by_protocol = None,
     pm_acu_quote = None, pm_acu_active = None, pm_acu_status = None, pm_acu_currently_eligible = None,
     pm_price_currency = Some ''CNY'', pm_price_semantics = Some ''estimated_user_cash_cost'', pm_acu_curve = None\<rparr>"

theorem preview_prices_sound_witness:
  "is_previewed sample_model
    \<and> pm_acu_currently_eligible (applyPricingPreview [sample_model] (Some sample_corridor) Responses QuoteReady ! 0) = Some True
    \<and> displayedPricingCost (applyPricingPreview [sample_model] (Some sample_corridor) Responses QuoteReady ! 0) PayableOnly 1000 1000 None
      = Some (1 / 100)"
proof -
  have v: "is_previewed sample_model" by (simp add: is_previewed_def sample_model_def startsWith_def)
  have y: "pm_payable (applyPricingPreview [sample_model] (Some sample_corridor) Responses QuoteReady ! 0) = Some sample_payable"
    by (simp add: applyPricingPreview_def preview_fields [OF v] preview_payable_iff)
      (simp add: preview_price_def sample_corridor_def sample_model_def usable_payable_def sample_payable_def)
  show ?thesis
    using preview_prices_sound [of 0 "[sample_model]" _ "Some sample_corridor" Responses QuoteReady None PayableOnly 1000 1000, OF _ _ refl]
      v y by (simp add: contextPricingRates_def estimatedPricingCost_def sample_payable_def)
qed

end
