(* ===== verification/Spec2Isabelle.thy ===== *)
theory Spec2Isabelle
  imports StatusCodes Messages Json Streaming ChatHandler AuthSession AdvancedOffers Storage Playground HttpClient BillingRules FlowProperties DifficultyProperties ChannelRules TimelineProperties CorridorProperties
begin

text \<open>
  A verification of the web front end of the relay gateway, the TypeScript sources under \<open>src/web/src\<close>.

  \<^bold>\<open>The parts and how they interact.\<close>  The application signs a user in and keeps a short-lived access token
  fresh (\<open>stores/auth-store.ts\<close>, \<open>lib/auth-session.ts\<close>, \<open>lib/auth-session-sync.ts\<close>).  All calls to the server go through one
  client (\<open>lib/http-client.ts\<close>) that attaches the token, shares equal GET requests and retries after a refresh.  The
  playground (\<open>features/playground\<close>) holds a conversation: its page state loads and saves the messages in the browser's
  storage, its chat handler sends requests, its stream controller reads server-sent events and hands chunks back, and
  the message library turns chunks into messages.  The administration pages edit routing configurations, status code
  rules, billing expressions and channels, the dashboard draws how usage flows from users to channels, and the usage logs
  show the work of a session as a timeline.  The pricing page compares the models a request could be routed to.

  \<^bold>\<open>Theories.\<close>
  \<^item> \<open>Prelude\<close>: string and array operations of the language (trim, split, join, indexOf, sort, decimal numerals) and their
    lemmas; the collections the other theories simplify with.
  \<^item> \<open>Json\<close>, \<open>JsonPrint\<close>: the values of the language, \<open>JSON.parse\<close> and \<open>JSON.stringify\<close>; \<open>JSON_roundtrip\<close> says that
    printing and parsing are inverse on printable values.
  \<^item> \<open>Machines\<close>: step functions with outputs, runs, and the locale \<open>generation_guard\<close> for components that tag their
    outputs with a counter.
  \<^item> \<open>Tallies\<close>: maps in order of insertion that add up values per key, with the locale \<open>accumulator\<close>.
  \<^item> \<open>StatusCodes\<close>: \<open>lib/http-status-code-rules.ts\<close>.  The accepted ranges denote the listed codes, the result is
    canonical, and the normalized text is parsed to itself.
  \<^item> \<open>AdvancedCustom\<close>, \<open>AdvancedOffers\<close>: \<open>features/channels/lib/advanced-custom.ts\<close>.  The validating loop with its map of
    seen models accepts exactly the configurations of a declarative description; accepted ones route unambiguously;
    what the editor offers is valid.
  \<^item> \<open>Messages\<close>: \<open>features/playground/lib/message\<close>.  Think tags, streaming updates, edits and restoring.  Updates keep
    conversations well-formed, through the locale \<open>message_updater\<close>; the result of every edit is given exactly.
  \<^item> \<open>Streaming\<close>: \<open>features/playground/lib/streaming\<close> and \<open>hooks/use-stream-request.ts\<close>.  The closures of a request are
    events of the machine \<open>stream_step\<close>; its runs keep at most one open source and call back in order.
  \<^item> \<open>ChatHandler\<close>: \<open>hooks/use-chat-handler.ts\<close> composed with the controller.  An updater given to React is a value that
    may run at any later time, which is where superseded generations matter.  A request shown as running waits for something that
    no event has ended; a source that the peer closes with status 200 before \<open>[DONE]\<close> is the one way to wait in vain.
  \<^item> \<open>AuthSession\<close>: the store, the validation of responses, refreshing with race retries and the browser lock, and the
    events between tabs, as the machine \<open>auth_step\<close>; the server may answer anything.  Token, expiry and session are held together;
    the user goes with them unless \<open>setUser\<close> is called after a sign-out, which is an event of its own.
  \<^item> \<open>HttpClient\<close>: both interceptors as a machine over numbered requests that contains the state of \<open>AuthSession\<close>.
  \<^item> \<open>Storage\<close>: schemas as decoders, bounds, loading and saving over a map for \<open>localStorage\<close>; the locale \<open>stored_value\<close>
    is the contract of one stored setting, interpreted for the configuration and for the enabled parameters.
  \<^item> \<open>Playground\<close>: the page's hook as a machine over timers, updates and removal, the actions of a conversation, the
    options and the parameter controls.  An update is queued when it is called and run by a later event, as React does; a write
    that the browser refuses leaves the storage as it was.  Reopening the page shows the conversation that was shown, up to
    a refusal of that conversation and to updates that wait while it is loaded; requests contain exactly what an action means.
  \<^item> \<open>Billing\<close>, \<open>BillingRules\<close>: \<open>features/pricing/lib/billing-expr.ts\<close>, the registry of variables and the request rules.
    What the editor builds is read back exactly when no rule tests a parameter by comparison or containment; a combined
    expression is split again in the same cases, and otherwise not at all.
  \<^item> \<open>FlowGraph\<close>, \<open>FlowProperties\<close>: \<open>features/dashboard/lib/flow.ts\<close>.  Nodes, links and options are sums in a map,
    interpretations of \<open>accumulator\<close>; from it follow conservation of the flow, the sums of the columns and the limit of nodes.
  \<^item> \<open>Difficulty\<close>, \<open>DifficultyProperties\<close>: \<open>features/usage-logs/lib/explicit-difficulty.ts\<close>, the difficulty and quality shown for a
    request whose model the user chose.  The hash is kept at 32 bits; the curves are falling functions; sorting rests on the
    locale \<open>comparator\<close> of \<open>Prelude\<close>, interpreted for every comparison the file sorts with.
  \<^item> \<open>Timeline\<close>, \<open>TimelineProperties\<close>: \<open>features/usage-logs/components/acu-work-timeline-model.ts\<close>, the trend lines of
    \<open>acu-work-timeline-quality-model.ts\<close> and \<open>lib/curve-smoothing.ts\<close>.  Percentiles have their rank, zooming stays within
    the items, escaped text has no markup, and a trend line stays within what was observed.
  \<^item> \<open>Corridor\<close>, \<open>CorridorProperties\<close>: \<open>features/pricing/lib/selection-corridor.ts\<close> and \<open>pricing-comparison.ts\<close>.  The smoothed
    band, built on the curve smoothing of \<open>Timeline\<close>, keeps its order and width; a previewed model shows the cost of its
    selected route or none; payable and reference prices are extensions of one record of rates.
  \<^item> \<open>Channels\<close>, \<open>ChannelRules\<close>: the helpers in \<open>features/channels/lib\<close> for keys, model lists, model mappings, the guard of
    status code mappings, rows of tags and delayed field updates.  Rows partition the channels, the guard reports exactly
    the risky redirects, and the last value entered in a field is the last one delivered.

  \<^bold>\<open>How the code is represented.\<close>  An interface is a record whose fields carry a short prefix, a union of literals a
  datatype, a member that may be missing an option.  A closure over mutable variables is a function from the state to
  the new state and a list of outputs (callbacks, toasts, requests); whatever may happen in between, such as a response,
  a timer or a click, is a separate event, so that a run is any interleaving.  Exceptions and early returns are values.
  Text is a list of characters, or of code units where the code counts or compares them.  Numbers are exact rationals:
  rounding of binary64 is left out, except that the printing of a number looks at 400 decimal places, more than any
  number of the language has.  A map keeps the order of insertion.

  \<^bold>\<open>Parameters.\<close>  Code outside the sources is an argument: translations, \<open>localeCompare\<close>, \<open>Math.exp\<close>, the number formats and chart
  palettes, the identifiers and clocks handed out by the platform, whether the browser accepts a write, and what the
  server answers.  Properties hold for every such argument; hypotheses about one are written in the statement and
  their witness gives a concrete one.

  \<^bold>\<open>Termination and bounds.\<close>  Every definition is a total function.  Loops over text recurse on what is left of it, with a
  measure where that is not structural; the parser of \<open>JSON.parse\<close> consumes its input.  No property rests on fuel
  running out: a refresh settles after at most eight responses, a request is sent at most twice.

  \<^bold>\<open>Not modelled.\<close>  React components, routes and styles: what they draw has no specification beyond the code.  The table
  of time zones and the display parser of tiers in \<open>billing-expr.ts\<close>, which searches with a global pattern.  The styling
  of the charts in \<open>flow.ts\<close> and of the timeline, the HTML of its tooltips, and the
  specification of the bar chart in \<open>pricing-comparison.ts\<close>.  The display formats, icons and prompts in
  \<open>channel-utils.ts\<close>.  Reading of image files and canvas work in the playground.  The HTTP library, the event
  source and the channel between tabs, which are environments.  Generated files and translations.  The server in Go, whose
  answers the models leave open.
\<close>

end
